(* ===== verification/Prelude.thy ===== *)
theory Prelude
  imports Main "HOL-Library.Word" "HOL-Library.List_Lexorder" "HOL-Library.Product_Lexorder"
begin

text \<open>
  Shared vocabulary of the development: the machine types of the Go sources, the shape of a
  state machine operation (a function from the state to a result and the state it leaves behind),
  its loop combinators, the ordered key-value store that the typed state accessors sit on, and the
  lemmas on 64-bit words, operations and stores that the component theories use.
\<close>

section \<open>Machine types\<close>

type_synonym u64 = "64 word"
type_synonym u8 = "8 word"
type_synonym bytes = "u8 list"
type_synonym address = bytes

abbreviation MaxUint64 :: u64 where "MaxUint64 \<equiv> - 1"

named_theorems u64_simps
named_theorems op_simps
named_theorems frame_rules
named_theorems kv_simps

section \<open>64-bit words\<close>

lemma unat_u64_less: "unat (x :: u64) < 18446744073709551616"
  using unsigned_less [of x] by simp

lemma unat_add_u64:
  "unat (a :: u64) + unat b < 18446744073709551616 \<Longrightarrow> unat (a + b) = unat a + unat b"
  by (simp add: unat_word_ariths)

lemma unat_sub_u64: "(b :: u64) \<le> a \<Longrightarrow> unat (a - b) = unat a - unat b"
  by (rule unat_sub)

text \<open>The overflow guard \<open>x > math.MaxUint64 - y\<close> of the sources means what it should.\<close>

lemma overflow_guard [u64_simps]:
  "(MaxUint64 - y < (x :: u64)) = (18446744073709551616 \<le> unat x + unat y)"
proof -
  have "unat (MaxUint64 - y) = unat (MaxUint64 :: u64) - unat y"
    by (rule unat_sub) (simp add: word_order.extremum)
  moreover have "unat (MaxUint64 :: u64) = 18446744073709551615"
    by (simp add: unat_word_ariths unsigned_minus_1_eq_mask mask_eq_exp_minus_1)
  ultimately show ?thesis
    using unat_u64_less [of y] unat_u64_less [of x] by (auto simp: word_less_nat_alt)
qed

lemma unat_Max_u64: "unat MaxUint64 = 18446744073709551615"
  by (simp add: unsigned_minus_1_eq_mask mask_eq_exp_minus_1)

lemma unat_succ_u64: "x \<noteq> MaxUint64 \<Longrightarrow> unat (x + 1) = unat x + 1"
  using unat_u64_less [of x] unat_Max_u64 by (subst unat_add_u64) (auto simp: word_unat_eq_iff)

lemma unat_of_nat_u64: "n < 18446744073709551616 \<Longrightarrow> unat (of_nat n :: u64) = n"
  by (simp add: unat_of_nat)

section \<open>Operations\<close>

text \<open>
  A Go method \<open>func (s *StateMachine) F(args) (r, lib.ErrorI)\<close> is a function of the
  arguments into \<open>op\<close>: it returns the error or the value, and the state it leaves behind.
  The state is returned on the error path as well, because the method may already have written.
\<close>

type_synonym ('s, 'e, 'a) op = "'s \<Rightarrow> 's \<times> ('e + 'a)"

definition ok :: "'a \<Rightarrow> ('s, 'e, 'a) op" where
  "ok a = (\<lambda>s. (s, Inr a))"

definition fail :: "'e \<Rightarrow> ('s, 'e, 'a) op" where
  "fail e = (\<lambda>s. (s, Inl e))"

text \<open>\<open>if err != nil { return err }\<close> after a call: the continuation runs on success only.\<close>

definition bindE :: "('s, 'e, 'a) op \<Rightarrow> ('a \<Rightarrow> ('s, 'e, 'b) op) \<Rightarrow> ('s, 'e, 'b) op" where
  "bindE m f = (\<lambda>s. case m s of (t, Inl e) \<Rightarrow> (t, Inl e) | (t, Inr a) \<Rightarrow> f a t)"

definition reads :: "('s \<Rightarrow> 'a) \<Rightarrow> ('s, 'e, 'a) op" where
  "reads g = (\<lambda>s. (s, Inr (g s)))"

text \<open>A read that may fail.\<close>

definition gets :: "('s \<Rightarrow> 'e + 'a) \<Rightarrow> ('s, 'e, 'a) op" where
  "gets g = (\<lambda>s. (s, g s))"

definition writes :: "('s \<Rightarrow> 's) \<Rightarrow> ('s, 'e, unit) op" where
  "writes f = (\<lambda>s. (f s, Inr ()))"

text \<open>A call whose error the caller looks at, logs or drops.\<close>

definition attempt :: "('s, 'e, 'a) op \<Rightarrow> ('s, 'd, 'e + 'a) op" where
  "attempt m = (\<lambda>s. (fst (m s), Inr (snd (m s))))"

text \<open>\<open>for _, x := range xs\<close> with a body that may return an error.\<close>

fun for_op :: "('x \<Rightarrow> ('s, 'e, unit) op) \<Rightarrow> 'x list \<Rightarrow> ('s, 'e, unit) op" where
  "for_op f [] = ok ()"
| "for_op f (x # xs) = bindE (f x) (\<lambda>_. for_op f xs)"

text \<open>The same with a local variable threaded through the iterations.\<close>

fun fold_op :: "('x \<Rightarrow> 'a \<Rightarrow> ('s, 'e, 'a) op) \<Rightarrow> 'x list \<Rightarrow> 'a \<Rightarrow> ('s, 'e, 'a) op" where
  "fold_op f [] a = ok a"
| "fold_op f (x # xs) a = bindE (f x a) (\<lambda>b. fold_op f xs b)"

lemma ok_apply [op_simps]: "ok a s = (s, Inr a)"
  by (simp add: ok_def)

lemma fail_apply [op_simps]: "fail e s = (s, Inl e)"
  by (simp add: fail_def)

lemma fail_not_ok [simp]: "fail e s = (t, Inr a) \<longleftrightarrow> False"
  by (simp add: fail_def)

lemma ok_returns [simp]: "ok a s = (t, Inr b) \<longleftrightarrow> t = s \<and> b = a"
  by (auto simp: ok_def)

lemma reads_apply [op_simps]: "reads g s = (s, Inr (g s))"
  by (simp add: reads_def)

lemma gets_apply [op_simps]: "gets g s = (s, g s)"
  by (simp add: gets_def)

lemma bindE_gets [op_simps]:
  "bindE (gets g) f s = (case g s of Inl e \<Rightarrow> (s, Inl e) | Inr a \<Rightarrow> f a s)"
  by (simp add: bindE_def gets_def)

lemma writes_apply [op_simps]: "writes f s = (f s, Inr ())"
  by (simp add: writes_def)

lemma attempt_apply [op_simps]: "attempt m s = (fst (m s), Inr (snd (m s)))"
  by (simp add: attempt_def)

lemma bindE_apply [op_simps]:
  "bindE m f s = (case m s of (t, Inl e) \<Rightarrow> (t, Inl e) | (t, Inr a) \<Rightarrow> f a t)"
  by (simp add: bindE_def)

lemma bindE_ok [simp]: "bindE (ok a) f = f a"
  by (simp add: bindE_def ok_def)

lemma bindE_fail [simp]: "bindE (fail e) f = fail e"
  by (simp add: bindE_def fail_def)

lemma bindE_reads [op_simps]: "bindE (reads g) f s = f (g s) s"
  by (simp add: bindE_def reads_def)

lemma bindE_writes [op_simps]: "bindE (writes g) f s = f () (g s)"
  by (simp add: bindE_def writes_def)

lemma bindE_attempt [op_simps]: "bindE (attempt m) f s = f (snd (m s)) (fst (m s))"
  by (simp add: bindE_def attempt_def)

lemma bindE_of_ok: "m s = (t, Inr a) \<Longrightarrow> bindE m f s = f a t"
  by (simp add: bindE_def)

lemma bindE_of_err: "m s = (t, Inl e) \<Longrightarrow> bindE m f s = (t, Inl e)"
  by (simp add: bindE_def)

lemma bindE_Inr_iff:
  "bindE m f s = (t, Inr b) \<longleftrightarrow> (\<exists>a u. m s = (u, Inr a) \<and> f a u = (t, Inr b))"
  by (auto simp: bindE_def split: prod.splits sum.splits)

lemma bindE_Inl_iff:
  "bindE m f s = (t, Inl e) \<longleftrightarrow>
     m s = (t, Inl e) \<or> (\<exists>a u. m s = (u, Inr a) \<and> f a u = (t, Inl e))"
  by (auto simp: bindE_def split: prod.splits sum.splits)

lemma bindE_assoc: "bindE (bindE m f) g = bindE m (\<lambda>a. bindE (f a) g)"
  by (rule ext) (simp add: bindE_def split: prod.splits sum.splits)

lemma bindE_okE:
  assumes "bindE m f s = (t, Inr b)"
  obtains a u where "m s = (u, Inr a)" "f a u = (t, Inr b)"
  using assms by (auto simp: bindE_Inr_iff)

subsection \<open>Loop rules\<close>

lemma for_op_append: "for_op f (xs @ ys) = bindE (for_op f xs) (\<lambda>_. for_op f ys)"
  by (induction xs) (simp_all add: bindE_assoc)

text \<open>An invariant that may mention the elements still to come.\<close>

lemma for_op_rule:
  assumes "J xs s" and "for_op f xs s = (t, Inr ())"
    and "\<And>x xs s t. J (x # xs) s \<Longrightarrow> f x s = (t, Inr ()) \<Longrightarrow> J xs t"
  shows "J [] t"
  using assms(1,2)
proof (induction xs arbitrary: s)
  case Nil
  then show ?case by (simp add: op_simps)
next
  case (Cons x xs)
  then obtain u where "f x s = (u, Inr ())" "for_op f xs u = (t, Inr ())"
    by (auto elim: bindE_okE)
  with Cons.prems(1) show ?case by (blast intro: Cons.IH assms(3))
qed

lemma for_op_inv:
  assumes "for_op f xs s = (t, Inr ())" and "I s"
    and "\<And>x s t. x \<in> set xs \<Longrightarrow> I s \<Longrightarrow> f x s = (t, Inr ()) \<Longrightarrow> I t"
  shows "I t"
  using assms
proof (induction xs arbitrary: s)
  case Nil
  then show ?case by (simp add: op_simps)
next
  case (Cons x xs)
  then obtain u where u: "f x s = (u, Inr ())" "for_op f xs u = (t, Inr ())"
    by (auto elim: bindE_okE)
  with Cons.prems(2) have "I u" by (auto intro: Cons.prems(3))
  with u(2) show ?case by (rule Cons.IH) (use Cons.prems(3) in auto)
qed

lemma for_op_same:
  assumes "for_op f xs s = (t, Inr ())"
    and "\<And>x s t. x \<in> set xs \<Longrightarrow> f x s = (t, Inr ()) \<Longrightarrow> g t = g s"
  shows "g t = g s"
  by (rule for_op_inv [OF assms(1), of "\<lambda>u. g u = g s"]) (auto dest: assms(2))

lemma fold_op_inv:
  assumes "fold_op f xs a s = (t, Inr b)" and "I a s"
    and "\<And>x a s b t. x \<in> set xs \<Longrightarrow> I a s \<Longrightarrow> f x a s = (t, Inr b) \<Longrightarrow> I b t"
  shows "I b t"
  using assms
proof (induction xs arbitrary: a s)
  case Nil
  then show ?case by (simp add: op_simps)
next
  case (Cons x xs)
  then obtain c u where u: "f x a s = (u, Inr c)" "fold_op f xs c u = (t, Inr b)"
    by (auto elim: bindE_okE)
  have "I c u" using Cons.prems(2) u(1) by (auto intro: Cons.prems(3) [of x])
  with u(2) show ?case by (rule Cons.IH) (blast intro: Cons.prems(3) list.set_intros)
qed

subsection \<open>Frames\<close>

text \<open>
  \<open>frame g m\<close>: the operation leaves the part \<open>g\<close> of the state as it was, on the error path
  as well. The rules follow the structure of an operation, so a frame fact is one
  \<open>intro frame_rules\<close>.
\<close>

definition frame :: "('s \<Rightarrow> 'x) \<Rightarrow> ('s, 'e, 'a) op \<Rightarrow> bool" where
  "frame g m \<longleftrightarrow> (\<forall>s. g (fst (m s)) = g s)"

lemma frameD: "frame g m \<Longrightarrow> m s = (t, r) \<Longrightarrow> g t = g s"
  by (metis frame_def fst_conv)

lemma frameI: "(\<And>s r t. m s = (t, r) \<Longrightarrow> g t = g s) \<Longrightarrow> frame g m"
  by (metis frame_def prod.collapse)

lemma frame_ok [frame_rules]: "frame g (ok a)"
  by (simp add: frame_def ok_def)

lemma frame_fail [frame_rules]: "frame g (fail e)"
  by (simp add: frame_def fail_def)

lemma frame_reads [frame_rules]: "frame g (reads h)"
  by (simp add: frame_def reads_def)

lemma frame_gets [frame_rules]: "frame g (gets h)"
  by (simp add: frame_def gets_def)

lemma frame_writes [frame_rules]: "(\<And>s. g (f s) = g s) \<Longrightarrow> frame g (writes f)"
  by (simp add: frame_def writes_def)

lemma frame_attempt [frame_rules]: "frame g m \<Longrightarrow> frame g (attempt m)"
  by (simp add: frame_def attempt_def)

lemma frame_bindE [frame_rules]:
  "frame g m \<Longrightarrow> (\<And>a. frame g (f a)) \<Longrightarrow> frame g (bindE m f)"
  by (rule frameI) (force simp: bindE_apply dest: frameD split: prod.splits sum.splits)

lemma frame_if [frame_rules]:
  "(b \<Longrightarrow> frame g m) \<Longrightarrow> (\<not> b \<Longrightarrow> frame g n) \<Longrightarrow> frame g (if b then m else n)"
  by simp

lemma frame_let [frame_rules]: "(\<And>x. frame g (f x)) \<Longrightarrow> frame g (let x = y in f x)"
  by simp

lemma frame_case_option [frame_rules]:
  "frame g m \<Longrightarrow> (\<And>x. frame g (n x)) \<Longrightarrow> frame g (case y of None \<Rightarrow> m | Some x \<Rightarrow> n x)"
  by (simp split: option.split)

lemma frame_case_sum [frame_rules]:
  "(\<And>x. frame g (m x)) \<Longrightarrow> (\<And>x. frame g (n x)) \<Longrightarrow>
     frame g (case y of Inl x \<Rightarrow> m x | Inr x \<Rightarrow> n x)"
  by (simp split: sum.split)

lemma frame_case_prod [frame_rules]:
  "(\<And>x z. frame g (m x z)) \<Longrightarrow> frame g (case y of (x, z) \<Rightarrow> m x z)"
  by (simp split: prod.split)

lemma frame_for_op [frame_rules]: "(\<And>x. frame g (f x)) \<Longrightarrow> frame g (for_op f xs)"
  by (induction xs) (simp_all add: frame_ok frame_bindE)

lemma frame_fold_op [frame_rules]: "(\<And>x a. frame g (f x a)) \<Longrightarrow> frame g (fold_op f xs a)"
  by (induction xs arbitrary: a) (simp_all add: frame_ok frame_bindE)

end
