(* ===== verification/Uphold.thy ===== *)
theory Uphold
  imports Prelude
begin

text \<open>
  A small calculus for invariants: \<open>upholds I m Q\<close> says that the operation keeps the state
  predicate \<open>I\<close> whenever it succeeds, and that its result satisfies \<open>Q\<close>.  The rules follow the
  structure of an operation, as the frame rules do, so a component proves one rule per operation
  and a block is the composition of the rules.
\<close>

named_theorems uphold_rules

definition upholds :: "('s \<Rightarrow> bool) \<Rightarrow> ('s, 'e, 'a) op \<Rightarrow> ('a \<Rightarrow> bool) \<Rightarrow> bool" where
  "upholds I m Q \<longleftrightarrow> (\<forall>s t a. I s \<longrightarrow> m s = (t, Inr a) \<longrightarrow> I t \<and> Q a)"

abbreviation preserves :: "('s \<Rightarrow> bool) \<Rightarrow> ('s, 'e, 'a) op \<Rightarrow> bool" where
  "preserves I m \<equiv> upholds I m (\<lambda>_. True)"

lemma upholdsI: "(\<And>s t a. I s \<Longrightarrow> m s = (t, Inr a) \<Longrightarrow> I t \<and> Q a) \<Longrightarrow> upholds I m Q"
  by (simp add: upholds_def)

lemma upholdsD: "upholds I m Q \<Longrightarrow> I s \<Longrightarrow> m s = (t, Inr a) \<Longrightarrow> I t \<and> Q a"
  by (simp add: upholds_def)

lemma upholds_weaken: "upholds I m Q \<Longrightarrow> (\<And>a. Q a \<Longrightarrow> R a) \<Longrightarrow> upholds I m R"
  by (auto simp: upholds_def)

lemma preserves_of: "upholds I m Q \<Longrightarrow> preserves I m"
  by (rule upholds_weaken) simp_all

lemma upholds_bindE [uphold_rules]:
  "upholds I m Q \<Longrightarrow> (\<And>a. Q a \<Longrightarrow> upholds I (f a) R) \<Longrightarrow> upholds I (bindE m f) R"
  by (rule upholdsI) (auto elim!: bindE_okE dest!: upholdsD)

lemma upholds_ok: "Q a \<Longrightarrow> upholds I (ok a) Q"
  by (rule upholdsI) simp

lemma preserves_ok [uphold_rules]: "preserves I (ok a)"
  by (simp add: upholds_ok)

lemma upholds_fail [uphold_rules]: "upholds I (fail e) Q"
  by (rule upholdsI) simp

lemma upholds_reads: "(\<And>s. I s \<Longrightarrow> Q (g s)) \<Longrightarrow> upholds I (reads g) Q"
  by (rule upholdsI) (auto simp: op_simps)

lemma preserves_reads [uphold_rules]: "preserves I (reads g)"
  by (simp add: upholds_reads)

lemma upholds_gets: "(\<And>s a. I s \<Longrightarrow> g s = Inr a \<Longrightarrow> Q a) \<Longrightarrow> upholds I (gets g) Q"
  by (rule upholdsI) (auto simp: op_simps)

lemma preserves_gets [uphold_rules]: "preserves I (gets g)"
  by (simp add: upholds_gets)

lemma preserves_writes [uphold_rules]: "(\<And>s. I s \<Longrightarrow> I (f s)) \<Longrightarrow> preserves I (writes f)"
  by (rule upholdsI) (auto simp: op_simps)

lemma upholds_if [uphold_rules]:
  "(b \<Longrightarrow> upholds I m Q) \<Longrightarrow> (\<not> b \<Longrightarrow> upholds I n Q) \<Longrightarrow> upholds I (if b then m else n) Q"
  by simp

lemma upholds_let [uphold_rules]: "(\<And>x. x = y \<Longrightarrow> upholds I (f x) Q) \<Longrightarrow> upholds I (let x = y in f x) Q"
  by simp

lemma upholds_case_option [uphold_rules]:
  "(y = None \<Longrightarrow> upholds I m Q) \<Longrightarrow> (\<And>x. y = Some x \<Longrightarrow> upholds I (n x) Q) \<Longrightarrow>
     upholds I (case y of None \<Rightarrow> m | Some x \<Rightarrow> n x) Q"
  by (simp split: option.split)

lemma upholds_case_sum [uphold_rules]:
  "(\<And>x. y = Inl x \<Longrightarrow> upholds I (m x) Q) \<Longrightarrow> (\<And>x. y = Inr x \<Longrightarrow> upholds I (n x) Q) \<Longrightarrow>
     upholds I (case y of Inl x \<Rightarrow> m x | Inr x \<Rightarrow> n x) Q"
  by (simp split: sum.split)

lemma upholds_case_prod [uphold_rules]:
  "(\<And>x z. y = (x, z) \<Longrightarrow> upholds I (m x z) Q) \<Longrightarrow> upholds I (case y of (x, z) \<Rightarrow> m x z) Q"
  by (simp split: prod.split)

lemma preserves_for [uphold_rules]:
  "(\<And>x. x \<in> set xs \<Longrightarrow> preserves I (f x)) \<Longrightarrow> preserves I (for_op f xs)"
  by (rule upholdsI) (auto elim!: for_op_inv dest: upholdsD)

lemma upholds_fold:
  assumes "\<And>x a. x \<in> set xs \<Longrightarrow> Q a \<Longrightarrow> upholds I (f x a) Q" and "Q a"
  shows "upholds I (fold_op f xs a) Q"
proof (rule upholdsI)
  fix s t b assume "I s" and run: "fold_op f xs a s = (t, Inr b)"
  then show "I t \<and> Q b"
    by (intro fold_op_inv [OF run, of "\<lambda>c u. I u \<and> Q c"]) (auto dest: assms(1) upholdsD intro: assms(2))
qed

lemma preserves_fold [uphold_rules]:
  "(\<And>x a. x \<in> set xs \<Longrightarrow> preserves I (f x a)) \<Longrightarrow> preserves I (fold_op f xs a)"
  by (rule upholds_fold) simp_all

text \<open>An operation that leaves the part alone that the invariant reads.\<close>

lemma preserves_frame:
  "frame g m \<Longrightarrow> (\<And>s t. g t = g s \<Longrightarrow> I s \<Longrightarrow> I t) \<Longrightarrow> preserves I m"
  by (rule upholdsI) (auto dest: frameD)

text \<open>A fold whose invariant may mention the elements still to come.\<close>

lemma fold_op_rule:
  assumes "J xs a s" and "fold_op f xs a s = (t, Inr b)"
    and "\<And>x xs a s b t. J (x # xs) a s \<Longrightarrow> f x a s = (t, Inr b) \<Longrightarrow> J xs b t"
  shows "J [] b t"
  using assms(1,2)
proof (induction xs arbitrary: a s)
  case Nil
  then show ?case by (simp add: op_simps)
next
  case (Cons x xs)
  then obtain c u where "f x a s = (u, Inr c)" "fold_op f xs c u = (t, Inr b)"
    by (auto elim: bindE_okE)
  with Cons.prems(1) show ?case by (blast intro: Cons.IH assms(3))
qed

end
