(* ===== verification/Errors.thy ===== *)
theory Errors
  imports Prelude
begin

text \<open>
  The errors of the state machine.  \<open>lib.NewError(code, module, msg)\<close> of lib/error.go builds the
  value; two errors are told apart by their module and code, so the message text is left out.  The
  abbreviations carry the names of the constructor functions of fsm/error.go and lib/error.go
  (\<open>ErrInvalidVesting\<close> and \<open>ErrInvalidTxMessage\<close> really share their code there).  \<open>Panic\<close> is a
  run-time panic under way: nothing but \<open>ApplyBlock\<close> recovers it.
\<close>

datatype error_module = MainModule | ConsensusModule | StateMachineModule | P2PModule
  | StorageModule | RPCModule

datatype err = NewError (Code: nat) (Module: error_module) | Panic
  where "Code Panic = 0" | "Module Panic = MainModule"

section \<open>The constructors\<close>

abbreviation ErrReadGenesisFile :: err where "ErrReadGenesisFile \<equiv> NewError 1 StateMachineModule"
abbreviation ErrUnmarshalGenesis :: err where "ErrUnmarshalGenesis \<equiv> NewError 55 StateMachineModule"
abbreviation ErrUnauthorizedTx :: err where "ErrUnauthorizedTx \<equiv> NewError 3 StateMachineModule"
abbreviation ErrInvalidTxMessage :: err where "ErrInvalidTxMessage \<equiv> NewError 6 StateMachineModule"
abbreviation ErrInvalidVesting :: err where "ErrInvalidVesting \<equiv> NewError 6 StateMachineModule"
abbreviation ErrIncompatibleVesting :: err where "ErrIncompatibleVesting \<equiv> NewError 6 StateMachineModule"
abbreviation ErrTxFeeBelowStateLimit :: err where "ErrTxFeeBelowStateLimit \<equiv> NewError 2 StateMachineModule"
abbreviation ErrRejectProposal :: err where "ErrRejectProposal \<equiv> NewError 10 StateMachineModule"
abbreviation ErrAddressEmpty :: err where "ErrAddressEmpty \<equiv> NewError 13 StateMachineModule"
abbreviation ErrRecipientAddressEmpty :: err where "ErrRecipientAddressEmpty \<equiv> NewError 15 StateMachineModule"
abbreviation ErrOutputAddressEmpty :: err where "ErrOutputAddressEmpty \<equiv> NewError 17 StateMachineModule"
abbreviation ErrOutputAddressSize :: err where "ErrOutputAddressSize \<equiv> NewError 18 StateMachineModule"
abbreviation ErrAddressSize :: err where "ErrAddressSize \<equiv> NewError 14 StateMachineModule"
abbreviation ErrInvalidNetAddressLen :: err where "ErrInvalidNetAddressLen \<equiv> NewError 11 StateMachineModule"
abbreviation ErrRecipientAddressSize :: err where "ErrRecipientAddressSize \<equiv> NewError 16 StateMachineModule"
abbreviation ErrInvalidAmount :: err where "ErrInvalidAmount \<equiv> NewError 19 StateMachineModule"
abbreviation ErrPublicKeyEmpty :: err where "ErrPublicKeyEmpty \<equiv> NewError 20 StateMachineModule"
abbreviation ErrPublicKeySize :: err where "ErrPublicKeySize \<equiv> NewError 21 StateMachineModule"
abbreviation ErrParamKeyEmpty :: err where "ErrParamKeyEmpty \<equiv> NewError 22 StateMachineModule"
abbreviation ErrParamValueEmpty :: err where "ErrParamValueEmpty \<equiv> NewError 23 StateMachineModule"
abbreviation ErrInvalidProposalHash :: err where "ErrInvalidProposalHash \<equiv> NewError 41 StateMachineModule"
abbreviation ErrUnknownMessage :: err where "ErrUnknownMessage \<equiv> NewError 27 StateMachineModule"
abbreviation ErrInsufficientFunds :: err where "ErrInsufficientFunds \<equiv> NewError 28 StateMachineModule"
abbreviation ErrInsufficientSupply :: err where "ErrInsufficientSupply \<equiv> NewError 56 StateMachineModule"
abbreviation ErrValidatorExists :: err where "ErrValidatorExists \<equiv> NewError 29 StateMachineModule"
abbreviation ErrValidatorNotExists :: err where "ErrValidatorNotExists \<equiv> NewError 30 StateMachineModule"
abbreviation ErrValidatorUnstaking :: err where "ErrValidatorUnstaking \<equiv> NewError 31 StateMachineModule"
abbreviation ErrValidatorPaused :: err where "ErrValidatorPaused \<equiv> NewError 32 StateMachineModule"
abbreviation ErrValidatorNotPaused :: err where "ErrValidatorNotPaused \<equiv> NewError 33 StateMachineModule"
abbreviation ErrEmptyConsParams :: err where "ErrEmptyConsParams \<equiv> NewError 34 StateMachineModule"
abbreviation ErrEmptyValParams :: err where "ErrEmptyValParams \<equiv> NewError 35 StateMachineModule"
abbreviation ErrEmptyFeeParams :: err where "ErrEmptyFeeParams \<equiv> NewError 36 StateMachineModule"
abbreviation ErrEmptyGovParams :: err where "ErrEmptyGovParams \<equiv> NewError 37 StateMachineModule"
abbreviation ErrUnknownParam :: err where "ErrUnknownParam \<equiv> NewError 38 StateMachineModule"
abbreviation ErrUnknownParamSpace :: err where "ErrUnknownParamSpace \<equiv> NewError 40 StateMachineModule"
abbreviation ErrUnknownParamType :: err where "ErrUnknownParamType \<equiv> NewError 39 StateMachineModule"
abbreviation ErrInvalidSignature :: err where "ErrInvalidSignature \<equiv> NewError 12 StateMachineModule"
abbreviation ErrEmptySignature :: err where "ErrEmptySignature \<equiv> NewError 4 StateMachineModule"
abbreviation ErrTxSignBytes :: err where "ErrTxSignBytes \<equiv> NewError 5 StateMachineModule"
abbreviation ErrInvalidProtocolVersion :: err where "ErrInvalidProtocolVersion \<equiv> NewError 52 StateMachineModule"
abbreviation ErrInvalidKey :: err where "ErrInvalidKey \<equiv> NewError 53 StateMachineModule"
abbreviation ErrInvalidParam :: err where "ErrInvalidParam \<equiv> NewError 50 StateMachineModule"
abbreviation ErrWrongStoreType :: err where "ErrWrongStoreType \<equiv> NewError 54 StateMachineModule"
abbreviation ErrMaxBlockSize :: err where "ErrMaxBlockSize \<equiv> NewError 8 StateMachineModule"
abbreviation ErrInvalidBlockRange :: err where "ErrInvalidBlockRange \<equiv> NewError 60 StateMachineModule"
abbreviation ErrInvalidPublicKey :: err where "ErrInvalidPublicKey \<equiv> NewError 61 StateMachineModule"
abbreviation ErrInvalidNumCommittees :: err where "ErrInvalidNumCommittees \<equiv> NewError 64 StateMachineModule"
abbreviation ErrValidatorIsADelegate :: err where "ErrValidatorIsADelegate \<equiv> NewError 66 StateMachineModule"
abbreviation ErrInvalidChainId :: err where "ErrInvalidChainId \<equiv> NewError 68 StateMachineModule"
abbreviation ErrInvalidNumOfSamples :: err where "ErrInvalidNumOfSamples \<equiv> NewError 45 StateMachineModule"
abbreviation ErrInvalidCertificateResults :: err where "ErrInvalidCertificateResults \<equiv> NewError 46 StateMachineModule"
abbreviation ErrEmptyCertificateResults :: err where "ErrEmptyCertificateResults \<equiv> NewError 89 StateMachineModule"
abbreviation ErrMismatchCertResults :: err where "ErrMismatchCertResults \<equiv> NewError 87 StateMachineModule"
abbreviation ErrInvalidSubisdy :: err where "ErrInvalidSubisdy \<equiv> NewError 24 StateMachineModule"
abbreviation ErrInvalidOpcode :: err where "ErrInvalidOpcode \<equiv> NewError 25 StateMachineModule"
abbreviation ErrNonSubsidizedCommittee :: err where "ErrNonSubsidizedCommittee \<equiv> NewError 44 StateMachineModule"
abbreviation ErrMinimumOrderSize :: err where "ErrMinimumOrderSize \<equiv> NewError 76 StateMachineModule"
abbreviation ErrInvalidLockOrder :: err where "ErrInvalidLockOrder \<equiv> NewError 78 StateMachineModule"
abbreviation ErrInvalidCloseOrder :: err where "ErrInvalidCloseOrder \<equiv> NewError 81 StateMachineModule"
abbreviation ErrDuplicateLockOrder :: err where "ErrDuplicateLockOrder \<equiv> NewError 79 StateMachineModule"
abbreviation ErrInvalidBuyerDeadline :: err where "ErrInvalidBuyerDeadline \<equiv> NewError 80 StateMachineModule"
abbreviation ErrInvalidCheckpoint :: err where "ErrInvalidCheckpoint \<equiv> NewError 83 StateMachineModule"
abbreviation ErrInvalidStartPollHeight :: err where "ErrInvalidStartPollHeight \<equiv> NewError 85 StateMachineModule"
abbreviation ErrSlashNonExistentValidator :: err where "ErrSlashNonExistentValidator \<equiv> NewError 90 StateMachineModule"
abbreviation ErrInvalidRLPTx :: err where "ErrInvalidRLPTx \<equiv> NewError 42 StateMachineModule"
abbreviation ErrInvalidERC20Tx :: err where "ErrInvalidERC20Tx \<equiv> NewError 43 StateMachineModule"
abbreviation ErrNotEmpty :: err where "ErrNotEmpty \<equiv> NewError 49 StateMachineModule"
abbreviation ErrMismatchDexBatchReceipt :: err where "ErrMismatchDexBatchReceipt \<equiv> NewError 59 StateMachineModule"
abbreviation ErrInvalidLiquidityPool :: err where "ErrInvalidLiquidityPool \<equiv> NewError 65 StateMachineModule"
abbreviation ErrMaxDexBatchSize :: err where "ErrMaxDexBatchSize \<equiv> NewError 67 StateMachineModule"
abbreviation ErrStakeBelowMininum :: err where "ErrStakeBelowMininum \<equiv> NewError 94 StateMachineModule"
abbreviation ErrRemotePoolSizeDebit :: err where "ErrRemotePoolSizeDebit \<equiv> NewError 100 StateMachineModule"
abbreviation ErrFromAny :: err where "ErrFromAny \<equiv> NewError 6 MainModule"
abbreviation ErrUnmarshal :: err where "ErrUnmarshal \<equiv> NewError 4 MainModule"
abbreviation ErrNilBlock :: err where "ErrNilBlock \<equiv> NewError 9 MainModule"
abbreviation ErrNonNilBlock :: err where "ErrNonNilBlock \<equiv> NewError 31 MainModule"
abbreviation ErrNilRewardRecipients :: err where "ErrNilRewardRecipients \<equiv> NewError 28 MainModule"
abbreviation ErrInvalidBlockHash :: err where "ErrInvalidBlockHash \<equiv> NewError 12 MainModule"
abbreviation ErrInvalidResultsHash :: err where "ErrInvalidResultsHash \<equiv> NewError 30 MainModule"
abbreviation ErrPubKeyFromBytes :: err where "ErrPubKeyFromBytes \<equiv> NewError 23 MainModule"
abbreviation ErrNoValidators :: err where "ErrNoValidators \<equiv> NewError 29 MainModule"
abbreviation ErrWrongViewHeight :: err where "ErrWrongViewHeight \<equiv> NewError 65 ConsensusModule"
abbreviation ErrWrongBlockHeight :: err where "ErrWrongBlockHeight \<equiv> NewError 12 ConsensusModule"
abbreviation ErrWrongRootHeight :: err where "ErrWrongRootHeight \<equiv> NewError 71 ConsensusModule"
abbreviation ErrInvalidQCCommitteeHeight :: err where "ErrInvalidQCCommitteeHeight \<equiv> NewError 72 ConsensusModule"
abbreviation ErrInvalidQCRootChainHeight :: err where "ErrInvalidQCRootChainHeight \<equiv> NewError 88 ConsensusModule"
abbreviation ErrEmptyView :: err where "ErrEmptyView \<equiv> NewError 8 ConsensusModule"
abbreviation ErrWrongPhase :: err where "ErrWrongPhase \<equiv> NewError 13 ConsensusModule"
abbreviation ErrEmptyQuorumCertificate :: err where "ErrEmptyQuorumCertificate \<equiv> NewError 27 ConsensusModule"
abbreviation ErrEmptyAggregateSignature :: err where "ErrEmptyAggregateSignature \<equiv> NewError 19 ConsensusModule"
abbreviation ErrInvalidAggrSignatureLength :: err where "ErrInvalidAggrSignatureLength \<equiv> NewError 21 ConsensusModule"
abbreviation ErrEmptySignerBitmap :: err where "ErrEmptySignerBitmap \<equiv> NewError 22 ConsensusModule"
abbreviation ErrInvalidSignerBitmap :: err where "ErrInvalidSignerBitmap \<equiv> NewError 23 ConsensusModule"
abbreviation ErrInvalidAggrSignature :: err where "ErrInvalidAggrSignature \<equiv> NewError 20 ConsensusModule"
abbreviation ErrNoMaj23 :: err where "ErrNoMaj23 \<equiv> NewError 18 ConsensusModule"
abbreviation ErrInvalidTxHeight :: err where "ErrInvalidTxHeight \<equiv> NewError 53 ConsensusModule"
abbreviation ErrInvalidTxTime :: err where "ErrInvalidTxTime \<equiv> NewError 37 ConsensusModule"
abbreviation ErrInvalidMemo :: err where "ErrInvalidMemo \<equiv> NewError 41 ConsensusModule"
abbreviation ErrEmptyDoubleSigner :: err where "ErrEmptyDoubleSigner \<equiv> NewError 57 ConsensusModule"
abbreviation ErrInvalidSigner :: err where "ErrInvalidSigner \<equiv> NewError 54 ConsensusModule"
abbreviation ErrInvalidStateNetAddress :: err where "ErrInvalidStateNetAddress \<equiv> NewError 28 P2PModule"
abbreviation ErrWrongHighQCHeight :: err where "ErrWrongHighQCHeight \<equiv> NewError 2 ConsensusModule"
abbreviation ErrUnknownMessageName :: err where "ErrUnknownMessageName \<equiv> NewError 57 StateMachineModule"
abbreviation ErrEmptyTransaction :: err where "ErrEmptyTransaction \<equiv> NewError 45 StateMachineModule"
abbreviation ErrEmptyMessage :: err where "ErrEmptyMessage \<equiv> NewError 33 StateMachineModule"
abbreviation ErrInvalidAddress :: err where "ErrInvalidAddress \<equiv> NewError 1 MainModule"
abbreviation ErrInvalidDoubleSignHeights :: err where "ErrInvalidDoubleSignHeights \<equiv> NewError 62 ConsensusModule"
abbreviation ErrInvalidDoubleSigner :: err where "ErrInvalidDoubleSigner \<equiv> NewError 63 ConsensusModule"
abbreviation ErrMismatchResultsHash :: err where "ErrMismatchResultsHash \<equiv> NewError 3 ConsensusModule"
abbreviation ErrMismatchQCBlockHash :: err where "ErrMismatchQCBlockHash \<equiv> NewError 55 ConsensusModule"
abbreviation ErrInvalidPercentAllocation :: err where "ErrInvalidPercentAllocation \<equiv> NewError 48 StateMachineModule"
abbreviation ErrPaymentRecipientsCount :: err where "ErrPaymentRecipientsCount \<equiv> NewError 47 StateMachineModule"
abbreviation ErrWrongNetworkID :: err where "ErrWrongNetworkID \<equiv> NewError 69 StateMachineModule"
abbreviation ErrEmptyChainId :: err where "ErrEmptyChainId \<equiv> NewError 86 StateMachineModule"
abbreviation ErrWrongChainId :: err where "ErrWrongChainId \<equiv> NewError 26 StateMachineModule"
abbreviation ErrDuplicateTx :: err where "ErrDuplicateTx \<equiv> NewError 1 ConsensusModule"
abbreviation ErrMaxTxSize :: err where "ErrMaxTxSize \<equiv> NewError 9 StateMachineModule"
abbreviation ErrInvalidArgument :: err where "ErrInvalidArgument \<equiv> NewError 27 MainModule"
abbreviation ErrExpectedMaxBlockSize :: err where "ErrExpectedMaxBlockSize \<equiv> NewError 39 MainModule"
abbreviation ErrNilLockOrder :: err where "ErrNilLockOrder \<equiv> NewError 43 MainModule"
abbreviation ErrInvalidBuyerReceiveAddress :: err where "ErrInvalidBuyerReceiveAddress \<equiv> NewError 44 MainModule"
abbreviation ErrInvalidBuyerSendAddress :: err where "ErrInvalidBuyerSendAddress \<equiv> NewError 60 MainModule"
abbreviation ErrDuplicateResetOrder :: err where "ErrDuplicateResetOrder \<equiv> NewError 62 MainModule"
abbreviation ErrDuplicateCloseOrder :: err where "ErrDuplicateCloseOrder \<equiv> NewError 61 MainModule"
abbreviation ErrNilCertResults :: err where "ErrNilCertResults \<equiv> NewError 42 MainModule"
abbreviation ErrHashSize :: err where "ErrHashSize \<equiv> NewError 46 MainModule"
abbreviation ErrOrderLocked :: err where "ErrOrderLocked \<equiv> NewError 77 StateMachineModule"
abbreviation ErrOrderNotFound :: err where "ErrOrderNotFound \<equiv> NewError 74 StateMachineModule"
abbreviation ErrPanic :: err where "ErrPanic \<equiv> NewError 49 StateMachineModule"
abbreviation ErrMempoolStopSignal :: err where "ErrMempoolStopSignal \<equiv> NewError 1 RPCModule"
abbreviation ErrWrongHighQCRootHeight :: err where "ErrWrongHighQCRootHeight \<equiv> NewError 3 RPCModule"
abbreviation ErrNoSubsidizedCommittees :: err where "ErrNoSubsidizedCommittees \<equiv> NewError 92 StateMachineModule"
abbreviation ErrPointHolderNotFound :: err where "ErrPointHolderNotFound \<equiv> NewError 70 StateMachineModule"
abbreviation ErrZeroLiquidityPool :: err where "ErrZeroLiquidityPool \<equiv> NewError 73 StateMachineModule"
abbreviation ErrTooManyDexDeposits :: err where "ErrTooManyDexDeposits \<equiv> NewError 96 StateMachineModule"
abbreviation ErrTooManyDexWithdraws :: err where "ErrTooManyDexWithdraws \<equiv> NewError 95 StateMachineModule"
abbreviation ErrTooManyDexOrders :: err where "ErrTooManyDexOrders \<equiv> NewError 97 StateMachineModule"
abbreviation ErrTooManyDexReceipts :: err where "ErrTooManyDexReceipts \<equiv> NewError 98 StateMachineModule"
abbreviation ErrNonNilPoolPoints :: err where "ErrNonNilPoolPoints \<equiv> NewError 99 StateMachineModule"
abbreviation ErrStringToBytes :: err where "ErrStringToBytes \<equiv> NewError 8 MainModule"
abbreviation ErrNilBlockHeader :: err where "ErrNilBlockHeader \<equiv> NewError 10 MainModule"
abbreviation ErrInvalidBlockProposerAddress :: err where "ErrInvalidBlockProposerAddress \<equiv> NewError 11 MainModule"
abbreviation ErrWrongLengthBlockHash :: err where "ErrWrongLengthBlockHash \<equiv> NewError 13 MainModule"
abbreviation ErrNilBlockTime :: err where "ErrNilBlockTime \<equiv> NewError 14 MainModule"
abbreviation ErrWrongLengthLastBlockHash :: err where "ErrWrongLengthLastBlockHash \<equiv> NewError 15 MainModule"
abbreviation ErrNilNetworkID :: err where "ErrNilNetworkID \<equiv> NewError 16 MainModule"
abbreviation ErrWrongLengthStateRoot :: err where "ErrWrongLengthStateRoot \<equiv> NewError 17 MainModule"
abbreviation ErrWrongLengthTransactionRoot :: err where "ErrWrongLengthTransactionRoot \<equiv> NewError 18 MainModule"
abbreviation ErrWrongLengthValidatorRoot :: err where "ErrWrongLengthValidatorRoot \<equiv> NewError 19 MainModule"
abbreviation ErrWrongLengthNextValidatorRoot :: err where "ErrWrongLengthNextValidatorRoot \<equiv> NewError 20 MainModule"
abbreviation ErrMismatchHeaderBlockHash :: err where "ErrMismatchHeaderBlockHash \<equiv> NewError 56 ConsensusModule"

end
