(* ===== verification/Util.thy ===== *)
theory Util
  imports Prelude
begin

text \<open>
  The arithmetic and encoding helpers of lib/util.go that the state machine calls: percentages,
  multiplication through \<open>big.Int\<close>, integer square roots, length prefixed keys, the
  de-duplicator and the comparisons of lists of byte slices.  A \<open>uint64\<close> is a 64-bit word, so
  every product that the sources do not guard wraps here as it does there; a \<open>big.Int\<close> is a
  natural number; a panic is \<open>None\<close>.
\<close>

section \<open>Percentages\<close>

definition Uint64PercentageDiv :: "u64 \<Rightarrow> u64 \<Rightarrow> u64" where
  "Uint64PercentageDiv dividend divisor =
     (if dividend = 0 \<or> divisor = 0 then 0
      else let percent = (dividend * 100) div divisor in
        if 100 < percent then 100 else percent)"

definition Uint64Percentage :: "u64 \<Rightarrow> u64 \<Rightarrow> u64" where
  "Uint64Percentage amount percentage =
     (if percentage = 0 \<or> amount = 0 then 0
      else if 100 \<le> percentage then amount
      else (amount * percentage) div 100)"

definition Uint64ReducePercentage :: "u64 \<Rightarrow> u64 \<Rightarrow> u64" where
  "Uint64ReducePercentage fullAmount percentage =
     (if 100 \<le> percentage \<or> fullAmount = 0 then 0
      else if percentage = 0 then fullAmount
      else (fullAmount * (100 - percentage)) div 100)"

section \<open>Wide products\<close>

definition AddUint64 :: "u64 \<Rightarrow> u64 \<Rightarrow> u64 \<times> bool" where
  "AddUint64 a b = (a + b, 18446744073709551616 \<le> unat a + unat b)"

definition SafeMulDiv :: "u64 \<Rightarrow> u64 \<Rightarrow> u64 \<Rightarrow> u64" where
  "SafeMulDiv a b c = (if c = 0 then 0 else of_nat (unat a * unat b div unat c))"

text \<open>\<open>big.Int.Sqrt\<close> of the standard library: the rounded down square root of a natural number.\<close>

fun floor_sqrt :: "nat \<Rightarrow> nat" where
  "floor_sqrt n =
     (if n = 0 then 0
      else let r = 2 * floor_sqrt (n div 4) in if (r + 1) * (r + 1) \<le> n then r + 1 else r)"

declare floor_sqrt.simps [simp del]

definition SqrtProductUint64 :: "u64 \<Rightarrow> u64 \<Rightarrow> u64" where
  "SqrtProductUint64 x y = of_nat (floor_sqrt (unat x * unat y))"

text \<open>\<open>IntSqrt\<close> iterates on machine words; dividing by zero panics.\<close>

function IntSqrt_loop :: "u64 \<Rightarrow> u64 \<Rightarrow> u64 \<Rightarrow> u64 option" where
  "IntSqrt_loop n x y =
     (if y < x then
        (let x = y in if x = 0 then None else IntSqrt_loop n x ((x + n div x) div 2))
      else Some x)"
  by pat_completeness auto
termination by (relation "measure (\<lambda>(n, x, y). unat x)") (auto simp: word_less_nat_alt)

declare IntSqrt_loop.simps [simp del]

definition IntSqrt :: "u64 \<Rightarrow> u64 option" where
  "IntSqrt n = (if n = 0 then Some 0 else IntSqrt_loop n n ((n + 1) div 2))"

section \<open>Length prefixed segments\<close>

text \<open>A segment is a byte slice that may be \<open>nil\<close>; the length is cut to one byte.\<close>

fun JoinLenPrefix :: "bytes option list \<Rightarrow> bytes" where
  "JoinLenPrefix [] = []"
| "JoinLenPrefix (None # items) = JoinLenPrefix items"
| "JoinLenPrefix (Some item # items) = of_nat (length item) # item @ JoinLenPrefix items"

function decode_from :: "bytes \<Rightarrow> nat \<Rightarrow> bytes list option" where
  "decode_from key i =
     (if i < length key then
        (let len = unat (key ! i) in
         let j = i + 1 in
         if length key < j + len then None
         else map_option ((#) (take len (drop j key))) (decode_from key (j + len)))
      else Some [])"
  by pat_completeness auto
termination by (relation "measure (\<lambda>(key, i). length key - i)") auto

declare decode_from.simps [simp del]

definition DecodeLengthPrefixed :: "bytes \<Rightarrow> bytes list option" where
  "DecodeLengthPrefixed key = decode_from key 0"

section \<open>Duplicates and comparisons\<close>

definition Found :: "'a \<Rightarrow> 'a set \<Rightarrow> bool \<times> 'a set" where
  "Found k seen = (if k \<in> seen then (True, seen) else (False, insert k seen))"

definition EqualByteSlices :: "bytes list \<Rightarrow> bytes list \<Rightarrow> bool" where
  "EqualByteSlices a b =
     (if length a \<noteq> length b then False
      else list_all (\<lambda>i. a ! i = b ! i) [0..<length a])"

text \<open>The loop returns the named result, which no branch sets.\<close>

fun ContainsByteSlice :: "bytes list \<Rightarrow> bytes \<Rightarrow> bool" where
  "ContainsByteSlice [] target = False"
| "ContainsByteSlice (item # items) target =
     (if item = target then False else ContainsByteSlice items target)"

section \<open>Standard library functions on strings\<close>

text \<open>\<open>strings.TrimSpace\<close>, \<open>strings.ToLower\<close>, \<open>strings.TrimPrefix\<close> and \<open>hex.DecodeString\<close>
  on ASCII strings.\<close>

definition is_space :: "char \<Rightarrow> bool" where
  "is_space c = (c \<in> set [CHR 0x09, CHR 0x0A, CHR 0x0B, CHR 0x0C, CHR 0x0D, CHR 0x20])"

definition TrimSpace :: "string \<Rightarrow> string" where
  "TrimSpace cs = rev (dropWhile is_space (rev (dropWhile is_space cs)))"

definition ToLower :: "string \<Rightarrow> string" where
  "ToLower = map (\<lambda>c. let n = of_char c in
     if (65 :: nat) \<le> n \<and> n \<le> 90 then char_of (n + 32) else c)"

definition TrimPrefix :: "string \<Rightarrow> string \<Rightarrow> string" where
  "TrimPrefix cs p = (if take (length p) cs = p then drop (length p) cs else cs)"

definition hex_value :: "char \<Rightarrow> nat option" where
  "hex_value c =
     (let n = of_char c in
      if (48 :: nat) \<le> n \<and> n \<le> 57 then Some (n - 48)
      else if 97 \<le> n \<and> n \<le> 102 then Some (n - 87)
      else if 65 \<le> n \<and> n \<le> 70 then Some (n - 55)
      else None)"

fun DecodeString :: "string \<Rightarrow> bytes option" where
  "DecodeString [] = Some []"
| "DecodeString [c] = None"
| "DecodeString (c # d # cs) =
     (case hex_value c of
        None \<Rightarrow> None
      | Some h \<Rightarrow>
          (case hex_value d of
             None \<Rightarrow> None
           | Some l \<Rightarrow> map_option ((#) (of_nat (16 * h + l))) (DecodeString cs)))"

text \<open>\<open>strings.Split\<close> with a one letter separator.\<close>

fun Split :: "char \<Rightarrow> string \<Rightarrow> string list" where
  "Split sep [] = [[]]"
| "Split sep (c # cs) =
     (if c = sep then [] # Split sep cs
      else case Split sep cs of [] \<Rightarrow> [[c]] | w # ws \<Rightarrow> (c # w) # ws)"

section \<open>Net addresses\<close>

text \<open>
  The regular expression of \<open>ValidNetURLInput\<close>: an optional \<open>tcp://\<close>, then a dotted list of labels
  (the alternatives \<open>localhost\<close> and the dotted numbers are such lists) or a bracketed list of
  hexadecimal digits and colons, then an optional port of one to five digits.
\<close>

definition is_digit :: "char \<Rightarrow> bool" where
  "is_digit c = (let n = of_char c in (48 :: nat) \<le> n \<and> n \<le> 57)"

definition is_letter :: "char \<Rightarrow> bool" where
  "is_letter c =
     (let n = of_char c in (65 :: nat) \<le> n \<and> n \<le> 90 \<or> 97 \<le> n \<and> n \<le> 122)"

definition is_label :: "string \<Rightarrow> bool" where
  "is_label w = (w \<noteq> [] \<and> list_all (\<lambda>c. is_digit c \<or> is_letter c \<or> c = CHR ''-'') w)"

definition is_port :: "string \<Rightarrow> bool" where
  "is_port p =
     (case p of
        [] \<Rightarrow> True
      | c # ds \<Rightarrow> c = CHR '':'' \<and> 1 \<le> length ds \<and> length ds \<le> 5 \<and> list_all is_digit ds)"

definition ValidNetURLInput :: "string \<Rightarrow> bool" where
  "ValidNetURLInput netURL =
     (let r = TrimPrefix netURL ''tcp://'' in
      case r of
        [] \<Rightarrow> False
      | c # cs \<Rightarrow>
          if c = CHR ''['' then
            (let inner = takeWhile (\<lambda>d. d \<noteq> CHR '']'') cs in
             let rest = dropWhile (\<lambda>d. d \<noteq> CHR '']'') cs in
             inner \<noteq> [] \<and> list_all (\<lambda>d. hex_value d \<noteq> None \<or> d = CHR '':'') inner
             \<and> rest \<noteq> [] \<and> is_port (tl rest))
          else
            list_all is_label (Split CHR ''.'' (takeWhile (\<lambda>d. d \<noteq> CHR '':'') r))
            \<and> is_port (dropWhile (\<lambda>d. d \<noteq> CHR '':'') r))"

section \<open>Percentages are bounded\<close>

lemma unat_mult_u64:
  "unat (a :: u64) * unat b < 18446744073709551616 \<Longrightarrow> unat (a * b) = unat a * unat b"
  by (simp add: unat_word_ariths)

lemma Uint64PercentageDiv_le: "Uint64PercentageDiv a b \<le> 100"
  by (auto simp: Uint64PercentageDiv_def Let_def not_less)

text \<open>Below a hundredth of the word range the product is exact, and the share is the share.\<close>

lemma unat_Uint64Percentage:
  assumes "unat t * 100 < 18446744073709551616"
  shows "unat (Uint64Percentage t p) = unat t * min 100 (unat p) div 100"
proof -
  have "unat (t * p) = unat t * unat p" if "unat p < 100"
    using assms that
    by (intro unat_mult_u64 le_less_trans [OF _ assms] mult_le_mono) auto
  then show ?thesis
    by (auto simp: Uint64Percentage_def word_le_nat_alt unat_div_distrib min_def)
qed

lemma unat_Uint64ReducePercentage:
  assumes "unat t * 100 < 18446744073709551616"
  shows "unat (Uint64ReducePercentage t p) = unat t * (100 - unat p) div 100"
proof -
  have sub: "unat (100 - p) = 100 - unat p" if "p < 100"
    using that by (simp add: unat_sub)
  have "unat (t * (100 - p)) = unat t * (100 - unat p)" if "p < 100"
    using assms that
    by (subst sub [symmetric], simp, intro unat_mult_u64 le_less_trans [OF _ assms] mult_le_mono)
      (auto simp: sub)
  then show ?thesis
    by (auto simp: Uint64ReducePercentage_def word_le_nat_alt word_less_nat_alt unat_div_distrib)
qed

lemma AddUint64_exact:
  "AddUint64 a b = (s, overflow) \<Longrightarrow>
     unat a + unat b = unat s + (if overflow then 18446744073709551616 else 0)"
  using unat_u64_less [of a] unat_u64_less [of b]
  by (auto simp: AddUint64_def unat_word_ariths mod_if)

lemma unat_SafeMulDiv:
  "unat a * unat b div unat c < 18446744073709551616 \<Longrightarrow>
     unat (SafeMulDiv a b c) = unat a * unat b div unat c"
  by (auto simp: SafeMulDiv_def unat_of_nat_u64)

text \<open>A share of \<open>a\<close> never exceeds \<open>a\<close>: dividing by at least the second factor cannot overflow.\<close>

lemma share_le:
  assumes "(b :: nat) \<le> c"
  shows "a * b div c \<le> a"
proof -
  have "a * b div c \<le> a * c div c"
    by (intro div_le_mono mult_le_mono2 assms)
  also have "\<dots> \<le> a"
    by (cases "c = 0") simp_all
  finally show ?thesis .
qed

lemma SafeMulDiv_le: "b \<le> c \<Longrightarrow> unat (SafeMulDiv a b c) = unat a * unat b div unat c"
  using share_le [of "unat b" "unat c" "unat a"] unat_u64_less [of a]
  by (intro unat_SafeMulDiv) (auto simp: word_le_nat_alt)

section \<open>Square roots\<close>

lemma floor_sqrt_bounds:
  "floor_sqrt n * floor_sqrt n \<le> n \<and> n < (floor_sqrt n + 1) * (floor_sqrt n + 1)"
proof (induction n rule: floor_sqrt.induct)
  case (1 n)
  show ?case
  proof (cases "n = 0")
    case True
    then show ?thesis by (simp add: floor_sqrt.simps)
  next
    case False
    define r where "r = floor_sqrt (n div 4)"
    have IH: "r * r \<le> n div 4" "n div 4 < (r + 1) * (r + 1)"
      using "1.IH" [OF False] by (simp_all add: r_def)
    have "floor_sqrt n = (if (2 * r + 1) * (2 * r + 1) \<le> n then 2 * r + 1 else 2 * r)"
      using False by (subst floor_sqrt.simps) (simp add: Let_def r_def)
    moreover have "4 * (r * r) \<le> n" "n < 4 * ((r + 1) * (r + 1))"
      using IH by linarith+
    ultimately show ?thesis
      by (auto simp: algebra_simps)
  qed
qed

lemma four_products: "4 * (a * b) \<le> (a + b) * (a + b)" for a b :: nat
proof (cases "a \<le> b")
  case True
  then obtain d where "b = a + d" using le_Suc_ex by blast
  then show ?thesis by (simp add: algebra_simps)
next
  case False
  then obtain d where "a = b + d" using le_Suc_ex [of b a] by auto
  then show ?thesis by (simp add: algebra_simps)
qed

text \<open>The Newton step does not go below the root, and stops only at or below it.\<close>

lemma newton_step:
  fixes n x :: nat
  assumes "0 < x"
  shows "n < ((x + n div x) div 2 + 1) * ((x + n div x) div 2 + 1)"
proof -
  define q where "q = n div x"
  define y where "y = (x + q) div 2"
  have "n < x * (q + 1)"
    using assms dividend_less_times_div [of x n] by (simp add: q_def algebra_simps)
  moreover have "4 * (x * (q + 1)) \<le> (x + (q + 1)) * (x + (q + 1))"
    by (rule four_products)
  moreover have "x + (q + 1) \<le> 2 * (y + 1)"
    by (simp add: y_def)
  then have "(x + (q + 1)) * (x + (q + 1)) \<le> (2 * (y + 1)) * (2 * (y + 1))"
    by (intro mult_le_mono)
  ultimately show ?thesis
    by (simp add: q_def y_def)
qed

lemma newton_stop:
  fixes n x :: nat
  assumes "0 < x" and "x \<le> (x + n div x) div 2"
  shows "x * x \<le> n"
proof -
  have "x \<le> n div x"
    using assms(2) by simp
  then have "x * x \<le> n div x * x"
    by simp
  also have "\<dots> \<le> n"
    by simp
  finally show ?thesis .
qed

lemma IntSqrt_loop_floor:
  assumes "0 < unat n" and "0 < unat x" and "unat n < (unat x + 1) * (unat x + 1)"
    and "unat x + unat n div unat x < 18446744073709551616"
    and "y = (x + n div x) div 2"
  shows "\<exists>r. IntSqrt_loop n x y = Some r \<and> unat r * unat r \<le> unat n
           \<and> unat n < (unat r + 1) * (unat r + 1)"
  using assms
proof (induction n x y rule: IntSqrt_loop.induct)
  case (1 n x y)
  have y: "unat y = (unat x + unat n div unat x) div 2"
    using "1.prems"(4,5) by (simp add: unat_div_distrib unat_add_u64)
  show ?case
  proof (cases "y < x")
    case False
    then have "unat x \<le> (unat x + unat n div unat x) div 2"
      by (simp add: word_le_nat_alt not_less flip: y)
    then have "unat x * unat x \<le> unat n"
      by (rule newton_stop [OF "1.prems"(2)])
    with False "1.prems"(3) show ?thesis
      by (simp add: IntSqrt_loop.simps [of n x y])
  next
    case True
    have "2 \<le> unat x + unat n div unat x"
      using "1.prems"(1,2) by (cases "unat x = 1") auto
    then have pos: "0 < unat y"
      unfolding y by simp
    have bound: "unat y + unat n div unat y < 18446744073709551616"
    proof (cases "unat y = 1")
      case True
      then show ?thesis using newton_step [OF "1.prems"(2), of "unat n"] by (simp add: y)
    next
      case False
      then have "unat n div unat y \<le> unat n div 2"
        using pos by (intro div_le_mono2) auto
      moreover have "2 * unat y \<le> unat x + unat n div unat x"
        unfolding y by simp
      ultimately show ?thesis
        using "1.prems"(4) unat_u64_less [of n] by linarith
    qed
    have "y \<noteq> 0" using pos by auto
    then have "IntSqrt_loop n x y = IntSqrt_loop n y ((y + n div y) div 2)"
      using True by (subst IntSqrt_loop.simps) (simp add: Let_def)
    moreover have "unat n < (unat y + 1) * (unat y + 1)"
      unfolding y by (rule newton_step [OF "1.prems"(2)])
    ultimately show ?thesis
      using "1.IH" [OF True refl \<open>y \<noteq> 0\<close> "1.prems"(1) pos _ bound refl] by simp
  qed
qed

lemma IntSqrt_some:
  assumes "n \<noteq> MaxUint64"
  shows "\<exists>r. IntSqrt n = Some r \<and> unat r * unat r \<le> unat n \<and> unat n < (unat r + 1) * (unat r + 1)"
proof (cases "n = 0")
  case True
  then show ?thesis by (simp add: IntSqrt_def)
next
  case False
  then have pos: "0 < unat n" by (simp add: unat_gt_0)
  have "unat n \<noteq> unat MaxUint64"
    using assms by (simp add: word_unat_eq_iff)
  then have "unat n \<noteq> 18446744073709551615"
    by (simp add: unsigned_minus_1_eq_mask mask_eq_exp_minus_1)
  then have "unat n + unat n div unat n < 18446744073709551616"
    using pos unat_u64_less [of n] by simp
  moreover have "n div n = 1"
    using False by (simp add: word_eq_iff_unsigned unat_div_distrib word_unat_eq_iff)
  ultimately show ?thesis
    using IntSqrt_loop_floor [of n n "(n + n div n) div 2"] pos False by (simp add: IntSqrt_def)
qed

section \<open>Length prefixes round trip\<close>

abbreviation segments :: "bytes option list \<Rightarrow> bytes list" where
  "segments items \<equiv> List.map_filter id items"

lemma decode_from_Join:
  assumes "\<forall>item \<in> set (segments items). length item < 256"
  shows "decode_from (pre @ JoinLenPrefix items) (length pre) = Some (segments items)"
  using assms
proof (induction items arbitrary: pre rule: JoinLenPrefix.induct)
  case 1
  then show ?case by (simp add: decode_from.simps List.map_filter_def)
next
  case (2 items)
  then show ?case by (simp add: List.map_filter_def)
next
  case (3 item items)
  have len: "unat (of_nat (length item) :: u8) = length item"
    using "3.prems" by (simp add: unat_of_nat List.map_filter_def)
  have IH: "decode_from ((pre @ of_nat (length item) # item) @ JoinLenPrefix items)
      (length (pre @ of_nat (length item) # item)) = Some (segments items)"
    using "3.prems" by (intro "3.IH") (simp add: List.map_filter_def)
  show ?case
    using IH by (subst decode_from.simps) (simp add: Let_def len nth_append List.map_filter_def)
qed

end
