(* ===== verification/Params.thy ===== *)
theory Params
  imports Errors Util
begin

text \<open>
  The governance parameters of fsm/gov_params.go: the four parameter spaces as records with the
  fields of gov.proto, the developer defaults, the checks, the setters \<open>SetUint64\<close> and
  \<open>SetString\<close>, and the protocol version string.  A setter works on the object it is called on,
  so it is an operation whose state is the record: the record has already changed when the final
  \<open>Check\<close> fails.
\<close>

section \<open>Parameter spaces\<close>

record ProtocolVersion =
  pv_Height :: u64
  pv_Version :: u64

record ConsensusParams =
  BlockSize :: u64
  ProtocolVersion :: string
  RootChainId :: u64
  Retired :: u64
  ResetCommittee :: u64

record ValidatorParams =
  UnstakingBlocks :: u64
  MaxPauseBlocks :: u64
  DoubleSignSlashPercentage :: u64
  NonSignSlashPercentage :: u64
  MaxNonSign :: u64
  NonSignWindow :: u64
  MaxCommittees :: u64
  MaxCommitteeSize :: u64
  EarlyWithdrawalPenalty :: u64
  DelegateUnstakingBlocks :: u64
  MinimumOrderSize :: u64
  StakePercentForSubsidizedCommittee :: u64
  MaxSlashPerCommittee :: u64
  DelegateRewardPercentage :: u64
  BuyDeadlineBlocks :: u64
  LockOrderFeeMultiplier :: u64
  MinimumStakeForValidators :: u64
  MinimumStakeForDelegates :: u64
  MaximumDelegatesPerCommittee :: u64

record FeeParams =
  SendFee :: u64
  StakeFee :: u64
  EditStakeFee :: u64
  UnstakeFee :: u64
  PauseFee :: u64
  UnpauseFee :: u64
  ChangeParameterFee :: u64
  DaoTransferFee :: u64
  CertificateResultsFee :: u64
  SubsidyFee :: u64
  CreateOrderFee :: u64
  EditOrderFee :: u64
  DeleteOrderFee :: u64
  DexLimitOrderFee :: u64
  DexLiquidityDepositFee :: u64
  DexLiquidityWithdrawFee :: u64

record GovernanceParams =
  DaoRewardPercentage :: u64

record Params =
  Consensus :: ConsensusParams
  Validator :: ValidatorParams
  Fee :: FeeParams
  Governance :: GovernanceParams

text \<open>\<open>new(ValidatorParams)\<close>: every field is zero.\<close>

definition zero_ConsensusParams :: ConsensusParams where
  "zero_ConsensusParams = \<lparr>BlockSize = 0, ProtocolVersion = [], RootChainId = 0, Retired = 0,
     ResetCommittee = 0\<rparr>"

definition zero_ValidatorParams :: ValidatorParams where
  "zero_ValidatorParams = \<lparr>UnstakingBlocks = 0,
     MaxPauseBlocks = 0,
     DoubleSignSlashPercentage = 0,
     NonSignSlashPercentage = 0,
     MaxNonSign = 0,
     NonSignWindow = 0,
     MaxCommittees = 0,
     MaxCommitteeSize = 0,
     EarlyWithdrawalPenalty = 0,
     DelegateUnstakingBlocks = 0,
     MinimumOrderSize = 0,
     StakePercentForSubsidizedCommittee = 0,
     MaxSlashPerCommittee = 0,
     DelegateRewardPercentage = 0,
     BuyDeadlineBlocks = 0,
     LockOrderFeeMultiplier = 0,
     MinimumStakeForValidators = 0,
     MinimumStakeForDelegates = 0,
     MaximumDelegatesPerCommittee = 0\<rparr>"

definition zero_FeeParams :: FeeParams where
  "zero_FeeParams = \<lparr>SendFee = 0,
     StakeFee = 0,
     EditStakeFee = 0,
     UnstakeFee = 0,
     PauseFee = 0,
     UnpauseFee = 0,
     ChangeParameterFee = 0,
     DaoTransferFee = 0,
     CertificateResultsFee = 0,
     SubsidyFee = 0,
     CreateOrderFee = 0,
     EditOrderFee = 0,
     DeleteOrderFee = 0,
     DexLimitOrderFee = 0,
     DexLiquidityDepositFee = 0,
     DexLiquidityWithdrawFee = 0\<rparr>"

section \<open>Protocol version\<close>

text \<open>\<open>strconv.ParseUint(s, 10, 64)\<close> and the \<open>%d\<close> verb of \<open>fmt.Sprintf\<close> on character
  lists.\<close>

definition digit_value :: "char \<Rightarrow> nat option" where
  "digit_value c =
     (let n = of_char c in if (48 :: nat) \<le> n \<and> n \<le> 57 then Some (n - 48) else None)"

fun parse_digits :: "nat \<Rightarrow> string \<Rightarrow> nat option" where
  "parse_digits acc [] = Some acc"
| "parse_digits acc (c # cs) =
     (case digit_value c of None \<Rightarrow> None | Some d \<Rightarrow> parse_digits (10 * acc + d) cs)"

definition ParseUint :: "string \<Rightarrow> u64 option" where
  "ParseUint cs =
     (if cs = [] then None
      else case parse_digits 0 cs of
        None \<Rightarrow> None
      | Some n \<Rightarrow> if n < 18446744073709551616 then Some (of_nat n) else None)"

fun digits :: "nat \<Rightarrow> string" where
  "digits n = (if n < 10 then [char_of (48 + n)] else digits (n div 10) @ [char_of (48 + n mod 10)])"

declare digits.simps [simp del]

definition checkProtocolVersion :: "string \<Rightarrow> err + ProtocolVersion" where
  "checkProtocolVersion v =
     (case Split CHR ''/'' v of
        [a, b] \<Rightarrow>
          (case ParseUint a of
             None \<Rightarrow> Inl ErrInvalidProtocolVersion
           | Some version \<Rightarrow>
               (case ParseUint b of
                  None \<Rightarrow> Inl ErrInvalidProtocolVersion
                | Some height \<Rightarrow> Inr \<lparr>pv_Height = height, pv_Version = version\<rparr>))
      | _ \<Rightarrow> Inl ErrInvalidProtocolVersion)"

definition NewProtocolVersion :: "u64 \<Rightarrow> u64 \<Rightarrow> string" where
  "NewProtocolVersion height version = digits (unat version) @ ''/'' @ digits (unat height)"

definition ParseProtocolVersion :: "ConsensusParams \<Rightarrow> err + ProtocolVersion" where
  "ParseProtocolVersion x = checkProtocolVersion (ProtocolVersion x)"

section \<open>Checks\<close>

text \<open>\<open>lib.MaxBlockHeaderSize\<close>, which lib/certificate.go computes at start-up and pins to
  \<open>ExpectedMaxBlockHeaderSize\<close>.\<close>

definition MaxBlockHeaderSize :: u64 where
  "MaxBlockHeaderSize = 1652"

definition ConsensusParams_Check :: "ConsensusParams \<Rightarrow> err + unit" where
  "ConsensusParams_Check x =
     (if BlockSize x < MaxBlockHeaderSize then Inl ErrInvalidParam
      else case ParseProtocolVersion x of Inl e \<Rightarrow> Inl e | Inr _ \<Rightarrow> Inr ())"

definition ValidatorParams_Check :: "ValidatorParams \<Rightarrow> err + unit" where
  "ValidatorParams_Check x =
     (if UnstakingBlocks x = 0 then Inl ErrInvalidParam
      else if MaxPauseBlocks x = 0 then Inl ErrInvalidParam
      else if 100 < NonSignSlashPercentage x then Inl ErrInvalidParam
      else if NonSignWindow x = 0 then Inl ErrInvalidParam
      else if NonSignWindow x < MaxNonSign x then Inl ErrInvalidParam
      else if 100 < DoubleSignSlashPercentage x then Inl ErrInvalidParam
      else if 100 < MaxCommittees x then Inl ErrInvalidParam
      else if MaxCommitteeSize x = 0 then Inl ErrInvalidParam
      else if DelegateUnstakingBlocks x < 2 then Inl ErrInvalidParam
      else if 100 < EarlyWithdrawalPenalty x then Inl ErrInvalidParam
      else if StakePercentForSubsidizedCommittee x = 0
          \<or> 100 < StakePercentForSubsidizedCommittee x then Inl ErrInvalidParam
      else if MaxSlashPerCommittee x = 0 \<or> 100 < MaxSlashPerCommittee x then Inl ErrInvalidParam
      else if 100 < DelegateRewardPercentage x then Inl ErrInvalidParam
      else if BuyDeadlineBlocks x = 0 then Inl ErrInvalidParam
      else if LockOrderFeeMultiplier x = 0 then Inl ErrInvalidParam
      else Inr ())"

definition FeeParams_Check :: "FeeParams \<Rightarrow> err + unit" where
  "FeeParams_Check x = Inr ()"

definition GovernanceParams_Check :: "GovernanceParams \<Rightarrow> err + unit" where
  "GovernanceParams_Check x =
     (if 100 < DaoRewardPercentage x then Inl ErrInvalidParam else Inr ())"

definition Params_Check :: "Params option \<Rightarrow> err + unit" where
  "Params_Check p =
     (case p of
        None \<Rightarrow> Inl ErrEmptyConsParams
      | Some x \<Rightarrow>
          (case ConsensusParams_Check (Consensus x) of
             Inl e \<Rightarrow> Inl e
           | Inr _ \<Rightarrow>
               (case FeeParams_Check (Fee x) of
                  Inl e \<Rightarrow> Inl e
                | Inr _ \<Rightarrow>
                    (case ValidatorParams_Check (Validator x) of
                       Inl e \<Rightarrow> Inl e
                     | Inr _ \<Rightarrow> GovernanceParams_Check (Governance x)))))"

section \<open>Setters\<close>

type_synonym 'p setter = "('p, err, unit) op"

text \<open>\<open>return x.Check()\<close> on the record that has just been changed.\<close>

definition checked :: "('p \<Rightarrow> err + unit) \<Rightarrow> 'p setter" where
  "checked check = (\<lambda>x. (x, check x))"

definition ConsensusParams_SetUint64 :: "string \<Rightarrow> u64 \<Rightarrow> ConsensusParams setter" where
  "ConsensusParams_SetUint64 paramName v =
     (if paramName = ''blockSize'' then
        bindE (writes (\<lambda>x. x\<lparr>BlockSize := v\<rparr>)) (\<lambda>_. checked ConsensusParams_Check)
      else if paramName = ''retired'' then
        bindE (writes (\<lambda>x. x\<lparr>Retired := v\<rparr>)) (\<lambda>_. checked ConsensusParams_Check)
      else if paramName = ''rootChainID'' then
        bindE (writes (\<lambda>x. x\<lparr>RootChainId := v\<rparr>)) (\<lambda>_. checked ConsensusParams_Check)
      else if paramName = ''resetCommittee'' then
        bindE (writes (\<lambda>x. x\<lparr>ResetCommittee := v\<rparr>)) (\<lambda>_. checked ConsensusParams_Check)
      else fail ErrUnknownParam)"

definition ConsensusParams_SetString :: "string \<Rightarrow> string \<Rightarrow> ConsensusParams setter" where
  "ConsensusParams_SetString paramName v =
     (if paramName = ''protocolVersion'' then
        (\<lambda>x. case checkProtocolVersion v of
             Inl e \<Rightarrow> (x, Inl e)
           | Inr newVersion \<Rightarrow>
               (case checkProtocolVersion (ProtocolVersion x) of
                  Inl e \<Rightarrow> (x, Inl e)
                | Inr oldVersion \<Rightarrow>
                    if pv_Version newVersion \<noteq> pv_Version oldVersion + 1
                        \<or> pv_Height newVersion \<le> pv_Height oldVersion then
                      (x, Inl ErrInvalidProtocolVersion)
                    else checked ConsensusParams_Check (x\<lparr>ProtocolVersion := v\<rparr>)))
      else fail ErrUnknownParam)"

definition ValidatorParams_SetUint64 :: "string \<Rightarrow> u64 \<Rightarrow> ValidatorParams setter" where
  "ValidatorParams_SetUint64 paramName v =
     (if paramName = ''unstakingBlocks'' then
        bindE (writes (\<lambda>x. x\<lparr>UnstakingBlocks := v\<rparr>)) (\<lambda>_. checked ValidatorParams_Check)
      else if paramName = ''maxPauseBlocks'' then
        bindE (writes (\<lambda>x. x\<lparr>MaxPauseBlocks := v\<rparr>)) (\<lambda>_. checked ValidatorParams_Check)
      else if paramName = ''nonSignWindow'' then
        bindE (writes (\<lambda>x. x\<lparr>NonSignWindow := v\<rparr>)) (\<lambda>_. checked ValidatorParams_Check)
      else if paramName = ''maxNonSign'' then
        bindE (writes (\<lambda>x. x\<lparr>MaxNonSign := v\<rparr>)) (\<lambda>_. checked ValidatorParams_Check)
      else if paramName = ''nonSignSlashPercentage'' then
        bindE (writes (\<lambda>x. x\<lparr>NonSignSlashPercentage := v\<rparr>)) (\<lambda>_. checked ValidatorParams_Check)
      else if paramName = ''doubleSignSlashPercentage'' then
        bindE (writes (\<lambda>x. x\<lparr>DoubleSignSlashPercentage := v\<rparr>)) (\<lambda>_. checked ValidatorParams_Check)
      else if paramName = ''maxCommittees'' then
        bindE (writes (\<lambda>x. x\<lparr>MaxCommittees := v\<rparr>)) (\<lambda>_. checked ValidatorParams_Check)
      else if paramName = ''maxCommitteeSize'' then
        bindE (writes (\<lambda>x. x\<lparr>MaxCommitteeSize := v\<rparr>)) (\<lambda>_. checked ValidatorParams_Check)
      else if paramName = ''earlyWithdrawalPenalty'' then
        bindE (writes (\<lambda>x. x\<lparr>EarlyWithdrawalPenalty := v\<rparr>)) (\<lambda>_. checked ValidatorParams_Check)
      else if paramName = ''delegateUnstakingBlocks'' then
        bindE (writes (\<lambda>x. x\<lparr>DelegateUnstakingBlocks := v\<rparr>)) (\<lambda>_. checked ValidatorParams_Check)
      else if paramName = ''minimumOrderSize'' then
        bindE (writes (\<lambda>x. x\<lparr>MinimumOrderSize := v\<rparr>)) (\<lambda>_. checked ValidatorParams_Check)
      else if paramName = ''stakePercentForSubsidizedCommittee'' then
        bindE (writes (\<lambda>x. x\<lparr>StakePercentForSubsidizedCommittee := v\<rparr>)) (\<lambda>_. checked ValidatorParams_Check)
      else if paramName = ''maxSlashPerCommittee'' then
        bindE (writes (\<lambda>x. x\<lparr>MaxSlashPerCommittee := v\<rparr>)) (\<lambda>_. checked ValidatorParams_Check)
      else if paramName = ''delegateRewardPercentage'' then
        bindE (writes (\<lambda>x. x\<lparr>DelegateRewardPercentage := v\<rparr>)) (\<lambda>_. checked ValidatorParams_Check)
      else if paramName = ''buyDeadlineBlocks'' then
        bindE (writes (\<lambda>x. x\<lparr>BuyDeadlineBlocks := v\<rparr>)) (\<lambda>_. checked ValidatorParams_Check)
      else if paramName = ''lockOrderFeeMultiplier'' then
        bindE (writes (\<lambda>x. x\<lparr>LockOrderFeeMultiplier := v\<rparr>)) (\<lambda>_. checked ValidatorParams_Check)
      else if paramName = ''minimumStakeForValidators'' then
        bindE (writes (\<lambda>x. x\<lparr>MinimumStakeForValidators := v\<rparr>)) (\<lambda>_. checked ValidatorParams_Check)
      else if paramName = ''minimumStakeForDelegates'' then
        bindE (writes (\<lambda>x. x\<lparr>MinimumStakeForDelegates := v\<rparr>)) (\<lambda>_. checked ValidatorParams_Check)
      else if paramName = ''maximumDelegatesPerCommittee'' then
        bindE (writes (\<lambda>x. x\<lparr>MaximumDelegatesPerCommittee := v\<rparr>)) (\<lambda>_. checked ValidatorParams_Check)
      else fail ErrUnknownParam)"

definition FeeParams_SetUint64 :: "string \<Rightarrow> u64 \<Rightarrow> FeeParams setter" where
  "FeeParams_SetUint64 paramName v =
     (if paramName = ''sendFee'' then
        bindE (writes (\<lambda>x. x\<lparr>SendFee := v\<rparr>)) (\<lambda>_. checked FeeParams_Check)
      else if paramName = ''stakeFee'' then
        bindE (writes (\<lambda>x. x\<lparr>StakeFee := v\<rparr>)) (\<lambda>_. checked FeeParams_Check)
      else if paramName = ''editStakeFee'' then
        bindE (writes (\<lambda>x. x\<lparr>EditStakeFee := v\<rparr>)) (\<lambda>_. checked FeeParams_Check)
      else if paramName = ''unstakeFee'' then
        bindE (writes (\<lambda>x. x\<lparr>UnstakeFee := v\<rparr>)) (\<lambda>_. checked FeeParams_Check)
      else if paramName = ''pauseFee'' then
        bindE (writes (\<lambda>x. x\<lparr>PauseFee := v\<rparr>)) (\<lambda>_. checked FeeParams_Check)
      else if paramName = ''unpauseFee'' then
        bindE (writes (\<lambda>x. x\<lparr>UnpauseFee := v\<rparr>)) (\<lambda>_. checked FeeParams_Check)
      else if paramName = ''changeParameterFee'' then
        bindE (writes (\<lambda>x. x\<lparr>ChangeParameterFee := v\<rparr>)) (\<lambda>_. checked FeeParams_Check)
      else if paramName = ''daoTransferFee'' then
        bindE (writes (\<lambda>x. x\<lparr>DaoTransferFee := v\<rparr>)) (\<lambda>_. checked FeeParams_Check)
      else if paramName = ''certificateResultsFee'' then
        bindE (writes (\<lambda>x. x\<lparr>CertificateResultsFee := v\<rparr>)) (\<lambda>_. checked FeeParams_Check)
      else if paramName = ''subsidyFee'' then
        bindE (writes (\<lambda>x. x\<lparr>SubsidyFee := v\<rparr>)) (\<lambda>_. checked FeeParams_Check)
      else if paramName = ''createOrderFee'' then
        bindE (writes (\<lambda>x. x\<lparr>CreateOrderFee := v\<rparr>)) (\<lambda>_. checked FeeParams_Check)
      else if paramName = ''deleteOrderFee'' then
        bindE (writes (\<lambda>x. x\<lparr>DeleteOrderFee := v\<rparr>)) (\<lambda>_. checked FeeParams_Check)
      else if paramName = ''editOrderFee'' then
        bindE (writes (\<lambda>x. x\<lparr>EditOrderFee := v\<rparr>)) (\<lambda>_. checked FeeParams_Check)
      else if paramName = ''dexLimitOrderFee'' then
        bindE (writes (\<lambda>x. x\<lparr>DexLimitOrderFee := v\<rparr>)) (\<lambda>_. checked FeeParams_Check)
      else if paramName = ''dexLiquidityDepositFee'' then
        bindE (writes (\<lambda>x. x\<lparr>DexLiquidityDepositFee := v\<rparr>)) (\<lambda>_. checked FeeParams_Check)
      else if paramName = ''dexLiquidityWithdrawFee'' then
        bindE (writes (\<lambda>x. x\<lparr>DexLiquidityWithdrawFee := v\<rparr>)) (\<lambda>_. checked FeeParams_Check)
      else fail ErrUnknownParam)"

definition GovernanceParams_SetUint64 :: "string \<Rightarrow> u64 \<Rightarrow> GovernanceParams setter" where
  "GovernanceParams_SetUint64 paramName v =
     (if paramName = ''daoRewardPercentage'' then
        bindE (writes (\<lambda>x. x\<lparr>DaoRewardPercentage := v\<rparr>)) (\<lambda>_. checked GovernanceParams_Check)
      else fail ErrUnknownParam)"

text \<open>The other spaces have no string parameter.\<close>

definition no_SetString :: "string \<Rightarrow> string \<Rightarrow> 'p setter" where
  "no_SetString paramName v = fail ErrUnknownParam"

section \<open>Defaults\<close>

text \<open>\<open>units.MB\<close> of the third-party package is the argument.\<close>

definition DefaultParams :: "u64 \<Rightarrow> Params" where
  "DefaultParams units_MB =
     \<lparr>Consensus = \<lparr>BlockSize = units_MB, ProtocolVersion = NewProtocolVersion 0 1,
        RootChainId = 1, Retired = 0, ResetCommittee = 0\<rparr>,
      Validator = \<lparr>UnstakingBlocks = 2,
        MaxPauseBlocks = 4380,
        DoubleSignSlashPercentage = 10,
        NonSignSlashPercentage = 1,
        MaxNonSign = 3,
        NonSignWindow = 5,
        MaxCommittees = 15,
        MaxCommitteeSize = 100,
        EarlyWithdrawalPenalty = 20,
        DelegateUnstakingBlocks = 2,
        MinimumOrderSize = 1000000000,
        StakePercentForSubsidizedCommittee = 33,
        MaxSlashPerCommittee = 15,
        DelegateRewardPercentage = 10,
        BuyDeadlineBlocks = 60,
        LockOrderFeeMultiplier = 2,
        MinimumStakeForValidators = 0,
        MinimumStakeForDelegates = 0,
        MaximumDelegatesPerCommittee = 0\<rparr>,
      Fee = \<lparr>SendFee = 10000,
        StakeFee = 10000,
        EditStakeFee = 10000,
        UnstakeFee = 10000,
        PauseFee = 10000,
        UnpauseFee = 10000,
        ChangeParameterFee = 10000,
        DaoTransferFee = 10000,
        CertificateResultsFee = 0,
        SubsidyFee = 10000,
        CreateOrderFee = 10000,
        EditOrderFee = 10000,
        DeleteOrderFee = 10000,
        DexLimitOrderFee = 0,
        DexLiquidityDepositFee = 0,
        DexLiquidityWithdrawFee = 0\<rparr>,
      Governance = \<lparr>DaoRewardPercentage = 5\<rparr>\<rparr>"

section \<open>The protocol version string\<close>

lemma parse_digits_append:
  "parse_digits acc (xs @ ys) = Option.bind (parse_digits acc xs) (\<lambda>n. parse_digits n ys)"
  by (induction acc xs rule: parse_digits.induct) (auto split: option.split)

lemma digit_value_char: "d < 10 \<Longrightarrow> digit_value (char_of (48 + d)) = Some d"
  by (simp add: digit_value_def)

lemma digits_not_Nil [simp]: "digits n \<noteq> []"
  by (subst digits.simps) simp

lemma parse_digits_digits: "parse_digits 0 (digits n) = Some n"
proof (induction n rule: digits.induct)
  case (1 n)
  show ?case
  proof (cases "n < 10")
    case True
    then show ?thesis by (simp add: digits.simps [of n] digit_value_char)
  next
    case False
    have "digits n = digits (n div 10) @ [char_of (48 + n mod 10)]"
      using False by (subst digits.simps) simp
    then show ?thesis
      using "1.IH" [OF False]
      by (simp add: parse_digits_append digit_value_char [of "n mod 10"])
  qed
qed

lemma ParseUint_digits: "ParseUint (digits (unat x)) = Some (x :: u64)"
  using unat_u64_less [of x] by (simp add: ParseUint_def parse_digits_digits)

lemma slash_notin_digits: "CHR ''/'' \<notin> set (digits n)"
proof (induction n rule: digits.induct)
  case (1 n)
  have digit: "CHR ''/'' \<noteq> char_of (48 + d)" if "d < 10" for d :: nat
    using that by (auto dest!: arg_cong [of _ _ "of_char :: char \<Rightarrow> nat"])
  show ?case
    using "1.IH" digit [of n] digit [of "n mod 10"] by (subst digits.simps) auto
qed

lemma Split_none: "sep \<notin> set w \<Longrightarrow> Split sep w = [w]"
  by (induction w) auto

lemma Split_word: "sep \<notin> set w \<Longrightarrow> Split sep (w @ sep # cs) = w # Split sep cs"
  by (induction w) auto

lemma checkProtocolVersion_New:
  "checkProtocolVersion (NewProtocolVersion h v) = Inr \<lparr>pv_Height = h, pv_Version = v\<rparr>"
  using Split_word [OF slash_notin_digits, of "unat v"]
  by (simp add: checkProtocolVersion_def NewProtocolVersion_def ParseUint_digits
      Split_none slash_notin_digits)

section \<open>What the checks promise\<close>

lemma checked_apply [op_simps]: "checked check x = (x, check x)"
  by (simp add: checked_def)

text \<open>A setter that succeeds leaves a record that passes its check.\<close>

lemma ConsensusParams_SetUint64_checked:
  "ConsensusParams_SetUint64 n v x = (y, Inr ()) \<Longrightarrow> ConsensusParams_Check y = Inr ()"
  by (auto simp: ConsensusParams_SetUint64_def op_simps split: if_splits)

lemma ConsensusParams_SetString_checked:
  "ConsensusParams_SetString n v x = (y, Inr ()) \<Longrightarrow> ConsensusParams_Check y = Inr ()"
  by (auto simp: ConsensusParams_SetString_def op_simps split: if_splits sum.splits)

lemma ValidatorParams_SetUint64_checked:
  "ValidatorParams_SetUint64 n v x = (y, Inr ()) \<Longrightarrow> ValidatorParams_Check y = Inr ()"
  unfolding ValidatorParams_SetUint64_def
  by (simp add: op_simps split: if_split_asm) (erule conjE, hypsubst, assumption)+

lemma GovernanceParams_SetUint64_checked:
  "GovernanceParams_SetUint64 n v x = (y, Inr ()) \<Longrightarrow> GovernanceParams_Check y = Inr ()"
  by (auto simp: GovernanceParams_SetUint64_def op_simps split: if_splits)

lemma ValidatorParams_Check_bounds:
  assumes "ValidatorParams_Check x = Inr ()"
  shows "NonSignSlashPercentage x \<le> 100" "DoubleSignSlashPercentage x \<le> 100"
    "MaxSlashPerCommittee x \<le> 100" "EarlyWithdrawalPenalty x \<le> 100"
    "DelegateRewardPercentage x \<le> 100" "StakePercentForSubsidizedCommittee x \<le> 100"
    "0 < UnstakingBlocks x" "2 \<le> DelegateUnstakingBlocks x" "0 < MaxCommitteeSize x"
    "0 < NonSignWindow x" "MaxNonSign x \<le> NonSignWindow x" "MaxCommittees x \<le> 100"
  using assms unfolding ValidatorParams_Check_def
  by (simp_all add: not_less word_neq_0_conv split: if_split_asm)

lemma DefaultParams_Check:
  "MaxBlockHeaderSize \<le> units_MB \<Longrightarrow> Params_Check (Some (DefaultParams units_MB)) = Inr ()"
  by (simp add: Params_Check_def DefaultParams_def ConsensusParams_Check_def ParseProtocolVersion_def
      checkProtocolVersion_New FeeParams_Check_def ValidatorParams_Check_def
      GovernanceParams_Check_def not_less [symmetric])

end
