(* ===== verification/KV.thy ===== *)
theory KV
  imports Prelude
begin

text \<open>
  The state database of the sources (\<open>lib.RWStoreI\<close>: Get, Set, Delete, Iterator in lexicographic
  key order), one typed store per key prefix of fsm/key.go.  A store is a list of entries in
  strictly ascending key order.  The locale \<open>ordered_store\<close> is the interface that the components
  rely on; the lemmas on sums over a store are proved inside it and reach the components through
  its interpretation \<open>kv\<close>.
\<close>

type_synonym ('k, 'v) kv = "('k \<times> 'v) list"

section \<open>Operations\<close>

fun kv_get :: "('k, 'v) kv \<Rightarrow> 'k \<Rightarrow> 'v option" where
  "kv_get [] k = None"
| "kv_get ((k', v) # l) k = (if k = k' then Some v else kv_get l k)"

fun kv_set :: "'k::linorder \<Rightarrow> 'v \<Rightarrow> ('k, 'v) kv \<Rightarrow> ('k, 'v) kv" where
  "kv_set k v [] = [(k, v)]"
| "kv_set k v ((k', v') # l) =
     (if k < k' then (k, v) # (k', v') # l
      else if k = k' then (k, v) # l
      else (k', v') # kv_set k v l)"

fun kv_del :: "'k \<Rightarrow> ('k, 'v) kv \<Rightarrow> ('k, 'v) kv" where
  "kv_del k [] = []"
| "kv_del k ((k', v') # l) = (if k = k' then l else (k', v') # kv_del k l)"

text \<open>A full iteration returns the values (or keys) in ascending key order.\<close>

definition kv_values :: "('k, 'v) kv \<Rightarrow> 'v list" where
  "kv_values l = map snd l"

definition kv_keys :: "('k, 'v) kv \<Rightarrow> 'k list" where
  "kv_keys l = map fst l"

definition kv_wf :: "('k::linorder, 'v) kv \<Rightarrow> bool" where
  "kv_wf l = sorted_wrt (<) (map fst l)"

text \<open>The sum of a quantity over all entries, as an unbounded natural number.\<close>

definition kv_sum :: "('v \<Rightarrow> nat) \<Rightarrow> ('k, 'v) kv \<Rightarrow> nat" where
  "kv_sum f l = sum_list (map (\<lambda>e. f (snd e)) l)"

section \<open>The interface\<close>

locale ordered_store =
  fixes get :: "'m \<Rightarrow> 'k \<Rightarrow> 'v option"
    and upd :: "'k \<Rightarrow> 'v \<Rightarrow> 'm \<Rightarrow> 'm"
    and del :: "'k \<Rightarrow> 'm \<Rightarrow> 'm"
    and wf :: "'m \<Rightarrow> bool"
    and total :: "('v \<Rightarrow> nat) \<Rightarrow> 'm \<Rightarrow> nat"
  assumes get_upd: "get (upd k v m) k' = (if k' = k then Some v else get m k')"
    and get_del: "wf m \<Longrightarrow> get (del k m) k' = (if k' = k then None else get m k')"
    and wf_upd: "wf m \<Longrightarrow> wf (upd k v m)"
    and wf_del: "wf m \<Longrightarrow> wf (del k m)"
    and total_upd: "wf m \<Longrightarrow>
      total f (upd k v m) + (case get m k of None \<Rightarrow> 0 | Some u \<Rightarrow> f u) = total f m + f v"
    and total_del: "wf m \<Longrightarrow>
      total f (del k m) + (case get m k of None \<Rightarrow> 0 | Some u \<Rightarrow> f u) = total f m"
begin

lemma get_upd_same [simp]: "get (upd k v m) k = Some v"
  by (simp add: get_upd)

lemma get_upd_other [simp]: "k' \<noteq> k \<Longrightarrow> get (upd k v m) k' = get m k'"
  by (simp add: get_upd)

text \<open>An entry never holds more than the whole store.\<close>

lemma total_ge: "wf m \<Longrightarrow> get m k = Some u \<Longrightarrow> f u \<le> total f m"
  using total_del [of m f k] by simp

lemma total_upd_new: "wf m \<Longrightarrow> get m k = None \<Longrightarrow> total f (upd k v m) = total f m + f v"
  using total_upd [of m f k v] by simp

lemma total_upd_old:
  "wf m \<Longrightarrow> get m k = Some u \<Longrightarrow> total f (upd k v m) + f u = total f m + f v"
  using total_upd [of m f k v] by simp

lemma total_upd_same:
  "wf m \<Longrightarrow> get m k = Some u \<Longrightarrow> f u = f v \<Longrightarrow> total f (upd k v m) = total f m"
  using total_upd [of m f k v] by simp

lemma total_del_old: "wf m \<Longrightarrow> get m k = Some u \<Longrightarrow> total f (del k m) + f u = total f m"
  using total_del [of m f k] by simp

lemma total_del_none: "wf m \<Longrightarrow> get m k = None \<Longrightarrow> total f (del k m) = total f m"
  using total_del [of m f k] by simp

text \<open>The idiom of \<open>SetAccount\<close> and \<open>SetPool\<close>: an empty record is not stored.\<close>

lemma total_put:
  assumes "wf m" and "drop_it \<Longrightarrow> f v = 0"
  shows "total f (if drop_it then del k m else upd k v m)
           + (case get m k of None \<Rightarrow> 0 | Some u \<Rightarrow> f u) = total f m + f v"
  using total_upd [OF assms(1), of f k v] total_del [OF assms(1), of f k] assms(2) by auto

end

section \<open>The interpretation\<close>

lemma kv_get_notin: "k \<notin> fst ` set l \<Longrightarrow> kv_get l k = None"
  by (induction l) auto

lemma kv_get_in_set: "kv_get l k = Some v \<Longrightarrow> (k, v) \<in> set l"
  by (induction l) (auto split: if_splits)

lemma kv_wf_Nil [simp]: "kv_wf []"
  by (simp add: kv_wf_def)

lemma kv_wf_Cons [simp]: "kv_wf ((k, v) # l) \<longleftrightarrow> (\<forall>k' \<in> fst ` set l. k < k') \<and> kv_wf l"
  by (auto simp: kv_wf_def)

lemma kv_sum_Nil [simp]: "kv_sum f [] = 0"
  by (simp add: kv_sum_def)

lemma kv_sum_Cons [simp]: "kv_sum f ((k, v) # l) = f v + kv_sum f l"
  by (simp add: kv_sum_def)

lemma kv_get_set: "kv_get (kv_set k v l) k' = (if k' = k then Some v else kv_get l k')"
  by (induction k v l rule: kv_set.induct) auto

lemma keys_kv_set: "fst ` set (kv_set k v l) = insert k (fst ` set l)"
  by (induction k v l rule: kv_set.induct) auto

lemma keys_kv_del: "kv_wf l \<Longrightarrow> fst ` set (kv_del k l) = fst ` set l - {k}"
  by (induction k l rule: kv_del.induct) auto

lemma kv_get_del: "kv_wf l \<Longrightarrow> kv_get (kv_del k l) k' = (if k' = k then None else kv_get l k')"
  by (induction k l rule: kv_del.induct) (auto intro: kv_get_notin)

lemma kv_wf_set: "kv_wf l \<Longrightarrow> kv_wf (kv_set k v l)"
  by (induction k v l rule: kv_set.induct) (auto simp: keys_kv_set intro: less_trans)

lemma kv_wf_del: "kv_wf l \<Longrightarrow> kv_wf (kv_del k l)"
  by (induction k l rule: kv_del.induct) (auto simp: keys_kv_del)

lemma kv_sum_set:
  "kv_wf l \<Longrightarrow>
     kv_sum f (kv_set k v l) + (case kv_get l k of None \<Rightarrow> 0 | Some u \<Rightarrow> f u) = kv_sum f l + f v"
proof (induction k v l rule: kv_set.induct)
  case (1 k v)
  then show ?case by simp
next
  case (2 k v k' v' l)
  have "k < k' \<Longrightarrow> kv_get l k = None"
    using "2.prems" by (intro kv_get_notin) (auto dest: less_asym)
  with 2 show ?case by auto
qed

lemma kv_sum_del:
  "kv_wf l \<Longrightarrow> kv_sum f (kv_del k l) + (case kv_get l k of None \<Rightarrow> 0 | Some u \<Rightarrow> f u) = kv_sum f l"
  by (induction k l rule: kv_del.induct) auto

interpretation kv: ordered_store kv_get kv_set kv_del kv_wf kv_sum
  by unfold_locales (simp_all add: kv_get_set kv_get_del kv_wf_set kv_wf_del kv_sum_set kv_sum_del)

lemma kv_set_set: "kv_set k v (kv_set k w l) = kv_set k v l"
  by (induction k w l rule: kv_set.induct) auto

section \<open>Iteration\<close>

lemma kv_get_iff_set: "kv_wf l \<Longrightarrow> kv_get l k = Some v \<longleftrightarrow> (k, v) \<in> set l"
  by (induction l) (force intro: kv_get_notin)+

lemma kv_values_set: "kv_wf l \<Longrightarrow> set (kv_values l) = {v. \<exists>k. kv_get l k = Some v}"
  by (force simp: kv_values_def kv_get_iff_set)

lemma distinct_kv_keys: "kv_wf l \<Longrightarrow> distinct (kv_keys l)"
  by (simp add: kv_keys_def kv_wf_def strict_sorted_iff)

lemma kv_keys_iff: "kv_wf l \<Longrightarrow> k \<in> set (kv_keys l) \<longleftrightarrow> (\<exists>v. kv_get l k = Some v)"
  by (force simp: kv_keys_def kv_get_iff_set)

lemmas kv_basic [kv_simps] = kv_get_set kv_get_del kv_wf_set kv_wf_del

end
