(* ===== verification/State.thy ===== *)
theory State
  imports Params KV
begin

text \<open>
  The data of the state machine: the protobuf messages of account.proto, validator.proto,
  swap.proto, dex.proto and certificate.proto as records, the configuration of a node, and the
  \<open>StateMachine\<close> object of fsm/state.go with the database split by key prefix (fsm/key.go) into
  typed stores.  Encoding to bytes and the errors of the database are left out: a Get returns what
  the last Set wrote, and an absent key reads as the empty message.
\<close>

section \<open>Messages held in the state\<close>

record Account =
  acc_Address :: address
  acc_Amount :: u64
  VestingAmount :: u64
  VestingStartHeight :: u64
  VestingCliffHeight :: u64
  VestingEndHeight :: u64

record PoolPoints =
  pp_Address :: address
  pp_Points :: u64

record Pool =
  pool_Id :: u64
  pool_Amount :: u64
  pool_Points :: "PoolPoints list"
  TotalPoolPoints :: u64

record Supply =
  Total :: u64
  Staked :: u64
  DelegatedOnly :: u64
  CommitteeStaked :: "Pool list"
  CommitteeDelegatedOnly :: "Pool list"

record Validator =
  val_Address :: address
  val_PublicKey :: bytes
  val_NetAddress :: string
  val_StakedAmount :: u64
  val_Committees :: "u64 list"
  val_MaxPausedHeight :: u64
  val_UnstakingHeight :: u64
  val_Output :: address
  val_Delegate :: bool
  val_Compound :: bool

record NonSigner =
  ns_Counter :: u64
  ns_ChainCounters :: "(u64 \<times> u64) list"

record PaymentPercents =
  pay_Address :: address
  pay_Percent :: u64
  pay_ChainId :: u64

record CommitteeData =
  cd_ChainId :: u64
  LastRootHeightUpdated :: u64
  LastChainHeightUpdated :: u64
  cd_PaymentPercents :: "PaymentPercents list"
  NumberOfSamples :: u64

record SellOrder =
  so_Id :: bytes
  so_Committee :: u64
  so_Data :: bytes
  AmountForSale :: u64
  RequestedAmount :: u64
  SellerReceiveAddress :: bytes
  BuyerSendAddress :: bytes
  BuyerReceiveAddress :: bytes
  BuyerChainDeadline :: u64
  SellersSendAddress :: bytes

record DexLimitOrder =
  dlo_AmountForSale :: u64
  dlo_RequestedAmount :: u64
  dlo_Address :: address
  dlo_OrderId :: bytes

record DexLiquidityDeposit =
  dld_Address :: address
  dld_Amount :: u64
  dld_OrderId :: bytes

record DexLiquidityWithdraw =
  dlw_Address :: address
  dlw_Percent :: u64
  dlw_OrderId :: bytes

record DexBatch =
  db_Committee :: u64
  db_ReceiptHash :: bytes
  db_Orders :: "DexLimitOrder list"
  db_Deposits :: "DexLiquidityDeposit list"
  db_Withdrawals :: "DexLiquidityWithdraw list"
  db_PoolSize :: u64
  db_CounterPoolSize :: u64
  db_PoolPoints :: "PoolPoints list"
  db_TotalPoolPoints :: u64
  db_Receipts :: "u64 list"
  db_LockedHeight :: u64
  db_LivenessFallback :: bool

section \<open>Events\<close>

datatype event_msg =
    EventReward u64
  | EventSlash u64
  | EventAutoPause
  | EventAutoBeginUnstaking
  | EventFinishUnstaking
  | EventOrderBookSwap SellOrder
  | EventOrderBookLock SellOrder
  | EventOrderBookReset bytes
  | EventDexSwap u64 u64 bool bool bytes
  | EventDexLiquidityDeposit u64 bool bytes u64
  | EventDexLiquidityWithdrawal u64 u64 bytes u64

record Event =
  ev_Height :: u64
  ev_Reference :: string
  ev_Address :: bytes
  ev_ChainId :: u64
  ev_Msg :: event_msg

section \<open>Configuration\<close>

datatype GovProposalVoteConfig = ACCEPT_ALL | APPROVE_LIST | REJECT_ALL

text \<open>
  The part of \<open>lib.Config\<close> that the state machine reads, and the code outside the repository that
  it calls: \<open>MemHash\<close> is the runtime's hash of a byte slice, \<open>AddressOf\<close> the address of a public
  key (none when the bytes are no key), \<open>KeyBytes\<close> the bytes of a parsed key, \<open>IsBLS\<close> the type test on a parsed key,
  \<open>SetMask\<close> the signer mask that the BLS library accepts for a number of keys, \<open>VerifyMulti\<close> its check of
  an aggregate signature (keys, mask, message, signature), \<open>HashOf\<close> the cryptographic hash,
  \<open>OrderBytes\<close> and \<open>BatchBytes\<close> the protobuf encodings of a limit order and of a batch, and
  \<open>ApproveList\<close> the result of reading proposals.json (its votes by proposal hash).
\<close>

record Config =
  cfg_ChainId :: u64
  NetworkID :: u64
  InitialTokensPerBlock :: u64
  BlocksPerHalvening :: u64
  FaucetAddress :: string
  MemHash :: "bytes \<Rightarrow> u64"
  AddressOf :: "bytes \<Rightarrow> address option"
  KeyBytes :: "bytes \<Rightarrow> bytes"
  IsBLS :: "bytes \<Rightarrow> bool"
  SetMask :: "nat \<Rightarrow> bytes \<Rightarrow> bytes option"
  VerifyMulti :: "bytes list \<Rightarrow> bytes \<Rightarrow> bytes \<Rightarrow> bytes \<Rightarrow> bool"
  HashOf :: "bytes \<Rightarrow> bytes"
  OrderBytes :: "DexLimitOrder \<Rightarrow> bytes"
  BatchBytes :: "DexBatch \<Rightarrow> bytes"
  ApproveList :: "err + (string \<rightharpoonup> bool)"

section \<open>The state machine\<close>

type_synonym 'v index = "('v, unit) kv"

record StateMachine =
  Cfg :: Config
  sm_ProtocolVersion :: u64
  ProposeVoteConfig :: GovProposalVoteConfig
  Height :: u64
  accounts :: "(address, Account) kv"
  pools :: "(u64, Pool) kv"
  validators :: "(address, Validator) kv"
  committees :: "(u64 \<times> u64 \<times> address) index"
  delegates :: "(u64 \<times> u64 \<times> address) index"
  unstaking :: "(u64 \<times> address) index"
  paused :: "(u64 \<times> address) index"
  params_cons :: "ConsensusParams option"
  params_val :: "ValidatorParams option"
  params_fee :: "FeeParams option"
  params_gov :: "GovernanceParams option"
  nonSigners :: "(address, NonSigner) kv"
  lastProposers :: "address list"
  supplyTracker :: Supply
  committeesData :: "CommitteeData list"
  orders :: "(u64 \<times> bytes, SellOrder) kv"
  retired :: "u64 index"
  lockedBatches :: "(u64, DexBatch) kv"
  nextBatches :: "(u64, DexBatch) kv"
  doubleSigners :: "(address \<times> u64) index"
  checkpoints :: "(u64 \<times> u64, bytes) kv"
  cache_accounts :: "u64 \<rightharpoonup> Account"
  cache_valParams :: "ValidatorParams option"
  cache_feeParams :: "FeeParams option"
  cache_rootDexBatch :: "DexBatch option"
  slashTracker :: "address \<times> u64 \<Rightarrow> u64"
  events :: "Event list"
  event_reference :: string

type_synonym 'a fsm = "(StateMachine, err, 'a) op"

section \<open>Empty messages\<close>

definition new_Account :: "address \<Rightarrow> Account" where
  "new_Account a = \<lparr>acc_Address = a, acc_Amount = 0, VestingAmount = 0, VestingStartHeight = 0,
     VestingCliffHeight = 0, VestingEndHeight = 0\<rparr>"

definition new_Pool :: "u64 \<Rightarrow> Pool" where
  "new_Pool i = \<lparr>pool_Id = i, pool_Amount = 0, pool_Points = [], TotalPoolPoints = 0\<rparr>"

definition new_Supply :: Supply where
  "new_Supply = \<lparr>Total = 0, Staked = 0, DelegatedOnly = 0, CommitteeStaked = [],
     CommitteeDelegatedOnly = []\<rparr>"

definition new_CommitteeData :: "u64 \<Rightarrow> CommitteeData" where
  "new_CommitteeData c = \<lparr>cd_ChainId = c, LastRootHeightUpdated = 0, LastChainHeightUpdated = 0,
     cd_PaymentPercents = [], NumberOfSamples = 0\<rparr>"

section \<open>Pool identifiers\<close>

definition MaxChainId :: u64 where "MaxChainId = 65535 div 4"
definition HoldingPoolAddend :: u64 where "HoldingPoolAddend = 1 * 65535 div 4"
definition LiquidityPoolAddend :: u64 where "LiquidityPoolAddend = 2 * 65535 div 4"
definition EscrowPoolAddend :: u64 where "EscrowPoolAddend = 4 * 65535 div 4"
definition UnknownChainId :: u64 where "UnknownChainId = 0"
definition DAOPoolID :: u64 where "DAOPoolID = 2 * 65535 + 1"

definition ReservedIDs :: "u64 list" where
  "ReservedIDs = [UnknownChainId, DAOPoolID]"

section \<open>Adding an event\<close>

text \<open>The tracker of a running state machine is never nil, so \<open>Add\<close> returns no error.\<close>

definition addEvent :: "event_msg \<Rightarrow> bytes \<Rightarrow> u64 \<Rightarrow> unit fsm" where
  "addEvent msg addr chainId =
     writes (\<lambda>s. s\<lparr>events := events s @
       [\<lparr>ev_Height = Height s, ev_Reference = event_reference s, ev_Address = addr,
         ev_ChainId = chainId, ev_Msg = msg\<rparr>]\<rparr>)"

end
