(* ===== verification/ParamStore.thy ===== *)
theory ParamStore
  imports State
begin

text \<open>
  Reading and writing the governance parameters (fsm/gov.go).  The validator and fee parameters go
  through \<open>s.cache\<close>; the cached object is allocated before it is loaded, so a failed load leaves a
  cache entry with zero fields behind.
\<close>

section \<open>Getters\<close>

definition GetParamsCons :: "ConsensusParams fsm" where
  "GetParamsCons = (\<lambda>s.
     case params_cons s of
       None \<Rightarrow> (s, Inl ErrEmptyConsParams)
     | Some p \<Rightarrow> (s, Inr p))"

definition GetParamsVal :: "ValidatorParams fsm" where
  "GetParamsVal = (\<lambda>s.
     case cache_valParams s of
       Some p \<Rightarrow> (s, Inr p)
     | None \<Rightarrow>
         (case params_val s of
            None \<Rightarrow> (s\<lparr>cache_valParams := Some zero_ValidatorParams\<rparr>, Inl ErrEmptyValParams)
          | Some p \<Rightarrow> (s\<lparr>cache_valParams := Some p\<rparr>, Inr p)))"

definition GetParamsFee :: "FeeParams fsm" where
  "GetParamsFee = (\<lambda>s.
     case cache_feeParams s of
       Some p \<Rightarrow> (s, Inr p)
     | None \<Rightarrow>
         (case params_fee s of
            None \<Rightarrow> (s\<lparr>cache_feeParams := Some zero_FeeParams\<rparr>, Inl ErrEmptyFeeParams)
          | Some p \<Rightarrow> (s\<lparr>cache_feeParams := Some p\<rparr>, Inr p)))"

definition GetParamsGov :: "GovernanceParams fsm" where
  "GetParamsGov = (\<lambda>s.
     case params_gov s of
       None \<Rightarrow> (s, Inl ErrEmptyGovParams)
     | Some p \<Rightarrow> (s, Inr p))"

definition GetParams :: "Params fsm" where
  "GetParams =
     bindE GetParamsCons (\<lambda>cons.
     bindE GetParamsVal (\<lambda>val.
     bindE GetParamsFee (\<lambda>fee.
     bindE GetParamsGov (\<lambda>gov.
       ok \<lparr>Consensus = cons, Validator = val, Fee = fee, Governance = gov\<rparr>))))"

section \<open>Setters\<close>

definition SetParamsCons :: "ConsensusParams \<Rightarrow> unit fsm" where
  "SetParamsCons c = writes (\<lambda>s. s\<lparr>params_cons := Some c\<rparr>)"

definition SetParamsVal :: "ValidatorParams \<Rightarrow> unit fsm" where
  "SetParamsVal v = writes (\<lambda>s. s\<lparr>cache_valParams := Some v, params_val := Some v\<rparr>)"

definition SetParamsGov :: "GovernanceParams \<Rightarrow> unit fsm" where
  "SetParamsGov g = writes (\<lambda>s. s\<lparr>params_gov := Some g\<rparr>)"

definition SetParamsFee :: "FeeParams \<Rightarrow> unit fsm" where
  "SetParamsFee f = writes (\<lambda>s. s\<lparr>cache_feeParams := Some f, params_fee := Some f\<rparr>)"

definition SetParams :: "Params \<Rightarrow> unit fsm" where
  "SetParams p =
     bindE (SetParamsCons (Consensus p)) (\<lambda>_.
     bindE (SetParamsVal (Validator p)) (\<lambda>_.
     bindE (SetParamsFee (Fee p)) (\<lambda>_.
       SetParamsGov (Governance p))))"

section \<open>Derived reads\<close>

text \<open>\<open>IsFeatureEnabled\<close> has no error: a failure to read or parse is \<open>false\<close>.\<close>

definition IsFeatureEnabled :: "u64 \<Rightarrow> StateMachine \<Rightarrow> bool" where
  "IsFeatureEnabled requiredVersion s =
     (case params_cons s of
        None \<Rightarrow> False
      | Some consensusParams \<Rightarrow>
          (case ParseProtocolVersion consensusParams of
             Inl _ \<Rightarrow> False
           | Inr currentProtocol \<Rightarrow>
               let activeVersion = pv_Version currentProtocol in
               if Height s < pv_Height currentProtocol then
                 if activeVersion = 0 then False
                 else requiredVersion \<le> activeVersion - 1
               else requiredVersion \<le> activeVersion))"

definition GetRootChainId :: "u64 fsm" where
  "GetRootChainId = bindE GetParamsCons (\<lambda>consParams. ok (RootChainId consParams))"

definition GetMaxValidators :: "u64 fsm" where
  "GetMaxValidators = bindE GetParamsVal (\<lambda>valParams. ok (MaxCommitteeSize valParams))"

definition GetMaxBlockSize :: "u64 fsm" where
  "GetMaxBlockSize =
     bindE GetParamsCons (\<lambda>consParams.
       if BlockSize consParams < MaxBlockHeaderSize then fail ErrInvalidParam
       else ok (BlockSize consParams - MaxBlockHeaderSize))"

definition ResetCaches :: "StateMachine \<Rightarrow> StateMachine" where
  "ResetCaches s = s\<lparr>cache_accounts := Map.empty, cache_valParams := None, cache_feeParams := None,
     cache_rootDexBatch := None\<rparr>"

section \<open>Cache coherence\<close>

text \<open>A cached parameter object is the stored one.\<close>

definition params_coherent :: "StateMachine \<Rightarrow> bool" where
  "params_coherent s \<longleftrightarrow>
     (cache_valParams s = None \<or> cache_valParams s = params_val s) \<and>
     (cache_feeParams s = None \<or> cache_feeParams s = params_fee s)"

lemma GetParamsVal_ok:
  "params_coherent s \<Longrightarrow> params_val s = Some p \<Longrightarrow>
     GetParamsVal s = (s\<lparr>cache_valParams := Some p\<rparr>, Inr p)"
  by (auto simp: GetParamsVal_def params_coherent_def)

lemma GetParamsVal_InrD:
  "params_coherent s \<Longrightarrow> GetParamsVal s = (t, Inr p) \<Longrightarrow>
     params_val s = Some p \<and> t = s\<lparr>cache_valParams := Some p\<rparr>"
  by (auto simp: GetParamsVal_def params_coherent_def split: option.splits)

lemma GetParamsVal_cache: "GetParamsVal s = (t, r) \<Longrightarrow> \<exists>c. t = s\<lparr>cache_valParams := c\<rparr>"
  by (rule exI [of _ "cache_valParams t"]) (auto simp: GetParamsVal_def split: option.splits)

lemma GetParamsFee_cache: "GetParamsFee s = (t, r) \<Longrightarrow> \<exists>c. t = s\<lparr>cache_feeParams := c\<rparr>"
  by (rule exI [of _ "cache_feeParams t"]) (auto simp: GetParamsFee_def split: option.splits)

lemma frame_GetParamsVal [frame_rules]:
  "(\<And>s c. g (s\<lparr>cache_valParams := c\<rparr>) = g s) \<Longrightarrow> frame g GetParamsVal"
  by (rule frameI) (metis GetParamsVal_cache)

lemma frame_GetParamsFee [frame_rules]:
  "(\<And>s c. g (s\<lparr>cache_feeParams := c\<rparr>) = g s) \<Longrightarrow> frame g GetParamsFee"
  by (rule frameI) (metis GetParamsFee_cache)

lemma frame_GetParamsCons [frame_rules]: "frame g GetParamsCons"
  by (rule frameI) (auto simp: GetParamsCons_def split: option.splits)

lemma frame_GetParamsGov [frame_rules]: "frame g GetParamsGov"
  by (rule frameI) (auto simp: GetParamsGov_def split: option.splits)

lemma only_cache_valParams:
  assumes "frame (\<lambda>s. s\<lparr>cache_valParams := None\<rparr>) m" and "m s = (t, r)"
  shows "t = s\<lparr>cache_valParams := cache_valParams t\<rparr>"
proof -
  have "t\<lparr>cache_valParams := None\<rparr> = s\<lparr>cache_valParams := None\<rparr>"
    by (rule frameD [OF assms])
  then have "t\<lparr>cache_valParams := None\<rparr>\<lparr>cache_valParams := cache_valParams t\<rparr> =
      s\<lparr>cache_valParams := None\<rparr>\<lparr>cache_valParams := cache_valParams t\<rparr>"
    by (simp only:)
  then show ?thesis by simp
qed

lemma IsFeatureEnabled_cong:
  "params_cons t = params_cons s \<Longrightarrow> Height t = Height s \<Longrightarrow>
     IsFeatureEnabled v t = IsFeatureEnabled v s"
  by (simp only: IsFeatureEnabled_def)

end
