(* ===== verification/Checks.thy ===== *)
theory Checks
  imports State
begin

text \<open>
  The transaction messages of message.proto and their stateless checks (fsm/message_helpers.go).
  A byte field that was left out of a message decodes to nil, so the empty list stands for nil.
\<close>

section \<open>Messages\<close>

record MessageSend =
  snd_FromAddress :: address
  snd_ToAddress :: address
  snd_Amount :: u64
  snd_VestingStartHeight :: u64
  snd_VestingCliffHeight :: u64
  snd_VestingEndHeight :: u64

record MessageStake =
  stk_PublicKey :: bytes
  stk_Amount :: u64
  stk_Committees :: "u64 list"
  stk_NetAddress :: string
  stk_OutputAddress :: address
  stk_Delegate :: bool
  stk_Compound :: bool
  stk_Signer :: address

record MessageEditStake =
  eds_Address :: address
  eds_Amount :: u64
  eds_Committees :: "u64 list"
  eds_NetAddress :: string
  eds_OutputAddress :: address
  eds_Compound :: bool
  eds_Signer :: address

datatype param_value = UInt64Wrapper u64 | StringWrapper string | OtherValue

text \<open>A packed value: \<open>None\<close> is absent, \<open>Some None\<close> are bytes that \<open>FromAny\<close> cannot decode.\<close>

record MessageChangeParameter =
  chp_ParameterSpace :: string
  chp_ParameterKey :: string
  chp_ParameterValue :: "param_value option option"
  chp_StartHeight :: u64
  chp_EndHeight :: u64
  chp_Signer :: address
  chp_ProposalHash :: string

record MessageDAOTransfer =
  dao_Address :: address
  dao_Amount :: u64
  dao_Mint :: bool
  dao_StartHeight :: u64
  dao_EndHeight :: u64
  dao_ProposalHash :: string

record MessageSubsidy =
  sub_Address :: address
  sub_ChainId :: u64
  sub_Amount :: u64
  sub_Opcode :: bytes

record MessageCreateOrder =
  co_ChainId :: u64
  co_Data :: bytes
  co_AmountForSale :: u64
  co_RequestedAmount :: u64
  co_SellerReceiveAddress :: bytes
  co_SellersSendAddress :: bytes
  co_OrderId :: bytes

record MessageEditOrder =
  eo_OrderId :: bytes
  eo_ChainId :: u64
  eo_Data :: bytes
  eo_AmountForSale :: u64
  eo_RequestedAmount :: u64
  eo_SellerReceiveAddress :: bytes

record MessageDeleteOrder =
  do_OrderId :: bytes
  do_ChainId :: u64

record MessageDexLimitOrder =
  mdl_ChainId :: u64
  mdl_AmountForSale :: u64
  mdl_RequestedAmount :: u64
  mdl_Address :: address
  mdl_OrderId :: bytes

record MessageDexLiquidityDeposit =
  mdd_ChainId :: u64
  mdd_Amount :: u64
  mdd_Address :: address
  mdd_OrderId :: bytes

record MessageDexLiquidityWithdraw =
  mdw_ChainId :: u64
  mdw_Percent :: u64
  mdw_Address :: address
  mdw_OrderId :: bytes

record LockOrder =
  lo_OrderId :: bytes
  lo_ChainId :: u64
  lo_BuyerReceiveAddress :: bytes
  lo_BuyerSendAddress :: bytes
  lo_BuyerChainDeadline :: u64

record Orders =
  LockOrders :: "LockOrder option list"
  ResetOrders :: "bytes list"
  CloseOrders :: "bytes list"

section \<open>Helpers\<close>

text \<open>\<open>if err := c1(); err != nil { return err }; return c2()\<close>\<close>

definition both :: "err + unit \<Rightarrow> err + unit \<Rightarrow> err + unit" where
  "both c d = (case c of Inl e \<Rightarrow> Inl e | Inr _ \<Rightarrow> d)"

lemma both_Inr [simp]: "both c d = Inr () \<longleftrightarrow> c = Inr () \<and> d = Inr ()"
  by (auto simp: both_def split: sum.split)

definition ensureEmpty :: "bytes \<Rightarrow> err + unit" where
  "ensureEmpty b = (if length b \<noteq> 0 then Inl ErrNotEmpty else Inr ())"

definition checkAmount :: "u64 \<Rightarrow> err + unit" where
  "checkAmount amount = (if amount = 0 then Inl ErrInvalidAmount else Inr ())"

definition checkPercent :: "u64 \<Rightarrow> err + unit" where
  "checkPercent percent =
     (if percent = 0 then Inl ErrInvalidPercentAllocation
      else if 100 < percent then Inl ErrInvalidPercentAllocation
      else Inr ())"

definition checkAddress :: "bytes \<Rightarrow> err + unit" where
  "checkAddress a =
     (if a = [] then Inl ErrAddressEmpty
      else if length a \<noteq> 20 then Inl ErrAddressSize
      else Inr ())"

definition checkExternalAddress :: "bytes \<Rightarrow> err + unit" where
  "checkExternalAddress a =
     (if length a = 0 \<or> 255 < length a then Inl ErrAddressSize else Inr ())"

definition CheckNetAddress :: "string \<Rightarrow> bool \<Rightarrow> err + unit" where
  "CheckNetAddress netAddress isDelegate =
     (if isDelegate then
        (if length netAddress \<noteq> 0 then Inl ErrInvalidNetAddressLen else Inr ())
      else if length netAddress < 1 \<or> 255 < length netAddress then Inl ErrInvalidNetAddressLen
      else if \<not> ValidNetURLInput netAddress then Inl ErrInvalidStateNetAddress
      else Inr ())"

definition checkOutputAddress :: "bytes \<Rightarrow> err + unit" where
  "checkOutputAddress output =
     (if output = [] then Inl ErrOutputAddressEmpty
      else if length output \<noteq> 20 then Inl ErrOutputAddressSize
      else Inr ())"

text \<open>\<open>crypto.BLS12381PubKeySize\<close>\<close>

definition checkPubKey :: "bytes \<Rightarrow> bool \<Rightarrow> err + unit" where
  "checkPubKey publicKey delegate =
     (if publicKey = [] then Inl ErrPublicKeyEmpty
      else if \<not> delegate then
        (if length publicKey \<noteq> 48 then Inl ErrPublicKeySize else Inr ())
      else Inr ())"

definition checkChainId :: "u64 \<Rightarrow> err + unit" where
  "checkChainId i =
     (if i \<in> set ReservedIDs then Inl ErrInvalidChainId
      else if MaxChainId < i then Inl ErrInvalidChainId
      else Inr ())"

fun check_each_committee :: "u64 set \<Rightarrow> u64 list \<Rightarrow> err + unit" where
  "check_each_committee seen [] = Inr ()"
| "check_each_committee seen (committee # cs) =
     (if committee \<in> seen then Inl ErrInvalidNumCommittees
      else both (checkChainId committee) (check_each_committee (insert committee seen) cs))"

definition checkCommittees :: "u64 list \<Rightarrow> err + unit" where
  "checkCommittees cs =
     (if 1000 < length cs \<or> length cs = 0 then Inl ErrInvalidNumCommittees
      else check_each_committee {} cs)"

definition checkStartEndHeight :: "u64 \<Rightarrow> u64 \<Rightarrow> err + unit" where
  "checkStartEndHeight startHeight endHeight =
     (if endHeight \<le> startHeight then Inl ErrInvalidBlockRange
      else if 10000 < endHeight - startHeight then Inl ErrInvalidBlockRange
      else Inr ())"

fun check_lock_orders :: "bytes set \<Rightarrow> LockOrder option list \<Rightarrow> err + unit" where
  "check_lock_orders seen [] = Inr ()"
| "check_lock_orders seen (None # ls) = Inl ErrInvalidLockOrder"
| "check_lock_orders seen (Some l # ls) =
     (let (found, seen') = Found (lo_OrderId l) seen in
      if found then Inl ErrDuplicateLockOrder
      else both (checkAddress (lo_BuyerReceiveAddress l))
        (if lo_BuyerChainDeadline l = 0 then Inl ErrInvalidBuyerDeadline
         else check_lock_orders seen' ls))"

fun check_close_orders :: "bytes set \<Rightarrow> bytes list \<Rightarrow> err + unit" where
  "check_close_orders seen [] = Inr ()"
| "check_close_orders seen (i # is) =
     (let (found, seen') = Found i seen in
      if found then Inl ErrInvalidCloseOrder else check_close_orders seen' is)"

definition checkOrders :: "Orders option \<Rightarrow> err + unit" where
  "checkOrders ords =
     (case ords of
        None \<Rightarrow> Inr ()
      | Some x \<Rightarrow>
          both (check_lock_orders {} (LockOrders x))
            (both (check_close_orders {} (ResetOrders x)) (check_close_orders {} (CloseOrders x))))"

section \<open>The checks of the messages\<close>

definition MessageSend_Check :: "MessageSend \<Rightarrow> err + unit" where
  "MessageSend_Check x =
     both (checkAddress (snd_FromAddress x))
     (if snd_ToAddress x = [] then Inl ErrRecipientAddressEmpty
      else if length (snd_ToAddress x) \<noteq> 20 then Inl ErrRecipientAddressSize
      else both (checkAmount (snd_Amount x))
        (if snd_VestingStartHeight x = 0 \<and> snd_VestingCliffHeight x = 0
            \<and> snd_VestingEndHeight x = 0 then Inr ()
         else if snd_VestingEndHeight x \<le> snd_VestingStartHeight x then Inl ErrInvalidVesting
         else if snd_VestingCliffHeight x < snd_VestingStartHeight x
            \<or> snd_VestingEndHeight x < snd_VestingCliffHeight x then Inl ErrInvalidVesting
         else Inr ()))"

definition MessageStake_Check :: "MessageStake \<Rightarrow> err + unit" where
  "MessageStake_Check x =
     both (checkOutputAddress (stk_OutputAddress x))
     (both (checkPubKey (stk_PublicKey x) (stk_Delegate x))
     (both (checkCommittees (stk_Committees x))
     (both (ensureEmpty (stk_Signer x))
       (checkAmount (stk_Amount x)))))"

definition MessageEditStake_Check :: "MessageEditStake \<Rightarrow> err + unit" where
  "MessageEditStake_Check x =
     both (checkAddress (eds_Address x))
     (both (checkOutputAddress (eds_OutputAddress x))
     (both (checkCommittees (eds_Committees x))
     (both (ensureEmpty (eds_Signer x))
       (checkAmount (eds_Amount x)))))"

definition MessageUnstake_Check :: "address \<Rightarrow> err + unit" where
  "MessageUnstake_Check a = checkAddress a"

definition MessagePause_Check :: "address \<Rightarrow> err + unit" where
  "MessagePause_Check a = checkAddress a"

definition MessageUnpause_Check :: "address \<Rightarrow> err + unit" where
  "MessageUnpause_Check a = checkAddress a"

definition MessageChangeParameter_Check :: "MessageChangeParameter \<Rightarrow> err + unit" where
  "MessageChangeParameter_Check x =
     both (checkAddress (chp_Signer x))
     (if chp_ParameterKey x = [] then Inl ErrParamKeyEmpty
      else if chp_ParameterValue x = None then Inl ErrParamValueEmpty
      else both (checkStartEndHeight (chp_StartHeight x) (chp_EndHeight x))
        (if chp_ProposalHash x \<noteq> [] then Inl ErrInvalidProposalHash else Inr ()))"

definition MessageDAOTransfer_Check :: "MessageDAOTransfer \<Rightarrow> err + unit" where
  "MessageDAOTransfer_Check x =
     both (checkAddress (dao_Address x))
     (both (checkStartEndHeight (dao_StartHeight x) (dao_EndHeight x))
       (if dao_ProposalHash x \<noteq> [] then Inl ErrInvalidProposalHash
        else checkAmount (dao_Amount x)))"

definition MessageSubsidy_Check :: "MessageSubsidy \<Rightarrow> err + unit" where
  "MessageSubsidy_Check x =
     both (checkAddress (sub_Address x))
       (if 100 < length (sub_Opcode x) then Inl ErrInvalidOpcode else Inr ())"

definition MessageCreateOrder_Check :: "MessageCreateOrder \<Rightarrow> err + unit" where
  "MessageCreateOrder_Check x =
     both (checkChainId (co_ChainId x))
     (if 100 < length (co_Data x) then Inl ErrInvalidOpcode
      else if co_AmountForSale x = 0 \<or> co_RequestedAmount x = 0 then Inl ErrInvalidAmount
      else both (ensureEmpty (co_OrderId x))
        (both (checkAddress (co_SellersSendAddress x))
          (checkExternalAddress (co_SellerReceiveAddress x))))"

definition MessageEditOrder_Check :: "MessageEditOrder \<Rightarrow> err + unit" where
  "MessageEditOrder_Check x =
     both (checkChainId (eo_ChainId x))
     (if 100 < length (eo_Data x) then Inl ErrInvalidOpcode
      else if eo_AmountForSale x = 0 \<or> eo_RequestedAmount x = 0 then Inl ErrInvalidAmount
      else checkExternalAddress (eo_SellerReceiveAddress x))"

definition MessageDeleteOrder_Check :: "MessageDeleteOrder \<Rightarrow> err + unit" where
  "MessageDeleteOrder_Check x = checkChainId (do_ChainId x)"

definition MessageDexLimitOrder_Check :: "MessageDexLimitOrder \<Rightarrow> err + unit" where
  "MessageDexLimitOrder_Check x =
     both (checkAddress (mdl_Address x))
     (both (checkAmount (mdl_AmountForSale x))
     (both (checkAmount (mdl_RequestedAmount x))
       (checkChainId (mdl_ChainId x))))"

definition MessageDexLiquidityDeposit_Check :: "MessageDexLiquidityDeposit \<Rightarrow> err + unit" where
  "MessageDexLiquidityDeposit_Check x =
     both (checkAddress (mdd_Address x))
     (both (checkAmount (mdd_Amount x))
       (checkChainId (mdd_ChainId x)))"

definition MessageDexLiquidityWithdraw_Check :: "MessageDexLiquidityWithdraw \<Rightarrow> err + unit" where
  "MessageDexLiquidityWithdraw_Check x =
     both (checkAddress (mdw_Address x))
     (both (checkPercent (mdw_Percent x))
       (checkChainId (mdw_ChainId x)))"

section \<open>What the checks promise\<close>

lemma check_each_committee_distinct:
  "check_each_committee seen cs = Inr () \<Longrightarrow>
     distinct cs \<and> set cs \<inter> seen = {} \<and> (\<forall>c \<in> set cs. checkChainId c = Inr ())"
  by (induction seen cs rule: check_each_committee.induct) (auto split: if_splits)

lemma checkCommittees_distinct: "checkCommittees cs = Inr () \<Longrightarrow> distinct cs \<and> cs \<noteq> []"
  by (auto simp: checkCommittees_def dest: check_each_committee_distinct split: if_splits)

end
