(* ===== verification/Accounts.thy ===== *)
theory Accounts
  imports ParamStore Checks
begin

text \<open>
  Accounts and vesting (first part of fsm/account.go).  \<open>GetAccount\<close> looks in the account cache
  under the runtime hash of the address and otherwise in the store, where an absent key is an
  empty account; it never fails, so it is a function of the state.  The invariant \<open>accounts_ok\<close>
  says that the cache holds what the store holds, relative to a set of addresses without a hash
  collision.
\<close>

section \<open>Reading\<close>

definition stored_account :: "address \<Rightarrow> StateMachine \<Rightarrow> Account" where
  "stored_account a s =
     (case kv_get (accounts s) a of
        None \<Rightarrow> new_Account a
      | Some acc \<Rightarrow> acc\<lparr>acc_Address := a\<rparr>)"

definition GetAccount :: "address \<Rightarrow> StateMachine \<Rightarrow> Account" where
  "GetAccount a s =
     (case cache_accounts s (MemHash (Cfg s) a) of
        Some acc \<Rightarrow> acc
      | None \<Rightarrow> stored_account a s)"

definition GetAccounts :: "StateMachine \<Rightarrow> Account list" where
  "GetAccounts s = kv_values (accounts s)"

definition GetAccountBalance :: "address \<Rightarrow> StateMachine \<Rightarrow> u64" where
  "GetAccountBalance a s = acc_Amount (GetAccount a s)"

section \<open>Vesting\<close>

text \<open>The first argument is \<open>s.Height()\<close>.\<close>

definition AccountVestedAmount :: "u64 \<Rightarrow> Account \<Rightarrow> u64" where
  "AccountVestedAmount h acc =
     (if h < VestingStartHeight acc \<or> h < VestingCliffHeight acc then 0
      else if VestingEndHeight acc \<le> h then VestingAmount acc
      else let elapsed = h - VestingStartHeight acc in
        let duration = VestingEndHeight acc - VestingStartHeight acc in
        VestingAmount acc * elapsed div duration)"

definition AccountLockedAmount :: "u64 \<Rightarrow> Account \<Rightarrow> u64" where
  "AccountLockedAmount h acc =
     (if VestingAmount acc = 0 then 0
      else let vested = AccountVestedAmount h acc in
        if VestingAmount acc \<le> vested then 0 else VestingAmount acc - vested)"

definition AccountSpendableAmount :: "u64 \<Rightarrow> Account option \<Rightarrow> u64" where
  "AccountSpendableAmount h a =
     (case a of
        None \<Rightarrow> 0
      | Some acc \<Rightarrow>
          let locked = AccountLockedAmount h acc in
          if acc_Amount acc \<le> locked then 0 else acc_Amount acc - locked)"

definition GetAccountSpendableBalance :: "address \<Rightarrow> StateMachine \<Rightarrow> u64" where
  "GetAccountSpendableBalance a s = AccountSpendableAmount (Height s) (Some (GetAccount a s))"

definition clearAccountVestingIfFullyVested :: "u64 \<Rightarrow> Account \<Rightarrow> Account" where
  "clearAccountVestingIfFullyVested h acc =
     (if VestingAmount acc = 0 then acc
      else if AccountLockedAmount h acc \<noteq> 0 then acc
      else acc\<lparr>VestingAmount := 0, VestingStartHeight := 0, VestingCliffHeight := 0,
             VestingEndHeight := 0\<rparr>)"

section \<open>Writing\<close>

definition SetAccount :: "Account \<Rightarrow> unit fsm" where
  "SetAccount account0 =
     writes (\<lambda>s.
       let account = clearAccountVestingIfFullyVested (Height s) account0 in
       s\<lparr>cache_accounts := (cache_accounts s)(MemHash (Cfg s) (acc_Address account) \<mapsto> account),
         accounts :=
           (if acc_Amount account = 0 then kv_del (acc_Address account) (accounts s)
            else kv_set (acc_Address account) account (accounts s))\<rparr>)"

text \<open>The supply tracker is passed by reference: the loop returns its new value.\<close>

definition SetAccounts :: "Account list \<Rightarrow> Supply \<Rightarrow> Supply fsm" where
  "SetAccounts accs =
     fold_op (\<lambda>acc sup.
       if MaxUint64 - acc_Amount acc < Total sup then fail ErrInvalidAmount
       else bindE (SetAccount acc) (\<lambda>_. ok (sup\<lparr>Total := Total sup + acc_Amount acc\<rparr>))) accs"

definition AccountAdd :: "address \<Rightarrow> u64 \<Rightarrow> unit fsm" where
  "AccountAdd a amountToAdd =
     (if amountToAdd = 0 then ok ()
      else bindE (reads (GetAccount a)) (\<lambda>account.
        if MaxUint64 - amountToAdd < acc_Amount account then fail ErrInvalidAmount
        else SetAccount (account\<lparr>acc_Amount := acc_Amount account + amountToAdd\<rparr>)))"

definition AccountSub :: "address \<Rightarrow> u64 \<Rightarrow> unit fsm" where
  "AccountSub a amountToSub =
     (if amountToSub = 0 then ok ()
      else bindE (reads (GetAccount a)) (\<lambda>account.
        bindE (reads Height) (\<lambda>h.
          if AccountSpendableAmount h (Some account) < amountToSub then fail ErrInsufficientFunds
          else SetAccount (account\<lparr>acc_Amount := acc_Amount account - amountToSub\<rparr>))))"

definition ValidateAccountAddWithVesting :: "MessageSend \<Rightarrow> unit fsm" where
  "ValidateAccountAddWithVesting msg =
     bindE (reads (GetAccount (snd_ToAddress msg))) (\<lambda>acc.
     bindE (reads Height) (\<lambda>h.
       if VestingAmount acc \<noteq> 0 \<and> AccountLockedAmount h acc \<noteq> 0 then
         if VestingStartHeight acc \<noteq> snd_VestingStartHeight msg
            \<or> VestingCliffHeight acc \<noteq> snd_VestingCliffHeight msg
            \<or> VestingEndHeight acc \<noteq> snd_VestingEndHeight msg then fail ErrIncompatibleVesting
         else ok ()
       else ok ()))"

definition AccountAddWithVesting :: "MessageSend \<Rightarrow> unit fsm" where
  "AccountAddWithVesting msg =
     bindE (reads (GetAccount (snd_ToAddress msg))) (\<lambda>acc.
       if MaxUint64 - snd_Amount msg < acc_Amount acc
          \<or> MaxUint64 - snd_Amount msg < VestingAmount acc then fail ErrInvalidAmount
       else bindE (ValidateAccountAddWithVesting msg) (\<lambda>_.
         bindE (reads Height) (\<lambda>h.
           let acc = acc\<lparr>acc_Amount := acc_Amount acc + snd_Amount msg\<rparr> in
           if VestingAmount acc = 0 \<or> AccountLockedAmount h acc = 0 then
             SetAccount (acc\<lparr>VestingAmount := snd_Amount msg,
               VestingStartHeight := snd_VestingStartHeight msg,
               VestingCliffHeight := snd_VestingCliffHeight msg,
               VestingEndHeight := snd_VestingEndHeight msg\<rparr>)
           else SetAccount (acc\<lparr>VestingAmount := VestingAmount acc + snd_Amount msg\<rparr>))))"

section \<open>The account invariant\<close>

text \<open>Nothing is left of a schedule whose tranche is gone.\<close>

definition vest_ok :: "Account \<Rightarrow> bool" where
  "vest_ok acc \<longleftrightarrow> (VestingAmount acc = 0 \<longrightarrow>
     VestingStartHeight acc = 0 \<and> VestingCliffHeight acc = 0 \<and> VestingEndHeight acc = 0)"

definition accounts_ok :: "address set \<Rightarrow> StateMachine \<Rightarrow> bool" where
  "accounts_ok A s \<longleftrightarrow>
     kv_wf (accounts s) \<and>
     (\<forall>a acc. kv_get (accounts s) a = Some acc \<longrightarrow> vest_ok acc) \<and>
     inj_on (MemHash (Cfg s)) A \<and>
     (\<forall>h acc. cache_accounts s h = Some acc \<longrightarrow>
        acc_Address acc \<in> A \<and> h = MemHash (Cfg s) (acc_Address acc)
        \<and> acc = stored_account (acc_Address acc) s)"

text \<open>The tokens on all accounts, as a natural number.\<close>

definition account_total :: "StateMachine \<Rightarrow> nat" where
  "account_total s = kv_sum (\<lambda>acc. unat (acc_Amount acc)) (accounts s)"

lemma accounts_ok_wf: "accounts_ok A s \<Longrightarrow> kv_wf (accounts s)"
  by (simp add: accounts_ok_def)

lemma accounts_ok_vest: "accounts_ok A s \<Longrightarrow> kv_get (accounts s) a = Some acc \<Longrightarrow> vest_ok acc"
  by (simp add: accounts_ok_def)

lemma accounts_ok_inj: "accounts_ok A s \<Longrightarrow> inj_on (MemHash (Cfg s)) A"
  by (simp add: accounts_ok_def)

lemma accounts_ok_cache:
  assumes "accounts_ok A s" and "cache_accounts s h = Some acc"
  shows "acc_Address acc \<in> A" and "h = MemHash (Cfg s) (acc_Address acc)"
    and "acc = stored_account (acc_Address acc) s"
  using assms unfolding accounts_ok_def by simp_all

lemma GetAccount_stored:
  assumes "accounts_ok A s" and "a \<in> A"
  shows "GetAccount a s = stored_account a s"
proof (cases "cache_accounts s (MemHash (Cfg s) a)")
  case None
  then show ?thesis by (simp add: GetAccount_def)
next
  case (Some acc)
  note acc = accounts_ok_cache [OF assms(1) Some]
  have "acc_Address acc = a"
    by (rule inj_onD [OF accounts_ok_inj [OF assms(1)] acc(2) [symmetric] acc(1) assms(2)])
  with acc(3) show ?thesis by (simp add: GetAccount_def Some)
qed

lemma stored_account_Address [simp]: "acc_Address (stored_account a s) = a"
  by (simp add: stored_account_def new_Account_def split: option.split)

lemma stored_account_vest_ok: "accounts_ok A s \<Longrightarrow> vest_ok (stored_account a s)"
  using accounts_ok_vest [of A s a]
  by (simp add: stored_account_def new_Account_def vest_ok_def split: option.split)

lemma stored_account_Amount:
  "unat (acc_Amount (stored_account a s)) =
     (case kv_get (accounts s) a of None \<Rightarrow> 0 | Some acc \<Rightarrow> unat (acc_Amount acc))"
  by (simp add: stored_account_def new_Account_def split: option.split)

lemma new_Account_simps [simp]:
  "acc_Address (new_Account a) = a" "acc_Amount (new_Account a) = 0"
  "VestingAmount (new_Account a) = 0" "VestingStartHeight (new_Account a) = 0"
  "VestingCliffHeight (new_Account a) = 0" "VestingEndHeight (new_Account a) = 0"
  by (simp_all add: new_Account_def)

lemma clear_vesting_simps [simp]:
  "acc_Address (clearAccountVestingIfFullyVested h acc) = acc_Address acc"
  "acc_Amount (clearAccountVestingIfFullyVested h acc) = acc_Amount acc"
  by (simp_all add: clearAccountVestingIfFullyVested_def)

lemma clear_vesting_ok: "vest_ok acc \<Longrightarrow> vest_ok (clearAccountVestingIfFullyVested h acc)"
  by (simp add: clearAccountVestingIfFullyVested_def vest_ok_def)

section \<open>What a write does\<close>

lemma frame_SetAccount [frame_rules]:
  "(\<And>s x y. g (s\<lparr>cache_accounts := x, accounts := y\<rparr>) = g s) \<Longrightarrow> frame g (SetAccount acc)"
  unfolding SetAccount_def by (intro frame_rules) (simp add: Let_def)

lemma frame_AccountAdd [frame_rules]:
  "(\<And>s x y. g (s\<lparr>cache_accounts := x, accounts := y\<rparr>) = g s) \<Longrightarrow> frame g (AccountAdd a n)"
  unfolding AccountAdd_def by (intro frame_rules)

lemma frame_AccountSub [frame_rules]:
  "(\<And>s x y. g (s\<lparr>cache_accounts := x, accounts := y\<rparr>) = g s) \<Longrightarrow> frame g (AccountSub a n)"
  unfolding AccountSub_def by (intro frame_rules)

lemma frame_ValidateAccountAddWithVesting [frame_rules]: "frame g (ValidateAccountAddWithVesting msg)"
  unfolding ValidateAccountAddWithVesting_def by (intro frame_rules)

lemma frame_AccountAddWithVesting [frame_rules]:
  "(\<And>s x y. g (s\<lparr>cache_accounts := x, accounts := y\<rparr>) = g s) \<Longrightarrow> frame g (AccountAddWithVesting msg)"
  unfolding AccountAddWithVesting_def by (intro frame_rules)

text \<open>The account record that may be stored: empty accounts carry no schedule.\<close>

definition storable :: "u64 \<Rightarrow> Account \<Rightarrow> bool" where
  "storable h acc \<longleftrightarrow> vest_ok acc \<and>
     (acc_Amount acc = 0 \<longrightarrow> VestingAmount (clearAccountVestingIfFullyVested h acc) = 0)"

lemma storable_zero:
  assumes "storable h acc" and "acc_Amount acc = 0"
  shows "clearAccountVestingIfFullyVested h acc = new_Account (acc_Address acc)"
proof -
  have "vest_ok (clearAccountVestingIfFullyVested h acc)"
    using assms(1) by (simp add: storable_def clear_vesting_ok)
  with assms have "VestingAmount (clearAccountVestingIfFullyVested h acc) = 0"
    "VestingStartHeight (clearAccountVestingIfFullyVested h acc) = 0"
    "VestingCliffHeight (clearAccountVestingIfFullyVested h acc) = 0"
    "VestingEndHeight (clearAccountVestingIfFullyVested h acc) = 0"
    by (simp_all add: storable_def vest_ok_def)
  with assms(2) show ?thesis
    by (intro Account.equality) (simp_all add: new_Account_def)
qed

lemma SetAccount_result: "SetAccount acc s = (t, r) \<Longrightarrow> r = Inr ()"
  by (simp add: SetAccount_def op_simps)

lemma SetAccount_stored:
  assumes "kv_wf (accounts s)" and "storable (Height s) acc" and "SetAccount acc s = (t, r)"
  shows "stored_account b t =
    (if b = acc_Address acc then clearAccountVestingIfFullyVested (Height s) acc
     else stored_account b s)"
  using assms storable_zero [OF assms(2)]
  by (auto simp: SetAccount_def op_simps Let_def stored_account_def kv_get_set kv_get_del)

lemma SetAccount_total:
  assumes "kv_wf (accounts s)" and "SetAccount acc s = (t, r)"
  shows "account_total t + unat (acc_Amount (stored_account (acc_Address acc) s)) =
    account_total s + unat (acc_Amount acc)"
proof -
  let ?f = "\<lambda>acc. unat (acc_Amount acc)"
  let ?a = "acc_Address acc"
  let ?acc = "clearAccountVestingIfFullyVested (Height s) acc"
  have "accounts t = (if acc_Amount ?acc = 0 then kv_del ?a (accounts s)
      else kv_set ?a ?acc (accounts s))"
    using assms(2) by (auto simp: SetAccount_def op_simps Let_def)
  then show ?thesis
    using kv.total_put [OF assms(1), of "acc_Amount ?acc = 0" ?f ?acc ?a]
    by (simp add: account_total_def stored_account_Amount)
qed

lemma SetAccount_ok:
  assumes ok: "accounts_ok A s" and A: "acc_Address acc \<in> A" and acc: "storable (Height s) acc"
    and t: "SetAccount acc s = (t, r)"
  shows "accounts_ok A t"
proof -
  let ?acc = "clearAccountVestingIfFullyVested (Height s) acc"
  have fields: "accounts t = (if acc_Amount acc = 0 then kv_del (acc_Address acc) (accounts s)
      else kv_set (acc_Address acc) ?acc (accounts s))" "Cfg t = Cfg s"
    "cache_accounts t = (cache_accounts s)(MemHash (Cfg s) (acc_Address acc) \<mapsto> ?acc)"
    using t by (auto simp: SetAccount_def op_simps Let_def)
  have stored: "stored_account b t = (if b = acc_Address acc then ?acc else stored_account b s)" for b
    by (rule SetAccount_stored [OF accounts_ok_wf [OF ok] acc t])
  have wf: "kv_wf (accounts t)"
    using accounts_ok_wf [OF ok] by (simp add: fields(1) kv_wf_set kv_wf_del)
  have vest: "vest_ok x" if "kv_get (accounts t) a = Some x" for a x
    using that accounts_ok_wf [OF ok] accounts_ok_vest [OF ok] acc
    by (auto simp: fields(1) kv_get_set kv_get_del storable_def clear_vesting_ok split: if_splits)
  have cache: "acc_Address x \<in> A \<and> h = MemHash (Cfg t) (acc_Address x)
      \<and> x = stored_account (acc_Address x) t" if "cache_accounts t h = Some x" for h x
  proof (cases "h = MemHash (Cfg s) (acc_Address acc)")
    case True
    with that A show ?thesis by (auto simp: fields stored)
  next
    case False
    with that have x: "cache_accounts s h = Some x" by (simp add: fields)
    note c = accounts_ok_cache [OF ok x]
    from False c(2) have "acc_Address x \<noteq> acc_Address acc" by auto
    with c show ?thesis by (simp add: stored fields)
  qed
  show ?thesis
    using wf vest cache accounts_ok_inj [OF ok] unfolding accounts_ok_def fields(2) by blast
qed

section \<open>Credit and debit\<close>

text \<open>The balance of an address in the store, as a natural number.\<close>

definition balance :: "address \<Rightarrow> StateMachine \<Rightarrow> nat" where
  "balance a s = unat (acc_Amount (stored_account a s))"

definition spendable :: "address \<Rightarrow> StateMachine \<Rightarrow> nat" where
  "spendable a s = unat (AccountSpendableAmount (Height s) (Some (stored_account a s)))"

lemma spendable_le: "spendable a s \<le> balance a s"
  by (auto simp: spendable_def balance_def AccountSpendableAmount_def Let_def unat_sub not_le
      dest: less_imp_le)

lemma sub_ge_self: "l < n \<Longrightarrow> n \<le> n - l \<Longrightarrow> l = 0" for n l :: u64
proof -
  assume "l < n" "n \<le> n - l"
  then have "unat l = 0"
    by (auto simp: word_le_nat_alt word_less_nat_alt unat_sub)
  then show "l = 0" by (simp add: unat_eq_0)
qed

lemma SetAccount_step:
  assumes "accounts_ok A s" and "acc_Address acc \<in> A" and "storable (Height s) acc"
    and "SetAccount acc s = (t, r)"
  shows "accounts_ok A t"
    and "account_total t + balance (acc_Address acc) s = account_total s + unat (acc_Amount acc)"
    and "balance b t = (if b = acc_Address acc then unat (acc_Amount acc) else balance b s)"
  using SetAccount_ok [OF assms] SetAccount_total [OF accounts_ok_wf [OF assms(1)] assms(4)]
    SetAccount_stored [OF accounts_ok_wf [OF assms(1)] assms(3,4), of b]
  by (simp_all add: balance_def)

lemma AccountAdd_ok:
  assumes ok: "accounts_ok A s" and a: "a \<in> A" and t: "AccountAdd a n s = (t, Inr ())"
  shows "accounts_ok A t" and "account_total t = account_total s + unat n"
    and "balance b t = balance b s + (if b = a then unat n else 0)"
proof -
  let ?acc = "(stored_account a s)\<lparr>acc_Amount := acc_Amount (stored_account a s) + n\<rparr>"
  have "accounts_ok A t \<and> account_total t = account_total s + unat n
      \<and> balance b t = balance b s + (if b = a then unat n else 0)"
  proof (cases "n = 0")
    case True
    with t ok show ?thesis by (simp add: AccountAdd_def op_simps)
  next
    case False
    with t have no: "unat (acc_Amount (stored_account a s)) + unat n < 18446744073709551616"
      and set: "SetAccount ?acc s = (t, Inr ())"
      by (auto simp: AccountAdd_def op_simps GetAccount_stored [OF ok a] u64_simps split: if_splits)
    from no have sum: "unat (acc_Amount ?acc) = balance a s + unat n"
      by (simp add: balance_def unat_add_u64)
    have "unat (acc_Amount ?acc) \<noteq> 0"
      unfolding sum using False by (simp add: unat_eq_0)
    then have "acc_Amount ?acc \<noteq> 0"
      by (metis unat_0)
    then have st: "storable (Height s) ?acc"
      using stored_account_vest_ok [OF ok, of a] by (simp add: storable_def vest_ok_def)
    show ?thesis
      using SetAccount_step [OF ok _ st set] a sum by auto
  qed
  then show "accounts_ok A t" "account_total t = account_total s + unat n"
    "balance b t = balance b s + (if b = a then unat n else 0)"
    by auto
qed

lemma AccountAdd_err:
  assumes "accounts_ok A s" and "a \<in> A" and "AccountAdd a n s = (t, Inl e)"
  shows "t = s" and "e = ErrInvalidAmount" and "18446744073709551616 \<le> balance a s + unat n"
  using assms(3) SetAccount_result
  by (auto simp: AccountAdd_def op_simps GetAccount_stored [OF assms(1,2)] u64_simps balance_def
      split: if_splits)

lemma AccountSub_ok:
  assumes ok: "accounts_ok A s" and a: "a \<in> A" and t: "AccountSub a n s = (t, Inr ())"
  shows "accounts_ok A t" and "account_total t + unat n = account_total s"
    and "balance b t + (if b = a then unat n else 0) = balance b s" and "unat n \<le> spendable a s"
proof -
  let ?acc = "(stored_account a s)\<lparr>acc_Amount := acc_Amount (stored_account a s) - n\<rparr>"
  let ?locked = "AccountLockedAmount (Height s) (stored_account a s)"
  have "accounts_ok A t \<and> account_total t + unat n = account_total s
      \<and> balance b t + (if b = a then unat n else 0) = balance b s \<and> unat n \<le> spendable a s"
  proof (cases "n = 0")
    case True
    with t ok show ?thesis by (simp add: AccountSub_def op_simps)
  next
    case False
    with t have le: "n \<le> AccountSpendableAmount (Height s) (Some (stored_account a s))"
      and set: "SetAccount ?acc s = (t, Inr ())"
      by (auto simp: AccountSub_def op_simps GetAccount_stored [OF ok a] split: if_splits)
    from le have sp: "unat n \<le> spendable a s"
      by (simp add: spendable_def word_le_nat_alt)
    with spendable_le [of a s] have diff: "unat (acc_Amount ?acc) = balance a s - unat n"
      by (simp add: balance_def unat_sub word_le_nat_alt)
    have st: "storable (Height s) ?acc"
    proof -
      have "?locked = 0" if "acc_Amount ?acc = 0"
        using that le False
        by (auto simp: AccountSpendableAmount_def Let_def not_le sub_ge_self split: if_splits)
      moreover have "AccountLockedAmount (Height s) ?acc = ?locked"
        by (simp add: AccountLockedAmount_def AccountVestedAmount_def Let_def)
      ultimately show ?thesis
        using stored_account_vest_ok [OF ok, of a]
        by (auto simp: storable_def vest_ok_def clearAccountVestingIfFullyVested_def)
    qed
    show ?thesis
      using SetAccount_step(1,2) [OF ok _ st set] SetAccount_step(3) [OF ok _ st set, of b]
        a diff sp spendable_le [of a s] by auto
  qed
  then show "accounts_ok A t" "account_total t + unat n = account_total s"
    "balance b t + (if b = a then unat n else 0) = balance b s" "unat n \<le> spendable a s"
    by auto
qed

lemma AccountSub_err:
  assumes "accounts_ok A s" and "a \<in> A" and "AccountSub a n s = (t, Inl e)"
  shows "t = s" and "e = ErrInsufficientFunds" and "spendable a s < unat n"
  using assms(3) SetAccount_result
  by (auto simp: AccountSub_def op_simps GetAccount_stored [OF assms(1,2)] spendable_def
      word_less_nat_alt split: if_splits)

lemma u64_add_nonzero:
  "unat a + unat n < 18446744073709551616 \<Longrightarrow> n \<noteq> 0 \<Longrightarrow> a + n \<noteq> 0" for a n :: u64
  by (metis add_is_0 unat_0 unat_add_u64 unat_eq_0)

lemma AccountAddWithVesting_ok:
  assumes ok: "accounts_ok A s" and a: "snd_ToAddress msg \<in> A" and n: "snd_Amount msg \<noteq> 0"
    and t: "AccountAddWithVesting msg s = (t, Inr ())"
  shows "accounts_ok A t" and "account_total t = account_total s + unat (snd_Amount msg)"
    and "balance b t = balance b s + (if b = snd_ToAddress msg then unat (snd_Amount msg) else 0)"
proof -
  let ?a = "snd_ToAddress msg" and ?n = "snd_Amount msg"
  let ?old = "stored_account ?a s"
  have no: "unat (acc_Amount ?old) + unat ?n < 18446744073709551616"
      "unat (VestingAmount ?old) + unat ?n < 18446744073709551616"
    using t by (auto simp: AccountAddWithVesting_def op_simps GetAccount_stored [OF ok a] u64_simps
        split: if_splits)
  obtain acc where set: "SetAccount acc s = (t, Inr ())" and acc: "acc_Address acc = ?a"
      "acc_Amount acc = acc_Amount ?old + ?n" "VestingAmount acc \<noteq> 0"
    using t n u64_add_nonzero [OF no(2) n]
    by (auto simp: AccountAddWithVesting_def ValidateAccountAddWithVesting_def op_simps
        GetAccount_stored [OF ok a] Let_def split: if_splits)
  have sum: "unat (acc_Amount acc) = balance ?a s + unat ?n"
    using no(1) by (simp add: acc balance_def unat_add_u64)
  have st: "storable (Height s) acc"
    using u64_add_nonzero [OF no(1) n] acc by (simp add: storable_def vest_ok_def)
  show "accounts_ok A t" "account_total t = account_total s + unat ?n"
    "balance b t = balance b s + (if b = ?a then unat ?n else 0)"
    using SetAccount_step(1,2) [OF ok _ st set] SetAccount_step(3) [OF ok _ st set, of b] a acc(1) sum
    by auto
qed

section \<open>Linear vesting\<close>

text \<open>As long as the product of tranche and elapsed blocks fits into 64 bits, the vested part is
  the linear share, and it grows with the height.\<close>

lemma unat_vested:
  assumes "VestingStartHeight acc \<le> h" and "VestingCliffHeight acc \<le> h"
    and "h < VestingEndHeight acc"
    and "unat (VestingAmount acc) * unat (h - VestingStartHeight acc) < 18446744073709551616"
  shows "unat (AccountVestedAmount h acc) =
    unat (VestingAmount acc) * (unat h - unat (VestingStartHeight acc))
      div (unat (VestingEndHeight acc) - unat (VestingStartHeight acc))"
proof -
  have "VestingStartHeight acc \<le> VestingEndHeight acc"
    using assms(1,3) by (meson le_less_trans less_imp_le)
  with assms iffD2 [OF not_le assms(3)] show ?thesis
    by (simp add: AccountVestedAmount_def not_less Let_def unat_div_distrib unat_mult_u64 unat_sub)
qed

text \<open>The range of heights in which the product does not wrap.\<close>

definition vesting_fits :: "Account \<Rightarrow> bool" where
  "vesting_fits acc \<longleftrightarrow>
     unat (VestingAmount acc) * (unat (VestingEndHeight acc) - unat (VestingStartHeight acc))
       < 18446744073709551616"

lemma vested_mono:
  assumes fits: "vesting_fits acc" and h: "h1 \<le> h2"
  shows "AccountVestedAmount h1 acc \<le> AccountVestedAmount h2 acc"
proof -
  let ?V = "unat (VestingAmount acc)" and ?S = "unat (VestingStartHeight acc)"
  let ?E = "unat (VestingEndHeight acc)"
  have run: "unat (AccountVestedAmount h acc) = ?V * (unat h - ?S) div (?E - ?S) \<and> unat h - ?S \<le> ?E - ?S"
    if "VestingStartHeight acc \<le> h" "VestingCliffHeight acc \<le> h" "h < VestingEndHeight acc" for h
  proof -
    have le: "unat h - ?S \<le> ?E - ?S"
      using that by (simp add: word_less_nat_alt)
    then have "?V * (unat h - ?S) < 18446744073709551616"
      using fits unfolding vesting_fits_def by (meson le_less_trans mult_le_mono2)
    with that le show ?thesis by (simp add: unat_vested unat_sub)
  qed
  consider "h1 < VestingStartHeight acc \<or> h1 < VestingCliffHeight acc"
    | "VestingStartHeight acc \<le> h1" "VestingCliffHeight acc \<le> h1" "VestingEndHeight acc \<le> h1"
    | "VestingStartHeight acc \<le> h1" "VestingCliffHeight acc \<le> h1" "h1 < VestingEndHeight acc"
    by (meson not_le)
  then show ?thesis
  proof cases
    case 1
    then show ?thesis by (auto simp: AccountVestedAmount_def)
  next
    case 2
    with h have "VestingStartHeight acc \<le> h2" "VestingCliffHeight acc \<le> h2" "VestingEndHeight acc \<le> h2"
      by (auto intro: order_trans)
    with 2 show ?thesis by (auto simp: AccountVestedAmount_def)
  next
    case 3
    note r1 = run [OF this]
    have h2: "VestingStartHeight acc \<le> h2" "VestingCliffHeight acc \<le> h2"
      using 3 h by (auto intro: order_trans)
    show ?thesis
    proof (cases "h2 < VestingEndHeight acc")
      case True
      with run [OF h2 True] r1 h show ?thesis
        by (simp add: word_le_nat_alt div_le_mono mult_le_mono2 diff_le_mono)
    next
      case False
      then have "AccountVestedAmount h2 acc = VestingAmount acc"
        using h2 by (auto simp: AccountVestedAmount_def)
      with r1 share_le [of "unat h1 - ?S" "?E - ?S" ?V] show ?thesis
        by (simp add: word_le_nat_alt)
    qed
  qed
qed

end
