(* ===== verification/Pools.thy ===== *)
theory Pools
  imports Accounts "HOL-Library.Multiset"
begin

text \<open>
  Pools, the supply tracker and minting (second part of fsm/account.go): \<open>PoolAdd\<close> and
  \<open>AddToTotalSupply\<close> add without a check and wrap; the staked counters check.  The committee
  lists of the supply tracker are kept without empty entries, ordered by stake and then by id.
\<close>

section \<open>Pools\<close>

definition GetPool :: "u64 \<Rightarrow> StateMachine \<Rightarrow> Pool" where
  "GetPool i s =
     (case kv_get (pools s) i of
        None \<Rightarrow> new_Pool i
      | Some p \<Rightarrow> p\<lparr>pool_Id := i\<rparr>)"

definition GetPools :: "StateMachine \<Rightarrow> Pool list" where
  "GetPools s = kv_values (pools s)"

definition GetPoolBalance :: "u64 \<Rightarrow> StateMachine \<Rightarrow> u64" where
  "GetPoolBalance i s = pool_Amount (GetPool i s)"

definition SetPool :: "Pool \<Rightarrow> unit fsm" where
  "SetPool p =
     writes (\<lambda>s. s\<lparr>pools :=
       (if pool_Amount p = 0 then kv_del (pool_Id p) (pools s)
        else kv_set (pool_Id p) p (pools s))\<rparr>)"

definition SetPools :: "Pool list \<Rightarrow> Supply \<Rightarrow> Supply fsm" where
  "SetPools ps =
     fold_op (\<lambda>p sup.
       if MaxUint64 - pool_Amount p < Total sup then fail ErrInvalidAmount
       else bindE (SetPool p) (\<lambda>_. ok (sup\<lparr>Total := Total sup + pool_Amount p\<rparr>))) ps"

definition PoolAdd :: "u64 \<Rightarrow> u64 \<Rightarrow> unit fsm" where
  "PoolAdd i amountToAdd =
     bindE (reads (GetPool i)) (\<lambda>p.
       SetPool (p\<lparr>pool_Amount := pool_Amount p + amountToAdd\<rparr>))"

definition PoolSub :: "u64 \<Rightarrow> u64 \<Rightarrow> unit fsm" where
  "PoolSub i amountToSub =
     bindE (reads (GetPool i)) (\<lambda>p.
       if pool_Amount p < amountToSub then fail ErrInsufficientFunds
       else SetPool (p\<lparr>pool_Amount := pool_Amount p - amountToSub\<rparr>))"

definition SetPoolPoints :: "u64 \<Rightarrow> PoolPoints list \<Rightarrow> u64 \<Rightarrow> unit fsm" where
  "SetPoolPoints chainId points totalPoolPoints =
     bindE (reads (GetPool chainId)) (\<lambda>p.
       SetPool (p\<lparr>pool_Points := points, TotalPoolPoints := totalPoolPoints\<rparr>))"

section \<open>Supply\<close>

definition GetSupply :: "StateMachine \<Rightarrow> Supply" where
  "GetSupply s = supplyTracker s"

definition SetSupply :: "Supply \<Rightarrow> unit fsm" where
  "SetSupply x = writes (\<lambda>s. s\<lparr>supplyTracker := x\<rparr>)"

definition AddToTotalSupply :: "u64 \<Rightarrow> unit fsm" where
  "AddToTotalSupply amount =
     bindE (reads GetSupply) (\<lambda>sup. SetSupply (sup\<lparr>Total := Total sup + amount\<rparr>))"

definition AddToStakedSupply :: "u64 \<Rightarrow> unit fsm" where
  "AddToStakedSupply amount =
     bindE (reads GetSupply) (\<lambda>sup.
       if MaxUint64 - amount < Staked sup then fail ErrInvalidAmount
       else SetSupply (sup\<lparr>Staked := Staked sup + amount\<rparr>))"

definition AddToDelegateSupply :: "u64 \<Rightarrow> unit fsm" where
  "AddToDelegateSupply amount =
     bindE (reads GetSupply) (\<lambda>sup.
       if MaxUint64 - amount < DelegatedOnly sup then fail ErrInvalidAmount
       else SetSupply (sup\<lparr>DelegatedOnly := DelegatedOnly sup + amount\<rparr>))"

definition SubFromTotalSupply :: "u64 \<Rightarrow> unit fsm" where
  "SubFromTotalSupply amount =
     bindE (reads GetSupply) (\<lambda>sup.
       if Total sup < amount then fail ErrInsufficientSupply
       else SetSupply (sup\<lparr>Total := Total sup - amount\<rparr>))"

definition SubFromStakedSupply :: "u64 \<Rightarrow> unit fsm" where
  "SubFromStakedSupply amount =
     bindE (reads GetSupply) (\<lambda>sup.
       if Staked sup < amount then fail ErrInsufficientSupply
       else SetSupply (sup\<lparr>Staked := Staked sup - amount\<rparr>))"

definition SubFromDelegateSupply :: "u64 \<Rightarrow> unit fsm" where
  "SubFromDelegateSupply amount =
     bindE (reads GetSupply) (\<lambda>sup.
       if DelegatedOnly sup < amount then fail ErrInsufficientSupply
       else SetSupply (sup\<lparr>DelegatedOnly := DelegatedOnly sup - amount\<rparr>))"

section \<open>The committee lists of the supply tracker\<close>

text \<open>The comparison function of \<open>FilterAndSortPool\<close>: more tokens first, then the smaller id.\<close>

datatype pool_rank = PoolRank (rank_Amount: u64) (rank_Id: u64)

instantiation pool_rank :: linorder
begin

definition less_eq_pool_rank :: "pool_rank \<Rightarrow> pool_rank \<Rightarrow> bool" where
  "less_eq_pool_rank p q \<longleftrightarrow>
     (if rank_Amount p = rank_Amount q then rank_Id p \<le> rank_Id q else rank_Amount q < rank_Amount p)"

definition less_pool_rank :: "pool_rank \<Rightarrow> pool_rank \<Rightarrow> bool" where
  "less_pool_rank p q \<longleftrightarrow>
     (if rank_Amount p = rank_Amount q then rank_Id p < rank_Id q else rank_Amount q < rank_Amount p)"

instance
proof
  fix x y z :: pool_rank
  show "(x < y) = (x \<le> y \<and> \<not> y \<le> x)"
    by (auto simp: less_eq_pool_rank_def less_pool_rank_def)
  show "x \<le> x"
    by (simp add: less_eq_pool_rank_def)
  show "x \<le> y \<Longrightarrow> y \<le> z \<Longrightarrow> x \<le> z"
    by (auto simp: less_eq_pool_rank_def split: if_splits)
  show "x \<le> y \<Longrightarrow> y \<le> x \<Longrightarrow> x = y"
    by (auto simp: less_eq_pool_rank_def pool_rank.expand split: if_splits)
  show "x \<le> y \<or> y \<le> x"
    by (auto simp: less_eq_pool_rank_def)
qed

end

definition rank_of :: "Pool \<Rightarrow> pool_rank" where
  "rank_of p = PoolRank (pool_Amount p) (pool_Id p)"

definition FilterAndSortPool :: "Pool list \<Rightarrow> Pool list" where
  "FilterAndSortPool x = sort_key rank_of (filter (\<lambda>v. pool_Amount v \<noteq> 0) x)"

datatype SupplyPoolType = CommitteesWithDelegations | DelegationsOnly

fun getSupplyPools :: "SupplyPoolType \<Rightarrow> Supply \<Rightarrow> Pool list" where
  "getSupplyPools CommitteesWithDelegations x = CommitteeStaked x"
| "getSupplyPools DelegationsOnly x = CommitteeDelegatedOnly x"

text \<open>Writing through the pointer \<open>getSupplyPools\<close> returns.\<close>

fun setSupplyPools :: "SupplyPoolType \<Rightarrow> Pool list \<Rightarrow> Supply \<Rightarrow> Supply" where
  "setSupplyPools CommitteesWithDelegations l x = x\<lparr>CommitteeStaked := l\<rparr>"
| "setSupplyPools DelegationsOnly l x = x\<lparr>CommitteeDelegatedOnly := l\<rparr>"

fun pool_index :: "Pool list \<Rightarrow> u64 \<Rightarrow> nat" where
  "pool_index [] chainId = 0"
| "pool_index (p # ps) chainId = (if pool_Id p = chainId then 0 else Suc (pool_index ps chainId))"

text \<open>The list, extended when the id is new, and the position of the entry in it.\<close>

definition findOrCreateSupplyPool :: "Pool list \<Rightarrow> u64 \<Rightarrow> Pool list \<times> nat" where
  "findOrCreateSupplyPool arr chainId =
     (let i = pool_index arr chainId in
      (if i < length arr then arr else arr @ [new_Pool chainId], i))"

definition executeOnSupplyPool ::
  "u64 \<Rightarrow> SupplyPoolType \<Rightarrow> (Pool \<Rightarrow> err + Pool) \<Rightarrow> unit fsm" where
  "executeOnSupplyPool chainId targetType callback =
     bindE (reads GetSupply) (\<lambda>sup.
       let (arr, i) = findOrCreateSupplyPool (getSupplyPools targetType sup) chainId in
       case callback (arr ! i) of
         Inl e \<Rightarrow> fail e
       | Inr p \<Rightarrow> SetSupply (setSupplyPools targetType (FilterAndSortPool (arr[i := p])) sup))"

definition addToSupplyPool :: "u64 \<Rightarrow> u64 \<Rightarrow> SupplyPoolType \<Rightarrow> unit fsm" where
  "addToSupplyPool chainId amount targetType =
     executeOnSupplyPool chainId targetType (\<lambda>p.
       if MaxUint64 - amount < pool_Amount p then Inl ErrInvalidAmount
       else Inr (p\<lparr>pool_Amount := pool_Amount p + amount\<rparr>))"

definition subFromSupplyPool :: "u64 \<Rightarrow> u64 \<Rightarrow> SupplyPoolType \<Rightarrow> unit fsm" where
  "subFromSupplyPool chainId amount targetType =
     executeOnSupplyPool chainId targetType (\<lambda>p.
       if pool_Amount p < amount then Inl ErrInsufficientSupply
       else Inr (p\<lparr>pool_Amount := pool_Amount p - amount\<rparr>))"

definition getSupplyPool :: "u64 \<Rightarrow> SupplyPoolType \<Rightarrow> StateMachine \<Rightarrow> Pool" where
  "getSupplyPool chainId targetType s =
     (let (arr, i) = findOrCreateSupplyPool (getSupplyPools targetType (GetSupply s)) chainId in
      arr ! i)"

definition AddToCommitteeSupplyForChain :: "u64 \<Rightarrow> u64 \<Rightarrow> unit fsm" where
  "AddToCommitteeSupplyForChain chainId amount =
     addToSupplyPool chainId amount CommitteesWithDelegations"

definition AddToDelegateSupplyForChain :: "u64 \<Rightarrow> u64 \<Rightarrow> unit fsm" where
  "AddToDelegateSupplyForChain chainId amount = addToSupplyPool chainId amount DelegationsOnly"

definition SubFromCommitteeStakedSupplyForChain :: "u64 \<Rightarrow> u64 \<Rightarrow> unit fsm" where
  "SubFromCommitteeStakedSupplyForChain chainId amount =
     subFromSupplyPool chainId amount CommitteesWithDelegations"

definition SubFromDelegateStakedSupplyForChain :: "u64 \<Rightarrow> u64 \<Rightarrow> unit fsm" where
  "SubFromDelegateStakedSupplyForChain chainId amount =
     subFromSupplyPool chainId amount DelegationsOnly"

definition GetCommitteeStakedSupplyForChain :: "u64 \<Rightarrow> StateMachine \<Rightarrow> Pool" where
  "GetCommitteeStakedSupplyForChain chainId = getSupplyPool chainId CommitteesWithDelegations"

definition GetDelegateStakedSupplyForChain :: "u64 \<Rightarrow> StateMachine \<Rightarrow> Pool" where
  "GetDelegateStakedSupplyForChain chainId = getSupplyPool chainId DelegationsOnly"

section \<open>Minting and fees\<close>

definition MintToPool :: "u64 \<Rightarrow> u64 \<Rightarrow> unit fsm" where
  "MintToPool i amount = bindE (AddToTotalSupply amount) (\<lambda>_. PoolAdd i amount)"

definition MintToAccount :: "address \<Rightarrow> u64 \<Rightarrow> unit fsm" where
  "MintToAccount a amount =
     (if amount = 0 then ok ()
      else bindE (AddToTotalSupply amount) (\<lambda>_. AccountAdd a amount))"

definition AccountDeductFees :: "address \<Rightarrow> u64 \<Rightarrow> unit fsm" where
  "AccountDeductFees a fee =
     bindE (AccountSub a fee) (\<lambda>_.
     bindE (reads (\<lambda>s. cfg_ChainId (Cfg s))) (\<lambda>chainId. PoolAdd chainId fee))"

definition maybeFaucetTopUpForSendTx :: "address \<Rightarrow> u64 \<Rightarrow> unit fsm" where
  "maybeFaucetTopUpForSendTx sender required =
     bindE (reads (\<lambda>s. TrimSpace (FaucetAddress (Cfg s)))) (\<lambda>faucetStr.
       if faucetStr = [] then ok ()
       else case DecodeString (TrimPrefix (ToLower faucetStr) ''0x'') of
         None \<Rightarrow> fail ErrInvalidAddress
       | Some faucetAddr \<Rightarrow>
           if length faucetAddr \<noteq> 20 then fail ErrAddressSize
           else if sender \<noteq> faucetAddr then ok ()
           else bindE (reads (GetAccountSpendableBalance sender)) (\<lambda>bal.
             if required \<le> bal then ok ()
             else MintToAccount sender (required - bal)))"

section \<open>Frames\<close>

lemma frame_SetPool [frame_rules]:
  "(\<And>s x. g (s\<lparr>pools := x\<rparr>) = g s) \<Longrightarrow> frame g (SetPool p)"
  unfolding SetPool_def by (intro frame_rules) simp

lemma frame_PoolAdd [frame_rules]: "(\<And>s x. g (s\<lparr>pools := x\<rparr>) = g s) \<Longrightarrow> frame g (PoolAdd i n)"
  unfolding PoolAdd_def by (intro frame_rules)

lemma frame_PoolSub [frame_rules]: "(\<And>s x. g (s\<lparr>pools := x\<rparr>) = g s) \<Longrightarrow> frame g (PoolSub i n)"
  unfolding PoolSub_def by (intro frame_rules)

lemma frame_SetSupply [frame_rules]:
  "(\<And>s x. g (s\<lparr>supplyTracker := x\<rparr>) = g s) \<Longrightarrow> frame g (SetSupply x)"
  unfolding SetSupply_def by (intro frame_rules) simp

lemma frame_supply [frame_rules]:
  assumes "\<And>s x. g (s\<lparr>supplyTracker := x\<rparr>) = g s"
  shows "frame g (AddToTotalSupply n)" "frame g (AddToStakedSupply n)"
    "frame g (AddToDelegateSupply n)" "frame g (SubFromTotalSupply n)"
    "frame g (SubFromStakedSupply n)" "frame g (SubFromDelegateSupply n)"
    "frame g (AddToCommitteeSupplyForChain c n)" "frame g (AddToDelegateSupplyForChain c n)"
    "frame g (SubFromCommitteeStakedSupplyForChain c n)"
    "frame g (SubFromDelegateStakedSupplyForChain c n)"
  unfolding AddToTotalSupply_def AddToStakedSupply_def AddToDelegateSupply_def
    SubFromTotalSupply_def SubFromStakedSupply_def SubFromDelegateSupply_def
    AddToCommitteeSupplyForChain_def AddToDelegateSupplyForChain_def addToSupplyPool_def
    SubFromCommitteeStakedSupplyForChain_def SubFromDelegateStakedSupplyForChain_def
    subFromSupplyPool_def executeOnSupplyPool_def
  by (intro frame_rules assms)+

section \<open>Tokens held\<close>

definition pool_total :: "StateMachine \<Rightarrow> nat" where
  "pool_total s = kv_sum (\<lambda>p. unat (pool_Amount p)) (pools s)"

definition stake_total :: "StateMachine \<Rightarrow> nat" where
  "stake_total s = kv_sum (\<lambda>v. unat (val_StakedAmount v)) (validators s)"

text \<open>All tokens in accounts, pools and stakes.\<close>

definition held :: "StateMachine \<Rightarrow> nat" where
  "held s = account_total s + pool_total s + stake_total s"

definition funds_ok :: "address set \<Rightarrow> StateMachine \<Rightarrow> bool" where
  "funds_ok A s \<longleftrightarrow> accounts_ok A s \<and> kv_wf (pools s) \<and> kv_wf (validators s)"

lemma funds_cache_simps [simp]:
  "funds_ok A (s\<lparr>cache_valParams := c\<rparr>) = funds_ok A s"
  "held (s\<lparr>cache_valParams := c\<rparr>) = held s"
  by (simp_all add: funds_ok_def accounts_ok_def stored_account_def held_def account_total_def
      pool_total_def stake_total_def)

lemma accounts_ok_cong:
  "accounts t = accounts s \<Longrightarrow> Cfg t = Cfg s \<Longrightarrow> cache_accounts t = cache_accounts s \<Longrightarrow>
     accounts_ok A t = accounts_ok A s"
  by (simp add: accounts_ok_def stored_account_def)

lemma account_total_cong: "accounts t = accounts s \<Longrightarrow> account_total t = account_total s"
  by (simp add: account_total_def)

definition pool_balance :: "u64 \<Rightarrow> StateMachine \<Rightarrow> nat" where
  "pool_balance i s = unat (pool_Amount (GetPool i s))"

lemma GetPool_Id [simp]: "pool_Id (GetPool i s) = i"
  by (simp add: GetPool_def new_Pool_def split: option.split)

lemma pool_balance_eq:
  "pool_balance i s = (case kv_get (pools s) i of None \<Rightarrow> 0 | Some p \<Rightarrow> unat (pool_Amount p))"
  by (simp add: pool_balance_def GetPool_def new_Pool_def split: option.split)

lemma pool_balance_le: "kv_wf (pools s) \<Longrightarrow> pool_balance i s \<le> pool_total s"
  using kv.total_ge [of "pools s" i _ "\<lambda>p. unat (pool_Amount p)"]
  by (auto simp: pool_balance_eq pool_total_def split: option.split)

lemma SetPool_step:
  assumes "kv_wf (pools s)" and "SetPool p s = (t, r)"
  shows "r = Inr ()" and "kv_wf (pools t)"
    and "pool_total t + pool_balance (pool_Id p) s = pool_total s + unat (pool_Amount p)"
    and "pool_balance i t = (if i = pool_Id p then unat (pool_Amount p) else pool_balance i s)"
proof -
  have t: "r = Inr ()" "pools t = (if pool_Amount p = 0 then kv_del (pool_Id p) (pools s)
      else kv_set (pool_Id p) p (pools s))"
    using assms(2) by (auto simp: SetPool_def op_simps)
  then show "r = Inr ()" "kv_wf (pools t)"
    using assms(1) by (simp_all add: kv_wf_set kv_wf_del)
  show "pool_total t + pool_balance (pool_Id p) s = pool_total s + unat (pool_Amount p)"
    using kv.total_put [OF assms(1), of "pool_Amount p = 0" "\<lambda>p. unat (pool_Amount p)" p "pool_Id p"]
    by (simp add: t pool_total_def pool_balance_eq)
  show "pool_balance i t = (if i = pool_Id p then unat (pool_Amount p) else pool_balance i s)"
    using assms(1) by (auto simp: t pool_balance_eq kv_get_set kv_get_del)
qed

lemma PoolAdd_step:
  assumes wf: "kv_wf (pools s)" and room: "pool_balance i s + unat n < 18446744073709551616"
    and t: "PoolAdd i n s = (t, r)"
  shows "r = Inr ()" and "kv_wf (pools t)" and "pool_total t = pool_total s + unat n"
    and "pool_balance j t = pool_balance j s + (if j = i then unat n else 0)"
proof -
  let ?p = "(GetPool i s)\<lparr>pool_Amount := pool_Amount (GetPool i s) + n\<rparr>"
  have set: "SetPool ?p s = (t, r)"
    using t by (simp add: PoolAdd_def op_simps)
  have sum: "unat (pool_Amount ?p) = pool_balance i s + unat n"
    using room by (simp add: pool_balance_def unat_add_u64)
  show "r = Inr ()" "kv_wf (pools t)" "pool_total t = pool_total s + unat n"
    "pool_balance j t = pool_balance j s + (if j = i then unat n else 0)"
    using SetPool_step(1-3) [OF wf set] SetPool_step(4) [OF wf set, of j] sum by auto
qed

lemma PoolSub_step:
  assumes wf: "kv_wf (pools s)" and t: "PoolSub i n s = (t, Inr ())"
  shows "kv_wf (pools t)" and "pool_total t + unat n = pool_total s"
    and "pool_balance j t + (if j = i then unat n else 0) = pool_balance j s"
proof -
  let ?p = "(GetPool i s)\<lparr>pool_Amount := pool_Amount (GetPool i s) - n\<rparr>"
  have set: "SetPool ?p s = (t, Inr ())" and le: "n \<le> pool_Amount (GetPool i s)"
    using t by (auto simp: PoolSub_def op_simps split: if_splits)
  have diff: "unat (pool_Amount ?p) = pool_balance i s - unat n" "unat n \<le> pool_balance i s"
    using le by (simp_all add: pool_balance_def unat_sub word_le_nat_alt)
  show "kv_wf (pools t)" "pool_total t + unat n = pool_total s"
    "pool_balance j t + (if j = i then unat n else 0) = pool_balance j s"
    using SetPool_step(2,3) [OF wf set] SetPool_step(4) [OF wf set, of j] diff by auto
qed

section \<open>Moving tokens\<close>

text \<open>
  The contract of a debit and of a credit, whatever holds the tokens.  A credit may rely on there
  being room below \<open>2 ^ 64\<close> in the total; that is what makes the unchecked \<open>PoolAdd\<close> safe in a
  transfer: the tokens it receives have just been taken out of the same total.
\<close>

locale token_source =
  fixes debit :: "'k \<Rightarrow> u64 \<Rightarrow> unit fsm"
    and inv :: "StateMachine \<Rightarrow> bool"
    and tot :: "StateMachine \<Rightarrow> nat"
    and src :: "'k set"
  assumes debit_inv: "inv s \<Longrightarrow> k \<in> src \<Longrightarrow> debit k n s = (t, Inr ()) \<Longrightarrow> inv t"
    and debit_tot: "inv s \<Longrightarrow> k \<in> src \<Longrightarrow> debit k n s = (t, Inr ()) \<Longrightarrow> tot t + unat n = tot s"
begin

text \<open>Nobody can take out more than there is.\<close>

lemma debit_bounded:
  "inv s \<Longrightarrow> k \<in> src \<Longrightarrow> tot s < unat n \<Longrightarrow> \<exists>t e. debit k n s = (t, Inl e)"
  using debit_tot [of s k n] by (cases "debit k n s"; cases "snd (debit k n s)") force+

end

locale token_sink =
  fixes credit :: "'k \<Rightarrow> u64 \<Rightarrow> unit fsm"
    and inv :: "StateMachine \<Rightarrow> bool"
    and tot :: "StateMachine \<Rightarrow> nat"
    and dst :: "'k set"
  assumes credit_inv: "inv s \<Longrightarrow> k \<in> dst \<Longrightarrow> tot s + unat n < 18446744073709551616 \<Longrightarrow>
      credit k n s = (t, Inr ()) \<Longrightarrow> inv t"
    and credit_tot: "inv s \<Longrightarrow> k \<in> dst \<Longrightarrow> tot s + unat n < 18446744073709551616 \<Longrightarrow>
      credit k n s = (t, Inr ()) \<Longrightarrow> tot t = tot s + unat n"

locale transfer = token_source debit inv tot src + token_sink credit inv tot dst
  for debit :: "'k \<Rightarrow> u64 \<Rightarrow> unit fsm" and credit :: "'l \<Rightarrow> u64 \<Rightarrow> unit fsm"
    and inv :: "StateMachine \<Rightarrow> bool" and tot :: "StateMachine \<Rightarrow> nat"
    and src :: "'k set" and dst :: "'l set"
begin

lemma transfer_conserves:
  assumes inv: "inv s" and k: "k \<in> src" and l: "l \<in> dst" and cap: "tot s < 18446744073709551616"
    and t: "bindE (debit k n) (\<lambda>_. credit l n) s = (t, Inr ())"
  shows "inv t" and "tot t = tot s"
proof -
  obtain u where u: "debit k n s = (u, Inr ())" "credit l n u = (t, Inr ())"
    using t by (auto elim: bindE_okE)
  have u_ok: "inv u" "tot u + unat n = tot s"
    using debit_inv [OF inv k u(1)] debit_tot [OF inv k u(1)] by auto
  then show "inv t" "tot t = tot s"
    using credit_inv [OF u_ok(1) l _ u(2)] credit_tot [OF u_ok(1) l _ u(2)] cap by auto
qed

end

lemma AccountSub_funds:
  assumes "funds_ok A s" and "a \<in> A" and t: "AccountSub a n s = (t, Inr ())"
  shows "funds_ok A t" and "held t + unat n = held s"
proof -
  have ok: "accounts_ok A s" using assms(1) by (simp add: funds_ok_def)
  have same: "pools t = pools s" "validators t = validators s"
    by (rule frameD [where m = "AccountSub a n", OF _ t], intro frame_rules, simp)+
  show "funds_ok A t" "held t + unat n = held s"
    using AccountSub_ok(1,2) [OF ok assms(2) t] assms(1)
    by (simp_all add: funds_ok_def held_def pool_total_def stake_total_def same)
qed

lemma AccountAdd_funds:
  assumes "funds_ok A s" and "a \<in> A" and t: "AccountAdd a n s = (t, Inr ())"
  shows "funds_ok A t" and "held t = held s + unat n"
proof -
  have ok: "accounts_ok A s" using assms(1) by (simp add: funds_ok_def)
  have same: "pools t = pools s" "validators t = validators s"
    by (rule frameD [where m = "AccountAdd a n", OF _ t], intro frame_rules, simp)+
  show "funds_ok A t" "held t = held s + unat n"
    using AccountAdd_ok(1,2) [OF ok assms(2) t] assms(1)
    by (simp_all add: funds_ok_def held_def pool_total_def stake_total_def same)
qed

lemma pools_only:
  assumes "frame accounts m" "frame Cfg m" "frame cache_accounts m" "frame validators m"
    and "m s = (t, r)"
  shows "accounts_ok A t = accounts_ok A s" "account_total t = account_total s"
    "stake_total t = stake_total s" "validators t = validators s"
proof -
  have eq: "accounts t = accounts s" "Cfg t = Cfg s" "cache_accounts t = cache_accounts s"
    "validators t = validators s"
    by (rule frameD [OF assms(1) assms(5)], rule frameD [OF assms(2) assms(5)],
        rule frameD [OF assms(3) assms(5)], rule frameD [OF assms(4) assms(5)])
  then show "accounts_ok A t = accounts_ok A s" "account_total t = account_total s"
    "stake_total t = stake_total s" "validators t = validators s"
    by (simp_all only: stake_total_def accounts_ok_cong [OF eq(1-3)] account_total_cong [OF eq(1)])
qed

lemma PoolSub_funds:
  assumes "funds_ok A s" and t: "PoolSub i n s = (t, Inr ())"
  shows "funds_ok A t" and "held t + unat n = held s"
proof -
  have wf: "kv_wf (pools s)" using assms(1) by (simp add: funds_ok_def)
  note same = pools_only [where m = "PoolSub i n", OF _ _ _ _ t]
  show "funds_ok A t" "held t + unat n = held s"
    using PoolSub_step(1,2) [OF wf t] assms(1)
    by (simp_all add: funds_ok_def held_def same frame_PoolSub)
qed

lemma PoolAdd_funds:
  assumes "funds_ok A s" and "pool_balance i s + unat n < 18446744073709551616"
    and t: "PoolAdd i n s = (t, r)"
  shows "r = Inr ()" and "funds_ok A t" and "held t = held s + unat n"
proof -
  have wf: "kv_wf (pools s)" using assms(1) by (simp add: funds_ok_def)
  note same = pools_only [where m = "PoolAdd i n", OF _ _ _ _ t]
  show "r = Inr ()" "funds_ok A t" "held t = held s + unat n"
    using PoolAdd_step(1-3) [OF wf assms(2) t] assms(1)
    by (simp_all add: funds_ok_def held_def same frame_PoolAdd)
qed

lemma pool_room:
  "funds_ok A s \<Longrightarrow> held s + unat n < 18446744073709551616 \<Longrightarrow>
     pool_balance i s + unat n < 18446744073709551616"
  using pool_balance_le [of s i] by (simp add: funds_ok_def held_def)

interpretation acct_acct: transfer AccountSub AccountAdd "funds_ok A" held A A for A
  by unfold_locales (auto dest: AccountSub_funds AccountAdd_funds)

interpretation acct_pool: transfer AccountSub PoolAdd "funds_ok A" held A UNIV for A
  by unfold_locales (auto dest: PoolAdd_funds(2,3) [OF _ pool_room])

interpretation pool_acct: transfer PoolSub AccountAdd "funds_ok A" held UNIV A for A
  by unfold_locales (auto dest: PoolSub_funds)

interpretation pool_pool: transfer PoolSub PoolAdd "funds_ok A" held UNIV UNIV for A
  by unfold_locales

section \<open>The ledger of stake per committee\<close>

text \<open>What a committee list records for a chain.\<close>

definition pool_sum :: "u64 \<Rightarrow> Pool list \<Rightarrow> nat" where
  "pool_sum c l = sum_list (map (\<lambda>p. if pool_Id p = c then unat (pool_Amount p) else 0) l)"

definition recorded :: "SupplyPoolType \<Rightarrow> u64 \<Rightarrow> StateMachine \<Rightarrow> nat" where
  "recorded tt c s = pool_sum c (getSupplyPools tt (supplyTracker s))"

lemma pool_sum_simps [simp]:
  "pool_sum c [] = 0"
  "pool_sum c (p # l) = (if pool_Id p = c then unat (pool_Amount p) else 0) + pool_sum c l"
  "pool_sum c (l @ m) = pool_sum c l + pool_sum c m"
  by (simp_all add: pool_sum_def)

lemma pool_sum_mset:
  "pool_sum c l = sum_mset (image_mset (\<lambda>p. if pool_Id p = c then unat (pool_Amount p) else 0) (mset l))"
  by (simp add: pool_sum_def sum_mset_sum_list flip: mset_map)

lemma pool_sum_FilterAndSortPool: "pool_sum c (FilterAndSortPool l) = pool_sum c l"
proof -
  have "pool_sum c (FilterAndSortPool l) = pool_sum c (filter (\<lambda>v. pool_Amount v \<noteq> 0) l)"
    by (simp add: pool_sum_mset FilterAndSortPool_def)
  also have "\<dots> = pool_sum c l"
    by (induction l) auto
  finally show ?thesis .
qed

lemma sorted_FilterAndSortPool: "sorted (map rank_of (FilterAndSortPool l))"
  by (simp add: FilterAndSortPool_def)

lemma FilterAndSortPool_nonzero: "p \<in> set (FilterAndSortPool l) \<Longrightarrow> pool_Amount p \<noteq> 0"
  by (simp add: FilterAndSortPool_def)

lemma pool_index_Id: "pool_index l c < length l \<Longrightarrow> pool_Id (l ! pool_index l c) = c"
  by (induction l c rule: pool_index.induct) auto

lemma pool_index_le: "pool_index l c \<le> length l"
  by (induction l c rule: pool_index.induct) auto

lemma findOrCreateSupplyPool_entry:
  assumes "findOrCreateSupplyPool l c = (arr, i)"
  shows "i < length arr" and "pool_Id (arr ! i) = c" and "pool_sum d arr = pool_sum d l"
  using assms pool_index_le [of l c] pool_index_Id [of l c]
  by (auto simp: findOrCreateSupplyPool_def Let_def new_Pool_def nth_append split: if_splits)

lemma pool_sum_update:
  "i < length l \<Longrightarrow> pool_Id (l ! i) = c \<Longrightarrow> pool_Id p = c \<Longrightarrow>
     pool_sum d (l[i := p]) + (if d = c then unat (pool_Amount (l ! i)) else 0) =
     pool_sum d l + (if d = c then unat (pool_Amount p) else 0)"
proof (induction l arbitrary: i)
  case (Cons q l)
  show ?case
  proof (cases i)
    case 0
    with Cons.prems show ?thesis by auto
  next
    case (Suc k)
    with Cons.prems show ?thesis using Cons.IH [of k] by auto
  qed
qed simp

lemma getSupplyPools_set [simp]:
  "getSupplyPools tt (setSupplyPools tt' l x) = (if tt = tt' then l else getSupplyPools tt x)"
  by (cases tt; cases tt') auto

lemma setSupplyPools_other [simp]:
  "Total (setSupplyPools tt l x) = Total x" "Staked (setSupplyPools tt l x) = Staked x"
  "DelegatedOnly (setSupplyPools tt l x) = DelegatedOnly x"
  by (cases tt; simp)+

lemma executeOnSupplyPool_step:
  assumes t: "executeOnSupplyPool c tt f s = (t, Inr ())"
    and f: "\<And>p q. f p = Inr q \<Longrightarrow>
      pool_Id q = pool_Id p \<and> unat (pool_Amount q) + b = unat (pool_Amount p) + a"
  shows "recorded tt' d t + (if tt' = tt \<and> d = c then b else 0) =
      recorded tt' d s + (if tt' = tt \<and> d = c then a else 0)"
    and "Total (supplyTracker t) = Total (supplyTracker s)"
    and "Staked (supplyTracker t) = Staked (supplyTracker s)"
    and "DelegatedOnly (supplyTracker t) = DelegatedOnly (supplyTracker s)"
proof -
  obtain arr i where fc: "findOrCreateSupplyPool (getSupplyPools tt (supplyTracker s)) c = (arr, i)"
    by fastforce
  note entry = findOrCreateSupplyPool_entry [OF fc]
  obtain q where q: "f (arr ! i) = Inr q" and sup: "supplyTracker t =
      setSupplyPools tt (FilterAndSortPool (arr[i := q])) (supplyTracker s)"
    using t fc by (auto simp: executeOnSupplyPool_def op_simps GetSupply_def SetSupply_def
        split: sum.splits)
  have id: "pool_Id q = c" and amount: "unat (pool_Amount q) + b = unat (pool_Amount (arr ! i)) + a"
    using f [OF q] entry(2) by auto
  show "recorded tt' d t + (if tt' = tt \<and> d = c then b else 0) =
      recorded tt' d s + (if tt' = tt \<and> d = c then a else 0)"
    using pool_sum_update [OF entry(1,2) id, of d] entry(3) [of d] amount
    by (auto simp: recorded_def sup pool_sum_FilterAndSortPool)
  show "Total (supplyTracker t) = Total (supplyTracker s)"
    "Staked (supplyTracker t) = Staked (supplyTracker s)"
    "DelegatedOnly (supplyTracker t) = DelegatedOnly (supplyTracker s)"
    by (simp_all add: sup)
qed

lemma addToSupplyPool_step:
  assumes "addToSupplyPool c n tt s = (t, Inr ())"
  shows "recorded tt' d t = recorded tt' d s + (if tt' = tt \<and> d = c then unat n else 0)"
    and "Total (supplyTracker t) = Total (supplyTracker s)"
    and "Staked (supplyTracker t) = Staked (supplyTracker s)"
    and "DelegatedOnly (supplyTracker t) = DelegatedOnly (supplyTracker s)"
proof -
  have f: "pool_Id q = pool_Id p \<and> unat (pool_Amount q) + 0 = unat (pool_Amount p) + unat n"
    if "(if MaxUint64 - n < pool_Amount p then Inl ErrInvalidAmount
      else Inr (p\<lparr>pool_Amount := pool_Amount p + n\<rparr>)) = Inr q" for p q
    using that by (auto simp: u64_simps unat_add_u64 split: if_splits)
  note step = executeOnSupplyPool_step [OF assms [unfolded addToSupplyPool_def] f]
  show "recorded tt' d t = recorded tt' d s + (if tt' = tt \<and> d = c then unat n else 0)"
    using step(1) [of tt' d] by simp
  show "Total (supplyTracker t) = Total (supplyTracker s)"
    "Staked (supplyTracker t) = Staked (supplyTracker s)"
    "DelegatedOnly (supplyTracker t) = DelegatedOnly (supplyTracker s)"
    using step(2-4) by simp_all
qed

lemma subFromSupplyPool_step:
  assumes "subFromSupplyPool c n tt s = (t, Inr ())"
  shows "recorded tt' d t + (if tt' = tt \<and> d = c then unat n else 0) = recorded tt' d s"
    and "Total (supplyTracker t) = Total (supplyTracker s)"
    and "Staked (supplyTracker t) = Staked (supplyTracker s)"
    and "DelegatedOnly (supplyTracker t) = DelegatedOnly (supplyTracker s)"
proof -
  have f: "pool_Id q = pool_Id p \<and> unat (pool_Amount q) + unat n = unat (pool_Amount p) + 0"
    if "(if pool_Amount p < n then Inl ErrInsufficientSupply
      else Inr (p\<lparr>pool_Amount := pool_Amount p - n\<rparr>)) = Inr q" for p q
    using that by (auto simp: unat_sub word_le_nat_alt word_less_nat_alt split: if_splits)
  note step = executeOnSupplyPool_step [OF assms [unfolded subFromSupplyPool_def] f]
  show "recorded tt' d t + (if tt' = tt \<and> d = c then unat n else 0) = recorded tt' d s"
    using step(1) [of tt' d] by simp
  show "Total (supplyTracker t) = Total (supplyTracker s)"
    "Staked (supplyTracker t) = Staked (supplyTracker s)"
    "DelegatedOnly (supplyTracker t) = DelegatedOnly (supplyTracker s)"
    using step(2-4) by simp_all
qed

end
