(* ===== verification/Committees.thy ===== *)
theory Committees
  imports Pools
begin

text \<open>
  Committees (fsm/committee.go): membership of validators and delegates with the staked supply per
  chain, the subsidy a block mints, retirement, and the committee data that certificate results
  accumulate (\<open>Combine\<close> of lib/certificate.go).  Since protocol version 2 the membership index is
  no longer written, the supply lists still are.
\<close>

section \<open>Membership\<close>

definition SetCommitteeMember :: "address \<Rightarrow> u64 \<Rightarrow> u64 \<Rightarrow> unit fsm" where
  "SetCommitteeMember a chainId stakeForCommittee =
     bindE (reads (IsFeatureEnabled 2)) (\<lambda>v2.
       if v2 then ok ()
       else writes (\<lambda>s. s\<lparr>committees :=
         kv_set (chainId, stakeForCommittee, a) () (committees s)\<rparr>))"

definition DeleteCommitteeMember :: "address \<Rightarrow> u64 \<Rightarrow> u64 \<Rightarrow> unit fsm" where
  "DeleteCommitteeMember a chainId stakeForCommittee =
     bindE (reads (IsFeatureEnabled 2)) (\<lambda>v2.
       if v2 then ok ()
       else writes (\<lambda>s. s\<lparr>committees :=
         kv_del (chainId, stakeForCommittee, a) (committees s)\<rparr>))"

definition SetCommittees :: "address \<Rightarrow> u64 \<Rightarrow> u64 list \<Rightarrow> unit fsm" where
  "SetCommittees a totalStake =
     for_op (\<lambda>committee.
       bindE (SetCommitteeMember a committee totalStake) (\<lambda>_.
         AddToCommitteeSupplyForChain committee totalStake))"

definition DeleteCommittees :: "address \<Rightarrow> u64 \<Rightarrow> u64 list \<Rightarrow> unit fsm" where
  "DeleteCommittees a totalStake =
     for_op (\<lambda>committee.
       bindE (DeleteCommitteeMember a committee totalStake) (\<lambda>_.
         SubFromCommitteeStakedSupplyForChain committee totalStake))"

definition UpdateCommittees :: "address \<Rightarrow> Validator \<Rightarrow> u64 \<Rightarrow> u64 list \<Rightarrow> unit fsm" where
  "UpdateCommittees a oldValidator newStakedAmount newCommittees =
     bindE (DeleteCommittees a (val_StakedAmount oldValidator) (val_Committees oldValidator)) (\<lambda>_.
       SetCommittees a newStakedAmount newCommittees)"

definition SetDelegate :: "address \<Rightarrow> u64 \<Rightarrow> u64 \<Rightarrow> unit fsm" where
  "SetDelegate a chainId stakeForCommittee =
     bindE (reads (IsFeatureEnabled 2)) (\<lambda>v2.
       if v2 then ok ()
       else writes (\<lambda>s. s\<lparr>delegates :=
         kv_set (chainId, stakeForCommittee, a) () (delegates s)\<rparr>))"

definition DeleteDelegate :: "address \<Rightarrow> u64 \<Rightarrow> u64 \<Rightarrow> unit fsm" where
  "DeleteDelegate a chainId stakeForCommittee =
     bindE (reads (IsFeatureEnabled 2)) (\<lambda>v2.
       if v2 then ok ()
       else writes (\<lambda>s. s\<lparr>delegates :=
         kv_del (chainId, stakeForCommittee, a) (delegates s)\<rparr>))"

definition SetDelegations :: "address \<Rightarrow> u64 \<Rightarrow> u64 list \<Rightarrow> unit fsm" where
  "SetDelegations a totalStake =
     for_op (\<lambda>committee.
       bindE (SetDelegate a committee totalStake) (\<lambda>_.
       bindE (AddToDelegateSupplyForChain committee totalStake) (\<lambda>_.
         AddToCommitteeSupplyForChain committee totalStake)))"

definition DeleteDelegations :: "address \<Rightarrow> u64 \<Rightarrow> u64 list \<Rightarrow> unit fsm" where
  "DeleteDelegations a totalStake =
     for_op (\<lambda>committee.
       bindE (DeleteDelegate a committee totalStake) (\<lambda>_.
       bindE (SubFromDelegateStakedSupplyForChain committee totalStake) (\<lambda>_.
         SubFromCommitteeStakedSupplyForChain committee totalStake)))"

definition UpdateDelegations :: "address \<Rightarrow> Validator \<Rightarrow> u64 \<Rightarrow> u64 list \<Rightarrow> unit fsm" where
  "UpdateDelegations a oldValidator newStakedAmount newCommittees =
     bindE (DeleteDelegations a (val_StakedAmount oldValidator) (val_Committees oldValidator)) (\<lambda>_.
       SetDelegations a newStakedAmount newCommittees)"

section \<open>Retired committees\<close>

definition RetireCommittee :: "u64 \<Rightarrow> unit fsm" where
  "RetireCommittee chainId = writes (\<lambda>s. s\<lparr>retired := kv_set chainId () (retired s)\<rparr>)"

definition CommitteeIsRetired :: "u64 \<Rightarrow> StateMachine \<Rightarrow> bool" where
  "CommitteeIsRetired chainId s = (kv_get (retired s) chainId = Some ())"

definition GetRetiredCommittees :: "StateMachine \<Rightarrow> u64 list" where
  "GetRetiredCommittees s = kv_keys (retired s)"

definition SetRetiredCommittees :: "u64 list \<Rightarrow> unit fsm" where
  "SetRetiredCommittees = for_op RetireCommittee"

section \<open>Subsidies\<close>

fun paid_committees :: "u64 \<Rightarrow> u64 \<Rightarrow> StateMachine \<Rightarrow> Pool list \<Rightarrow> u64 list" where
  "paid_committees threshold staked s [] = []"
| "paid_committees threshold staked s (committee # cs) =
     (let committedStakePercent = Uint64PercentageDiv (pool_Amount committee) staked in
      if threshold \<le> committedStakePercent \<and> \<not> CommitteeIsRetired (pool_Id committee) s
      then pool_Id committee # paid_committees threshold staked s cs
      else paid_committees threshold staked s cs)"

definition GetSubsidizedCommittees :: "u64 list fsm" where
  "GetSubsidizedCommittees =
     bindE GetParamsVal (\<lambda>valParams.
     bindE (reads GetSupply) (\<lambda>x.
     bindE (reads (\<lambda>s. paid_committees (StakePercentForSubsidizedCommittee valParams) (Staked x) s
         (CommitteeStaked x))) (\<lambda>paidIDs.
     bindE (reads (\<lambda>s. cfg_ChainId (Cfg s))) (\<lambda>self.
       ok (if self \<in> set paidIDs then paidIDs else paidIDs @ [self])))))"

record BlockMintStats =
  subsidizedChainIds :: "u64 list"
  daoCut :: u64
  totalMint :: u64
  mintAmountPerCommittee :: u64

definition GetBlockMintStats :: "BlockMintStats fsm" where
  "GetBlockMintStats =
     bindE (reads Cfg) (\<lambda>cfg.
       if BlocksPerHalvening cfg = 0 then fail ErrInvalidArgument
       else
         bindE GetParamsGov (\<lambda>govParams.
         bindE GetSubsidizedCommittees (\<lambda>ids.
         bindE (reads Height) (\<lambda>h.
           let halvenings = h div BlocksPerHalvening cfg in
           let totalMintAmount = drop_bit (unat halvenings) (InitialTokensPerBlock cfg) in
           let subsidizedCount = of_nat (length ids) :: u64 in
           if subsidizedCount = 0 \<or> totalMintAmount = 0 then fail ErrNoSubsidizedCommittees
           else
             let mintAmountAfterDAOCut =
               (if 100 \<le> DaoRewardPercentage govParams \<or> totalMintAmount = 0 then 0
                else if DaoRewardPercentage govParams = 0 then totalMintAmount
                else SafeMulDiv totalMintAmount (100 - DaoRewardPercentage govParams) 100) in
             ok \<lparr>subsidizedChainIds = ids, daoCut = totalMintAmount - mintAmountAfterDAOCut,
               totalMint = totalMintAmount,
               mintAmountPerCommittee = mintAmountAfterDAOCut div subsidizedCount\<rparr>))))"

definition FundCommitteeRewardPools :: "unit fsm" where
  "FundCommitteeRewardPools =
     bindE (attempt GetBlockMintStats) (\<lambda>r.
       case r of
         Inl e \<Rightarrow> if Code e = 92 then ok () else fail e
       | Inr stats \<Rightarrow>
           bindE (MintToPool DAOPoolID (daoCut stats)) (\<lambda>_.
             for_op (\<lambda>chainId. MintToPool chainId (mintAmountPerCommittee stats))
               (subsidizedChainIds stats)))"

section \<open>Committee data\<close>

text \<open>The position of a chain in the master list, where it is appended when it is new.\<close>

fun data_index :: "CommitteeData list \<Rightarrow> u64 \<Rightarrow> nat" where
  "data_index [] chainId = 0"
| "data_index (d # ds) chainId =
     (if cd_ChainId d = chainId then 0 else Suc (data_index ds chainId))"

definition getCommitteeDataAndList ::
  "u64 \<Rightarrow> StateMachine \<Rightarrow> CommitteeData list \<times> CommitteeData \<times> nat" where
  "getCommitteeDataAndList targetChainId s =
     (let idx = data_index (committeesData s) targetChainId in
      if idx < length (committeesData s) then (committeesData s, committeesData s ! idx, idx)
      else (committeesData s @ [new_CommitteeData targetChainId],
            new_CommitteeData targetChainId, idx))"

definition GetCommitteeData :: "u64 \<Rightarrow> StateMachine \<Rightarrow> CommitteeData" where
  "GetCommitteeData targetChainId s = fst (snd (getCommitteeDataAndList targetChainId s))"

definition SetCommitteesData :: "CommitteeData list \<Rightarrow> unit fsm" where
  "SetCommitteesData l = writes (\<lambda>s. s\<lparr>committeesData := l\<rparr>)"

fun addPercents :: "address \<Rightarrow> u64 \<Rightarrow> u64 \<Rightarrow> PaymentPercents list \<Rightarrow> err + PaymentPercents list" where
  "addPercents a percent chainId [] =
     (if percent = 0 then Inr []
      else Inr [\<lparr>pay_Address = a, pay_Percent = percent, pay_ChainId = chainId\<rparr>])"
| "addPercents a percent chainId (p # ps) =
     (if percent = 0 then Inr (p # ps)
      else if a = pay_Address p then
        (if MaxUint64 - percent < pay_Percent p then Inl ErrInvalidPercentAllocation
         else Inr (p\<lparr>pay_Percent := pay_Percent p + percent\<rparr> # ps))
      else case addPercents a percent chainId ps of
        Inl e \<Rightarrow> Inl e
      | Inr qs \<Rightarrow> Inr (p # qs))"

fun combine_percents ::
  "PaymentPercents list \<Rightarrow> u64 \<Rightarrow> PaymentPercents list \<Rightarrow> err + PaymentPercents list" where
  "combine_percents [] chainId acc = Inr acc"
| "combine_percents (p # ps) chainId acc =
     (if pay_ChainId p = chainId then
        (case addPercents (pay_Address p) (pay_Percent p) chainId acc of
           Inl e \<Rightarrow> Inl e
         | Inr acc' \<Rightarrow> combine_percents ps chainId acc')
      else combine_percents ps chainId acc)"

definition Combine :: "CommitteeData \<Rightarrow> CommitteeData \<Rightarrow> u64 \<Rightarrow> err + CommitteeData" where
  "Combine x d chainId =
     (case combine_percents (cd_PaymentPercents d) chainId (cd_PaymentPercents x) of
        Inl e \<Rightarrow> Inl e
      | Inr percents \<Rightarrow>
          if NumberOfSamples x = MaxUint64 then Inl ErrInvalidPercentAllocation
          else Inr \<lparr>cd_ChainId = cd_ChainId d,
                 LastRootHeightUpdated = LastRootHeightUpdated d,
                 LastChainHeightUpdated = LastChainHeightUpdated d,
                 cd_PaymentPercents = percents,
                 NumberOfSamples = NumberOfSamples x + 1\<rparr>)"

definition UpsertCommitteeData :: "CommitteeData \<Rightarrow> unit fsm" where
  "UpsertCommitteeData new =
     bindE (reads (getCommitteeDataAndList (cd_ChainId new))) (\<lambda>(l, targetData, idx).
       if LastChainHeightUpdated new \<le> LastChainHeightUpdated targetData then
         fail ErrInvalidQCCommitteeHeight
       else if LastRootHeightUpdated new < LastRootHeightUpdated targetData then
         fail ErrInvalidQCRootChainHeight
       else
         bindE (reads (\<lambda>s. cfg_ChainId (Cfg s))) (\<lambda>self.
           case Combine targetData new self of
             Inl e \<Rightarrow> fail e
           | Inr d \<Rightarrow> SetCommitteesData (l[idx := d])))"

definition OverwriteCommitteeData :: "CommitteeData \<Rightarrow> unit fsm" where
  "OverwriteCommitteeData d =
     bindE (reads (getCommitteeDataAndList (cd_ChainId d))) (\<lambda>(l, _, idx).
       SetCommitteesData (l[idx := d]))"

text \<open>\<open>CheckBasic\<close> of the reward recipients; \<open>None\<close> is a nil pointer.\<close>

fun check_percents :: "(u64 \<Rightarrow> u64) \<Rightarrow> PaymentPercents option list \<Rightarrow> err + unit" where
  "check_percents chainMap [] = Inr ()"
| "check_percents chainMap (None # ps) = Inl ErrInvalidPercentAllocation"
| "check_percents chainMap (Some pp # ps) =
     (if pay_ChainId pp = 0 then Inl ErrEmptyChainId
      else if length (pay_Address pp) \<noteq> 20 then Inl ErrInvalidAddress
      else if MaxUint64 - pay_Percent pp < chainMap (pay_ChainId pp) then
        Inl ErrInvalidPercentAllocation
      else let m = chainMap(pay_ChainId pp := chainMap (pay_ChainId pp) + pay_Percent pp) in
        if 100 < m (pay_ChainId pp) then Inl ErrInvalidPercentAllocation
        else check_percents m ps)"

definition RewardRecipients_CheckBasic :: "PaymentPercents option list option \<Rightarrow> err + unit" where
  "RewardRecipients_CheckBasic x =
     (case x of
        None \<Rightarrow> Inl ErrNilRewardRecipients
      | Some ps \<Rightarrow>
          if length ps = 0 \<or> 100 < length ps then Inl ErrPaymentRecipientsCount
          else check_percents (\<lambda>_. 0) ps)"

section \<open>Frames\<close>

lemma frame_CommitteeMember [frame_rules]:
  assumes "\<And>s x. g (s\<lparr>committees := x\<rparr>) = g s"
  shows "frame g (SetCommitteeMember a c n)" "frame g (DeleteCommitteeMember a c n)"
  unfolding SetCommitteeMember_def DeleteCommitteeMember_def by (intro frame_rules assms)+

lemma frame_Delegate [frame_rules]:
  assumes "\<And>s x. g (s\<lparr>delegates := x\<rparr>) = g s"
  shows "frame g (SetDelegate a c n)" "frame g (DeleteDelegate a c n)"
  unfolding SetDelegate_def DeleteDelegate_def by (intro frame_rules assms)+

lemma frame_Committees [frame_rules]:
  assumes "\<And>s x. g (s\<lparr>committees := x\<rparr>) = g s" and "\<And>s x. g (s\<lparr>supplyTracker := x\<rparr>) = g s"
  shows "frame g (SetCommittees a n cs)" "frame g (DeleteCommittees a n cs)"
    "frame g (UpdateCommittees a v n cs)"
  unfolding SetCommittees_def DeleteCommittees_def UpdateCommittees_def
  by (intro frame_rules assms)+

lemma frame_Delegations [frame_rules]:
  assumes "\<And>s x. g (s\<lparr>delegates := x\<rparr>) = g s" and "\<And>s x. g (s\<lparr>supplyTracker := x\<rparr>) = g s"
  shows "frame g (SetDelegations a n cs)" "frame g (DeleteDelegations a n cs)"
    "frame g (UpdateDelegations a v n cs)"
  unfolding SetDelegations_def DeleteDelegations_def UpdateDelegations_def
  by (intro frame_rules assms)+

section \<open>The ledger of stake per committee\<close>

text \<open>The three counters that the committee lists do not touch.\<close>

definition counters :: "StateMachine \<Rightarrow> u64 \<times> u64 \<times> u64" where
  "counters s = (Total (supplyTracker s), Staked (supplyTracker s), DelegatedOnly (supplyTracker s))"

type_synonym ledger = "SupplyPoolType \<Rightarrow> u64 \<Rightarrow> nat"

text \<open>A step that takes one amount out of the committee lists and puts another in.\<close>

definition shifts :: "ledger \<Rightarrow> ledger \<Rightarrow> StateMachine \<Rightarrow> StateMachine \<Rightarrow> bool" where
  "shifts out into s t \<longleftrightarrow> counters t = counters s \<and>
     (\<forall>tt d. recorded tt d t + out tt d = recorded tt d s + into tt d)"

abbreviation none :: ledger where "none \<equiv> \<lambda>_ _. 0"

text \<open>The contribution of a validator or delegate to the list of a chain.\<close>

definition share :: "bool \<Rightarrow> u64 \<Rightarrow> u64 list \<Rightarrow> ledger" where
  "share delegate n cs tt d =
     (if tt = CommitteesWithDelegations \<or> delegate then count_list cs d * unat n else 0)"

lemma share_simps:
  "share b n [] = none"
  "share b n (c # cs) = (\<lambda>tt d. share b n [c] tt d + share b n cs tt d)"
  by (auto simp: share_def fun_eq_iff)

lemma share_single:
  "share False n [c] = (\<lambda>tt d. if tt = CommitteesWithDelegations \<and> d = c then unat n else 0)"
  "share True n [c] tt d = (if tt = CommitteesWithDelegations \<and> d = c then unat n else 0)
     + (if tt = DelegationsOnly \<and> d = c then unat n else 0)"
  by (cases tt; auto simp: share_def fun_eq_iff)+

lemma shifts_same: "frame supplyTracker m \<Longrightarrow> m s = (t, r) \<Longrightarrow> shifts none none s t"
  using frameD [of supplyTracker m s t r] by (simp add: shifts_def recorded_def counters_def)

lemma shifts_trans:
  "shifts a b s t \<Longrightarrow> shifts c d t u \<Longrightarrow>
     shifts (\<lambda>x y. a x y + c x y) (\<lambda>x y. b x y + d x y) s u"
  unfolding shifts_def by (metis (no_types, lifting) add.assoc add.commute)

lemma shifts_trans_same: "shifts none none s t \<Longrightarrow> shifts a b t u \<Longrightarrow> shifts a b s u"
  using shifts_trans [of none none s t a b u] by simp

lemma shifts_add:
  assumes "addToSupplyPool c n tt s = (t, Inr ())"
  shows "shifts none (\<lambda>tt' d. if tt' = tt \<and> d = c then unat n else 0) s t"
  unfolding shifts_def counters_def
  by (simp add: addToSupplyPool_step(2-4) [OF assms] addToSupplyPool_step(1) [OF assms])

lemma shifts_sub:
  assumes "subFromSupplyPool c n tt s = (t, Inr ())"
  shows "shifts (\<lambda>tt' d. if tt' = tt \<and> d = c then unat n else 0) none s t"
  unfolding shifts_def counters_def
  by (simp only: subFromSupplyPool_step(2-4) [OF assms] subFromSupplyPool_step(1) [OF assms])
    simp

text \<open>A loop adds up what its iterations shift.\<close>

lemma shifts_loop_in:
  assumes "for_op f cs s = (t, Inr ())"
    and "\<And>c u v. f c u = (v, Inr ()) \<Longrightarrow> shifts none (share b n [c]) u v"
  shows "shifts none (share b n cs) s t"
  using assms(1)
proof (induction cs arbitrary: s)
  case Nil
  then show ?case by (simp add: op_simps share_simps shifts_def)
next
  case (Cons c cs)
  then obtain u where u: "f c s = (u, Inr ())" "for_op f cs u = (t, Inr ())"
    by (auto elim: bindE_okE)
  show ?case
    using shifts_trans [OF assms(2) [OF u(1)] Cons.IH [OF u(2)]] by (subst share_simps(2)) simp
qed

lemma shifts_loop_out:
  assumes "for_op f cs s = (t, Inr ())"
    and "\<And>c u v. f c u = (v, Inr ()) \<Longrightarrow> shifts (share b n [c]) none u v"
  shows "shifts (share b n cs) none s t"
  using assms(1)
proof (induction cs arbitrary: s)
  case Nil
  then show ?case by (simp add: op_simps share_simps shifts_def)
next
  case (Cons c cs)
  then obtain u where u: "f c s = (u, Inr ())" "for_op f cs u = (t, Inr ())"
    by (auto elim: bindE_okE)
  show ?case
    using shifts_trans [OF assms(2) [OF u(1)] Cons.IH [OF u(2)]] by (subst share_simps(2)) simp
qed

lemma frame_index:
  "frame supplyTracker (SetCommitteeMember a c n)" "frame supplyTracker (DeleteCommitteeMember a c n)"
  "frame supplyTracker (SetDelegate a c n)" "frame supplyTracker (DeleteDelegate a c n)"
  by (intro frame_rules; simp)+

lemma SetCommittees_shifts:
  assumes "SetCommittees a n cs s = (t, Inr ())"
  shows "shifts none (share False n cs) s t"
proof (rule shifts_loop_in [OF assms [unfolded SetCommittees_def]])
  fix c u v
  assume "bindE (SetCommitteeMember a c n) (\<lambda>_. AddToCommitteeSupplyForChain c n) u = (v, Inr ())"
  then obtain x w where "SetCommitteeMember a c n u = (w, x)"
    and add: "addToSupplyPool c n CommitteesWithDelegations w = (v, Inr ())"
    by (auto elim!: bindE_okE simp: AddToCommitteeSupplyForChain_def)
  then have "shifts none none u w" by (intro shifts_same [OF frame_index(1)])
  from shifts_trans_same [OF this shifts_add [OF add]] show "shifts none (share False n [c]) u v"
    by (simp only: share_single)
qed

lemma DeleteCommittees_shifts:
  assumes "DeleteCommittees a n cs s = (t, Inr ())"
  shows "shifts (share False n cs) none s t"
proof (rule shifts_loop_out [OF assms [unfolded DeleteCommittees_def]])
  fix c u v
  assume "bindE (DeleteCommitteeMember a c n) (\<lambda>_. SubFromCommitteeStakedSupplyForChain c n) u
    = (v, Inr ())"
  then obtain x w where "DeleteCommitteeMember a c n u = (w, x)"
    and sub: "subFromSupplyPool c n CommitteesWithDelegations w = (v, Inr ())"
    by (auto elim!: bindE_okE simp: SubFromCommitteeStakedSupplyForChain_def)
  then have "shifts none none u w" by (intro shifts_same [OF frame_index(2)])
  from shifts_trans_same [OF this shifts_sub [OF sub]] show "shifts (share False n [c]) none u v"
    by (simp only: share_single)
qed

lemma SetDelegations_shifts:
  assumes "SetDelegations a n cs s = (t, Inr ())"
  shows "shifts none (share True n cs) s t"
proof (rule shifts_loop_in [OF assms [unfolded SetDelegations_def]])
  fix c u v
  assume "bindE (SetDelegate a c n) (\<lambda>_. bindE (AddToDelegateSupplyForChain c n)
    (\<lambda>_. AddToCommitteeSupplyForChain c n)) u = (v, Inr ())"
  then obtain x w z where "SetDelegate a c n u = (w, x)"
    and add: "addToSupplyPool c n DelegationsOnly w = (z, Inr ())"
      "addToSupplyPool c n CommitteesWithDelegations z = (v, Inr ())"
    by (auto elim!: bindE_okE simp: AddToCommitteeSupplyForChain_def AddToDelegateSupplyForChain_def)
  then have "shifts none none u w" by (intro shifts_same [OF frame_index(3)])
  from shifts_trans_same [OF this shifts_trans [OF shifts_add [OF add(1)] shifts_add [OF add(2)]]]
  show "shifts none (share True n [c]) u v"
    by (simp add: shifts_def share_single)
qed

lemma DeleteDelegations_shifts:
  assumes "DeleteDelegations a n cs s = (t, Inr ())"
  shows "shifts (share True n cs) none s t"
proof (rule shifts_loop_out [OF assms [unfolded DeleteDelegations_def]])
  fix c u v
  assume "bindE (DeleteDelegate a c n) (\<lambda>_. bindE (SubFromDelegateStakedSupplyForChain c n)
    (\<lambda>_. SubFromCommitteeStakedSupplyForChain c n)) u = (v, Inr ())"
  then obtain x w z where "DeleteDelegate a c n u = (w, x)"
    and sub: "subFromSupplyPool c n DelegationsOnly w = (z, Inr ())"
      "subFromSupplyPool c n CommitteesWithDelegations z = (v, Inr ())"
    by (auto elim!: bindE_okE
        simp: SubFromCommitteeStakedSupplyForChain_def SubFromDelegateStakedSupplyForChain_def)
  then have "shifts none none u w" by (intro shifts_same [OF frame_index(4)])
  from shifts_trans_same [OF this shifts_trans [OF shifts_sub [OF sub(1)] shifts_sub [OF sub(2)]]]
  show "shifts (share True n [c]) none u v"
    by (simp add: shifts_def share_single add.commute)
qed

lemma UpdateCommittees_shifts:
  assumes "UpdateCommittees a v n cs s = (t, Inr ())"
  shows "shifts (share False (val_StakedAmount v) (val_Committees v)) (share False n cs) s t"
  using assms shifts_trans [OF DeleteCommittees_shifts SetCommittees_shifts]
  by (fastforce simp: UpdateCommittees_def elim!: bindE_okE)

lemma UpdateDelegations_shifts:
  assumes "UpdateDelegations a v n cs s = (t, Inr ())"
  shows "shifts (share True (val_StakedAmount v) (val_Committees v)) (share True n cs) s t"
  using assms shifts_trans [OF DeleteDelegations_shifts SetDelegations_shifts]
  by (fastforce simp: UpdateDelegations_def elim!: bindE_okE)

section \<open>Reward percentages\<close>

definition percent_sum :: "PaymentPercents list \<Rightarrow> nat" where
  "percent_sum ps = sum_list (map (\<lambda>p. unat (pay_Percent p)) ps)"

text \<open>The part of a list that is designated for a chain.\<close>

definition own_percents :: "u64 \<Rightarrow> PaymentPercents list \<Rightarrow> nat" where
  "own_percents c ps = percent_sum (filter (\<lambda>p. pay_ChainId p = c) ps)"

lemma percent_sum_simps [simp]:
  "percent_sum [] = 0" "percent_sum (p # ps) = unat (pay_Percent p) + percent_sum ps"
  by (simp_all add: percent_sum_def)

lemma addPercents_sum:
  "addPercents a n c ps = Inr qs \<Longrightarrow> percent_sum qs = percent_sum ps + unat n"
proof (induction a n c ps arbitrary: qs rule: addPercents.induct)
  case (1 a n c)
  then show ?case by (auto split: if_splits)
next
  case (2 a n c p ps)
  then show ?case
    by (auto simp: u64_simps unat_add_u64 split: if_splits sum.splits)
qed

lemma combine_percents_sum:
  "combine_percents ps c acc = Inr qs \<Longrightarrow> percent_sum qs = percent_sum acc + own_percents c ps"
  by (induction ps c acc arbitrary: qs rule: combine_percents.induct)
    (auto simp: own_percents_def dest: addPercents_sum split: if_splits sum.splits)

text \<open>The percentages of a committee never exceed one hundred per sample.\<close>

definition well_sampled :: "CommitteeData \<Rightarrow> bool" where
  "well_sampled d \<longleftrightarrow> percent_sum (cd_PaymentPercents d) \<le> 100 * unat (NumberOfSamples d)"

lemma Combine_well_sampled:
  assumes "well_sampled x" and "own_percents c (cd_PaymentPercents d) \<le> 100"
    and "Combine x d c = Inr y"
  shows "well_sampled y"
proof -
  obtain ps where ps: "combine_percents (cd_PaymentPercents d) c (cd_PaymentPercents x) = Inr ps"
    "NumberOfSamples x \<noteq> MaxUint64" "cd_PaymentPercents y = ps"
    "NumberOfSamples y = NumberOfSamples x + 1"
    using assms(3) by (auto simp: Combine_def split: sum.splits if_splits)
  have "unat (NumberOfSamples y) = unat (NumberOfSamples x) + 1"
    using ps(2) by (simp add: ps(4) unat_succ_u64)
  with combine_percents_sum [OF ps(1)] assms(1,2) show ?thesis
    by (simp add: well_sampled_def ps(3))
qed

lemma check_percents_bound:
  "check_percents m ps = Inr () \<Longrightarrow> unat (m c) \<le> 100 \<Longrightarrow>
     unat (m c) + own_percents c (List.map_filter id ps) \<le> 100"
proof (induction ps arbitrary: m)
  case (Cons p ps)
  show ?case
  proof (cases p)
    case None
    with Cons.prems show ?thesis by simp
  next
    case (Some pp)
    let ?m = "m(pay_ChainId pp := m (pay_ChainId pp) + pay_Percent pp)"
    have guard: "unat (m (pay_ChainId pp)) + unat (pay_Percent pp) < 18446744073709551616"
        "m (pay_ChainId pp) + pay_Percent pp \<le> 100" "check_percents ?m ps = Inr ()"
      using Cons.prems(1) by (auto simp: Some u64_simps Let_def not_less split: if_splits)
    then have "unat (?m c) \<le> 100"
      using Cons.prems(2) by (simp add: word_le_nat_alt)
    from Cons.IH [OF guard(3) this] guard(1) show ?thesis
      by (auto simp: Some own_percents_def map_filter_simps unat_add_u64)
  qed
qed (simp add: own_percents_def map_filter_simps)

section \<open>Minting\<close>

lemma frame_MintToPool [frame_rules]:
  "(\<And>s x. g (s\<lparr>supplyTracker := x\<rparr>) = g s) \<Longrightarrow> (\<And>s x. g (s\<lparr>pools := x\<rparr>) = g s) \<Longrightarrow>
     frame g (MintToPool i n)"
  unfolding MintToPool_def by (intro frame_rules)

definition total_supply :: "StateMachine \<Rightarrow> nat" where
  "total_supply s = unat (Total (supplyTracker s))"

lemma MintToPool_step:
  assumes ok: "funds_ok A s" and held: "held s = total_supply s"
    and room: "total_supply s + unat n < 18446744073709551616"
    and t: "MintToPool i n s = (t, r)"
  shows "r = Inr ()" and "funds_ok A t" and "held t = total_supply t"
    and "total_supply t = total_supply s + unat n"
proof -
  let ?u = "s\<lparr>supplyTracker := (supplyTracker s)\<lparr>Total := Total (supplyTracker s) + n\<rparr>\<rparr>"
  have add: "PoolAdd i n ?u = (t, r)"
    using t by (simp add: MintToPool_def AddToTotalSupply_def SetSupply_def GetSupply_def op_simps)
  have u: "funds_ok A ?u" "held ?u = held s" "total_supply ?u = total_supply s + unat n"
    using ok room by (simp_all add: funds_ok_def accounts_ok_def stored_account_def held_def
        account_total_def pool_total_def stake_total_def total_supply_def unat_add_u64)
  have room': "pool_balance i ?u + unat n < 18446744073709551616"
    using pool_room [OF ok] held room by (simp add: pool_balance_def GetPool_def)
  have "frame supplyTracker (PoolAdd i n)"
    by (intro frame_rules) simp
  from frameD [where m = "PoolAdd i n", OF this add] have "total_supply t = total_supply ?u"
    by (simp add: total_supply_def)
  then show "r = Inr ()" "funds_ok A t" "held t = total_supply t"
    "total_supply t = total_supply s + unat n"
    using PoolAdd_funds [OF u(1) room' add] u held by simp_all
qed

text \<open>What a block mints, before it is paid out.\<close>

lemma paid_committees_length: "length (paid_committees p n s cs) \<le> length cs"
  by (induction cs) (auto simp: Let_def)

lemma GetSubsidizedCommittees_length:
  assumes "GetSubsidizedCommittees s = (t, Inr ids)"
  shows "0 < length ids" and "length ids \<le> Suc (length (CommitteeStaked (supplyTracker s)))"
proof -
  obtain p u where p: "GetParamsVal s = (u, Inr p)"
    using assms unfolding GetSubsidizedCommittees_def by (auto elim: bindE_okE)
  have "supplyTracker u = supplyTracker s"
    using GetParamsVal_cache [OF p] by auto
  then show "0 < length ids" "length ids \<le> Suc (length (CommitteeStaked (supplyTracker s)))"
    using assms p paid_committees_length [of "StakePercentForSubsidizedCommittee p"
        "Staked (supplyTracker s)" u "CommitteeStaked (supplyTracker s)"]
    by (auto simp: GetSubsidizedCommittees_def op_simps GetSupply_def split: if_splits)
qed

lemma frame_GetSubsidizedCommittees [frame_rules]:
  "(\<And>s c. g (s\<lparr>cache_valParams := c\<rparr>) = g s) \<Longrightarrow> frame g GetSubsidizedCommittees"
  unfolding GetSubsidizedCommittees_def by (intro frame_rules)

lemma frame_GetBlockMintStats [frame_rules]:
  "(\<And>s c. g (s\<lparr>cache_valParams := c\<rparr>) = g s) \<Longrightarrow> frame g GetBlockMintStats"
  unfolding GetBlockMintStats_def by (intro frame_rules)

text \<open>The DAO cut and the equal parts of the committees add up to at most the minted amount.\<close>

lemma mint_split:
  fixes tm :: u64
  assumes after: "after = (if 100 \<le> dao \<or> tm = 0 then 0 else if dao = 0 then tm
      else SafeMulDiv tm (100 - dao) 100)"
    and k: "k < 18446744073709551616"
  shows "unat (tm - after) + k * unat (after div of_nat k) \<le> unat tm"
proof -
  have "unat after \<le> unat tm"
  proof (cases "100 \<le> dao \<or> tm = 0 \<or> dao = 0")
    case False
    then have "100 - dao \<le> 100"
      by (simp add: word_le_nat_alt word_less_nat_alt unat_sub)
    with False show ?thesis
      using share_le [of "unat (100 - dao)" "unat (100 :: u64)" "unat tm"]
      by (simp add: after SafeMulDiv_le word_le_nat_alt)
  qed (auto simp: after)
  moreover have "k * unat (after div of_nat k) \<le> unat after"
    using k by (simp add: unat_div_distrib unat_of_nat_u64)
  ultimately show ?thesis
    by (simp add: unat_sub word_le_nat_alt)
qed

lemma GetBlockMintStats_split:
  assumes t: "GetBlockMintStats s = (t, Inr st)"
    and small: "length (CommitteeStaked (supplyTracker s)) < 18446744073709551615"
  shows "unat (daoCut st) + length (subsidizedChainIds st) * unat (mintAmountPerCommittee st)
      \<le> unat (totalMint st)"
    and "totalMint st = drop_bit (unat (Height s div BlocksPerHalvening (Cfg s)))
      (InitialTokensPerBlock (Cfg s))"
proof -
  obtain g u where g: "GetParamsGov s = (u, Inr g)"
    using t unfolding GetBlockMintStats_def
    by (auto simp: op_simps split: if_splits prod.splits sum.splits)
  then have u: "u = s" by (auto simp: GetParamsGov_def split: option.splits)
  obtain ids v where v: "GetSubsidizedCommittees s = (v, Inr ids)"
    using t g u unfolding GetBlockMintStats_def
    by (auto simp: op_simps split: if_splits prod.splits sum.splits)
  have h: "Height v = Height s"
    by (rule frameD [where m = GetSubsidizedCommittees, OF _ v]) (intro frame_rules, simp)
  let ?tm = "drop_bit (unat (Height s div BlocksPerHalvening (Cfg s))) (InitialTokensPerBlock (Cfg s))"
  have st: "totalMint st = ?tm" "subsidizedChainIds st = ids"
      "daoCut st = ?tm - (if 100 \<le> DaoRewardPercentage g \<or> ?tm = 0 then 0
        else if DaoRewardPercentage g = 0 then ?tm
        else SafeMulDiv ?tm (100 - DaoRewardPercentage g) 100)"
      "mintAmountPerCommittee st = (if 100 \<le> DaoRewardPercentage g \<or> ?tm = 0 then 0
        else if DaoRewardPercentage g = 0 then ?tm
        else SafeMulDiv ?tm (100 - DaoRewardPercentage g) 100) div of_nat (length ids)"
    using t g u v h unfolding GetBlockMintStats_def
    by (auto simp: op_simps Let_def split: if_splits)
  have "length ids < 18446744073709551616"
    using GetSubsidizedCommittees_length(2) [OF v] small by simp
  from mint_split [OF refl this] show "unat (daoCut st)
      + length (subsidizedChainIds st) * unat (mintAmountPerCommittee st) \<le> unat (totalMint st)"
    unfolding st .
  show "totalMint st = ?tm" by (rule st)
qed

text \<open>The loop over the subsidised chains keeps the books and stays within a budget.\<close>

lemma mint_loop:
  assumes "for_op (\<lambda>c. MintToPool c n) ids s = (t, Inr ())"
    and "funds_ok A s" and "held s = total_supply s"
    and "total_supply s + length ids * unat n < 18446744073709551616"
  shows "funds_ok A t \<and> held t = total_supply t
    \<and> total_supply t = total_supply s + length ids * unat n"
  using assms
proof (induction ids arbitrary: s)
  case Nil
  then show ?case by (simp add: op_simps)
next
  case (Cons c ids)
  then obtain u where u: "MintToPool c n s = (u, Inr ())" "for_op (\<lambda>c. MintToPool c n) ids u = (t, Inr ())"
    by (auto elim: bindE_okE)
  have "total_supply s + unat n < 18446744073709551616"
    using Cons.prems(4) by simp
  note m = MintToPool_step [OF Cons.prems(2,3) this u(1)]
  show ?case
    using Cons.IH [OF u(2) m(2,3)] m(4) Cons.prems(4) by (simp add: algebra_simps)
qed

lemma FundCommitteeRewardPools_step:
  assumes ok: "funds_ok A s" and held: "held s = total_supply s"
    and room: "total_supply s + unat (InitialTokensPerBlock (Cfg s)) < 18446744073709551616"
    and small: "length (CommitteeStaked (supplyTracker s)) < 18446744073709551615"
    and t: "FundCommitteeRewardPools s = (t, Inr ())"
  shows "funds_ok A t" and "held t = total_supply t" and "total_supply s \<le> total_supply t"
    and "total_supply t \<le> total_supply s + unat (drop_bit (unat (Height s div BlocksPerHalvening (Cfg s)))
      (InitialTokensPerBlock (Cfg s)))"
proof -
  let ?tm = "drop_bit (unat (Height s div BlocksPerHalvening (Cfg s))) (InitialTokensPerBlock (Cfg s))"
  obtain u r where u: "GetBlockMintStats s = (u, r)" by fastforce
  have us: "u = s\<lparr>cache_valParams := cache_valParams u\<rparr>"
    by (rule only_cache_valParams [where m = GetBlockMintStats, OF _ u]) (intro frame_rules, simp)
  have u_ok: "funds_ok A u" "held u = total_supply u" "total_supply u = total_supply s"
    using ok held by (subst us; simp add: total_supply_def)+
  have tm: "unat ?tm \<le> unat (InitialTokensPerBlock (Cfg s))"
    by (metis drop_bit_eq_div div_le_dividend unat_drop_bit_eq)
  have "funds_ok A t \<and> held t = total_supply t \<and> total_supply s \<le> total_supply t
      \<and> total_supply t \<le> total_supply s + unat ?tm"
  proof (cases r)
    case (Inl e)
    with t u u_ok show ?thesis
      by (auto simp: FundCommitteeRewardPools_def op_simps split: if_splits)
  next
    case (Inr st)
    obtain w where w: "MintToPool DAOPoolID (daoCut st) u = (w, Inr ())"
      "for_op (\<lambda>c. MintToPool c (mintAmountPerCommittee st)) (subsidizedChainIds st) w = (t, Inr ())"
      using t u Inr unfolding FundCommitteeRewardPools_def
      by (auto simp: bindE_attempt elim!: bindE_okE)
    note sp = GetBlockMintStats_split [OF u [unfolded Inr] small]
    have budget: "unat (daoCut st) + length (subsidizedChainIds st) * unat (mintAmountPerCommittee st)
        \<le> unat ?tm"
      using sp by simp
    have "total_supply u + unat (daoCut st) < 18446744073709551616"
      using budget tm room u_ok(3) by simp
    note m = MintToPool_step [OF u_ok(1,2) this w(1)]
    have "total_supply w + length (subsidizedChainIds st) * unat (mintAmountPerCommittee st)
        < 18446744073709551616"
      using budget tm room u_ok(3) m(4) by simp
    from mint_loop [OF w(2) m(2,3) this] show ?thesis
      using budget u_ok(3) m(4) by simp
  qed
  then show "funds_ok A t" "held t = total_supply t" "total_supply s \<le> total_supply t"
    "total_supply t \<le> total_supply s + unat ?tm"
    by auto
qed

end
