(* ===== verification/Validators.thy ===== *)
theory Validators
  imports Committees
begin

text \<open>
  Validators and delegates (fsm/validator.go) with the handlers of their messages (fsm/message.go:
  stake, edit-stake, unstake, pause, unpause).  A Go function that is handed a validator by
  reference and changes it returns the changed record here.
\<close>

section \<open>The validator store\<close>

definition GetValidator :: "address \<Rightarrow> StateMachine \<Rightarrow> err + Validator" where
  "GetValidator a s =
     (case kv_get (validators s) a of
        None \<Rightarrow> Inl ErrValidatorNotExists
      | Some v \<Rightarrow> Inr (v\<lparr>val_Address := a\<rparr>))"

definition GetValidatorExists :: "address \<Rightarrow> StateMachine \<Rightarrow> bool" where
  "GetValidatorExists a s = (kv_get (validators s) a \<noteq> None)"

definition GetValidators :: "StateMachine \<Rightarrow> Validator list" where
  "GetValidators s = kv_values (validators s)"

definition SetValidator :: "Validator \<Rightarrow> unit fsm" where
  "SetValidator v = writes (\<lambda>s. s\<lparr>validators := kv_set (val_Address v) v (validators s)\<rparr>)"

section \<open>Stake\<close>

definition UpdateValidatorStake :: "Validator \<Rightarrow> u64 list \<Rightarrow> u64 \<Rightarrow> unit fsm" where
  "UpdateValidatorStake val newCommittees amountToAdd =
     bindE (AddToStakedSupply amountToAdd) (\<lambda>_.
       let newStakedAmount = val_StakedAmount val + amountToAdd in
       bindE
         (if val_Delegate val then
            bindE (AddToDelegateSupply amountToAdd) (\<lambda>_.
              UpdateDelegations (val_Address val) val newStakedAmount newCommittees)
          else UpdateCommittees (val_Address val) val newStakedAmount newCommittees) (\<lambda>_.
       SetValidator (val\<lparr>val_Committees := newCommittees, val_StakedAmount := newStakedAmount\<rparr>)))"

definition DeleteValidator :: "Validator \<Rightarrow> unit fsm" where
  "DeleteValidator validator =
     bindE (SubFromStakedSupply (val_StakedAmount validator)) (\<lambda>_.
     bindE
       (if val_Delegate validator then
          bindE (SubFromDelegateSupply (val_StakedAmount validator)) (\<lambda>_.
            DeleteDelegations (val_Address validator) (val_StakedAmount validator)
              (val_Committees validator))
        else DeleteCommittees (val_Address validator) (val_StakedAmount validator)
          (val_Committees validator)) (\<lambda>_.
     writes (\<lambda>s. s\<lparr>validators := kv_del (val_Address validator) (validators s)\<rparr>)))"

section \<open>Paused and unstaking validators\<close>

definition SetValidatorPaused :: "address \<Rightarrow> Validator \<Rightarrow> u64 \<Rightarrow> Validator fsm" where
  "SetValidatorPaused a validator maxPausedHeight =
     bindE (writes (\<lambda>s. s\<lparr>paused := kv_set (maxPausedHeight, a) () (paused s)\<rparr>)) (\<lambda>_.
       let v = validator\<lparr>val_MaxPausedHeight := maxPausedHeight\<rparr> in
       bindE (SetValidator v) (\<lambda>_. ok v))"

definition SetValidatorUnpaused :: "address \<Rightarrow> Validator \<Rightarrow> Validator fsm" where
  "SetValidatorUnpaused a validator =
     bindE (writes (\<lambda>s. s\<lparr>paused :=
         kv_del (val_MaxPausedHeight validator, a) (paused s)\<rparr>)) (\<lambda>_.
       let v = validator\<lparr>val_MaxPausedHeight := 0\<rparr> in
       bindE (SetValidator v) (\<lambda>_. ok v))"

definition SetValidatorUnstaking :: "address \<Rightarrow> Validator \<Rightarrow> u64 \<Rightarrow> Validator fsm" where
  "SetValidatorUnstaking a validator finishUnstakingHeight =
     bindE (writes (\<lambda>s. s\<lparr>unstaking :=
         kv_set (finishUnstakingHeight, a) () (unstaking s)\<rparr>)) (\<lambda>_.
     bindE
       (if val_MaxPausedHeight validator \<noteq> 0 then SetValidatorUnpaused a validator
        else ok validator) (\<lambda>v.
     let v' = v\<lparr>val_UnstakingHeight := finishUnstakingHeight\<rparr> in
     bindE (SetValidator v') (\<lambda>_. ok v')))"

definition SetValidatorUnstakingIfBelowMinimum :: "Validator \<Rightarrow> ValidatorParams \<Rightarrow> bool fsm" where
  "SetValidatorUnstakingIfBelowMinimum validator params =
     (if val_UnstakingHeight validator \<noteq> 0 then ok False
      else
        let (unstakingBlocks, belowMinimum) =
          (if val_Delegate validator then
             (if val_StakedAmount validator < MinimumStakeForDelegates params
              then (DelegateUnstakingBlocks params, True) else (0, False))
           else
             (if val_StakedAmount validator < MinimumStakeForValidators params
              then (UnstakingBlocks params, True) else (0, False))) in
        if belowMinimum then
          bindE (reads Height) (\<lambda>h.
          bindE (SetValidatorUnstaking (val_Address validator) validator (h + unstakingBlocks)) (\<lambda>_.
            ok True))
        else ok False)"

text \<open>The loop body of \<open>DeleteFinishedUnstaking\<close> for one unstaking key, and the keys it visits:
  the iterator works on a snapshot, and the keys are deleted after the loop.\<close>

definition finish_unstaking :: "u64 \<times> address \<Rightarrow> unit fsm" where
  "finish_unstaking key =
     (let addr = snd key in
      bindE (gets (GetValidator addr)) (\<lambda>validator.
      bindE (AccountAdd (val_Output validator) (val_StakedAmount validator)) (\<lambda>_.
      bindE (DeleteValidator validator) (\<lambda>_.
        addEvent EventFinishUnstaking addr 0))))"

definition keys_at :: "u64 \<Rightarrow> (u64 \<times> address) index \<Rightarrow> (u64 \<times> address) list" where
  "keys_at h ix = filter (\<lambda>k. fst k = h) (kv_keys ix)"

definition delete_unstaking_key :: "u64 \<times> address \<Rightarrow> unit fsm" where
  "delete_unstaking_key k = writes (\<lambda>s. s\<lparr>unstaking := kv_del k (unstaking s)\<rparr>)"

definition DeleteFinishedUnstaking :: "unit fsm" where
  "DeleteFinishedUnstaking =
     bindE (reads (\<lambda>s. keys_at (Height s) (unstaking s))) (\<lambda>ks.
     bindE (for_op finish_unstaking ks) (\<lambda>_.
       for_op delete_unstaking_key ks))"

section \<open>Messages\<close>

definition HandleMessageStake :: "MessageStake \<Rightarrow> unit fsm" where
  "HandleMessageStake msg =
     bindE (reads Cfg) (\<lambda>cfg.
       case AddressOf cfg (stk_PublicKey msg) of
         None \<Rightarrow> fail ErrInvalidPublicKey
       | Some a \<Rightarrow>
           if \<not> stk_Delegate msg \<and> \<not> IsBLS cfg (stk_PublicKey msg) then fail ErrInvalidPublicKey
           else
             bindE (gets (\<lambda>_. CheckNetAddress (stk_NetAddress msg) (stk_Delegate msg))) (\<lambda>_.
             bindE (reads (GetValidatorExists a)) (\<lambda>exists.
             if exists then fail ErrValidatorExists
             else
               bindE GetParamsVal (\<lambda>params.
               if stk_Amount msg < (if stk_Delegate msg then MinimumStakeForDelegates params
                    else MinimumStakeForValidators params) then fail ErrStakeBelowMininum
               else
                 bindE (AccountSub (stk_Signer msg) (stk_Amount msg)) (\<lambda>_.
                 bindE (AddToStakedSupply (stk_Amount msg)) (\<lambda>_.
                 bindE
                   (if stk_Delegate msg then
                      bindE (AddToDelegateSupply (stk_Amount msg)) (\<lambda>_.
                        SetDelegations a (stk_Amount msg) (stk_Committees msg))
                    else SetCommittees a (stk_Amount msg) (stk_Committees msg)) (\<lambda>_.
                 SetValidator \<lparr>val_Address = a, val_PublicKey = KeyBytes cfg (stk_PublicKey msg),
                   val_NetAddress = stk_NetAddress msg, val_StakedAmount = stk_Amount msg,
                   val_Committees = stk_Committees msg, val_MaxPausedHeight = 0,
                   val_UnstakingHeight = 0, val_Output = stk_OutputAddress msg,
                   val_Delegate = stk_Delegate msg, val_Compound = stk_Compound msg\<rparr>)))))))"

definition HandleMessageEditStake :: "MessageEditStake \<Rightarrow> unit fsm" where
  "HandleMessageEditStake msg =
     bindE (gets (GetValidator (eds_Address msg))) (\<lambda>val.
     bindE (gets (\<lambda>_. CheckNetAddress (eds_NetAddress msg) (val_Delegate val))) (\<lambda>_.
       if val_UnstakingHeight val \<noteq> 0 then fail ErrValidatorUnstaking
       else if val_Output val \<noteq> eds_OutputAddress msg \<and> val_Output val \<noteq> eds_Signer msg then
         fail ErrUnauthorizedTx
       else
         let amountToAdd = (if eds_Amount msg \<le> val_StakedAmount val then 0
           else eds_Amount msg - val_StakedAmount val) in
         bindE (AccountSub (eds_Signer msg) amountToAdd) (\<lambda>_.
           UpdateValidatorStake
             (val\<lparr>val_NetAddress := eds_NetAddress msg, val_Output := eds_OutputAddress msg,
                val_Compound := eds_Compound msg\<rparr>)
             (eds_Committees msg) amountToAdd)))"

definition HandleMessageUnstake :: "address \<Rightarrow> unit fsm" where
  "HandleMessageUnstake a =
     bindE (gets (GetValidator a)) (\<lambda>validator.
       if val_UnstakingHeight validator \<noteq> 0 then fail ErrValidatorUnstaking
       else
         bindE GetParamsVal (\<lambda>p.
         bindE (reads Height) (\<lambda>h.
           let unstakingBlocks = (if \<not> val_Delegate validator then UnstakingBlocks p
             else DelegateUnstakingBlocks p) in
           bindE (SetValidatorUnstaking a validator (h + unstakingBlocks)) (\<lambda>_. ok ()))))"

definition HandleMessagePause :: "address \<Rightarrow> unit fsm" where
  "HandleMessagePause a =
     bindE (gets (GetValidator a)) (\<lambda>validator.
       if val_MaxPausedHeight validator \<noteq> 0 then fail ErrValidatorPaused
       else if val_UnstakingHeight validator \<noteq> 0 then fail ErrValidatorUnstaking
       else if val_Delegate validator then fail ErrValidatorIsADelegate
       else
         bindE GetParamsVal (\<lambda>params.
         bindE (reads Height) (\<lambda>h.
         bindE (SetValidatorPaused a validator (h + MaxPauseBlocks params)) (\<lambda>_. ok ()))))"

definition HandleMessageUnpause :: "address \<Rightarrow> unit fsm" where
  "HandleMessageUnpause a =
     bindE (gets (GetValidator a)) (\<lambda>validator.
       if val_MaxPausedHeight validator = 0 then fail ErrValidatorNotPaused
       else if val_UnstakingHeight validator \<noteq> 0 then fail ErrValidatorUnstaking
       else if val_Delegate validator then fail ErrValidatorIsADelegate
       else bindE (SetValidatorUnpaused a validator) (\<lambda>_. ok ()))"

section \<open>Automatic pause\<close>

text \<open>Every failure is logged and skipped, but what a failing handler wrote before stays.\<close>

definition pause_one :: "u64 \<Rightarrow> address \<Rightarrow> unit fsm" where
  "pause_one chainId addr =
     bindE (reads (GetValidator addr)) (\<lambda>r.
       case r of
         Inl _ \<Rightarrow> ok ()
       | Inr val \<Rightarrow>
           bindE (reads (IsFeatureEnabled 2)) (\<lambda>v2.
             if v2 \<and> chainId \<notin> set (val_Committees val) then ok ()
             else
               bindE (attempt (HandleMessagePause addr)) (\<lambda>res.
                 case res of
                   Inl _ \<Rightarrow> ok ()
                 | Inr _ \<Rightarrow> addEvent EventAutoPause addr 0)))"

definition SetValidatorsPaused :: "u64 \<Rightarrow> address list \<Rightarrow> unit fsm" where
  "SetValidatorsPaused chainId addresses = for_op (pause_one chainId) addresses"

definition GetAuthorizedSignersForValidator :: "address \<Rightarrow> StateMachine \<Rightarrow> err + address list" where
  "GetAuthorizedSignersForValidator a s =
     (case GetValidator a s of
        Inl e \<Rightarrow> Inl e
      | Inr validator \<Rightarrow>
          if val_Address validator = val_Output validator then Inr [val_Address validator]
          else Inr [val_Address validator, val_Output validator])"

section \<open>The staking ledger\<close>

text \<open>
  Everything the supply tracker records about stake, as one family of entries: the committee lists
  per chain and the two counters.  A validator has a weight in each entry, and the ledger is
  correct when every entry is the sum of the weights.
\<close>

datatype entry = CommitteeEntry SupplyPoolType u64 | StakedEntry | DelegatedEntry

fun amount :: "entry \<Rightarrow> StateMachine \<Rightarrow> nat" where
  "amount (CommitteeEntry tt d) s = recorded tt d s"
| "amount StakedEntry s = unat (Staked (supplyTracker s))"
| "amount DelegatedEntry s = unat (DelegatedOnly (supplyTracker s))"

fun weight :: "entry \<Rightarrow> Validator \<Rightarrow> nat" where
  "weight (CommitteeEntry tt d) v = share (val_Delegate v) (val_StakedAmount v) (val_Committees v) tt d"
| "weight StakedEntry v = unat (val_StakedAmount v)"
| "weight DelegatedEntry v = (if val_Delegate v then unat (val_StakedAmount v) else 0)"

text \<open>
  The tracker agrees with the validators on a set of its entries, and always on the staked total.
  Slashing a delegate updates fewer entries than it should (see Byzantine), so the invariant of a
  whole block is the one on \<open>joint_entries\<close>; without such a slash it holds on every entry.
\<close>

definition ledger_on :: "entry set \<Rightarrow> StateMachine \<Rightarrow> bool" where
  "ledger_on E s \<longleftrightarrow> (\<forall>e \<in> insert StakedEntry E. amount e s = kv_sum (weight e) (validators s))"

definition joint_entries :: "entry set" where
  "joint_entries = range (CommitteeEntry CommitteesWithDelegations)"

abbreviation ledger_ok :: "StateMachine \<Rightarrow> bool" where
  "ledger_ok \<equiv> ledger_on UNIV"

text \<open>An operation on the supply tracker that takes weights out and puts weights in.\<close>

definition moves :: "(entry \<Rightarrow> nat) \<Rightarrow> (entry \<Rightarrow> nat) \<Rightarrow> StateMachine \<Rightarrow> StateMachine \<Rightarrow> bool" where
  "moves out into s t \<longleftrightarrow>
     total_supply t = total_supply s \<and> (\<forall>e. amount e t + out e = amount e s + into e)"

fun in_lists :: "ledger \<Rightarrow> entry \<Rightarrow> nat" where
  "in_lists l (CommitteeEntry tt d) = l tt d"
| "in_lists l StakedEntry = 0"
| "in_lists l DelegatedEntry = 0"

definition only :: "entry \<Rightarrow> nat \<Rightarrow> entry \<Rightarrow> nat" where
  "only e n e' = (if e' = e then n else 0)"

lemma moves_trans:
  "moves a b s t \<Longrightarrow> moves c d t u \<Longrightarrow> moves (\<lambda>e. a e + c e) (\<lambda>e. b e + d e) s u"
  unfolding moves_def by (metis (no_types, lifting) add.assoc add.commute)

lemma all_entry:
  "(\<forall>e. P e) \<longleftrightarrow> (\<forall>tt d. P (CommitteeEntry tt d)) \<and> P StakedEntry \<and> P DelegatedEntry"
  by (metis entry.exhaust)

lemma shifts_moves: "shifts a b s t \<Longrightarrow> moves (in_lists a) (in_lists b) s t"
  by (simp add: moves_def all_entry shifts_def counters_def total_supply_def)

lemma recorded_counters [simp]:
  "recorded tt d (s\<lparr>supplyTracker := (supplyTracker s)\<lparr>Staked := x\<rparr>\<rparr>) = recorded tt d s"
  "recorded tt d (s\<lparr>supplyTracker := (supplyTracker s)\<lparr>DelegatedOnly := x\<rparr>\<rparr>) = recorded tt d s"
  by (cases tt; simp add: recorded_def)+

lemma moves_add:
  "AddToStakedSupply n s = (t, Inr ()) \<Longrightarrow> moves (\<lambda>_. 0) (only StakedEntry (unat n)) s t"
  "AddToDelegateSupply n s = (t, Inr ()) \<Longrightarrow> moves (\<lambda>_. 0) (only DelegatedEntry (unat n)) s t"
  by (auto simp: moves_def all_entry only_def total_supply_def op_simps u64_simps
      AddToStakedSupply_def AddToDelegateSupply_def SetSupply_def GetSupply_def unat_add_u64
      split: if_splits)

lemma moves_sub:
  "SubFromStakedSupply n s = (t, Inr ()) \<Longrightarrow> moves (only StakedEntry (unat n)) (\<lambda>_. 0) s t"
  "SubFromDelegateSupply n s = (t, Inr ()) \<Longrightarrow> moves (only DelegatedEntry (unat n)) (\<lambda>_. 0) s t"
  by (auto simp: moves_def all_entry only_def total_supply_def op_simps SubFromStakedSupply_def
      SubFromDelegateSupply_def SetSupply_def GetSupply_def unat_sub word_le_nat_alt
      word_less_nat_alt split: if_splits)

lemmas moves_counters = moves_add moves_sub

text \<open>Replacing, adding and removing one validator keeps the ledger when its weights move along.\<close>

lemma ledger_replace:
  assumes "ledger_on E s" and "kv_wf (validators s)" and "kv_get (validators s) a = Some old"
    and "\<And>e. e \<in> insert StakedEntry E \<Longrightarrow> amount e t + weight e old = amount e s + weight e new"
    and "validators t = kv_set a new (validators s)"
  shows "ledger_on E t"
  unfolding ledger_on_def
proof
  fix e
  assume e: "e \<in> insert StakedEntry E"
  from assms(4) [OF e] assms(1) e kv.total_upd_old [OF assms(2,3), of "weight e" new]
  show "amount e t = kv_sum (weight e) (validators t)"
    unfolding ledger_on_def assms(5) by (metis add_right_cancel)
qed

lemma ledger_insert:
  assumes "ledger_on E s" and "kv_wf (validators s)" and "kv_get (validators s) a = None"
    and "moves (\<lambda>_. 0) (\<lambda>e. weight e new) s t" and "validators t = kv_set a new (validators s)"
  shows "ledger_on E t"
  using assms kv.total_upd_new [OF assms(2,3)] unfolding ledger_on_def moves_def by auto

lemma ledger_remove:
  assumes "ledger_on E s" and "kv_wf (validators s)" and "kv_get (validators s) a = Some old"
    and "moves (\<lambda>e. weight e old) (\<lambda>_. 0) s t" and "validators t = kv_del a (validators s)"
  shows "ledger_on E t"
  unfolding ledger_on_def
proof
  fix e
  assume "e \<in> insert StakedEntry E"
  moreover have "amount e t + weight e old = amount e s"
    using assms(4) by (simp add: moves_def)
  ultimately show "amount e t = kv_sum (weight e) (validators t)"
    using assms(1) kv.total_del_old [OF assms(2,3), of "weight e"]
    unfolding ledger_on_def assms(5) by (metis add_right_cancel)
qed

section \<open>Frames\<close>

lemma frame_SetValidator [frame_rules]:
  "(\<And>s x. g (s\<lparr>validators := x\<rparr>) = g s) \<Longrightarrow> frame g (SetValidator v)"
  unfolding SetValidator_def by (intro frame_rules)

lemma frame_stake [frame_rules]:
  assumes "\<And>s x. g (s\<lparr>validators := x\<rparr>) = g s" "\<And>s x. g (s\<lparr>supplyTracker := x\<rparr>) = g s"
    "\<And>s x. g (s\<lparr>committees := x\<rparr>) = g s" "\<And>s x. g (s\<lparr>delegates := x\<rparr>) = g s"
  shows "frame g (UpdateValidatorStake v cs n)" "frame g (DeleteValidator v)"
  unfolding UpdateValidatorStake_def DeleteValidator_def by (intro frame_rules assms)+

lemma frame_SetValidatorPaused [frame_rules]:
  assumes "\<And>s x. g (s\<lparr>validators := x\<rparr>) = g s" "\<And>s x. g (s\<lparr>paused := x\<rparr>) = g s"
  shows "frame g (SetValidatorPaused a v h)" "frame g (SetValidatorUnpaused a v)"
  unfolding SetValidatorPaused_def SetValidatorUnpaused_def by (intro frame_rules assms)+

lemma frame_SetValidatorUnstaking [frame_rules]:
  assumes "\<And>s x. g (s\<lparr>validators := x\<rparr>) = g s" "\<And>s x. g (s\<lparr>paused := x\<rparr>) = g s"
    "\<And>s x. g (s\<lparr>unstaking := x\<rparr>) = g s"
  shows "frame g (SetValidatorUnstaking a v h)" "frame g (SetValidatorUnstakingIfBelowMinimum v p)"
  unfolding SetValidatorUnstaking_def SetValidatorUnstakingIfBelowMinimum_def
  by (intro frame_rules assms)+

text \<open>The part of the state that operations on stake leave alone.\<close>

definition others where
  "others s = (accounts s, cache_accounts s, Cfg s, pools s)"

lemma funds_ok_others:
  assumes "others t = others s" and "funds_ok A s" and "kv_wf (validators t)"
  shows "funds_ok A t" and "held t + stake_total s = held s + stake_total t"
proof -
  have eq: "accounts t = accounts s" "cache_accounts t = cache_accounts s" "Cfg t = Cfg s"
      "pools t = pools s"
    using assms(1) by (simp_all add: others_def)
  show "funds_ok A t" "held t + stake_total s = held s + stake_total t"
    using assms(2,3) accounts_ok_cong [OF eq(1,3,2)] account_total_cong [OF eq(1)]
    by (simp_all add: funds_ok_def held_def pool_total_def eq(4))
qed

section \<open>Changing a stake\<close>

definition same_stake :: "Validator \<Rightarrow> Validator \<Rightarrow> bool" where
  "same_stake v w \<longleftrightarrow> val_Delegate v = val_Delegate w \<and> val_StakedAmount v = val_StakedAmount w
     \<and> val_Committees v = val_Committees w"

lemma same_stake_weight: "same_stake v w \<Longrightarrow> weight e v = weight e w"
  by (cases e) (auto simp: same_stake_def)

lemma ledger_stake: "ledger_on E s \<Longrightarrow> unat (Staked (supplyTracker s)) = stake_total s"
proof -
  assume "ledger_on E s"
  then have "amount StakedEntry s = kv_sum (weight StakedEntry) (validators s)"
    by (simp add: ledger_on_def)
  moreover have "weight StakedEntry = (\<lambda>v. unat (val_StakedAmount v))"
    by (rule ext) simp
  ultimately show ?thesis
    by (simp add: stake_total_def)
qed

lemma stake_le_total:
  "kv_wf (validators s) \<Longrightarrow> kv_get (validators s) a = Some v \<Longrightarrow>
     unat (val_StakedAmount v) \<le> stake_total s"
  unfolding stake_total_def
  by (rule kv.total_ge [where f = "\<lambda>v. unat (val_StakedAmount v)"])

lemma SetValidator_moves: "SetValidator v s = (t, r) \<Longrightarrow> moves (\<lambda>_. 0) (\<lambda>_. 0) s t"
  by (auto simp: SetValidator_def op_simps moves_def all_entry total_supply_def recorded_def)

lemma UpdateValidatorStake_moves:
  assumes t: "UpdateValidatorStake v cs n s = (t, Inr ())"
    and no: "unat (val_StakedAmount v) \<le> unat (Staked (supplyTracker s))"
  defines "new \<equiv> v\<lparr>val_Committees := cs, val_StakedAmount := val_StakedAmount v + n\<rparr>"
  shows "moves (\<lambda>e. weight e v) (\<lambda>e. weight e new) s t"
    and "validators t = kv_set (val_Address v) new (validators s)"
    and "unat (val_StakedAmount new) = unat (val_StakedAmount v) + unat n"
proof -
  let ?lists = "if val_Delegate v then bindE (AddToDelegateSupply n)
        (\<lambda>_. UpdateDelegations (val_Address v) v (val_StakedAmount v + n) cs)
      else UpdateCommittees (val_Address v) v (val_StakedAmount v + n) cs"
  obtain u x where u: "AddToStakedSupply n s = (u, Inr ())" and x: "?lists u = (x, Inr ())"
    and set: "SetValidator new x = (t, Inr ())"
    using t unfolding UpdateValidatorStake_def Let_def new_def by (auto elim!: bindE_okE)
  have "unat (Staked (supplyTracker s)) + unat n < 18446744073709551616"
    using u by (auto simp: AddToStakedSupply_def GetSupply_def op_simps u64_simps split: if_splits)
  then show sum: "unat (val_StakedAmount new) = unat (val_StakedAmount v) + unat n"
    using no by (simp add: new_def unat_add_u64)
  have F: "frame validators (AddToStakedSupply n)" "frame validators ?lists"
    by (intro frame_rules; simp)+
  from frameD [where m = "AddToStakedSupply n", OF F(1) u] frameD [where m = "?lists", OF F(2) x]
  have same: "validators x = validators s"
    by simp
  show "validators t = kv_set (val_Address v) new (validators s)"
    using set same by (auto simp: SetValidator_def op_simps new_def)
  show "moves (\<lambda>e. weight e v) (\<lambda>e. weight e new) s t"
  proof (cases "val_Delegate v")
    case True
    then obtain y where y: "AddToDelegateSupply n u = (y, Inr ())"
      "UpdateDelegations (val_Address v) v (val_StakedAmount v + n) cs y = (x, Inr ())"
      using x by (auto elim!: bindE_okE)
    from moves_trans [OF moves_add(1) [OF u] moves_trans [OF moves_add(2) [OF y(1)]
        moves_trans [OF shifts_moves [OF UpdateDelegations_shifts [OF y(2)]] SetValidator_moves [OF set]]]]
    show ?thesis
      using True sum by (simp add: moves_def all_entry only_def new_def)
  next
    case False
    then have "UpdateCommittees (val_Address v) v (val_StakedAmount v + n) cs u = (x, Inr ())"
      using x by simp
    from moves_trans [OF moves_add(1) [OF u]
        moves_trans [OF shifts_moves [OF UpdateCommittees_shifts [OF this]] SetValidator_moves [OF set]]]
    show ?thesis
      using False sum by (simp add: moves_def all_entry only_def new_def)
  qed
qed

lemma UpdateValidatorStake_step:
  assumes ok: "ledger_on E s" and wf: "kv_wf (validators s)"
    and old: "kv_get (validators s) (val_Address v) = Some old" "same_stake v old"
    and t: "UpdateValidatorStake v cs n s = (t, Inr ())"
  shows "ledger_on E t" and "kv_wf (validators t)" and "total_supply t = total_supply s"
    and "stake_total t = stake_total s + unat n" and "others t = others s"
proof -
  have le: "unat (val_StakedAmount v) \<le> unat (Staked (supplyTracker s))"
    using stake_le_total [OF wf old(1)] old(2) by (simp add: ledger_stake [OF ok] same_stake_def)
  note m = UpdateValidatorStake_moves [OF t le]
  show "kv_wf (validators t)"
    by (simp add: m(2) kv_wf_set wf)
  show "ledger_on E t"
    by (rule ledger_replace [OF ok wf old(1) _ m(2)])
      (use m(1) in \<open>simp add: moves_def same_stake_weight [OF old(2)]\<close>)
  show "total_supply t = total_supply s"
    using m(1) by (simp add: moves_def)
  have "stake_total t + unat (val_StakedAmount old) = stake_total s + (unat (val_StakedAmount v) + unat n)"
    unfolding stake_total_def m(2) m(3) [symmetric]
    by (rule kv.total_upd_old [OF wf old(1), where f = "\<lambda>v. unat (val_StakedAmount v)"])
  then show "stake_total t = stake_total s + unat n"
    using old(2) by (simp add: same_stake_def)
  show "others t = others s"
    by (rule frameD [where m = "UpdateValidatorStake v cs n", OF _ t], intro frame_rules)
      (simp_all add: others_def)
qed

lemma DeleteValidator_moves:
  assumes t: "DeleteValidator v s = (t, Inr ())"
  shows "moves (\<lambda>e. weight e v) (\<lambda>_. 0) s t"
    and "validators t = kv_del (val_Address v) (validators s)" and "others t = others s"
proof -
  let ?n = "val_StakedAmount v" and ?cs = "val_Committees v" and ?a = "val_Address v"
  let ?lists = "if val_Delegate v then bindE (SubFromDelegateSupply ?n) (\<lambda>_. DeleteDelegations ?a ?n ?cs)
      else DeleteCommittees ?a ?n ?cs"
  obtain u x where u: "SubFromStakedSupply ?n s = (u, Inr ())" and x: "?lists u = (x, Inr ())"
    and t': "t = x\<lparr>validators := kv_del ?a (validators x)\<rparr>"
    using t unfolding DeleteValidator_def by (auto elim!: bindE_okE simp: writes_apply)
  have F: "frame validators (SubFromStakedSupply ?n)" "frame validators ?lists"
    by (intro frame_rules; simp)+
  from frameD [where m = "SubFromStakedSupply ?n", OF F(1) u] frameD [where m = "?lists", OF F(2) x]
  have "validators x = validators s"
    by simp
  then show "validators t = kv_del ?a (validators s)"
    by (simp add: t')
  have xt: "moves (\<lambda>_. 0) (\<lambda>_. 0) x t"
    by (simp add: t' moves_def all_entry total_supply_def recorded_def)
  show "moves (\<lambda>e. weight e v) (\<lambda>_. 0) s t"
  proof (cases "val_Delegate v")
    case True
    then obtain y where y: "SubFromDelegateSupply ?n u = (y, Inr ())"
      "DeleteDelegations ?a ?n ?cs y = (x, Inr ())"
      using x by (auto elim!: bindE_okE)
    from moves_trans [OF moves_sub(1) [OF u] moves_trans [OF moves_sub(2) [OF y(1)]
        moves_trans [OF shifts_moves [OF DeleteDelegations_shifts [OF y(2)]] xt]]]
    show ?thesis
      using True by (simp add: moves_def all_entry only_def)
  next
    case False
    then have "DeleteCommittees ?a ?n ?cs u = (x, Inr ())"
      using x by simp
    from moves_trans [OF moves_sub(1) [OF u]
        moves_trans [OF shifts_moves [OF DeleteCommittees_shifts [OF this]] xt]]
    show ?thesis
      using False by (simp add: moves_def all_entry only_def)
  qed
  show "others t = others s"
    by (rule frameD [where m = "DeleteValidator v", OF _ t], intro frame_rules)
      (simp_all add: others_def)
qed

lemma DeleteValidator_step:
  assumes ok: "ledger_on E s" and wf: "kv_wf (validators s)"
    and old: "kv_get (validators s) (val_Address v) = Some old" "same_stake v old"
    and t: "DeleteValidator v s = (t, Inr ())"
  shows "ledger_on E t" and "kv_wf (validators t)" and "total_supply t = total_supply s"
    and "stake_total t + unat (val_StakedAmount v) = stake_total s" and "others t = others s"
proof -
  note m = DeleteValidator_moves(1) [OF t] and del = DeleteValidator_moves(2) [OF t]
  show "kv_wf (validators t)"
    by (simp add: del kv_wf_del wf)
  show "ledger_on E t"
    by (rule ledger_remove [OF ok wf old(1) _ del]) (use m in \<open>simp add: same_stake_weight [OF old(2)]\<close>)
  show "total_supply t = total_supply s"
    using m by (simp add: moves_def)
  have "stake_total t + unat (val_StakedAmount old) = stake_total s"
    unfolding stake_total_def del
    by (rule kv.total_del_old [OF wf old(1), where f = "\<lambda>v. unat (val_StakedAmount v)"])
  then show "stake_total t + unat (val_StakedAmount v) = stake_total s"
    using old(2) by (simp add: same_stake_def)
  show "others t = others s"
    by (rule DeleteValidator_moves [OF t])
qed

text \<open>A record that is rewritten without touching its stake.\<close>

lemma rewrite_step:
  assumes "ledger_on E s" and wf: "kv_wf (validators s)" and old: "kv_get (validators s) a = Some old"
    and new: "same_stake new old"
    and t: "validators t = kv_set a new (validators s)" "supplyTracker t = supplyTracker s"
  shows "ledger_on E t" and "kv_wf (validators t)" and "stake_total t = stake_total s"
proof -
  have "amount e t + weight e old = amount e s + weight e new" for e
    by (cases e) (simp_all add: recorded_def t(2) same_stake_weight [OF new])
  from ledger_replace [OF assms(1) wf old this t(1)] show "ledger_on E t" .
  show "kv_wf (validators t)" by (simp add: t(1) kv_wf_set wf)
  show "stake_total t = stake_total s"
    unfolding stake_total_def t(1)
    by (rule kv.total_upd_same [OF wf old]) (use new in \<open>simp add: same_stake_def\<close>)
qed

section \<open>The books\<close>

text \<open>
  The invariant of the token economy: the stores are well formed, the supply tracker records every
  stake, and the tokens in accounts, pools and stakes add up to the total supply.
\<close>

definition books_on :: "entry set \<Rightarrow> address set \<Rightarrow> StateMachine \<Rightarrow> bool" where
  "books_on E A s \<longleftrightarrow> funds_ok A s \<and> ledger_on E s \<and> held s = total_supply s"

abbreviation books_ok :: "address set \<Rightarrow> StateMachine \<Rightarrow> bool" where
  "books_ok \<equiv> books_on UNIV"

lemma amount_cong: "supplyTracker t = supplyTracker s \<Longrightarrow> amount e t = amount e s"
  by (cases e) (simp_all add: recorded_def)

lemma amount_simps [simp]:
  "amount e (s\<lparr>events := x\<rparr>) = amount e s" "amount e (s\<lparr>pools := p\<rparr>) = amount e s"
  "amount e (s\<lparr>validators := v\<rparr>) = amount e s" "amount e (s\<lparr>committeesData := d\<rparr>) = amount e s"
  by (rule amount_cong, simp)+

lemma ledger_on_cong:
  "validators t = validators s \<Longrightarrow> supplyTracker t = supplyTracker s \<Longrightarrow> ledger_on E t = ledger_on E s"
  by (auto simp: ledger_on_def amount_cong [of t s])

lemma total_supply_cong: "supplyTracker t = supplyTracker s \<Longrightarrow> total_supply t = total_supply s"
  by (simp add: total_supply_def)

lemma books_cache_simps [simp]: "books_on E A (s\<lparr>cache_valParams := c\<rparr>) = books_on E A s"
  by (simp add: books_on_def total_supply_def ledger_on_cong [of "s\<lparr>cache_valParams := c\<rparr>" s])

lemma AccountSub_keeps:
  assumes "AccountSub a n s = (t, r)"
  shows "validators t = validators s" "supplyTracker t = supplyTracker s"
  by (rule frameD [where m = "AccountSub a n", OF _ assms], intro frame_rules, simp)+

lemma AccountAdd_keeps:
  assumes "AccountAdd a n s = (t, r)"
  shows "validators t = validators s" "supplyTracker t = supplyTracker s"
  by (rule frameD [where m = "AccountAdd a n", OF _ assms], intro frame_rules, simp)+

text \<open>Registering a new validator or delegate moves exactly its stake.\<close>

lemma add_validator_step:
  assumes ok: "ledger_on E s" and wf: "kv_wf (validators s)"
    and fresh: "kv_get (validators s) (val_Address v) = None"
    and u: "AddToStakedSupply (val_StakedAmount v) s = (u, Inr ())"
    and x: "(if val_Delegate v then bindE (AddToDelegateSupply (val_StakedAmount v))
        (\<lambda>_. SetDelegations (val_Address v) (val_StakedAmount v) (val_Committees v))
      else SetCommittees (val_Address v) (val_StakedAmount v) (val_Committees v)) u = (x, Inr ())"
      (is "?lists u = _")
    and set: "SetValidator v x = (t, Inr ())"
  shows "ledger_on E t" and "kv_wf (validators t)" and "total_supply t = total_supply s"
    and "stake_total t = stake_total s + unat (val_StakedAmount v)" and "others t = others s"
proof -
  let ?n = "val_StakedAmount v"
  have F: "frame validators (AddToStakedSupply ?n)" "frame validators ?lists"
    by (intro frame_rules; simp)+
  from frameD [where m = "AddToStakedSupply ?n", OF F(1) u] frameD [where m = ?lists, OF F(2) x]
  have ins: "validators t = kv_set (val_Address v) v (validators s)"
    using set by (auto simp: SetValidator_def op_simps)
  have m: "moves (\<lambda>_. 0) (\<lambda>e. weight e v) s t"
  proof (cases "val_Delegate v")
    case True
    then obtain y where y: "AddToDelegateSupply ?n u = (y, Inr ())"
      "SetDelegations (val_Address v) ?n (val_Committees v) y = (x, Inr ())"
      using x by (auto elim!: bindE_okE)
    from moves_trans [OF moves_add(1) [OF u] moves_trans [OF moves_add(2) [OF y(1)]
        moves_trans [OF shifts_moves [OF SetDelegations_shifts [OF y(2)]] SetValidator_moves [OF set]]]]
    show ?thesis
      using True by (simp add: moves_def all_entry only_def)
  next
    case False
    then have "SetCommittees (val_Address v) ?n (val_Committees v) u = (x, Inr ())"
      using x by simp
    from moves_trans [OF moves_add(1) [OF u]
        moves_trans [OF shifts_moves [OF SetCommittees_shifts [OF this]] SetValidator_moves [OF set]]]
    show ?thesis
      using False by (simp add: moves_def all_entry only_def)
  qed
  show "ledger_on E t"
    by (rule ledger_insert [OF ok wf fresh m ins])
  show "kv_wf (validators t)"
    by (simp add: ins kv_wf_set wf)
  show "total_supply t = total_supply s"
    using m by (simp add: moves_def)
  show "stake_total t = stake_total s + unat ?n"
    unfolding stake_total_def ins
    by (rule kv.total_upd_new [OF wf fresh, where f = "\<lambda>v. unat (val_StakedAmount v)"])
  have O: "frame others (AddToStakedSupply ?n)" "frame others ?lists" "frame others (SetValidator v)"
    by (intro frame_rules; simp add: others_def)+
  from frameD [where m = "AddToStakedSupply ?n", OF O(1) u] frameD [where m = ?lists, OF O(2) x]
    frameD [where m = "SetValidator v", OF O(3) set]
  show "others t = others s" by simp
qed

lemma stake_books:
  assumes u: "funds_ok A u" "ledger_on E u" "held u + n = total_supply u"
    and t: "ledger_on E t" "kv_wf (validators t)" "total_supply t = total_supply u"
      "stake_total t = stake_total u + n" "others t = others u"
  shows "books_on E A t"
  using funds_ok_others [OF t(5) u(1) t(2)] u t by (simp add: books_on_def)

lemma HandleMessageStake_books:
  assumes ok: "books_on E A s" and signer: "stk_Signer msg \<in> A"
    and t: "HandleMessageStake msg s = (t, Inr ())"
  shows "books_on E A t" and "total_supply t = total_supply s"
    and "stake_total t = stake_total s + unat (stk_Amount msg)"
proof -
  let ?n = "stk_Amount msg"
  obtain a where a: "AddressOf (Cfg s) (stk_PublicKey msg) = Some a"
    and fresh: "kv_get (validators s) a = None"
    using t by (auto simp: HandleMessageStake_def op_simps GetValidatorExists_def
        split: option.splits if_splits sum.splits)
  define v where "v = \<lparr>val_Address = a, val_PublicKey = KeyBytes (Cfg s) (stk_PublicKey msg),
    val_NetAddress = stk_NetAddress msg, val_StakedAmount = ?n,
    val_Committees = stk_Committees msg, val_MaxPausedHeight = 0, val_UnstakingHeight = 0,
    val_Output = stk_OutputAddress msg, val_Delegate = stk_Delegate msg,
    val_Compound = stk_Compound msg\<rparr>"
  define lists where "lists = (if stk_Delegate msg then bindE (AddToDelegateSupply ?n)
      (\<lambda>_. SetDelegations a ?n (stk_Committees msg)) else SetCommittees a ?n (stk_Committees msg))"
  have "bindE GetParamsVal (\<lambda>params.
      if ?n < (if stk_Delegate msg then MinimumStakeForDelegates params
        else MinimumStakeForValidators params) then fail ErrStakeBelowMininum
      else bindE (AccountSub (stk_Signer msg) ?n) (\<lambda>_. bindE (AddToStakedSupply ?n)
        (\<lambda>_. bindE lists (\<lambda>_. SetValidator v)))) s = (t, Inr ())"
    unfolding lists_def v_def using t a fresh
    by (cases "stk_Delegate msg") (auto simp: HandleMessageStake_def bindE_reads bindE_gets
        GetValidatorExists_def cong: if_cong split: if_split_asm sum.splits)
  then obtain p x u w y where p: "GetParamsVal s = (p, Inr x)"
    and u: "AccountSub (stk_Signer msg) ?n p = (u, Inr ())"
    and w: "AddToStakedSupply ?n u = (w, Inr ())" and y: "lists w = (y, Inr ())"
    and set: "SetValidator v y = (t, Inr ())"
    by (auto elim!: bindE_okE split: if_split_asm)
  obtain c where c: "p = s\<lparr>cache_valParams := c\<rparr>"
    using GetParamsVal_cache [OF p] by blast
  have p_ok: "funds_ok A p" "ledger_on E p" "held p = total_supply p" "validators p = validators s"
      "total_supply p = total_supply s" "stake_total p = stake_total s"
    using ok books_cache_simps [where A = A and s = s and c = c, folded c]
    by (simp_all only: books_on_def) (simp_all add: c total_supply_def stake_total_def)
  note keeps = AccountSub_keeps [OF u]
  note sub = AccountSub_funds [OF p_ok(1) signer u]
  have u_ok: "ledger_on E u" "kv_wf (validators u)" "kv_get (validators u) a = None"
      "held u + unat ?n = total_supply u" "stake_total u = stake_total s" "total_supply u = total_supply s"
    using p_ok fresh sub ledger_on_cong [OF keeps] total_supply_cong [OF keeps(2)]
    by (simp_all add: keeps funds_ok_def stake_total_def)
  have fields: "val_Address v = a" "val_StakedAmount v = ?n" "val_Committees v = stk_Committees msg"
    "val_Delegate v = stk_Delegate msg"
    by (simp_all add: v_def)
  note step = add_validator_step [where v = v, unfolded fields, OF u_ok(1-3) w y [unfolded lists_def] set]
  show "books_on E A t"
    by (rule stake_books [OF sub(1) u_ok(1,4) step])
  show "total_supply t = total_supply s" "stake_total t = stake_total s + unat ?n"
    using step(3,4) u_ok by simp_all
qed

lemma GetValidator_Inr:
  assumes "GetValidator a s = Inr v"
  obtains old where "kv_get (validators s) a = Some old" "v = old\<lparr>val_Address := a\<rparr>"
    "val_Address v = a" "same_stake v old"
  using assms by (auto simp: GetValidator_def same_stake_def split: option.splits)

lemma HandleMessageEditStake_books:
  assumes ok: "books_on E A s" and signer: "eds_Signer msg \<in> A"
    and t: "HandleMessageEditStake msg s = (t, Inr ())"
  shows "books_on E A t" and "total_supply t = total_supply s" and "stake_total s \<le> stake_total t"
proof -
  obtain val where val: "GetValidator (eds_Address msg) s = Inr val"
    using t by (auto simp: HandleMessageEditStake_def op_simps split: sum.splits)
  let ?n = "if eds_Amount msg \<le> val_StakedAmount val then 0 else eds_Amount msg - val_StakedAmount val"
  let ?v = "val\<lparr>val_NetAddress := eds_NetAddress msg, val_Output := eds_OutputAddress msg,
    val_Compound := eds_Compound msg\<rparr>"
  have "bindE (AccountSub (eds_Signer msg) ?n)
      (\<lambda>_. UpdateValidatorStake ?v (eds_Committees msg) ?n) s = (t, Inr ())"
    using t val by (auto simp: HandleMessageEditStake_def bindE_gets Let_def
        split: if_split_asm sum.splits)
  then obtain u where u: "AccountSub (eds_Signer msg) ?n s = (u, Inr ())"
    and up: "UpdateValidatorStake ?v (eds_Committees msg) ?n u = (t, Inr ())"
    by (auto elim: bindE_okE)
  note keeps = AccountSub_keeps [OF u]
  have s_ok: "funds_ok A s" "ledger_on E s" "held s = total_supply s"
    using ok by (simp_all add: books_on_def)
  note sub = AccountSub_funds [OF s_ok(1) signer u]
  have u_ok: "ledger_on E u" "kv_wf (validators u)" "held u + unat ?n = total_supply u"
      "stake_total u = stake_total s"
    using s_ok sub ledger_on_cong [OF keeps] total_supply_cong [OF keeps(2)]
    by (simp_all add: keeps funds_ok_def stake_total_def)
  obtain old where old: "kv_get (validators s) (eds_Address msg) = Some old"
      "val_Address val = eds_Address msg" "same_stake val old"
    using val by (rule GetValidator_Inr)
  have "kv_get (validators u) (val_Address ?v) = Some old" "same_stake ?v old"
    using old by (simp_all add: keeps same_stake_def)
  note step = UpdateValidatorStake_step [OF u_ok(1,2) this up]
  show "books_on E A t"
    by (rule stake_books [OF sub(1) u_ok(1,3) step(1-5)])
  show "total_supply t = total_supply s" "stake_total s \<le> stake_total t"
    using step(3,4) u_ok(4) total_supply_cong [OF keeps(2)] by simp_all
qed

text \<open>Writes that do not change a stake.\<close>

lemma books_index_simps [simp]:
  "books_on E A (s\<lparr>paused := x\<rparr>) = books_on E A s"
  "books_on E A (s\<lparr>unstaking := y\<rparr>) = books_on E A s"
  "books_on E A (s\<lparr>events := z\<rparr>) = books_on E A s"
  by (simp_all add: books_on_def total_supply_def funds_ok_def ledger_on_cong [of "s\<lparr>paused := x\<rparr>" s]
      ledger_on_cong [of "s\<lparr>unstaking := y\<rparr>" s] ledger_on_cong [of "s\<lparr>events := z\<rparr>" s] accounts_ok_def stored_account_def held_def account_total_def pool_total_def stake_total_def)

lemma SetValidator_books:
  assumes ok: "books_on E A s" and old: "kv_get (validators s) (val_Address v) = Some old" "same_stake v old"
    and t: "SetValidator v s = (t, r)"
  shows "books_on E A t" and "kv_get (validators t) (val_Address v) = Some v"
    and "total_supply t = total_supply s"
proof -
  have eq: "validators t = kv_set (val_Address v) v (validators s)" "supplyTracker t = supplyTracker s"
      "others t = others s"
    using t by (auto simp: SetValidator_def op_simps others_def)
  have s_ok: "funds_ok A s" "ledger_on E s" "held s = total_supply s" "kv_wf (validators s)"
    using ok by (simp_all add: books_on_def funds_ok_def)
  note step = rewrite_step [OF s_ok(2,4) old eq(1,2)]
  show "total_supply t = total_supply s"
    by (rule total_supply_cong [OF eq(2)])
  with step funds_ok_others [OF eq(3) s_ok(1) step(2)] s_ok(3) show "books_on E A t"
    by (simp add: books_on_def)
  show "kv_get (validators t) (val_Address v) = Some v"
    by (simp add: eq(1))
qed

lemma SetValidatorUnpaused_books:
  assumes ok: "books_on E A s" and a: "val_Address v = a"
    and old: "kv_get (validators s) a = Some old" "same_stake v old"
    and t: "SetValidatorUnpaused a v s = (t, r)"
  shows "r = Inr (v\<lparr>val_MaxPausedHeight := 0\<rparr>)" and "books_on E A t"
    and "kv_get (validators t) a = Some (v\<lparr>val_MaxPausedHeight := 0\<rparr>)"
    and "total_supply t = total_supply s"
proof -
  let ?u = "s\<lparr>paused := kv_del (val_MaxPausedHeight v, a) (paused s)\<rparr>"
  let ?v = "v\<lparr>val_MaxPausedHeight := 0\<rparr>"
  have set: "SetValidator ?v ?u = (t, Inr ())" and r: "r = Inr ?v"
    using t by (auto simp: SetValidatorUnpaused_def SetValidator_def op_simps Let_def)
  have "books_on E A ?u" "kv_get (validators ?u) (val_Address ?v) = Some old" "same_stake ?v old"
    using ok old a by (simp_all add: same_stake_def)
  from SetValidator_books [OF this set] r a show "r = Inr ?v" "books_on E A t"
    "kv_get (validators t) a = Some ?v" "total_supply t = total_supply s"
    by (simp_all add: total_supply_def)
qed

lemma SetValidatorUnstaking_books:
  assumes ok: "books_on E A s" and a: "val_Address v = a"
    and old: "kv_get (validators s) a = Some old" "same_stake v old"
    and t: "SetValidatorUnstaking a v h s = (t, r)"
  shows "books_on E A t" and "total_supply t = total_supply s" and "\<exists>w. r = Inr w"
proof -
  let ?u = "s\<lparr>unstaking := kv_set (h, a) () (unstaking s)\<rparr>"
  have u: "books_on E A ?u" "kv_get (validators ?u) a = Some old"
    using ok old by simp_all
  obtain x w where x: "(if val_MaxPausedHeight v \<noteq> 0 then SetValidatorUnpaused a v else ok v) ?u = (x, Inr w)"
    and x_ok: "books_on E A x" "total_supply x = total_supply s"
    and w: "val_Address w = a" "\<exists>o'. kv_get (validators x) a = Some o' \<and> same_stake w o'"
  proof (cases "val_MaxPausedHeight v = 0")
    case True
    with that [of ?u v] u old a show thesis by (simp add: ok_apply total_supply_def)
  next
    case False
    obtain x r' where "SetValidatorUnpaused a v ?u = (x, r')" by fastforce
    with that [of x "v\<lparr>val_MaxPausedHeight := 0\<rparr>"] SetValidatorUnpaused_books [OF u(1) a u(2) old(2)]
      False a show thesis by (simp add: same_stake_def total_supply_def)
  qed
  from w obtain o' where o': "kv_get (validators x) a = Some o'" "same_stake w o'" by blast
  let ?w = "w\<lparr>val_UnstakingHeight := h\<rparr>"
  have set: "SetValidator ?w x = (t, Inr ())" and r: "r = Inr ?w"
    using t x by (auto simp: SetValidatorUnstaking_def SetValidator_def op_simps Let_def
        simp del: if_not_P if_P split: sum.splits prod.splits)
  have "kv_get (validators x) (val_Address ?w) = Some o'" "same_stake ?w o'"
    using o' w by (simp_all add: same_stake_def)
  from SetValidator_books [OF x_ok(1) this set] x_ok(2) r
  show "books_on E A t" "total_supply t = total_supply s" "\<exists>w. r = Inr w" by auto
qed

section \<open>Finishing to unstake\<close>

definition outputs_in :: "address set \<Rightarrow> StateMachine \<Rightarrow> bool" where
  "outputs_in A s \<longleftrightarrow> (\<forall>a v. kv_get (validators s) a = Some v \<longrightarrow> val_Output v \<in> A)"

lemma addEvent_state: "addEvent m a c s = (t, r) \<Longrightarrow> \<exists>x. t = s\<lparr>events := x\<rparr> \<and> r = Inr ()"
  by (auto simp: addEvent_def op_simps)

lemma finish_unstaking_books:
  assumes ok: "books_on E A s" and out: "outputs_in A s" and t: "finish_unstaking k s = (t, Inr ())"
  shows "books_on E A t" and "outputs_in A t" and "total_supply t = total_supply s"
    and "kv_get (validators t) (snd k) = None"
proof -
  obtain v where v: "GetValidator (snd k) s = Inr v"
    using t by (auto simp: finish_unstaking_def op_simps Let_def split: sum.splits)
  then obtain old where old: "kv_get (validators s) (snd k) = Some old" "v = old\<lparr>val_Address := snd k\<rparr>"
      "val_Address v = snd k" "same_stake v old"
    by (rule GetValidator_Inr)
  obtain u w where u: "AccountAdd (val_Output v) (val_StakedAmount v) s = (u, Inr ())"
    and w: "DeleteValidator v u = (w, Inr ())" and ev: "addEvent EventFinishUnstaking (snd k) 0 w = (t, Inr ())"
    using t v unfolding finish_unstaking_def Let_def by (auto simp: bindE_gets elim!: bindE_okE)
  obtain x where x: "t = w\<lparr>events := x\<rparr>"
    using addEvent_state [OF ev] by blast
  have s_ok: "funds_ok A s" "ledger_on E s" "held s = total_supply s"
    using ok by (simp_all add: books_on_def)
  have "val_Output v \<in> A"
    using out old by (simp add: outputs_in_def)
  note add = AccountAdd_funds [OF s_ok(1) this u]
  note keeps = AccountAdd_keeps [OF u]
  have u_ok: "ledger_on E u" "kv_wf (validators u)" "kv_get (validators u) (val_Address v) = Some old"
    using s_ok add ledger_on_cong [OF keeps] old by (simp_all add: keeps funds_ok_def)
  note del = DeleteValidator_step [OF u_ok old(4) w]
  note dv = DeleteValidator_moves(2) [OF w]
  show "books_on E A t"
    using funds_ok_others [OF del(5) add(1) del(2)] del add s_ok(3) total_supply_cong [OF keeps(2)]
    by (simp add: x) (simp add: books_on_def)
  show "total_supply t = total_supply s"
    using del(3) total_supply_cong [OF keeps(2)] by (simp add: x total_supply_def)
  show "kv_get (validators t) (snd k) = None" "outputs_in A t"
    using u_ok(2) out old(3) unfolding outputs_in_def x
    by (simp_all add: dv keeps kv_get_del)
qed

lemma finish_loop:
  assumes "for_op finish_unstaking ks s = (t, Inr ())" and "books_on E A s" and "outputs_in A s"
  shows "books_on E A t \<and> outputs_in A t \<and> total_supply t = total_supply s"
proof (rule for_op_inv [OF assms(1)])
  show "books_on E A s \<and> outputs_in A s \<and> total_supply s = total_supply s"
    using assms(2,3) by simp
next
  fix k u v
  assume I: "books_on E A u \<and> outputs_in A u \<and> total_supply u = total_supply s"
    and uv: "finish_unstaking k u = (v, Inr ())"
  from finish_unstaking_books(1-3) [OF _ _ uv, of E A] I
  show "books_on E A v \<and> outputs_in A v \<and> total_supply v = total_supply s" by simp
qed

lemma delete_keys_loop:
  assumes "for_op delete_unstaking_key ks s = (t, r)"
  shows "\<exists>x. t = s\<lparr>unstaking := x\<rparr>"
  using assms
proof (induction ks arbitrary: s)
  case Nil
  then show ?case by (auto simp: op_simps intro: exI [of _ "unstaking s"])
next
  case (Cons k ks)
  have "\<exists>x. t = (s\<lparr>unstaking := kv_del k (unstaking s)\<rparr>)\<lparr>unstaking := x\<rparr>"
    by (rule Cons.IH) (use Cons.prems in \<open>simp add: delete_unstaking_key_def bindE_writes\<close>)
  then show ?case by simp
qed

lemma DeleteFinishedUnstaking_books:
  assumes "books_on E A s" and "outputs_in A s" and t: "DeleteFinishedUnstaking s = (t, Inr ())"
  shows "books_on E A t" and "outputs_in A t" and "total_supply t = total_supply s"
proof -
  let ?ks = "keys_at (Height s) (unstaking s)"
  have "bindE (for_op finish_unstaking ?ks)
      (\<lambda>_. for_op delete_unstaking_key ?ks) s = (t, Inr ())"
    using t by (simp add: DeleteFinishedUnstaking_def bindE_reads)
  then obtain u where u: "for_op finish_unstaking ?ks s = (u, Inr ())"
    and d: "for_op delete_unstaking_key ?ks u = (t, Inr ())"
    by (auto elim: bindE_okE)
  obtain x where x: "t = u\<lparr>unstaking := x\<rparr>"
    using delete_keys_loop [OF d] by blast
  from finish_loop [OF u assms(1,2)] show "books_on E A t" "outputs_in A t" "total_supply t = total_supply s"
    by (simp_all add: x outputs_in_def total_supply_def)
qed

text \<open>A key without a validator behind it stops the whole clean-up with an error.\<close>

lemma finish_unstaking_missing:
  "kv_get (validators s) (snd k) = None \<Longrightarrow> finish_unstaking k s = (s, Inl ErrValidatorNotExists)"
  by (simp add: finish_unstaking_def GetValidator_def bindE_gets Let_def)

lemma DeleteFinishedUnstaking_missing:
  assumes "keys_at (Height s) (unstaking s) = k # ks" and "kv_get (validators s) (snd k) = None"
  shows "DeleteFinishedUnstaking s = (s, Inl ErrValidatorNotExists)"
proof -
  have "for_op finish_unstaking (k # ks) s = (s, Inl ErrValidatorNotExists)"
    using finish_unstaking_missing [OF assms(2)] by (simp add: bindE_of_err)
  then show ?thesis
    by (simp add: DeleteFinishedUnstaking_def bindE_reads assms(1) bindE_of_err del: for_op.simps)
qed

end
