(* ===== verification/ValidatorSet.thy ===== *)
theory ValidatorSet
  imports Validators
begin

text \<open>
  Committee selection: the filter and the ordered, bounded validator set of fsm/validator.go, the
  two-thirds threshold of lib/consensus.go, and the genesis import of validators.  The aggregated
  BLS key of a set is third-party code and left out; whether the key of a member parses is
  \<open>IsBLS\<close> and \<open>AddressOf\<close> of the configuration.
\<close>

section \<open>Filters\<close>

datatype FilterOption = FilterOption_Off | FilterOption_MustBe | FilterOption_Exclude

record ValidatorFilters =
  flt_Unstaking :: FilterOption
  flt_Paused :: FilterOption
  flt_Delegate :: FilterOption
  flt_Committee :: u64

text \<open>One \<open>switch\<close> of the filter: \<open>holds\<close> is the property the option speaks about.\<close>

fun passes_option :: "FilterOption \<Rightarrow> bool \<Rightarrow> bool" where
  "passes_option FilterOption_MustBe holds = holds"
| "passes_option FilterOption_Exclude holds = (\<not> holds)"
| "passes_option FilterOption_Off holds = True"

definition PassesFilter :: "ValidatorFilters \<Rightarrow> Validator \<Rightarrow> bool" where
  "PassesFilter f x =
     (if \<not> passes_option (flt_Unstaking f) (val_UnstakingHeight x \<noteq> 0) then False
      else if \<not> passes_option (flt_Paused f) (val_MaxPausedHeight x \<noteq> 0) then False
      else if \<not> passes_option (flt_Delegate f) (val_Delegate x) then False
      else if flt_Committee f \<noteq> 0 \<and> flt_Committee f \<notin> set (val_Committees x) then False
      else True)"

section \<open>The order of a committee\<close>

text \<open>The comparison of \<open>slices.SortFunc\<close>: more stake first, then the larger address.\<close>

datatype val_rank = ValRank (rank_Stake: u64) (rank_Address: address)

instantiation val_rank :: linorder
begin

definition less_eq_val_rank :: "val_rank \<Rightarrow> val_rank \<Rightarrow> bool" where
  "less_eq_val_rank p q \<longleftrightarrow>
     (if rank_Stake p = rank_Stake q then rank_Address q \<le> rank_Address p
      else rank_Stake q < rank_Stake p)"

definition less_val_rank :: "val_rank \<Rightarrow> val_rank \<Rightarrow> bool" where
  "less_val_rank p q \<longleftrightarrow>
     (if rank_Stake p = rank_Stake q then rank_Address q < rank_Address p
      else rank_Stake q < rank_Stake p)"

instance
proof
  fix x y z :: val_rank
  show "(x < y) = (x \<le> y \<and> \<not> y \<le> x)"
    by (auto simp: less_eq_val_rank_def less_val_rank_def)
  show "x \<le> x"
    by (simp add: less_eq_val_rank_def)
  show "x \<le> y \<Longrightarrow> y \<le> z \<Longrightarrow> x \<le> z"
    by (auto simp: less_eq_val_rank_def split: if_splits)
  show "x \<le> y \<Longrightarrow> y \<le> x \<Longrightarrow> x = y"
    by (auto simp: less_eq_val_rank_def val_rank.expand split: if_splits)
  show "x \<le> y \<or> y \<le> x"
    by (auto simp: less_eq_val_rank_def)
qed

end

definition val_rank_of :: "Validator \<Rightarrow> val_rank" where
  "val_rank_of v = ValRank (val_StakedAmount v) (val_Address v)"

section \<open>The validator set\<close>

record ConsensusValidator =
  cv_PublicKey :: bytes
  cv_VotingPower :: u64
  cv_NetAddress :: string

record ValidatorSet =
  vs_Members :: "ConsensusValidator list"
  vs_TotalPower :: u64
  vs_MinimumMaj23 :: u64
  vs_NumValidators :: u64

definition NewValidatorSet :: "Config \<Rightarrow> ConsensusValidator list \<Rightarrow> bool \<Rightarrow> err + ValidatorSet" where
  "NewValidatorSet cfg members isDelegators =
     (if list_ex (\<lambda>v. if isDelegators then AddressOf cfg (cv_PublicKey v) = None
          else \<not> IsBLS cfg (cv_PublicKey v)) members then Inl ErrPubKeyFromBytes
      else let totalPower = foldl (\<lambda>p v. p + cv_VotingPower v) 0 members in
        if totalPower = 0 then Inl ErrNoValidators
        else Inr \<lparr>vs_Members = members, vs_TotalPower = totalPower,
               vs_MinimumMaj23 = (2 * totalPower) div 3 + 1,
               vs_NumValidators = of_nat (length members)\<rparr>)"

definition to_member :: "Validator \<Rightarrow> ConsensusValidator" where
  "to_member v = \<lparr>cv_PublicKey = val_PublicKey v, cv_VotingPower = val_StakedAmount v,
     cv_NetAddress = val_NetAddress v\<rparr>"

text \<open>The candidates of a chain in the order of their rank, and how many of them are taken.\<close>

definition candidates :: "u64 \<Rightarrow> bool \<Rightarrow> StateMachine \<Rightarrow> Validator list" where
  "candidates chainId delegate s =
     sort_key val_rank_of
       (filter (PassesFilter \<lparr>flt_Unstaking = FilterOption_Exclude,
            flt_Paused = FilterOption_Exclude,
            flt_Delegate = (if delegate then FilterOption_MustBe else FilterOption_Exclude),
            flt_Committee = chainId\<rparr>)
         (rev (kv_values (validators s))))"

definition selected :: "u64 \<Rightarrow> Validator list \<Rightarrow> Validator list" where
  "selected maxPerCommittee filtered =
     (let limit = (if 0 < maxPerCommittee then min (length filtered) (unat maxPerCommittee)
        else length filtered) in take limit filtered)"

definition getValidatorSet :: "u64 \<Rightarrow> bool \<Rightarrow> ValidatorSet fsm" where
  "getValidatorSet chainId delegate =
     bindE GetParamsVal (\<lambda>p.
       let maxPerCommittee = (if delegate then MaximumDelegatesPerCommittee p
         else MaxCommitteeSize p) in
       gets (\<lambda>s. NewValidatorSet (Cfg s)
         (map to_member (selected maxPerCommittee (candidates chainId delegate s))) delegate))"

definition GetCommitteeMembers :: "u64 \<Rightarrow> ValidatorSet fsm" where
  "GetCommitteeMembers chainId = getValidatorSet chainId False"

definition GetDelegates :: "u64 \<Rightarrow> ValidatorSet fsm" where
  "GetDelegates chainId = getValidatorSet chainId True"

section \<open>Genesis import\<close>

definition import_validator :: "Validator \<Rightarrow> Supply \<Rightarrow> Supply fsm" where
  "import_validator v sp =
     (if MaxUint64 - val_StakedAmount v < Total sp \<or> MaxUint64 - val_StakedAmount v < Staked sp then
        fail ErrInvalidAmount
      else if val_Delegate v \<and> MaxUint64 - val_StakedAmount v < DelegatedOnly sp then
        fail ErrInvalidAmount
      else
        bindE
          (if val_UnstakingHeight v \<noteq> 0 then
             SetValidatorUnstaking (val_Address v) v (val_UnstakingHeight v)
           else if val_MaxPausedHeight v \<noteq> 0 then
             SetValidatorPaused (val_Address v) v (val_MaxPausedHeight v)
           else ok v) (\<lambda>v.
        let sp = sp\<lparr>Total := Total sp + val_StakedAmount v,
          Staked := Staked sp + val_StakedAmount v\<rparr> in
        bindE (SetValidator v) (\<lambda>_.
        if val_Delegate v then
          bindE (SetDelegations (val_Address v) (val_StakedAmount v) (val_Committees v)) (\<lambda>_.
            ok (sp\<lparr>DelegatedOnly := DelegatedOnly sp + val_StakedAmount v\<rparr>))
        else
          bindE (SetCommittees (val_Address v) (val_StakedAmount v) (val_Committees v)) (\<lambda>_.
            ok sp))))"

definition SetValidators :: "Validator list \<Rightarrow> Supply \<Rightarrow> Supply fsm" where
  "SetValidators vals sp =
     bindE (fold_op import_validator vals sp) (\<lambda>sp.
     bindE (reads GetSupply) (\<lambda>supplyFromState.
       ok (sp\<lparr>CommitteeStaked := CommitteeStaked supplyFromState,
         CommitteeDelegatedOnly := CommitteeDelegatedOnly supplyFromState\<rparr>)))"

section \<open>The selection takes the top of the ranking\<close>

lemma selected_split: "\<exists>rest. filtered = selected n filtered @ rest"
  unfolding selected_def Let_def by (metis append_take_drop_id)

lemma selected_length: "0 < n \<Longrightarrow> length (selected n filtered) \<le> unat n"
  by (simp add: selected_def Let_def min_def)

lemma sorted_candidates: "sorted (map val_rank_of (candidates c d s))"
  by (simp add: candidates_def)

lemma selected_ranks:
  assumes "v \<in> set (selected n (candidates c d s))"
    and "w \<in> set (candidates c d s)" and "w \<notin> set (selected n (candidates c d s))"
  shows "val_rank_of v \<le> val_rank_of w"
proof -
  obtain rest where split: "candidates c d s = selected n (candidates c d s) @ rest"
    using selected_split by blast
  with assms have "w \<in> set rest" by (metis Un_iff set_append)
  moreover have "sorted (map val_rank_of (selected n (candidates c d s) @ rest))"
    using sorted_candidates [of c d s] split by simp
  ultimately show ?thesis
    using assms(1) by (auto simp: sorted_append)
qed

lemma candidates_iff:
  "kv_wf (validators s) \<Longrightarrow> v \<in> set (candidates c d s) \<longleftrightarrow>
     (\<exists>a. kv_get (validators s) a = Some v) \<and> val_UnstakingHeight v = 0
     \<and> val_MaxPausedHeight v = 0 \<and> val_Delegate v = d \<and> (c \<noteq> 0 \<longrightarrow> c \<in> set (val_Committees v))"
  by (auto simp: candidates_def kv_values_set PassesFilter_def)

section \<open>Two thirds\<close>

definition power_of :: "ConsensusValidator list \<Rightarrow> nat" where
  "power_of vs = sum_list (map (\<lambda>v. unat (cv_VotingPower v)) vs)"

lemma foldl_power:
  "unat p + power_of vs < 18446744073709551616 \<Longrightarrow>
     unat (foldl (\<lambda>p v. p + cv_VotingPower v) p vs) = unat p + power_of vs"
proof (induction vs arbitrary: p)
  case Nil
  then show ?case by (simp add: power_of_def)
next
  case (Cons v vs)
  then have "unat (p + cv_VotingPower v) = unat p + unat (cv_VotingPower v)"
    by (intro unat_add_u64) (simp add: power_of_def)
  with Cons show ?case by (simp add: power_of_def)
qed

lemma NewValidatorSet_threshold:
  assumes "NewValidatorSet cfg members d = Inr vs" and "2 * power_of members < 18446744073709551616"
  shows "unat (vs_TotalPower vs) = power_of members"
    and "unat (vs_MinimumMaj23 vs) = 2 * power_of members div 3 + 1"
proof -
  have fields: "vs_TotalPower vs = foldl (\<lambda>p v. p + cv_VotingPower v) 0 members"
    "vs_MinimumMaj23 vs = (2 * vs_TotalPower vs) div 3 + 1"
    using assms(1) by (auto simp: NewValidatorSet_def Let_def split: if_splits)
  show tot: "unat (vs_TotalPower vs) = power_of members"
    using foldl_power [of 0 members] assms(2) by (simp add: fields(1))
  have two: "unat (2 * vs_TotalPower vs) = 2 * power_of members"
    using assms(2) by (simp add: unat_mult_u64 tot)
  then have third: "unat (2 * vs_TotalPower vs div 3) = 2 * power_of members div 3"
    by (simp add: unat_div_distrib)
  have "unat (2 * vs_TotalPower vs div 3 + 1) = 2 * power_of members div 3 + 1"
    using assms(2) third by (subst unat_add_u64) simp_all
  then show "unat (vs_MinimumMaj23 vs) = 2 * power_of members div 3 + 1"
    by (simp add: fields(2))
qed

end
