(* ===== verification/Certificates.thy ===== *)
theory Certificates
  imports ValidatorSet
begin

text \<open>
  Quorum certificates (lib/consensus.go, lib/certificate.go): views and their order, aggregate
  signatures with the signer bitmap, the two-thirds check, double signers, and the stateless checks
  of certificate results.  The BLS library is a parameter (\<open>SetMask\<close>, \<open>VerifyMulti\<close> of the
  configuration); reading the mask at an index it does not have is a panic, which \<open>ApplyBlock\<close>
  turns into \<open>ErrPanic\<close>, shows as \<open>Panic\<close>.
\<close>

section \<open>Views\<close>

datatype Phase = UNKNOWN | ELECTION | ELECTION_VOTE | PROPOSE | PROPOSE_VOTE | PRECOMMIT
  | PRECOMMIT_VOTE | COMMIT | COMMIT_PROCESS | ROUND_INTERRUPT | PACEMAKER

fun phase_number :: "Phase \<Rightarrow> nat" where
  "phase_number UNKNOWN = 0"
| "phase_number ELECTION = 1"
| "phase_number ELECTION_VOTE = 2"
| "phase_number PROPOSE = 3"
| "phase_number PROPOSE_VOTE = 4"
| "phase_number PRECOMMIT = 5"
| "phase_number PRECOMMIT_VOTE = 6"
| "phase_number COMMIT = 7"
| "phase_number COMMIT_PROCESS = 8"
| "phase_number ROUND_INTERRUPT = 9"
| "phase_number PACEMAKER = 10"

record View =
  vw_NetworkId :: u64
  vw_ChainId :: u64
  vw_Height :: u64
  vw_RootHeight :: u64
  vw_Round :: u64
  vw_Phase :: Phase

definition View_Check :: "View option \<Rightarrow> View \<Rightarrow> bool \<Rightarrow> err + unit" where
  "View_Check x view enforceHeights =
     (case x of
        None \<Rightarrow> Inl ErrEmptyView
      | Some x \<Rightarrow>
          if vw_NetworkId view \<noteq> vw_NetworkId x then Inl ErrWrongNetworkID
          else if vw_ChainId view \<noteq> vw_ChainId x then Inl ErrWrongChainId
          else if enforceHeights \<and> vw_Height x \<noteq> vw_Height view then Inl ErrWrongViewHeight
          else if enforceHeights \<and> vw_RootHeight x \<noteq> vw_RootHeight view then Inl ErrWrongRootHeight
          else Inr ())"

definition View_Equals :: "View option \<Rightarrow> View option \<Rightarrow> bool" where
  "View_Equals x v =
     (case (x, v) of
        (Some x, Some v) \<Rightarrow>
          if vw_Height x \<noteq> vw_Height v then False
          else if vw_RootHeight x \<noteq> vw_RootHeight v then False
          else if vw_ChainId x \<noteq> vw_ChainId v then False
          else if vw_NetworkId x \<noteq> vw_NetworkId v then False
          else if vw_Round x \<noteq> vw_Round v then False
          else if vw_Phase x \<noteq> vw_Phase v then False
          else True
      | _ \<Rightarrow> False)"

definition View_Less :: "View option \<Rightarrow> View option \<Rightarrow> bool" where
  "View_Less x v =
     (case (x, v) of
        (_, None) \<Rightarrow> False
      | (None, Some v) \<Rightarrow> True
      | (Some x, Some v) \<Rightarrow>
          if vw_Height x < vw_Height v then True
          else if vw_Height v < vw_Height x then False
          else if vw_RootHeight x < vw_RootHeight v then True
          else if vw_RootHeight v < vw_RootHeight x then False
          else if vw_Round x < vw_Round v then True
          else if vw_Round v < vw_Round x then False
          else if phase_number (vw_Phase x) < phase_number (vw_Phase v) then True
          else False)"

section \<open>Aggregate signatures\<close>

record AggregateSignature =
  as_Signature :: bytes
  as_Bitmap :: bytes

text \<open>The bit of signer \<open>i\<close>; \<open>n\<close> keys, and \<open>None\<close> for an index the mask does not have.\<close>

definition SignerEnabledAt :: "nat \<Rightarrow> bytes \<Rightarrow> nat \<Rightarrow> err + bool" where
  "SignerEnabledAt n bm i =
     (if n < i then Inl ErrInvalidSignerBitmap
      else if i div 8 < length bm then Inr (bit (bm ! (i div 8)) (i mod 8))
      else Inl Panic)"

fun collect_signers ::
  "nat \<Rightarrow> bytes \<Rightarrow> bool \<Rightarrow> nat \<Rightarrow> ConsensusValidator list \<Rightarrow> bytes list \<times> u64 \<Rightarrow> err + bytes list \<times> u64"
  where
  "collect_signers n bm missing i [] acc = Inr acc"
| "collect_signers n bm missing i (val # vals) (pubkeys, pow) =
     (case SignerEnabledAt n bm i of
        Inl e \<Rightarrow> Inl e
      | Inr has_signed \<Rightarrow>
          collect_signers n bm missing (Suc i) vals
            (if has_signed \<and> \<not> missing \<or> \<not> has_signed \<and> missing
             then (pubkeys @ [cv_PublicKey val], pow + cv_VotingPower val)
             else (pubkeys, pow)))"

definition getSigners ::
  "Config \<Rightarrow> AggregateSignature \<Rightarrow> ValidatorSet \<Rightarrow> bool \<Rightarrow> err + bytes list \<times> u64" where
  "getSigners cfg x vs missing =
     (let n = length (vs_Members vs) in
      case SetMask cfg n (as_Bitmap x) of
        None \<Rightarrow> Inl ErrInvalidSignerBitmap
      | Some bm \<Rightarrow> collect_signers n bm missing 0 (vs_Members vs) ([], 0))"

definition GetSigners :: "Config \<Rightarrow> AggregateSignature \<Rightarrow> ValidatorSet \<Rightarrow> err + bytes list \<times> u64" where
  "GetSigners cfg x vs = getSigners cfg x vs False"

text \<open>The percentage is \<open>int(uint64)\<close>; it is kept as the 64-bit pattern that the caller reads back.\<close>

definition GetNonSigners ::
  "Config \<Rightarrow> AggregateSignature option \<Rightarrow> ConsensusValidator list \<Rightarrow> err + bytes list \<times> u64" where
  "GetNonSigners cfg x members =
     (case x of
        None \<Rightarrow> Inl ErrEmptyQuorumCertificate
      | Some x \<Rightarrow>
          (case NewValidatorSet cfg members False of
             Inl e \<Rightarrow> Inl e
           | Inr vs \<Rightarrow>
               (case getSigners cfg x vs True of
                  Inl e \<Rightarrow> Inl e
                | Inr (pubkeys, pow) \<Rightarrow>
                    Inr (pubkeys, Uint64PercentageDiv pow (vs_TotalPower vs)))))"

definition AggregateSignature_CheckBasic :: "AggregateSignature option \<Rightarrow> err + AggregateSignature" where
  "AggregateSignature_CheckBasic x =
     (case x of
        None \<Rightarrow> Inl ErrEmptyAggregateSignature
      | Some x \<Rightarrow>
          if length (as_Signature x) \<noteq> 96 then Inl ErrInvalidAggrSignatureLength
          else if length (as_Bitmap x) = 0 then Inl ErrEmptySignerBitmap
          else Inr x)"

text \<open>\<open>Inr True\<close>: a valid signature that does not reach the two-thirds majority.\<close>

definition AggregateSignature_Check ::
  "Config \<Rightarrow> AggregateSignature option \<Rightarrow> bytes \<Rightarrow> ValidatorSet \<Rightarrow> err + bool" where
  "AggregateSignature_Check cfg x signBytes vs =
     (case AggregateSignature_CheckBasic x of
        Inl e \<Rightarrow> Inl e
      | Inr x \<Rightarrow>
          (case SetMask cfg (length (vs_Members vs)) (as_Bitmap x) of
             None \<Rightarrow> Inl ErrInvalidSignerBitmap
           | Some bm \<Rightarrow>
               if \<not> VerifyMulti cfg (map cv_PublicKey (vs_Members vs)) bm signBytes (as_Signature x)
               then Inl ErrInvalidAggrSignature
               else (case GetSigners cfg x vs of
                       Inl e \<Rightarrow> Inl e
                     | Inr (_, totalSignedPower) \<Rightarrow> Inr (totalSignedPower < vs_MinimumMaj23 vs))))"

fun collect_double ::
  "nat \<Rightarrow> bytes \<Rightarrow> bytes \<Rightarrow> nat \<Rightarrow> ConsensusValidator list \<Rightarrow> bytes list \<Rightarrow> err + bytes list" where
  "collect_double n bm bm2 i [] dss = Inr dss"
| "collect_double n bm bm2 i (val # vals) dss =
     (case SignerEnabledAt n bm i of
        Inl e \<Rightarrow> Inl e
      | Inr False \<Rightarrow> collect_double n bm bm2 (Suc i) vals dss
      | Inr True \<Rightarrow>
          (case SignerEnabledAt n bm2 i of
             Inl e \<Rightarrow> Inl e
           | Inr signed2 \<Rightarrow>
               collect_double n bm bm2 (Suc i) vals
                 (if signed2 then dss @ [cv_PublicKey val] else dss)))"

definition GetDoubleSigners ::
  "Config \<Rightarrow> AggregateSignature \<Rightarrow> AggregateSignature \<Rightarrow> ValidatorSet \<Rightarrow> err + bytes list" where
  "GetDoubleSigners cfg x y vs =
     (let n = length (vs_Members vs) in
      case SetMask cfg n (as_Bitmap x) of
        None \<Rightarrow> Inl ErrInvalidSignerBitmap
      | Some bm \<Rightarrow>
          (case SetMask cfg n (as_Bitmap y) of
             None \<Rightarrow> Inl ErrInvalidSignerBitmap
           | Some bm2 \<Rightarrow> collect_double n bm bm2 0 (vs_Members vs) []))"


section \<open>Certificate results\<close>

text \<open>
  Byte fields and repeated fields that are absent decode to nil, so the empty list stands for nil.
  Elements of a repeated message field can be nil in memory where the sources check for it.
\<close>

record DoubleSigner =
  ds_Id :: bytes
  ds_Heights :: "u64 list"

record Checkpoint =
  chk_Height :: u64
  chk_BlockHash :: bytes

record CertificateResult =
  RewardRecipients :: "PaymentPercents option list option"
  cr_NumberOfSamples :: u64
  SlashRecipients :: "DoubleSigner option list option"
  cr_Orders :: "Orders option"
  cr_Checkpoint :: "Checkpoint option"
  cr_Retired :: bool
  cr_DexBatch :: "DexBatch option"
  cr_RootDexBatch :: "DexBatch option"

definition MaxDepositsPerDexBatch :: nat where "MaxDepositsPerDexBatch = 5000"
definition MaxWithdrawsPerDexBatch :: nat where "MaxWithdrawsPerDexBatch = 5000"
definition MaxOrdersPerDexBatch :: nat where "MaxOrdersPerDexBatch = 10000"
definition MaxLiquidityProviders :: nat where "MaxLiquidityProviders = 50000"

definition SlashRecipients_CheckBasic :: "DoubleSigner option list option \<Rightarrow> err + unit" where
  "SlashRecipients_CheckBasic x =
     (case x of
        None \<Rightarrow> Inr ()
      | Some l \<Rightarrow>
          if list_ex (\<lambda>r. case r of None \<Rightarrow> True | Some r \<Rightarrow> ds_Heights r = [] \<or> ds_Id r = []) l
          then Inl ErrInvalidDoubleSigner else Inr ())"

fun check_locks :: "LockOrder option list \<Rightarrow> err + unit" where
  "check_locks [] = Inr ()"
| "check_locks (None # ls) = Inl ErrNilLockOrder"
| "check_locks (Some l # ls) =
     (if length (lo_BuyerSendAddress l) = 0 then Inl ErrInvalidBuyerSendAddress
      else if length (lo_BuyerReceiveAddress l) \<noteq> 20 then Inl ErrInvalidBuyerReceiveAddress
      else if lo_BuyerChainDeadline l = 0 then Inl ErrInvalidBuyerDeadline
      else check_locks ls)"

fun check_distinct :: "err \<Rightarrow> bytes set \<Rightarrow> bytes list \<Rightarrow> err + unit" where
  "check_distinct e seen [] = Inr ()"
| "check_distinct e seen (x # xs) =
     (let (found, seen') = Found x seen in
      if found then Inl e else check_distinct e seen' xs)"

definition Orders_CheckBasic :: "Orders option \<Rightarrow> err + unit" where
  "Orders_CheckBasic x =
     (case x of
        None \<Rightarrow> Inr ()
      | Some x \<Rightarrow>
          if MaxOrdersPerDexBatch < length (LockOrders x) \<or> MaxOrdersPerDexBatch < length (ResetOrders x)
            \<or> MaxOrdersPerDexBatch < length (CloseOrders x) then Inl ErrTooManyDexOrders
          else both (check_locks (LockOrders x))
            (both (check_distinct ErrDuplicateResetOrder {} (ResetOrders x))
              (check_distinct ErrDuplicateCloseOrder {} (CloseOrders x))))"

definition DexBatch_CheckBasic :: "DexBatch option \<Rightarrow> err + unit" where
  "DexBatch_CheckBasic x =
     (case x of
        None \<Rightarrow> Inr ()
      | Some x \<Rightarrow>
          if MaxDepositsPerDexBatch < length (db_Deposits x) then Inl ErrTooManyDexDeposits
          else if MaxWithdrawsPerDexBatch < length (db_Withdrawals x) then Inl ErrTooManyDexWithdraws
          else if list_ex (\<lambda>w. dlw_Percent w = 0 \<or> 100 < dlw_Percent w) (db_Withdrawals x) then
            Inl ErrInvalidPercentAllocation
          else if MaxOrdersPerDexBatch < length (db_Orders x) then Inl ErrTooManyDexOrders
          else if MaxOrdersPerDexBatch < length (db_Receipts x) then Inl ErrTooManyDexReceipts
          else if MaxLiquidityProviders < length (db_PoolPoints x) then Inl ErrTooManyDexReceipts
          else if list_ex (\<lambda>p. length (pp_Address p) \<noteq> 20) (db_PoolPoints x) then Inl ErrInvalidAddress
          else if 100 < length (db_ReceiptHash x) then Inl ErrInvalidBlockHash
          else Inr ())"

definition Checkpoint_CheckBasic :: "Checkpoint option \<Rightarrow> err + unit" where
  "Checkpoint_CheckBasic x =
     (case x of
        None \<Rightarrow> Inr ()
      | Some x \<Rightarrow> if 100 < length (chk_BlockHash x) then Inl ErrInvalidBlockHash else Inr ())"

definition CertificateResult_CheckBasic :: "CertificateResult option \<Rightarrow> err + unit" where
  "CertificateResult_CheckBasic x =
     (case x of
        None \<Rightarrow> Inl ErrNilCertResults
      | Some x \<Rightarrow>
          both (RewardRecipients_CheckBasic (RewardRecipients x))
            (both (SlashRecipients_CheckBasic (SlashRecipients x))
              (both (Orders_CheckBasic (cr_Orders x))
                (both (DexBatch_CheckBasic (cr_DexBatch x))
                  (if (case cr_DexBatch x of None \<Rightarrow> False | Some b \<Rightarrow> db_PoolPoints b \<noteq> [])
                   then Inl ErrNonNilPoolPoints
                   else both (DexBatch_CheckBasic (cr_RootDexBatch x))
                     (Checkpoint_CheckBasic (cr_Checkpoint x)))))))"

section \<open>Quorum certificates\<close>

record QuorumCertificate =
  qc_Header :: "View option"
  qc_Results :: "CertificateResult option"
  qc_ResultsHash :: bytes
  qc_Block :: bytes
  qc_BlockHash :: bytes
  qc_ProposerKey :: bytes
  qc_Signature :: "AggregateSignature option"

text \<open>
  Hashing and protobuf encoding are parameters: \<open>hash_results\<close> is \<open>crypto.Hash(Marshal(results))\<close>,
  \<open>block_hash\<close> is \<open>BytesToBlockHash\<close>, \<open>block_txs\<close> the transactions of an encoded block and
  \<open>sign_bytes\<close> the bytes that the signers sign.
\<close>

record codec =
  hash_results :: "CertificateResult \<Rightarrow> bytes"
  block_hash :: "bytes \<Rightarrow> err + bytes"
  block_txs :: "bytes \<Rightarrow> err + bytes list"
  sign_bytes :: "QuorumCertificate \<Rightarrow> bytes"

definition GlobalMaxBlockSize :: nat where "GlobalMaxBlockSize = 256 * 1000000"

definition check_with_results :: "codec \<Rightarrow> QuorumCertificate \<Rightarrow> err + unit" where
  "check_with_results c x =
     (if length (qc_BlockHash x) \<noteq> 32 then Inl ErrInvalidBlockHash
      else if length (qc_ResultsHash x) \<noteq> 32 then Inl ErrInvalidResultsHash
      else both
        (case qc_Results x of
           None \<Rightarrow> Inr ()
         | Some r \<Rightarrow>
             both (CertificateResult_CheckBasic (Some r))
               (if qc_ResultsHash x \<noteq> hash_results c r then Inl ErrMismatchResultsHash else Inr ()))
        (if qc_Block x = [] then Inr ()
         else case block_hash c (qc_Block x) of
                Inl e \<Rightarrow> Inl e
              | Inr h \<Rightarrow>
                  if qc_BlockHash x \<noteq> h then Inl ErrMismatchQCBlockHash
                  else if GlobalMaxBlockSize < length (qc_Block x) then Inl ErrExpectedMaxBlockSize
                  else Inr ()))"

definition check_election :: "QuorumCertificate \<Rightarrow> err + unit" where
  "check_election x =
     (if length (qc_ProposerKey x) \<noteq> 48 then Inl ErrInvalidSigner
      else if length (qc_ResultsHash x) \<noteq> 0 \<or> qc_Results x \<noteq> None then Inl ErrMismatchResultsHash
      else if length (qc_BlockHash x) \<noteq> 0 \<or> length (qc_Block x) \<noteq> 0 then Inl ErrNonNilBlock
      else Inr ())"

definition QuorumCertificate_CheckBasic :: "codec \<Rightarrow> QuorumCertificate option \<Rightarrow> err + unit" where
  "QuorumCertificate_CheckBasic c x =
     (case x of
        None \<Rightarrow> Inl ErrEmptyQuorumCertificate
      | Some x \<Rightarrow>
          if qc_ResultsHash x = [] \<and> qc_ProposerKey x = [] then Inl ErrEmptyQuorumCertificate
          else if qc_Header x = None then Inl ErrEmptyView
          else both (if qc_ResultsHash x \<noteq> [] then check_with_results c x else check_election x)
            (case AggregateSignature_CheckBasic (qc_Signature x) of Inl e \<Rightarrow> Inl e | Inr _ \<Rightarrow> Inr ()))"

definition QuorumCertificate_Check ::
  "Config \<Rightarrow> codec \<Rightarrow> QuorumCertificate option \<Rightarrow> ValidatorSet \<Rightarrow> nat \<Rightarrow> View \<Rightarrow> bool \<Rightarrow> err + bool" where
  "QuorumCertificate_Check cfg c x vs maxBlockSize view enforceHeights =
     (case QuorumCertificate_CheckBasic c x of
        Inl e \<Rightarrow> Inl e
      | Inr _ \<Rightarrow>
          let x = the x in
          (case View_Check (qc_Header x) view enforceHeights of
             Inl e \<Rightarrow> Inl e
           | Inr _ \<Rightarrow>
               (case block_txs c (qc_Block x) of
                  Inl e \<Rightarrow> Inl e
                | Inr txs \<Rightarrow>
                    if maxBlockSize < sum_list (map length txs) then Inl ErrExpectedMaxBlockSize
                    else AggregateSignature_Check cfg (qc_Signature x) (sign_bytes c x) vs)))"

definition CheckHighQC ::
  "Config \<Rightarrow> codec \<Rightarrow> QuorumCertificate option \<Rightarrow> nat \<Rightarrow> View \<Rightarrow> u64 \<Rightarrow> ValidatorSet \<Rightarrow> err + unit" where
  "CheckHighQC cfg c x maxBlockSize view lastRootHeightUpdated vs =
     (case QuorumCertificate_Check cfg c x vs maxBlockSize view False of
        Inl e \<Rightarrow> Inl e
      | Inr isPartialQC \<Rightarrow>
          if isPartialQC then Inl ErrNoMaj23
          else
            let h = the (qc_Header (the x)) in
            if vw_RootHeight h < lastRootHeightUpdated then Inl ErrWrongHighQCRootHeight
            else if vw_Height h \<noteq> vw_Height view then Inl ErrWrongHighQCHeight
            else if vw_Phase h \<noteq> PROPOSE_VOTE then Inl ErrWrongPhase
            else Inr ())"

section \<open>The order of views\<close>

lemma phase_number_inj: "phase_number p = phase_number q \<longleftrightarrow> p = q"
  by (cases p; cases q) simp_all

text \<open>Views of one chain are compared as their height, root height, round and phase.\<close>

definition view_rank :: "View \<Rightarrow> u64 \<times> u64 \<times> u64 \<times> nat" where
  "view_rank v = (vw_Height v, vw_RootHeight v, vw_Round v, phase_number (vw_Phase v))"

lemma View_Less_rank: "View_Less (Some x) (Some v) = (view_rank x < view_rank v)"
  by (auto simp: View_Less_def view_rank_def less_prod_def)

lemma View_Equals_rank:
  "View_Equals (Some x) (Some v) \<longleftrightarrow>
     view_rank x = view_rank v \<and> vw_ChainId x = vw_ChainId v \<and> vw_NetworkId x = vw_NetworkId v"
  by (auto simp: View_Equals_def view_rank_def phase_number_inj)

section \<open>Voting power\<close>

text \<open>The voting power of the members whose index, counted from \<open>i\<close>, satisfies a predicate.\<close>

fun power_if :: "(nat \<Rightarrow> bool) \<Rightarrow> nat \<Rightarrow> ConsensusValidator list \<Rightarrow> nat" where
  "power_if f i [] = 0"
| "power_if f i (v # vs) = (if f i then unat (cv_VotingPower v) else 0) + power_if f (Suc i) vs"

definition power_total :: "ConsensusValidator list \<Rightarrow> nat" where
  "power_total ms = sum_list (map (\<lambda>v. unat (cv_VotingPower v)) ms)"

lemma power_total_simps [simp]:
  "power_total [] = 0" "power_total (v # vs) = unat (cv_VotingPower v) + power_total vs"
  by (simp_all add: power_total_def)

lemma power_if_le: "power_if f i ms \<le> power_total ms"
proof (induction ms arbitrary: i)
  case (Cons v ms)
  from Cons.IH [of "Suc i"] show ?case by simp
qed simp

text \<open>Inclusion and exclusion, for two groups of signers.\<close>

lemma power_if_both:
  "power_if f i ms + power_if g i ms \<le> power_if (\<lambda>j. f j \<and> g j) i ms + power_total ms"
proof (induction ms arbitrary: i)
  case (Cons v ms)
  from Cons.IH [of "Suc i"] show ?case by simp
qed simp

lemma power_fold:
  "unat p + power_total ms < 18446744073709551616 \<Longrightarrow>
     unat (foldl (\<lambda>p v. p + cv_VotingPower v) p ms) = unat p + power_total ms"
proof (induction ms arbitrary: p)
  case (Cons v ms)
  then have "unat (p + cv_VotingPower v) = unat p + unat (cv_VotingPower v)"
    by (intro unat_add_u64) simp
  with Cons show ?case by simp
qed simp

lemma NewValidatorSet_power:
  assumes "NewValidatorSet cfg ms b = Inr vs" and "power_total ms < 18446744073709551616"
  shows "unat (vs_TotalPower vs) = power_total ms" and "vs_Members vs = ms"
    and "vs_MinimumMaj23 vs = (2 * vs_TotalPower vs) div 3 + 1"
  using assms power_fold [of 0 ms]
  by (auto simp: NewValidatorSet_def Let_def split: if_splits)

section \<open>Signers\<close>

definition enabled :: "bytes \<Rightarrow> nat \<Rightarrow> bool" where
  "enabled bm i = bit (bm ! (i div 8)) (i mod 8)"

lemma SignerEnabledAt_Inr: "SignerEnabledAt n bm i = Inr b \<Longrightarrow> b = enabled bm i"
  by (auto simp: SignerEnabledAt_def enabled_def split: if_splits)

text \<open>The signers found are the enabled members, and so is their power.\<close>

lemma collect_signers_power:
  assumes "collect_signers n bm False i ms (pks, p) = Inr (pks', p')"
    and "unat p + power_total ms < 18446744073709551616"
  shows "unat p' = unat p + power_if (enabled bm) i ms"
    and "\<forall>j. i \<le> j \<and> j < i + length ms \<longrightarrow> SignerEnabledAt n bm j = Inr (enabled bm j)"
proof -
  have "unat p' = unat p + power_if (enabled bm) i ms \<and>
      (\<forall>j. i \<le> j \<and> j < i + length ms \<longrightarrow> SignerEnabledAt n bm j = Inr (enabled bm j))"
    using assms
  proof (induction ms arbitrary: i pks p)
    case (Cons v ms)
    obtain b where b: "SignerEnabledAt n bm i = Inr b"
      using Cons.prems(1) by (cases "SignerEnabledAt n bm i") auto
    have be: "b = enabled bm i" by (rule SignerEnabledAt_Inr [OF b])
    define q where "q = (if b then p + cv_VotingPower v else p)"
    define ks where "ks = (if b then pks @ [cv_PublicKey v] else pks)"
    have rec: "collect_signers n bm False (Suc i) ms (ks, q) = Inr (pks', p')"
      using Cons.prems(1) b by (auto simp: q_def ks_def split: if_splits)
    have q: "unat q = unat p + (if b then unat (cv_VotingPower v) else 0)"
      using Cons.prems(2) by (simp add: q_def unat_add_u64)
    then have "unat q + power_total ms < 18446744073709551616"
      using Cons.prems(2) by (auto split: if_splits)
    note IH = Cons.IH [OF rec this]
    have "SignerEnabledAt n bm j = Inr (enabled bm j)" if "i \<le> j" "j < i + length (v # ms)" for j
      using IH that b be by (cases "j = i") simp_all
    with IH q b be show ?case by simp
  qed auto
  then show "unat p' = unat p + power_if (enabled bm) i ms"
    "\<forall>j. i \<le> j \<and> j < i + length ms \<longrightarrow> SignerEnabledAt n bm j = Inr (enabled bm j)"
    by auto
qed

definition power_of_keys :: "bytes set \<Rightarrow> ConsensusValidator list \<Rightarrow> nat" where
  "power_of_keys K ms = power_total (filter (\<lambda>v. cv_PublicKey v \<in> K) ms)"

lemma power_of_keys_simps [simp]:
  "power_of_keys K [] = 0"
  "power_of_keys K (v # vs) =
     (if cv_PublicKey v \<in> K then unat (cv_VotingPower v) else 0) + power_of_keys K vs"
  by (simp_all add: power_of_keys_def)

lemma collect_double_power:
  assumes "\<forall>j. i \<le> j \<and> j < i + length ms \<longrightarrow> SignerEnabledAt n bm j = Inr (enabled bm j)"
    and "\<forall>j. i \<le> j \<and> j < i + length ms \<longrightarrow> SignerEnabledAt n bm2 j = Inr (enabled bm2 j)"
  shows "\<exists>es. collect_double n bm bm2 i ms ds = Inr es \<and> set ds \<subseteq> set es \<and>
    power_if (\<lambda>j. enabled bm j \<and> enabled bm2 j) i ms \<le> power_of_keys (set es) ms"
  using assms
proof (induction ms arbitrary: i ds)
  case (Cons v ms)
  let ?ds = "if enabled bm i \<and> enabled bm2 i then ds @ [cv_PublicKey v] else ds"
  have step: "collect_double n bm bm2 i (v # ms) ds = collect_double n bm bm2 (Suc i) ms ?ds"
    using Cons.prems by (cases "enabled bm i") simp_all
  obtain es where "collect_double n bm bm2 (Suc i) ms ?ds = Inr es" "set ?ds \<subseteq> set es"
    "power_if (\<lambda>j. enabled bm j \<and> enabled bm2 j) (Suc i) ms \<le> power_of_keys (set es) ms"
    using Cons.IH [of "Suc i" ?ds] Cons.prems by auto
  then show ?case
    unfolding step by (auto split: if_splits)
qed simp

text \<open>A signature that passes the check carries at least the two-thirds threshold.\<close>

lemma Check_power:
  assumes "AggregateSignature_Check cfg (Some x) sb vs = Inr False"
    and "power_total (vs_Members vs) < 18446744073709551616"
  obtains bm where "SetMask cfg (length (vs_Members vs)) (as_Bitmap x) = Some bm"
    and "unat (vs_MinimumMaj23 vs) \<le> power_if (enabled bm) 0 (vs_Members vs)"
    and "\<forall>j < length (vs_Members vs). SignerEnabledAt (length (vs_Members vs)) bm j = Inr (enabled bm j)"
proof -
  obtain bm where bm: "SetMask cfg (length (vs_Members vs)) (as_Bitmap x) = Some bm"
    using assms(1) by (auto simp: AggregateSignature_Check_def split: sum.splits option.splits
        if_splits) (auto simp: AggregateSignature_CheckBasic_def split: if_splits)
  obtain pks p where sg: "collect_signers (length (vs_Members vs)) bm False 0 (vs_Members vs) ([], 0)
      = Inr (pks, p)" "\<not> p < vs_MinimumMaj23 vs"
    using assms(1) bm by (auto simp: AggregateSignature_Check_def AggregateSignature_CheckBasic_def
        GetSigners_def getSigners_def split: sum.splits if_splits)
  from collect_signers_power [OF sg(1)] assms(2) sg(2) bm that show thesis
    by (auto simp: not_less word_le_nat_alt)
qed

lemma quorum_third: "2 * p < 18446744073709551616 \<Longrightarrow> unat (tp :: u64) = p \<Longrightarrow>
    unat ((2 * tp) div 3 + 1) = 2 * p div 3 + 1"
proof -
  assume a: "2 * p < 18446744073709551616" "unat tp = p"
  then have "unat (2 * tp) = 2 * p"
    by (subst unat_mult_u64) auto
  then have d: "unat (2 * tp div 3) = 2 * p div 3"
    by (simp add: unat_div_distrib)
  show ?thesis
    by (subst unat_add_u64) (use a d in auto)
qed

text \<open>Two certificates with a two-thirds majority share more than a third of the voting power.\<close>

lemma quorums_intersect:
  assumes vs: "NewValidatorSet cfg ms False = Inr vs"
    and small: "2 * power_total ms < 18446744073709551616"
    and x: "AggregateSignature_Check cfg (Some x) sb vs = Inr False"
    and y: "AggregateSignature_Check cfg (Some y) sb2 vs = Inr False"
  shows "\<exists>ds. GetDoubleSigners cfg x y vs = Inr ds \<and>
    power_total ms < 3 * power_of_keys (set ds) ms"
proof -
  have "power_total ms < 18446744073709551616" using small by simp
  note n = NewValidatorSet_power [OF vs this]
  have maj: "unat (vs_MinimumMaj23 vs) = 2 * power_total ms div 3 + 1"
    unfolding n(3) by (rule quorum_third [OF small n(1)])
  have lt: "power_total (vs_Members vs) < 18446744073709551616" using small by (simp add: n(2))
  obtain bm where bm: "SetMask cfg (length ms) (as_Bitmap x) = Some bm"
    "2 * power_total ms div 3 + 1 \<le> power_if (enabled bm) 0 ms"
    "\<forall>j < length ms. SignerEnabledAt (length ms) bm j = Inr (enabled bm j)"
    by (rule Check_power [OF x lt]) (simp add: n(2) maj)
  obtain bm2 where bm2: "SetMask cfg (length ms) (as_Bitmap y) = Some bm2"
    "2 * power_total ms div 3 + 1 \<le> power_if (enabled bm2) 0 ms"
    "\<forall>j < length ms. SignerEnabledAt (length ms) bm2 j = Inr (enabled bm2 j)"
    by (rule Check_power [OF y lt]) (simp add: n(2) maj)
  obtain es where es: "collect_double (length ms) bm bm2 0 ms [] = Inr es"
    "power_if (\<lambda>j. enabled bm j \<and> enabled bm2 j) 0 ms \<le> power_of_keys (set es) ms"
    using collect_double_power [of 0 ms "length ms" bm bm2 "[]"] bm(3) bm2(3) by auto
  have "power_total ms < 3 * power_of_keys (set es) ms"
    using power_if_both [of "enabled bm" 0 ms "enabled bm2"] es(2) bm(2) bm2(2) by linarith
  then show ?thesis
    using es(1) bm(1) bm2(1) by (simp add: GetDoubleSigners_def n(2) Let_def)
qed


section \<open>High certificates\<close>

lemma CheckHighQC_accepts:
  assumes "CheckHighQC cfg c (Some x) mx view lastRoot vs = Inr ()"
  shows "\<exists>h. qc_Header x = Some h \<and> vw_Phase h = PROPOSE_VOTE \<and> vw_Height h = vw_Height view \<and>
    vw_ChainId h = vw_ChainId view \<and> vw_NetworkId h = vw_NetworkId view \<and> lastRoot \<le> vw_RootHeight h \<and>
    AggregateSignature_Check cfg (qc_Signature x) (sign_bytes c x) vs = Inr False"
proof -
  have q: "QuorumCertificate_Check cfg c (Some x) vs mx view False = Inr False"
    using assms by (auto simp: CheckHighQC_def Let_def split: sum.splits if_splits)
  then have v: "View_Check (qc_Header x) view False = Inr ()"
    and a: "AggregateSignature_Check cfg (qc_Signature x) (sign_bytes c x) vs = Inr False"
    by (auto simp: QuorumCertificate_Check_def Let_def split: sum.splits if_splits)
  then obtain h where "qc_Header x = Some h" "vw_ChainId h = vw_ChainId view" "vw_NetworkId h = vw_NetworkId view"
    by (auto simp: View_Check_def split: option.splits if_splits)
  with q a assms show ?thesis by (auto simp: CheckHighQC_def Let_def not_less split: if_splits)
qed

end
