(* ===== verification/Byzantine.thy ===== *)
theory Byzantine
  imports Certificates
begin

text \<open>
  Byzantine evidence and slashing (fsm/byzantine.go), and the forced unstaking of validators that
  were paused too long (fsm/automatic.go).  A non-signer window counts missed certificates per
  validator; at its end offenders are paused and slashed.  Slashes are limited per committee and
  block by the slash tracker.
\<close>

section \<open>Non-signer counters\<close>

definition new_NonSigner :: NonSigner where
  "new_NonSigner = \<lparr>ns_Counter = 0, ns_ChainCounters = []\<rparr>"

text \<open>The list of \<open>(chain id, counter)\<close> with the counter of a chain raised or appended.\<close>

fun raise_counter :: "u64 \<Rightarrow> (u64 \<times> u64) list \<Rightarrow> (u64 \<times> u64) list" where
  "raise_counter chainId [] = [(chainId, 1)]"
| "raise_counter chainId ((c, n) # cs) =
     (if c = chainId then (c, n + 1) # cs else (c, n) # raise_counter chainId cs)"

definition incrementNonSignerChainCounter :: "NonSigner \<Rightarrow> u64 \<Rightarrow> NonSigner" where
  "incrementNonSignerChainCounter nonSigner chainId =
     nonSigner\<lparr>ns_ChainCounters := raise_counter chainId (ns_ChainCounters nonSigner)\<rparr>"

definition nonSignerCounterForChain :: "NonSigner \<Rightarrow> u64 \<Rightarrow> u64" where
  "nonSignerCounterForChain nonSigner chainId =
     (case find (\<lambda>c. fst c = chainId) (ns_ChainCounters nonSigner) of
        Some (_, counter) \<Rightarrow> counter
      | None \<Rightarrow> 0)"

definition increment_one :: "u64 \<Rightarrow> bytes \<Rightarrow> unit fsm" where
  "increment_one chainId ns =
     bindE (reads (IsFeatureEnabled 2)) (\<lambda>trackByChain.
     bindE (reads Cfg) (\<lambda>cfg.
       case AddressOf cfg ns of
         None \<Rightarrow> fail ErrPubKeyFromBytes
       | Some addr \<Rightarrow>
           writes (\<lambda>s.
             let ptr = (case kv_get (nonSigners s) addr of None \<Rightarrow> new_NonSigner | Some p \<Rightarrow> p);
                 ptr = ptr\<lparr>ns_Counter := ns_Counter ptr + 1\<rparr>;
                 ptr = (if trackByChain then incrementNonSignerChainCounter ptr chainId else ptr)
             in s\<lparr>nonSigners := kv_set addr ptr (nonSigners s)\<rparr>)))"

definition IncrementNonSigners :: "u64 \<Rightarrow> bytes list \<Rightarrow> unit fsm" where
  "IncrementNonSigners chainId nonSignerPubKeys = for_op (increment_one chainId) nonSignerPubKeys"

section \<open>Forced unstaking\<close>

definition ForceUnstakeValidator :: "address \<Rightarrow> unit fsm" where
  "ForceUnstakeValidator a =
     bindE (reads (GetValidator a)) (\<lambda>r.
       case r of
         Inl _ \<Rightarrow> ok ()
       | Inr validator \<Rightarrow>
           if val_UnstakingHeight validator \<noteq> 0 then ok ()
           else
             bindE GetParamsVal (\<lambda>p.
             bindE (reads Height) (\<lambda>h.
             bindE (SetValidatorUnstaking a validator (h + UnstakingBlocks p)) (\<lambda>_.
               addEvent EventAutoBeginUnstaking a 0))))"

definition delete_paused_key :: "u64 \<times> address \<Rightarrow> unit fsm" where
  "delete_paused_key k = writes (\<lambda>s. s\<lparr>paused := kv_del k (paused s)\<rparr>)"

definition ForceUnstakeMaxPaused :: "unit fsm" where
  "ForceUnstakeMaxPaused =
     bindE (reads (\<lambda>s. keys_at (Height s) (paused s))) (\<lambda>ks.
     bindE (for_op (\<lambda>k. ForceUnstakeValidator (snd k)) ks) (\<lambda>_.
       for_op delete_paused_key ks))"

section \<open>Slashing\<close>

definition stake_after_slash :: "u64 \<Rightarrow> u64 \<Rightarrow> u64" where
  "stake_after_slash stake percent =
     (if 100 \<le> percent \<or> stake = 0 then 0
      else if percent = 0 then stake
      else SafeMulDiv stake (100 - percent) 100)"

text \<open>The part of \<open>SlashValidator\<close> after the percentage and the committees are settled.\<close>

definition burn_stake :: "Validator \<Rightarrow> u64 \<Rightarrow> u64 list \<Rightarrow> ValidatorParams \<Rightarrow> unit fsm" where
  "burn_stake validator percent newCommittees p =
     (let stakeAfterSlash = stake_after_slash (val_StakedAmount validator) percent;
          slashAmount = val_StakedAmount validator - stakeAfterSlash in
      bindE (SubFromTotalSupply slashAmount) (\<lambda>_.
        if stakeAfterSlash = 0 then
          bindE (addEvent (EventSlash slashAmount) (val_Address validator) 0) (\<lambda>_.
            DeleteValidator validator)
        else
          bindE (SubFromStakedSupply slashAmount) (\<lambda>_.
          bindE (UpdateCommittees (val_Address validator) validator stakeAfterSlash newCommittees) (\<lambda>_.
            let v = validator\<lparr>val_Committees := newCommittees, val_StakedAmount := stakeAfterSlash\<rparr> in
            bindE (SetValidatorUnstakingIfBelowMinimum v p) (\<lambda>isSet.
              if isSet then ok ()
              else bindE (SetValidator v) (\<lambda>_.
                addEvent (EventSlash slashAmount) (val_Address validator) 0))))))"

definition SlashValidator :: "Validator \<Rightarrow> u64 \<Rightarrow> u64 \<Rightarrow> ValidatorParams \<Rightarrow> unit fsm" where
  "SlashValidator validator chainId percent p =
     bindE (reads (IsFeatureEnabled 2)) (\<lambda>committeeScoped.
       if \<not> committeeScoped then burn_stake validator percent (val_Committees validator) p
       else if chainId \<notin> set (val_Committees validator) then ok ()
       else
         bindE (reads (\<lambda>s. slashTracker s (val_Address validator, chainId))) (\<lambda>slashTotal.
           if MaxSlashPerCommittee p \<le> slashTotal then ok ()
           else
             let reached = (MaxSlashPerCommittee p \<le> slashTotal + percent);
                 percent' = (if reached then MaxSlashPerCommittee p - slashTotal else percent);
                 newCommittees = (if reached then remove1 chainId (val_Committees validator)
                   else val_Committees validator) in
             bindE (writes (\<lambda>s. s\<lparr>slashTracker := (slashTracker s)
                 ((val_Address validator, chainId) :=
                   slashTracker s (val_Address validator, chainId) + percent')\<rparr>)) (\<lambda>_.
               burn_stake validator percent' newCommittees p)))"

definition slash_one :: "u64 \<Rightarrow> u64 \<Rightarrow> ValidatorParams \<Rightarrow> address \<Rightarrow> unit fsm" where
  "slash_one chainId percent p addr =
     bindE (reads (GetValidator addr)) (\<lambda>r.
       case r of
         Inl _ \<Rightarrow> ok ()
       | Inr validator \<Rightarrow> SlashValidator validator chainId percent p)"

definition SlashValidators :: "address list \<Rightarrow> u64 \<Rightarrow> u64 \<Rightarrow> ValidatorParams \<Rightarrow> unit fsm" where
  "SlashValidators addresses chainId percent p = for_op (slash_one chainId percent p) addresses"

definition SlashNonSigners :: "u64 \<Rightarrow> ValidatorParams \<Rightarrow> address list \<Rightarrow> unit fsm" where
  "SlashNonSigners chainId params nonSignerAddrs =
     SlashValidators nonSignerAddrs chainId (NonSignSlashPercentage params) params"

definition SlashDoubleSigners :: "u64 \<Rightarrow> ValidatorParams \<Rightarrow> address list \<Rightarrow> unit fsm" where
  "SlashDoubleSigners chainId params doubleSignerAddrs =
     SlashValidators doubleSignerAddrs chainId (DoubleSignSlashPercentage params) params"

section \<open>Evidence\<close>

definition exceeds_max_non_sign :: "bool \<Rightarrow> u64 \<Rightarrow> ValidatorParams \<Rightarrow> NonSigner \<Rightarrow> bool" where
  "exceeds_max_non_sign committeeScoped chainId params ptr =
     (MaxNonSign params <
        (if committeeScoped \<and> length (ns_ChainCounters ptr) \<noteq> 0
         then nonSignerCounterForChain ptr chainId else ns_Counter ptr))"

definition SlashAndResetNonSigners :: "u64 \<Rightarrow> ValidatorParams \<Rightarrow> unit fsm" where
  "SlashAndResetNonSigners chainId params =
     bindE (reads (IsFeatureEnabled 2)) (\<lambda>committeeScoped.
     bindE (reads nonSigners) (\<lambda>entries.
       let slashList = map fst (filter (\<lambda>e. exceeds_max_non_sign committeeScoped chainId params (snd e))
         entries) in
       bindE (SetValidatorsPaused chainId slashList) (\<lambda>_.
       bindE (SlashNonSigners chainId params slashList) (\<lambda>_.
         writes (\<lambda>s. s\<lparr>nonSigners := foldr kv_del (map fst entries) (nonSigners s)\<rparr>)))))"

fun index_heights :: "address \<Rightarrow> u64 list \<Rightarrow> unit fsm" where
  "index_heights a [] = ok ()"
| "index_heights a (height # hs) =
     bindE (reads (\<lambda>s. kv_get (doubleSigners s) (a, height))) (\<lambda>found.
       if found \<noteq> None then fail ErrInvalidDoubleSigner
       else bindE (writes (\<lambda>s. s\<lparr>doubleSigners := kv_set (a, height) () (doubleSigners s)\<rparr>)) (\<lambda>_.
         index_heights a hs))"

definition collect_double_signer :: "DoubleSigner option \<Rightarrow> address list \<Rightarrow> address list fsm" where
  "collect_double_signer doubleSigner slashList =
     (case doubleSigner of
        None \<Rightarrow> fail ErrEmptyDoubleSigner
      | Some d \<Rightarrow>
          if ds_Id d = [] then fail ErrEmptyDoubleSigner
          else if length (ds_Heights d) = 0 then fail ErrInvalidDoubleSignHeights
          else bindE (reads Cfg) (\<lambda>cfg.
            case AddressOf cfg (ds_Id d) of
              None \<Rightarrow> fail ErrPubKeyFromBytes
            | Some a \<Rightarrow> bindE (index_heights a (ds_Heights d)) (\<lambda>_.
                ok (slashList @ replicate (length (ds_Heights d)) a))))"

definition HandleDoubleSigners ::
  "u64 \<Rightarrow> ValidatorParams \<Rightarrow> DoubleSigner option list \<Rightarrow> unit fsm" where
  "HandleDoubleSigners chainId params dss =
     bindE (fold_op collect_double_signer dss []) (\<lambda>slashList.
       SlashDoubleSigners chainId params slashList)"

text \<open>
  The certificate comes with a header and results here, which the caller has checked.  The
  percentage of non-signers is returned.
\<close>

definition HandleByzantine ::
  "u64 \<Rightarrow> CertificateResult \<Rightarrow> AggregateSignature option \<Rightarrow> ValidatorSet option \<Rightarrow> u64 fsm" where
  "HandleByzantine chainId results signature vs =
     (case vs of
        None \<Rightarrow> ok 0
      | Some vs \<Rightarrow>
          bindE GetParamsVal (\<lambda>params.
          bindE (reads Height) (\<lambda>h.
            if NonSignWindow params = 0 then fail Panic
            else
              bindE (if h mod NonSignWindow params = 0 then SlashAndResetNonSigners chainId params
                     else ok ()) (\<lambda>_.
              bindE (gets (\<lambda>s. GetNonSigners (Cfg s) signature (vs_Members vs))) (\<lambda>(pubKeys, percent).
              bindE (IncrementNonSigners chainId pubKeys) (\<lambda>_.
              bindE (case SlashRecipients results of
                       None \<Rightarrow> ok ()
                     | Some dss \<Rightarrow> HandleDoubleSigners chainId params dss) (\<lambda>_.
                ok percent)))))))"


section \<open>What a slash takes\<close>

lemma unat_stake_after_slash:
  "unat (stake_after_slash n pct) = unat n * (100 - unat pct) div 100"
proof (cases "100 \<le> pct \<or> n = 0 \<or> pct = 0")
  case True
  then show ?thesis by (auto simp: stake_after_slash_def word_le_nat_alt)
next
  case False
  then have le: "100 - unat pct \<le> 100" and u: "unat (100 - pct) = 100 - unat pct"
    by (simp_all add: word_le_nat_alt word_less_nat_alt unat_sub)
  have "unat n * (100 - unat pct) div 100 \<le> unat n"
    using share_le [OF le] by simp
  then have "unat n * unat (100 - pct) div unat (100 :: u64) < 18446744073709551616"
    using unat_u64_less [of n] u by simp
  with False u show ?thesis
    by (simp add: stake_after_slash_def unat_SafeMulDiv)
qed

lemma stake_after_slash_le: "stake_after_slash n pct \<le> n"
  using share_le [of "100 - unat pct" 100 "unat n"]
  by (simp add: word_le_nat_alt unat_stake_after_slash)

text \<open>What unstaking does to the stored record.\<close>

lemma SetValidatorUnstaking_effect:
  assumes a: "val_Address v = a" and t: "SetValidatorUnstaking a v h s = (t, r)"
  shows "\<exists>w. validators t = kv_set a w (validators s) \<and> same_stake w v"
    and "supplyTracker t = supplyTracker s" and "others t = others s"
proof -
  show "\<exists>w. validators t = kv_set a w (validators s) \<and> same_stake w v"
    using t a by (auto simp: SetValidatorUnstaking_def SetValidatorUnpaused_def SetValidator_def
        op_simps Let_def kv_set_set same_stake_def split: if_splits)
  have "frame supplyTracker (SetValidatorUnstaking a v h)" "frame others (SetValidatorUnstaking a v h)"
    by (intro frame_rules; simp add: others_def)+
  from frameD [where m = "SetValidatorUnstaking a v h", OF this(1) t]
    frameD [where m = "SetValidatorUnstaking a v h", OF this(2) t]
  show "supplyTracker t = supplyTracker s" "others t = others s" .
qed

lemma below_minimum_effect:
  assumes t: "SetValidatorUnstakingIfBelowMinimum v p s = (t, Inr b)"
  shows "if b then (\<exists>w. validators t = kv_set (val_Address v) w (validators s) \<and> same_stake w v)
      \<and> supplyTracker t = supplyTracker s \<and> others t = others s
    else t = s"
proof -
  have "(\<exists>h w. SetValidatorUnstaking (val_Address v) v h s = (t, Inr w) \<and> b) \<or> (\<not> b \<and> t = s)"
    using t by (auto simp: SetValidatorUnstakingIfBelowMinimum_def bindE_reads ok_apply Let_def
        elim!: bindE_okE split: if_splits prod.splits) blast+
  then show ?thesis
    using SetValidatorUnstaking_effect [OF refl, of v] by fastforce
qed

lemma getSupplyPools_Total [simp]: "getSupplyPools tt (x\<lparr>Total := n\<rparr>) = getSupplyPools tt x"
  by (cases tt) simp_all

lemma SubFromTotalSupply_step:
  assumes t: "SubFromTotalSupply n s = (t, Inr ())"
  shows "total_supply t + unat n = total_supply s" and "validators t = validators s"
    and "others t = others s" and "ledger_on E t = ledger_on E s"
proof -
  show k: "total_supply t + unat n = total_supply s" "validators t = validators s" "others t = others s"
    using t by (auto simp: SubFromTotalSupply_def SetSupply_def GetSupply_def op_simps total_supply_def
        others_def unat_sub word_le_nat_alt word_less_nat_alt split: if_splits)
  have "amount e t = amount e s" for e
    using t by (cases e) (auto simp: SubFromTotalSupply_def SetSupply_def GetSupply_def op_simps
        recorded_def split: if_splits)
  then show "ledger_on E t = ledger_on E s"
    by (simp add: ledger_on_def k(2))
qed

text \<open>
  The entries of the ledger that a slash keeps right: all of them for a validator; for a delegate
  the delegation lists are not updated, so only the staked total and the joint committee list.
\<close>

definition slash_entries :: "entry set \<Rightarrow> Validator \<Rightarrow> bool" where
  "slash_entries E v \<longleftrightarrow> (val_Delegate v \<longrightarrow> E \<subseteq> joint_entries)"

lemma slash_entries_joint [simp]: "E \<subseteq> joint_entries \<Longrightarrow> slash_entries E v"
  by (simp add: slash_entries_def)

lemma share_joint: "share d n cs CommitteesWithDelegations c = share False n cs CommitteesWithDelegations c"
  by (simp add: share_def)

text \<open>The stored stake falls by what is burned, and the lists of the validator move along.\<close>

lemma burn_stake_effect:
  assumes t: "burn_stake v pct cs p s = (t, Inr ())"
  defines "after \<equiv> stake_after_slash (val_StakedAmount v) pct"
  shows "total_supply t + unat (val_StakedAmount v - after) = total_supply s"
    and "others t = others s"
    and "if after = 0 then validators t = kv_del (val_Address v) (validators s)
      else \<exists>w. validators t = kv_set (val_Address v) w (validators s) \<and>
        same_stake w (v\<lparr>val_Committees := cs, val_StakedAmount := after\<rparr>)"
    and "slash_entries E v \<Longrightarrow> ledger_on E s \<Longrightarrow> kv_wf (validators s) \<Longrightarrow>
      kv_get (validators s) (val_Address v) = Some old \<Longrightarrow> same_stake v old \<Longrightarrow> ledger_on E t"
proof -
  let ?n = "val_StakedAmount v - after" and ?a = "val_Address v"
  let ?v = "v\<lparr>val_Committees := cs, val_StakedAmount := after\<rparr>"
  have n: "unat ?n + unat after = unat (val_StakedAmount v)"
    using stake_after_slash_le [of "val_StakedAmount v" pct]
    by (simp add: after_def unat_sub word_le_nat_alt)
  obtain u where u: "SubFromTotalSupply ?n s = (u, Inr ())"
    using t unfolding burn_stake_def Let_def after_def by (auto elim: bindE_okE)
  note us = SubFromTotalSupply_step [OF u]
  have led: "ledger_on E u = ledger_on E s"
    by (rule us(4))
  have "(total_supply t = total_supply u \<and> others t = others u) \<and>
    (if after = 0 then validators t = kv_del ?a (validators u)
     else \<exists>w. validators t = kv_set ?a w (validators u) \<and> same_stake w ?v) \<and>
    (slash_entries E v \<longrightarrow> ledger_on E u \<longrightarrow> kv_wf (validators u) \<longrightarrow>
      kv_get (validators u) ?a = Some old \<longrightarrow> same_stake v old \<longrightarrow> ledger_on E t)"
  proof (cases "after = 0")
    case True
    then obtain w x where w: "w = u\<lparr>events := x\<rparr>" "DeleteValidator v w = (t, Inr ())"
      using t u unfolding burn_stake_def Let_def
      by (auto simp: bindE_of_ok after_def [symmetric] addEvent_def bindE_writes)
    note d = DeleteValidator_moves [OF w(2)]
    have wu: "total_supply w = total_supply u" "others w = others u" "validators w = validators u"
        "ledger_on E w = ledger_on E u"
      by (simp_all add: w(1) total_supply_def others_def ledger_on_cong [of "u\<lparr>events := x\<rparr>" u])
    have "total_supply t = total_supply w" using d(1) by (simp add: moves_def)
    with d wu True show ?thesis
      using DeleteValidator_step(1) [OF _ _ _ _ w(2)] by auto
  next
    case False
    then have "bindE (SubFromStakedSupply ?n) (\<lambda>_. bindE (UpdateCommittees ?a v after cs)
        (\<lambda>_. bindE (SetValidatorUnstakingIfBelowMinimum ?v p) (\<lambda>isSet. if isSet then ok ()
          else bindE (SetValidator ?v) (\<lambda>_. addEvent (EventSlash ?n) ?a 0)))) u = (t, Inr ())"
      using t u unfolding burn_stake_def Let_def
      by (simp add: bindE_of_ok after_def [symmetric] cong: if_cong)
    then obtain w x y b where w: "SubFromStakedSupply ?n u = (w, Inr ())"
      and x: "UpdateCommittees ?a v after cs w = (x, Inr ())"
      and y: "SetValidatorUnstakingIfBelowMinimum ?v p x = (y, Inr b)"
      and z: "(if b then ok () else bindE (SetValidator ?v) (\<lambda>_. addEvent (EventSlash ?n) ?a 0)) y
        = (t, Inr ())"
      by (auto elim!: bindE_okE)
    have V: "frame validators (SubFromStakedSupply ?n)" "frame validators (UpdateCommittees ?a v after cs)"
      "frame others (SubFromStakedSupply ?n)" "frame others (UpdateCommittees ?a v after cs)"
      by (intro frame_rules; simp add: others_def)+
    from frameD [where m = "SubFromStakedSupply ?n", OF V(1) w]
      frameD [where m = "UpdateCommittees ?a v after cs", OF V(2) x]
      frameD [where m = "SubFromStakedSupply ?n", OF V(3) w]
      frameD [where m = "UpdateCommittees ?a v after cs", OF V(4) x]
    have xu: "validators x = validators u" "others x = others u" by simp_all
    note m = moves_trans [OF moves_sub(1) [OF w] shifts_moves [OF UpdateCommittees_shifts [OF x]]]
    have tx: "(\<exists>w. validators t = kv_set ?a w (validators x) \<and> same_stake w ?v)
        \<and> supplyTracker t = supplyTracker x \<and> others t = others x"
    proof (cases b)
      case True
      with z below_minimum_effect [OF y] show ?thesis by (simp add: ok_apply)
    next
      case False
      with z below_minimum_effect [OF y] show ?thesis
        by (auto simp: SetValidator_def addEvent_def op_simps others_def same_stake_def
            intro: exI [of _ ?v])
    qed
    then obtain new where new: "validators t = kv_set ?a new (validators x)" "same_stake new ?v" by blast
    have total: "total_supply t = total_supply u"
      using m tx by (simp add: moves_def total_supply_def)
    have "ledger_on E t" if "slash_entries E v" "ledger_on E u" "kv_wf (validators u)"
      "kv_get (validators u) ?a = Some old" "same_stake v old"
    proof (rule ledger_replace [OF that(2-4)])
      show "validators t = kv_set ?a new (validators u)" by (simp add: new(1) xu)
      fix e
      assume e: "e \<in> insert StakedEntry E"
      have "amount e t = amount e x"
        using tx amount_cong [of t x] by blast
      moreover have "weight e old = weight e v" "weight e new = weight e ?v"
        using same_stake_weight [OF that(5)] same_stake_weight [OF new(2)] by simp_all
      moreover have "val_Delegate v \<Longrightarrow> e = StakedEntry \<or> (\<exists>c. e = CommitteeEntry CommitteesWithDelegations c)"
        using e that(1) by (auto simp: slash_entries_def joint_entries_def)
      ultimately show "amount e t + weight e old = amount e u + weight e new"
        using m n share_joint [of True]
        by (cases e; cases "val_Delegate v") (auto simp: moves_def all_entry only_def)
    qed
    with new xu tx total False show ?thesis by auto
  qed
  with us show "total_supply t + unat (val_StakedAmount v - after) = total_supply s"
    "others t = others s"
    "if after = 0 then validators t = kv_del (val_Address v) (validators s)
      else \<exists>w. validators t = kv_set (val_Address v) w (validators s) \<and>
        same_stake w (v\<lparr>val_Committees := cs, val_StakedAmount := after\<rparr>)"
    "slash_entries E v \<Longrightarrow> ledger_on E s \<Longrightarrow> kv_wf (validators s) \<Longrightarrow>
      kv_get (validators s) (val_Address v) = Some old \<Longrightarrow> same_stake v old \<Longrightarrow> ledger_on E t"
    by (simp_all add: led split: if_split_asm)
qed


section \<open>Slashing burns exactly what it takes\<close>

lemma burn_stake_books:
  assumes ok: "books_on E A s" and old: "kv_get (validators s) (val_Address v) = Some old" "same_stake v old"
    and E: "slash_entries E v" and t: "burn_stake v pct cs p s = (t, Inr ())"
  shows "books_on E A t"
    and "total_supply t + (unat (val_StakedAmount v) -
      unat (val_StakedAmount v) * (100 - unat pct) div 100) = total_supply s"
proof -
  let ?after = "stake_after_slash (val_StakedAmount v) pct"
  let ?n = "val_StakedAmount v - ?after" and ?f = "\<lambda>v. unat (val_StakedAmount v)"
  note e = burn_stake_effect(1-3) [OF t] burn_stake_effect(4) [OF t, of E old]
  have wf: "kv_wf (validators s)" "funds_ok A s" "held s = total_supply s" "ledger_on E s"
    using ok by (simp_all add: books_on_def funds_ok_def)
  have n: "unat ?n = ?f v - unat ?after" "unat ?after \<le> ?f v"
    using stake_after_slash_le [of "val_StakedAmount v" pct] by (simp_all add: unat_sub word_le_nat_alt)
  have old_le: "?f v \<le> stake_total s"
    using stake_le_total [OF wf(1) old(1)] old(2) by (simp add: same_stake_def)
  have "kv_wf (validators t) \<and> stake_total t + unat ?n = stake_total s"
  proof (cases "?after = 0")
    case True
    then have del: "validators t = kv_del (val_Address v) (validators s)" using e(3) by simp
    have "stake_total t + ?f old = stake_total s"
      unfolding stake_total_def del by (rule kv.total_del_old [OF wf(1) old(1)])
    with True n old(2) wf(1) show ?thesis by (simp add: del kv_wf_del same_stake_def)
  next
    case False
    then obtain w where w: "validators t = kv_set (val_Address v) w (validators s)"
      "val_StakedAmount w = ?after"
      using e(3) by (auto simp: same_stake_def)
    have "stake_total t + ?f old = stake_total s + ?f w"
      unfolding stake_total_def w(1) by (rule kv.total_upd_old [OF wf(1) old(1)])
    with n old(2) old_le wf(1) w show ?thesis by (simp add: kv_wf_set same_stake_def)
  qed
  then have k: "kv_wf (validators t)" "stake_total t + unat ?n = stake_total s" by auto
  note f = funds_ok_others [OF e(2) wf(2) k(1)]
  have "held t = total_supply t"
    using f(2) e(1) wf(3) k(2) by linarith
  with f(1) e(4) [OF E wf(4,1) old] show "books_on E A t"
    by (simp add: books_on_def)
  show "total_supply t + (?f v - ?f v * (100 - unat pct) div 100) = total_supply s"
    using e(1) n(1) by (simp add: unat_stake_after_slash)
qed

section \<open>The slash tracker\<close>

text \<open>No committee has slashed an address by more than the limit in this block.\<close>

definition slashes_within :: "ValidatorParams \<Rightarrow> StateMachine \<Rightarrow> bool" where
  "slashes_within p s \<longleftrightarrow> (\<forall>k. slashTracker s k \<le> MaxSlashPerCommittee p)"

lemma frame_burn_stake [frame_rules]: "frame slashTracker (burn_stake v pct cs p)"
  unfolding burn_stake_def addEvent_def by (intro frame_rules; simp)

lemma SlashValidator_cases:
  assumes t: "SlashValidator v chainId percent p s = (t, r)"
  obtains (unscoped) "\<not> IsFeatureEnabled 2 s" "burn_stake v percent (val_Committees v) p s = (t, r)"
  | (skipped) "t = s" "r = Inr ()"
  | (burned) u pct cs where "IsFeatureEnabled 2 s" "chainId \<in> set (val_Committees v)"
      "slashTracker s (val_Address v, chainId) < MaxSlashPerCommittee p"
      "pct = (if MaxSlashPerCommittee p \<le> slashTracker s (val_Address v, chainId) + percent
        then MaxSlashPerCommittee p - slashTracker s (val_Address v, chainId) else percent)"
      "cs = (if MaxSlashPerCommittee p \<le> slashTracker s (val_Address v, chainId) + percent
        then remove1 chainId (val_Committees v) else val_Committees v)"
      "u = s\<lparr>slashTracker := (slashTracker s) ((val_Address v, chainId) :=
        slashTracker s (val_Address v, chainId) + pct)\<rparr>"
      "burn_stake v pct cs p u = (t, r)"
proof -
  consider "\<not> IsFeatureEnabled 2 s"
    | "IsFeatureEnabled 2 s" "chainId \<notin> set (val_Committees v) \<or>
        MaxSlashPerCommittee p \<le> slashTracker s (val_Address v, chainId)"
    | "IsFeatureEnabled 2 s" "chainId \<in> set (val_Committees v)"
        "slashTracker s (val_Address v, chainId) < MaxSlashPerCommittee p"
    using not_le by blast
  then show thesis
  proof cases
    case 1
    with t unscoped show thesis by (simp add: SlashValidator_def bindE_reads)
  next
    case 2
    with t skipped show thesis
      by (cases "chainId \<in> set (val_Committees v)") (auto simp: SlashValidator_def bindE_reads ok_apply)
  next
    case 3
    show thesis
      by (rule burned [OF 3 refl refl refl])
        (use t 3 in \<open>simp add: SlashValidator_def bindE_reads bindE_writes Let_def not_le [symmetric]\<close>)
  qed
qed

lemma SlashValidator_within:
  assumes t: "SlashValidator v chainId percent p s = (t, r)" and ok: "slashes_within p s"
  shows "slashes_within p t"
  using t
proof (cases rule: SlashValidator_cases)
  case unscoped
  from frameD [where m = "burn_stake v percent (val_Committees v) p", OF frame_burn_stake this(2)] ok
  show ?thesis by (simp add: slashes_within_def)
next
  case skipped
  with ok show ?thesis by simp
next
  case (burned u pct cs)
  let ?x = "slashTracker s (val_Address v, chainId)"
  from frameD [where m = "burn_stake v pct cs p", OF frame_burn_stake burned(7)]
  have t': "slashTracker t = slashTracker u" .
  have "?x + pct \<le> MaxSlashPerCommittee p"
  proof (cases "MaxSlashPerCommittee p \<le> ?x + percent")
    case True
    then show ?thesis using burned(4) by simp
  next
    case False
    then show ?thesis using burned(4) by simp
  qed
  with ok show ?thesis by (simp add: slashes_within_def t' burned(6))
qed

lemma SlashValidator_books:
  assumes ok: "books_on E A s" and old: "kv_get (validators s) (val_Address v) = Some old" "same_stake v old"
    and E: "slash_entries E v" and t: "SlashValidator v chainId percent p s = (t, Inr ())"
  shows "books_on E A t" and "total_supply t \<le> total_supply s"
proof -
  have "books_on E A t \<and> total_supply t \<le> total_supply s"
    using t
  proof (cases rule: SlashValidator_cases)
    case unscoped
    from burn_stake_books [OF ok old E unscoped(2)] show ?thesis by auto
  next
    case skipped
    with ok show ?thesis by simp
  next
    case (burned u pct cs)
    have u: "books_on E A u" "kv_get (validators u) (val_Address v) = Some old"
        "total_supply u = total_supply s"
      using ok old(1) ledger_on_cong [of u s E] by (simp_all add: burned(6) books_on_def funds_ok_def accounts_ok_def
          stored_account_def held_def account_total_def pool_total_def stake_total_def total_supply_def)
    from burn_stake_books [OF u(1,2) old(2) E burned(7)] u show ?thesis by auto
  qed
  then show "books_on E A t" "total_supply t \<le> total_supply s" by auto
qed


section \<open>Operations that move no money\<close>

definition stakes :: "(address, Validator) kv \<Rightarrow> (address \<times> bool \<times> u64 \<times> u64 list) list" where
  "stakes l = map (\<lambda>(k, v). (k, val_Delegate v, val_StakedAmount v, val_Committees v)) l"

text \<open>Everything the books depend on.\<close>

definition money :: "StateMachine \<Rightarrow> ((address, Account) kv \<times> (u64 \<rightharpoonup> Account) \<times> Config \<times> (u64, Pool) kv)
    \<times> Supply \<times> (address \<times> bool \<times> u64 \<times> u64 list) list" where
  "money s = (others s, supplyTracker s, stakes (validators s))"

lemma stakes_keys: "map fst (stakes l) = map fst l"
  by (auto simp: stakes_def)

lemma stakes_kv_set:
  "kv_wf l \<Longrightarrow> kv_get l k = Some old \<Longrightarrow> same_stake w old \<Longrightarrow> stakes (kv_set k w l) = stakes l"
proof (induction k w l rule: kv_set.induct)
  case (2 k w k' v' l)
  consider "k = k'" | "k < k'" | "k' < k" using less_linear by blast
  then show ?case
  proof cases
    case 1
    with 2 show ?thesis by (simp add: stakes_def same_stake_def)
  next
    case less: 2
    have "(k, old) \<in> set ((k', v') # l)" by (rule kv_get_in_set [OF "2.prems"(2)])
    with less have "k \<in> fst ` set l" by force
    with "2.prems"(1) less show ?thesis by (auto dest: less_asym)
  next
    case 3
    then have ne: "k \<noteq> k'" "\<not> k < k'" by auto
    with 2 show ?thesis by (simp add: stakes_def)
  qed
qed simp

lemma stakes_sum:
  assumes "stakes l = stakes l'" and "\<And>v w. same_stake v w \<Longrightarrow> f v = f w"
  shows "kv_sum f l = kv_sum f l'"
proof -
  have "list_all2 (\<lambda>e e'. same_stake (snd e) (snd e')) l l'"
    using assms(1) unfolding stakes_def list.rel_eq [symmetric] list.rel_map
    by (rule list.rel_mono_strong) (auto simp: same_stake_def)
  then have "list_all2 (\<lambda>e e'. f (snd e) = f (snd e')) l l'"
    by (rule list.rel_mono_strong) (auto intro: assms(2))
  then have "map (\<lambda>e. f (snd e)) l = map (\<lambda>e. f (snd e)) l'"
    by (simp add: list.rel_eq [symmetric] list.rel_map)
  then show ?thesis by (simp add: kv_sum_def)
qed

lemma money_books:
  assumes "money t = money s"
  shows "books_on E A t = books_on E A s" and "ledger_on E t = ledger_on E s"
    and "total_supply t = total_supply s" and "kv_wf (validators t) = kv_wf (validators s)"
proof -
  have m: "others t = others s" "supplyTracker t = supplyTracker s"
      "stakes (validators t) = stakes (validators s)"
    using assms by (simp_all add: money_def)
  show wf: "kv_wf (validators t) = kv_wf (validators s)"
    using arg_cong [OF m(3), of "map fst"] by (simp add: stakes_keys kv_wf_def)
  have eq: "accounts t = accounts s" "cache_accounts t = cache_accounts s" "Cfg t = Cfg s"
      "pools t = pools s"
    using m(1) by (simp_all add: others_def)
  show tot: "total_supply t = total_supply s" by (rule total_supply_cong [OF m(2)])
  have st: "stake_total t = stake_total s"
    unfolding stake_total_def by (rule stakes_sum [OF m(3)]) (simp add: same_stake_def)
  have "kv_sum (weight e) (validators t) = kv_sum (weight e) (validators s)" for e
    by (rule stakes_sum [OF m(3) same_stake_weight])
  moreover have "amount e t = amount e s" for e
    by (rule amount_cong [OF m(2)])
  ultimately show led: "ledger_on E t = ledger_on E s" by (simp add: ledger_on_def)
  show "books_on E A t = books_on E A s"
    using accounts_ok_cong [OF eq(1,3,2)] account_total_cong [OF eq(1)] wf st tot led
    by (simp add: books_on_def funds_ok_def held_def pool_total_def eq(4))
qed

lemma money_simps [simp]:
  "money (s\<lparr>paused := x\<rparr>) = money s" "money (s\<lparr>unstaking := y\<rparr>) = money s"
  "money (s\<lparr>events := z\<rparr>) = money s" "money (s\<lparr>cache_valParams := c\<rparr>) = money s"
  "money (s\<lparr>nonSigners := ns\<rparr>) = money s" "money (s\<lparr>doubleSigners := d\<rparr>) = money s"
  "money (s\<lparr>slashTracker := st\<rparr>) = money s"
  by (simp_all add: money_def others_def)

lemma addEvent_money: "addEvent m a c s = (t, r) \<Longrightarrow> money t = money s"
  by (auto simp: addEvent_def op_simps)

lemma SetValidatorPaused_money:
  assumes "kv_wf (validators s)" and "GetValidator a s = Inr v" and "SetValidatorPaused a v h s = (t, r)"
  shows "money t = money s"
proof -
  obtain old where old: "kv_get (validators s) a = Some old" "val_Address v = a" "same_stake v old"
    using assms(2) by (rule GetValidator_Inr) simp
  then have "same_stake (v\<lparr>val_MaxPausedHeight := h\<rparr>) old" by (simp add: same_stake_def)
  from stakes_kv_set [OF assms(1) old(1) this] assms(3) old(2) show ?thesis
    by (auto simp: SetValidatorPaused_def SetValidator_def op_simps Let_def money_def others_def)
qed

lemma SetValidatorUnpaused_money:
  assumes "kv_wf (validators s)" and "GetValidator a s = Inr v" and "SetValidatorUnpaused a v s = (t, r)"
  shows "money t = money s"
proof -
  obtain old where old: "kv_get (validators s) a = Some old" "val_Address v = a" "same_stake v old"
    using assms(2) by (rule GetValidator_Inr) simp
  then have "same_stake (v\<lparr>val_MaxPausedHeight := 0\<rparr>) old" by (simp add: same_stake_def)
  from stakes_kv_set [OF assms(1) old(1) this] assms(3) old(2) show ?thesis
    by (auto simp: SetValidatorUnpaused_def SetValidator_def op_simps Let_def money_def others_def)
qed

lemma SetValidatorUnstaking_money:
  assumes "kv_wf (validators s)" and "GetValidator a s = Inr v" and "SetValidatorUnstaking a v h s = (t, r)"
  shows "money t = money s"
proof -
  obtain old where old: "kv_get (validators s) a = Some old" "val_Address v = a" "same_stake v old"
    using assms(2) by (rule GetValidator_Inr) simp
  note e = SetValidatorUnstaking_effect [OF old(2) assms(3)]
  obtain w where w: "validators t = kv_set a w (validators s)" "same_stake w v"
    using e(1) by blast
  have "same_stake w old" using w(2) old(3) by (simp add: same_stake_def)
  from stakes_kv_set [OF assms(1) old(1) this] e(2,3) show ?thesis by (simp add: money_def w(1))
qed

lemma GetValidator_cache [simp]: "GetValidator a (s\<lparr>cache_valParams := c\<rparr>) = GetValidator a s"
  by (simp add: GetValidator_def)

lemma HandleMessagePause_money:
  assumes wf: "kv_wf (validators s)" and t: "HandleMessagePause a s = (t, r)"
  shows "money t = money s"
proof (cases "GetValidator a s")
  case (Inl e)
  with t show ?thesis by (simp add: HandleMessagePause_def bindE_gets)
next
  case (Inr v)
  obtain u q where u: "GetParamsVal s = (u, q)" by fastforce
  obtain c where c: "u = s\<lparr>cache_valParams := c\<rparr>" using GetParamsVal_cache [OF u] by blast
  show ?thesis
  proof (cases "t = s \<or> t = u")
    case True
    then show ?thesis by (auto simp: c)
  next
    case False
    then have "\<exists>h w. SetValidatorPaused a v h u = (t, w)"
      using t Inr u by (auto simp: HandleMessagePause_def bindE_gets fail_apply bindE_apply reads_apply
          ok_apply gets_apply split: if_splits sum.splits prod.splits)
    then obtain h w where "SetValidatorPaused a v h u = (t, w)" by blast
    from SetValidatorPaused_money [OF _ _ this] wf Inr show ?thesis by (simp add: c)
  qed
qed


lemma HandleMessageUnpause_money:
  assumes wf: "kv_wf (validators s)" and t: "HandleMessageUnpause a s = (t, r)"
  shows "money t = money s"
proof (cases "t = s")
  case False
  then have "\<exists>v w. GetValidator a s = Inr v \<and> SetValidatorUnpaused a v s = (t, w)"
    using t by (auto simp: HandleMessageUnpause_def bindE_gets fail_apply bindE_apply
        ok_apply gets_apply split: if_splits sum.splits prod.splits)
  then show ?thesis using SetValidatorUnpaused_money [OF wf] by blast
qed simp

lemma HandleMessageUnstake_money:
  assumes wf: "kv_wf (validators s)" and t: "HandleMessageUnstake a s = (t, r)"
  shows "money t = money s"
proof -
  obtain u q where u: "GetParamsVal s = (u, q)" by fastforce
  obtain c where c: "u = s\<lparr>cache_valParams := c\<rparr>" using GetParamsVal_cache [OF u] by blast
  show ?thesis
  proof (cases "t = s \<or> t = u")
    case True
    then show ?thesis by (auto simp: c)
  next
    case False
    then have "\<exists>v h w. GetValidator a s = Inr v \<and> SetValidatorUnstaking a v h u = (t, w)"
      using t u by (auto simp: HandleMessageUnstake_def bindE_gets fail_apply bindE_apply reads_apply
          ok_apply gets_apply Let_def split: if_splits sum.splits prod.splits)
    then obtain v h w where v: "GetValidator a s = Inr v" "SetValidatorUnstaking a v h u = (t, w)" by blast
    then have "GetValidator a u = Inr v" by (simp add: c)
    from SetValidatorUnstaking_money [OF _ this v(2)] wf show ?thesis by (simp add: c)
  qed
qed

lemma ForceUnstakeValidator_money:
  assumes wf: "kv_wf (validators s)" and t: "ForceUnstakeValidator a s = (t, r)"
  shows "money t = money s"
proof -
  obtain u q where u: "GetParamsVal s = (u, q)" by fastforce
  obtain c where c: "u = s\<lparr>cache_valParams := c\<rparr>" using GetParamsVal_cache [OF u] by blast
  show ?thesis
  proof (cases "t = s \<or> t = u")
    case True
    then show ?thesis by (auto simp: c)
  next
    case False
    then have "\<exists>v h w x. GetValidator a s = Inr v \<and> SetValidatorUnstaking a v h u = (x, w)
        \<and> (t = x \<or> addEvent EventAutoBeginUnstaking a 0 x = (t, r))"
      using t u by (auto simp: ForceUnstakeValidator_def bindE_reads fail_apply bindE_apply reads_apply
          ok_apply gets_apply Let_def split: if_splits sum.splits prod.splits)
    then obtain v h w x where v: "GetValidator a s = Inr v" "SetValidatorUnstaking a v h u = (x, w)"
      and x: "t = x \<or> addEvent EventAutoBeginUnstaking a 0 x = (t, r)" by blast
    then have "GetValidator a u = Inr v" by (simp add: c)
    from SetValidatorUnstaking_money [OF _ this v(2)] wf x addEvent_money show ?thesis
      by (auto simp: c)
  qed
qed

lemma pause_one_money:
  assumes wf: "kv_wf (validators s)" and t: "pause_one chainId a s = (t, r)"
  shows "money t = money s"
proof -
  obtain u q where u: "HandleMessagePause a s = (u, q)" by fastforce
  have "t = s \<or> t = u \<or> addEvent EventAutoPause a 0 u = (t, r)"
    using t u by (auto simp: pause_one_def bindE_reads bindE_attempt ok_apply split: sum.splits if_splits)
  with HandleMessagePause_money [OF wf u] addEvent_money show ?thesis by auto
qed

lemma for_op_money:
  assumes "for_op f xs s = (t, r)" and "kv_wf (validators s)"
    and "\<And>x s t r. kv_wf (validators s) \<Longrightarrow> f x s = (t, r) \<Longrightarrow> money t = money s"
  shows "money t = money s"
  using assms(1,2)
proof (induction xs arbitrary: s)
  case Nil
  then show ?case by (simp add: op_simps)
next
  case (Cons x xs)
  obtain u q where u: "f x s = (u, q)" by fastforce
  have m: "money u = money s" by (rule assms(3) [OF Cons.prems(2) u])
  show ?case
  proof (cases q)
    case (Inl e)
    with u m Cons.prems show ?thesis by (simp add: bindE_of_err)
  next
    case (Inr y)
    have "kv_wf (validators u)" using Cons.prems(2) money_books(4) [OF m] by simp
    with Cons.IH [of u] Cons.prems(1) u Inr m show ?thesis by (simp add: bindE_of_ok)
  qed
qed

lemma SetValidatorsPaused_money:
  "kv_wf (validators s) \<Longrightarrow> SetValidatorsPaused c as s = (t, r) \<Longrightarrow> money t = money s"
  unfolding SetValidatorsPaused_def by (rule for_op_money [OF _ _ pause_one_money])

text \<open>Forced unstaking of the paused moves no money.\<close>

lemma delete_paused_key_money: "kv_wf (validators s) \<Longrightarrow> delete_paused_key k s = (t, r) \<Longrightarrow> money t = money s"
  by (auto simp: delete_paused_key_def op_simps)

lemma ForceUnstakeMaxPaused_money:
  assumes wf: "kv_wf (validators s)" and t: "ForceUnstakeMaxPaused s = (t, r)"
  shows "money t = money s"
proof -
  let ?ks = "keys_at (Height s) (paused s)"
  obtain u q where u: "for_op (\<lambda>k. ForceUnstakeValidator (snd k)) ?ks s = (u, q)" by fastforce
  have m: "money u = money s"
    by (rule for_op_money [OF u wf ForceUnstakeValidator_money])
  have "t = u \<or> for_op delete_paused_key ?ks u = (t, r)"
    using t u by (cases q) (auto simp: ForceUnstakeMaxPaused_def bindE_reads bindE_of_err bindE_of_ok)
  moreover have "kv_wf (validators u)" using wf money_books(4) [OF m] by simp
  ultimately show ?thesis
    using m for_op_money [of delete_paused_key ?ks u t r, OF _ _ delete_paused_key_money] by auto
qed

section \<open>The loops over offenders\<close>

lemma slash_one_books:
  assumes "slash_one chainId pct p a s = (t, Inr ())" and "books_on E A s" and "E \<subseteq> joint_entries"
  shows "books_on E A t" and "total_supply t \<le> total_supply s"
proof -
  have "books_on E A t \<and> total_supply t \<le> total_supply s"
  proof (cases "GetValidator a s")
    case (Inl e)
    with assms show ?thesis by (auto simp: slash_one_def bindE_reads ok_apply)
  next
    case (Inr v)
    then obtain old where old: "kv_get (validators s) a = Some old" "val_Address v = a" "same_stake v old"
      by (rule GetValidator_Inr) simp
    have "kv_get (validators s) (val_Address v) = Some old" using old by simp
    from SlashValidator_books(1,2) [OF assms(2) this old(3) slash_entries_joint [OF assms(3)]] assms(1) Inr show ?thesis
      by (auto simp: slash_one_def bindE_reads)
  qed
  then show "books_on E A t" "total_supply t \<le> total_supply s" by auto
qed

lemma SlashValidators_books:
  assumes "SlashValidators as chainId pct p s = (t, Inr ())" and "books_on E A s" and "E \<subseteq> joint_entries"
  shows "books_on E A t" and "total_supply t \<le> total_supply s"
proof -
  have "books_on E A t \<and> total_supply t \<le> total_supply s"
  proof (rule for_op_inv [OF assms(1) [unfolded SlashValidators_def]])
    show "books_on E A s \<and> total_supply s \<le> total_supply s" using assms(2) by simp
    fix a u v
    assume "books_on E A u \<and> total_supply u \<le> total_supply s" "slash_one chainId pct p a u = (v, Inr ())"
    with slash_one_books [of chainId pct p a u v E A, OF _ _ assms(3)] show "books_on E A v \<and> total_supply v \<le> total_supply s"
      by simp
  qed
  then show "books_on E A t" "total_supply t \<le> total_supply s" by auto
qed

lemma SlashValidators_within:
  assumes "SlashValidators as chainId pct p s = (t, Inr ())" and "slashes_within p s"
  shows "slashes_within p t"
proof (rule for_op_inv [OF assms(1) [unfolded SlashValidators_def], where I = "slashes_within p"])
  show "slashes_within p s" by (rule assms(2))
  fix a u v
  assume "slashes_within p u" "slash_one chainId pct p a u = (v, Inr ())"
  then show "slashes_within p v"
    by (auto simp: slash_one_def bindE_reads ok_apply split: sum.splits dest: SlashValidator_within)
qed


section \<open>The handlers of evidence\<close>

lemma SlashAndResetNonSigners_books:
  assumes ok: "books_on E A s" and E: "E \<subseteq> joint_entries" and t: "SlashAndResetNonSigners chainId params s = (t, Inr ())"
  shows "books_on E A t" and "total_supply t \<le> total_supply s"
proof -
  let ?bad = "map fst (filter (\<lambda>e. exceeds_max_non_sign (IsFeatureEnabled 2 s) chainId params (snd e))
    (nonSigners s))"
  obtain u v where u: "SetValidatorsPaused chainId ?bad s = (u, Inr ())"
    and v: "SlashNonSigners chainId params ?bad u = (v, Inr ())"
    and tv: "t = v\<lparr>nonSigners := foldr kv_del (map fst (nonSigners s)) (nonSigners v)\<rparr>"
    using t unfolding SlashAndResetNonSigners_def Let_def
    by (auto simp: bindE_reads writes_apply elim!: bindE_okE)
  have "money u = money s"
    by (rule SetValidatorsPaused_money [OF _ u]) (use ok in \<open>simp add: books_on_def funds_ok_def\<close>)
  note m = money_books [OF this]
  have "books_on E A u" using ok m(1) by simp
  note c = SlashValidators_books [OF v [unfolded SlashNonSigners_def] this E]
  have "money t = money v" by (simp add: tv)
  from money_books(1,3) [OF this] c m(3) show "books_on E A t" "total_supply t \<le> total_supply s"
    by simp_all
qed

lemma index_heights_money: "index_heights a hs s = (t, r) \<Longrightarrow> money t = money s"
  by (induction hs arbitrary: s) (auto simp: op_simps split: if_splits)

lemma collect_double_money:
  assumes "fold_op collect_double_signer ds acc s = (t, Inr l)"
  shows "money t = money s"
proof (rule fold_op_inv [OF assms, where I = "\<lambda>_ u. money u = money s"])
  fix d acc u l' v
  assume "money u = money s" "collect_double_signer d acc u = (v, Inr l')"
  then show "money v = money s"
    by (auto simp: collect_double_signer_def bindE_reads dest!: index_heights_money elim!: bindE_okE
        split: option.splits if_splits)
qed simp

lemma HandleDoubleSigners_books:
  assumes ok: "books_on E A s" and E: "E \<subseteq> joint_entries" and t: "HandleDoubleSigners chainId params ds s = (t, Inr ())"
  shows "books_on E A t" and "total_supply t \<le> total_supply s"
proof -
  obtain u l where u: "fold_op collect_double_signer ds [] s = (u, Inr l)"
    and v: "SlashDoubleSigners chainId params l u = (t, Inr ())"
    using t unfolding HandleDoubleSigners_def by (auto elim: bindE_okE)
  note m = money_books [OF collect_double_money [OF u]]
  have "books_on E A u" using ok m(1) by simp
  from SlashValidators_books [OF v [unfolded SlashDoubleSigners_def] this E] m(3)
  show "books_on E A t" "total_supply t \<le> total_supply s" by simp_all
qed

lemma IncrementNonSigners_money:
  assumes "IncrementNonSigners c ks s = (t, r)" and "kv_wf (validators s)"
  shows "money t = money s"
  by (rule for_op_money [OF assms(1) [unfolded IncrementNonSigners_def] assms(2)])
    (auto simp: increment_one_def op_simps Let_def split: option.splits)

text \<open>Handling evidence keeps the coins balanced and never mints.\<close>

lemma HandleByzantine_books:
  assumes ok: "books_on E A s" and E: "E \<subseteq> joint_entries" and t: "HandleByzantine chainId results sg vs s = (t, Inr pct)"
  shows "books_on E A t" and "total_supply t \<le> total_supply s"
proof -
  have "books_on E A t \<and> total_supply t \<le> total_supply s"
  proof (cases vs)
    case None
    with t ok show ?thesis by (simp add: HandleByzantine_def)
  next
    case (Some vset)
    obtain p u where u: "GetParamsVal s = (u, Inr p)"
      using t unfolding HandleByzantine_def Some by (auto elim: bindE_okE)
    let ?settle = "if Height u mod NonSignWindow p = 0 then SlashAndResetNonSigners chainId p else ok ()"
    let ?ds = "case SlashRecipients results of None \<Rightarrow> ok () | Some dss \<Rightarrow> HandleDoubleSigners chainId p dss"
    have "bindE ?settle (\<lambda>_. bindE (gets (\<lambda>s. GetNonSigners (Cfg s) sg (vs_Members vset)))
        (\<lambda>(ks, pct). bindE (IncrementNonSigners chainId ks) (\<lambda>_. bindE ?ds (\<lambda>_. ok pct)))) u = (t, Inr pct)"
      using t u unfolding HandleByzantine_def Some by (simp add: bindE_of_ok bindE_reads split: if_split_asm)
    then obtain v x ks w where v: "?settle u = (v, Inr ())"
      and w: "IncrementNonSigners chainId ks v = (w, Inr ())" and d: "?ds w = (t, Inr ())"
      by (elim bindE_okE) (auto simp: gets_apply elim!: bindE_okE)
    obtain c where c: "u = s\<lparr>cache_valParams := c\<rparr>" using GetParamsVal_cache [OF u] by blast
    have "money u = money s" by (simp add: c)
    from money_books [OF this] ok have u_ok: "books_on E A u" "total_supply u = total_supply s" by auto
    have v_ok: "books_on E A v \<and> total_supply v \<le> total_supply u"
      using v u_ok SlashAndResetNonSigners_books [of E A u chainId p v, OF _ E] by (auto split: if_splits)
    have "money w = money v"
      by (rule IncrementNonSigners_money [OF w]) (use v_ok in \<open>simp add: books_on_def funds_ok_def\<close>)
    from money_books [OF this] v_ok have w_ok: "books_on E A w" "total_supply w \<le> total_supply u" by auto
    have "books_on E A t \<and> total_supply t \<le> total_supply w"
      using d w_ok HandleDoubleSigners_books [of E A w chainId p _ t, OF _ E] by (auto split: option.splits)
    with w_ok u_ok show ?thesis by auto
  qed
  then show "books_on E A t" "total_supply t \<le> total_supply s" by auto
qed

end
