(* ===== verification/Rewards.thy ===== *)
theory Rewards
  imports Byzantine
begin

text \<open>
  Distribution of committee rewards at the end of a block (fsm/committee.go): the pool of every
  committee with payment percents is paid out in proportion, the rest is burned, and the committee
  data is cleared.
\<close>

section \<open>The operations\<close>

definition full_reward :: "u64 \<Rightarrow> u64 \<Rightarrow> u64 \<Rightarrow> u64" where
  "full_reward percent rewardPoolAmount numberOfSamples =
     (if numberOfSamples \<noteq> 0
      then of_nat (unat percent * unat rewardPoolAmount div (unat numberOfSamples * 100)) else 0)"

definition early_reward :: "u64 \<Rightarrow> u64 \<Rightarrow> u64" where
  "early_reward penalty fullReward =
     (if 100 \<le> penalty \<or> fullReward = 0 then 0
      else if penalty = 0 then fullReward
      else SafeMulDiv fullReward (100 - penalty) 100)"

definition DistributeCommitteeReward ::
  "PaymentPercents \<Rightarrow> u64 \<Rightarrow> u64 \<Rightarrow> ValidatorParams \<Rightarrow> u64 fsm" where
  "DistributeCommitteeReward stub rewardPoolAmount numberOfSamples valParams =
     (let fullReward = full_reward (pay_Percent stub) rewardPoolAmount numberOfSamples;
          earlyWithdrawalReward = early_reward (EarlyWithdrawalPenalty valParams) fullReward in
      bindE (reads (GetValidator (pay_Address stub))) (\<lambda>r.
        case r of
          Inl _ \<Rightarrow> bindE (AccountAdd (pay_Address stub) earlyWithdrawalReward) (\<lambda>_. ok earlyWithdrawalReward)
        | Inr validator \<Rightarrow>
            if val_Compound validator \<and> val_UnstakingHeight validator = 0 then
              bindE (UpdateValidatorStake validator (val_Committees validator) fullReward) (\<lambda>_.
                ok fullReward)
            else
              bindE (AccountAdd (val_Output validator) earlyWithdrawalReward) (\<lambda>_.
                ok earlyWithdrawalReward)))"

text \<open>One payment stub, with the running total of what was distributed.\<close>

definition pay_stub :: "CommitteeData \<Rightarrow> u64 \<Rightarrow> ValidatorParams \<Rightarrow> PaymentPercents \<Rightarrow> u64 \<Rightarrow> u64 fsm" where
  "pay_stub data pooled valParams stub totalDistributed =
     bindE (DistributeCommitteeReward stub pooled (NumberOfSamples data) valParams) (\<lambda>distributed.
       if 0 < distributed then
         bindE (addEvent (EventReward distributed) (pay_Address stub) (cd_ChainId data)) (\<lambda>_.
           if MaxUint64 - distributed < totalDistributed then fail ErrInvalidAmount
           else ok (totalDistributed + distributed))
       else ok totalDistributed)"

definition pay_committee :: "ValidatorParams \<Rightarrow> CommitteeData \<Rightarrow> CommitteeData fsm" where
  "pay_committee valParams data =
     (if length (cd_PaymentPercents data) = 0 then ok data
      else
        bindE (reads (GetPool (cd_ChainId data))) (\<lambda>rewardPool.
        bindE (fold_op (pay_stub data (pool_Amount rewardPool) valParams) (cd_PaymentPercents data) 0)
          (\<lambda>totalDistributed.
        bindE (SubFromTotalSupply (pool_Amount rewardPool - totalDistributed)) (\<lambda>_.
        bindE (SetPool (rewardPool\<lparr>pool_Amount := 0\<rparr>)) (\<lambda>_.
          ok \<lparr>cd_ChainId = cd_ChainId data, LastRootHeightUpdated = LastRootHeightUpdated data,
             LastChainHeightUpdated = LastChainHeightUpdated data, cd_PaymentPercents = [],
             NumberOfSamples = 0\<rparr>)))))"

definition DistributeCommitteeRewards :: "unit fsm" where
  "DistributeCommitteeRewards =
     bindE GetParamsVal (\<lambda>paramsVal.
     bindE (reads committeesData) (\<lambda>l.
     bindE (fold_op (\<lambda>data done. bindE (pay_committee paramsVal data) (\<lambda>d. ok (done @ [d]))) l []) (\<lambda>l'.
       SetCommitteesData l')))"

section \<open>Proportional shares\<close>

lemma sum_div_le: "(\<Sum>x \<leftarrow> xs. f x * p div q) \<le> (\<Sum>x \<leftarrow> xs. f x) * p div (q :: nat)"
proof (induction xs)
  case (Cons x xs)
  have "f x * p div q + (\<Sum>x \<leftarrow> xs. f x) * p div q \<le> (f x * p + (\<Sum>x \<leftarrow> xs. f x) * p) div q"
    by (simp add: div_add1_eq [of "f x * p"])
  with Cons show ?case by (simp add: algebra_simps)
qed simp


lemma unat_early_reward: "unat (early_reward pen n) = unat n * (100 - unat pen) div 100"
  using unat_stake_after_slash [of n pen] by (simp add: early_reward_def stake_after_slash_def)

lemma early_reward_le: "unat (early_reward pen n) \<le> unat n"
  using share_le [of "100 - unat pen" 100 "unat n"] by (simp add: unat_early_reward)

lemma full_reward_le:
  "unat (full_reward pct amt n) \<le> unat pct * unat amt div (unat n * 100)"
  by (simp add: full_reward_def unat_of_nat)

section \<open>The payment of one stub\<close>

text \<open>What the payments keep: the stores, the ledger, the receivers and everything but the stakes
  and accounts.\<close>

definition paying :: "entry set \<Rightarrow> address set \<Rightarrow> StateMachine \<Rightarrow> StateMachine \<Rightarrow> nat \<Rightarrow> bool" where
  "paying E A s t n \<longleftrightarrow> funds_ok A t \<and> ledger_on E t \<and> outputs_in A t \<and> pools t = pools s
     \<and> total_supply t = total_supply s \<and> held t = held s + n"

lemma paying_trans: "paying E A s t n \<Longrightarrow> paying E A t u m \<Longrightarrow> paying E A s u (n + m)"
  by (auto simp: paying_def)

lemma AccountAdd_paying:
  assumes ok: "funds_ok A s" "ledger_on E s" "outputs_in A s" and a: "a \<in> A"
    and t: "AccountAdd a n s = (t, Inr ())"
  shows "paying E A s t (unat n)"
proof -
  note keeps = AccountAdd_keeps [OF t]
  have "pools t = pools s"
    by (rule frameD [where m = "AccountAdd a n", OF _ t], intro frame_rules, simp)
  with AccountAdd_funds [OF ok(1) a t] ok ledger_on_cong [OF keeps] total_supply_cong [OF keeps(2)] keeps
  show ?thesis by (simp add: paying_def outputs_in_def)
qed

lemma compound_paying:
  assumes ok: "funds_ok A s" "ledger_on E s" "outputs_in A s" and v: "GetValidator a s = Inr v"
    and t: "UpdateValidatorStake v (val_Committees v) n s = (t, Inr ())"
  shows "paying E A s t (unat n)"
proof -
  obtain old where old: "kv_get (validators s) a = Some old" "val_Address v = a" "same_stake v old"
    "v = old\<lparr>val_Address := a\<rparr>"
    using v by (rule GetValidator_Inr) simp
  have wf: "kv_wf (validators s)" using ok(1) by (simp add: funds_ok_def)
  have get: "kv_get (validators s) (val_Address v) = Some old" using old by simp
  note st = UpdateValidatorStake_step [OF ok(2) wf get old(3) t]
  have "unat (val_StakedAmount v) \<le> unat (Staked (supplyTracker s))"
    using stake_le_total [OF wf get] old(3) by (simp add: ledger_stake [OF ok(2)] same_stake_def)
  note m = UpdateValidatorStake_moves [OF t this]
  have "outputs_in A t"
    using ok(3) old(1,4) unfolding outputs_in_def m(2) by (auto simp: kv_get_set)
  moreover have "pools t = pools s" using st(5) by (simp add: others_def)
  ultimately show ?thesis
    using funds_ok_others [OF st(5) ok(1) st(2)] st by (simp add: paying_def)
qed

lemma DistributeCommitteeReward_paying:
  assumes ok: "funds_ok A s" "ledger_on E s" "outputs_in A s" and a: "pay_Address stub \<in> A"
    and t: "DistributeCommitteeReward stub amt n p s = (t, Inr d)"
  shows "paying E A s t (unat d)" and "unat d \<le> unat (pay_Percent stub) * unat amt div (unat n * 100)"
proof -
  let ?full = "full_reward (pay_Percent stub) amt n"
  have "paying E A s t (unat d) \<and> unat d \<le> unat ?full"
  proof (cases "GetValidator (pay_Address stub) s")
    case (Inl e)
    then show ?thesis
      using t AccountAdd_paying [OF ok a] early_reward_le
      by (auto simp: DistributeCommitteeReward_def bindE_reads Let_def elim!: bindE_okE)
  next
    case (Inr v)
    then obtain old where old: "kv_get (validators s) (pay_Address stub) = Some old"
      "v = old\<lparr>val_Address := pay_Address stub\<rparr>"
      by (rule GetValidator_Inr) simp
    have out: "val_Output v \<in> A" using ok(3) old by (simp add: outputs_in_def)
    show ?thesis
      using t Inr AccountAdd_paying [OF ok out] compound_paying [OF ok Inr] early_reward_le
      by (auto simp: DistributeCommitteeReward_def bindE_reads Let_def elim!: bindE_okE split: if_splits)
  qed
  with full_reward_le [of "pay_Percent stub" amt n]
  show "paying E A s t (unat d)" "unat d \<le> unat (pay_Percent stub) * unat amt div (unat n * 100)"
    by auto
qed

lemma addEvent_paying: "funds_ok A s \<Longrightarrow> ledger_on E s \<Longrightarrow> outputs_in A s \<Longrightarrow>
    addEvent m a c s = (t, r) \<Longrightarrow> paying E A s t 0"
  by (auto simp: addEvent_def op_simps paying_def outputs_in_def total_supply_def held_def funds_ok_def
      accounts_ok_def stored_account_def account_total_def pool_total_def stake_total_def ledger_on_def
      all_entry recorded_def)

lemma pay_stub_paying:
  assumes ok: "funds_ok A s" "ledger_on E s" "outputs_in A s" and a: "pay_Address stub \<in> A"
    and t: "pay_stub data amt p stub td s = (t, Inr td')"
  shows "paying E A s t (unat td' - unat td)" and "unat td \<le> unat td'"
    and "unat td' \<le> unat td + unat (pay_Percent stub) * unat amt div (unat (NumberOfSamples data) * 100)"
proof -
  obtain u d where u: "DistributeCommitteeReward stub amt (NumberOfSamples data) p s = (u, Inr d)"
    and rest: "(if 0 < d then bindE (addEvent (EventReward d) (pay_Address stub) (cd_ChainId data))
        (\<lambda>_. if MaxUint64 - d < td then fail ErrInvalidAmount else ok (td + d)) else ok td) u
      = (t, Inr td')"
    using t unfolding pay_stub_def by (auto elim: bindE_okE)
  note st = DistributeCommitteeReward_paying [OF ok a u]
  have u_ok: "funds_ok A u" "ledger_on E u" "outputs_in A u" using st(1) by (simp_all add: paying_def)
  have "paying E A s t (unat td' - unat td) \<and> unat td' = unat td + unat d"
  proof (cases "0 < d")
    case True
    then obtain w where w: "addEvent (EventReward d) (pay_Address stub) (cd_ChainId data) u = (t, Inr w)"
      and td': "td' = td + d" "\<not> MaxUint64 - d < td"
      using rest by (auto elim!: bindE_okE split: if_splits)
    have "unat td' = unat td + unat d"
      using td' by (simp add: u64_simps unat_add_u64)
    with paying_trans [OF st(1) addEvent_paying [OF u_ok w]] show ?thesis by simp
  next
    case False
    then have "d = 0" "t = u" "td' = td" using rest by (auto simp: word_gt_0)
    with st(1) show ?thesis by simp
  qed
  with st(2) show "paying E A s t (unat td' - unat td)" "unat td \<le> unat td'"
    "unat td' \<le> unat td + unat (pay_Percent stub) * unat amt div (unat (NumberOfSamples data) * 100)"
    by auto
qed

lemma pay_stubs_paying:
  assumes "fold_op (pay_stub data amt p) stubs td s = (t, Inr td')"
    and "funds_ok A s" and "ledger_on E s" and "outputs_in A s"
    and "\<forall>stub \<in> set stubs. pay_Address stub \<in> A"
  shows "paying E A s t (unat td' - unat td) \<and> unat td \<le> unat td' \<and>
    unat td' \<le> unat td + (\<Sum>x \<leftarrow> stubs. unat (pay_Percent x) * unat amt
      div (unat (NumberOfSamples data) * 100))"
  using assms
proof (induction stubs arbitrary: s td)
  case Nil
  then show ?case by (simp add: op_simps paying_def)
next
  case (Cons stub stubs)
  obtain u td1 where u: "pay_stub data amt p stub td s = (u, Inr td1)"
    and rest: "fold_op (pay_stub data amt p) stubs td1 u = (t, Inr td')"
    using Cons.prems(1) by (auto elim: bindE_okE)
  have "pay_Address stub \<in> A" using Cons.prems(5) by simp
  note st = pay_stub_paying [OF Cons.prems(2-4) this u]
  have u_ok: "funds_ok A u" "ledger_on E u" "outputs_in A u" using st(1) by (simp_all add: paying_def)
  have "\<forall>stub \<in> set stubs. pay_Address stub \<in> A" using Cons.prems(5) by simp
  note ih = Cons.IH [OF rest u_ok this]
  have "unat td1 - unat td + (unat td' - unat td1) = unat td' - unat td"
    using st(2) ih by simp
  with paying_trans [OF st(1), of t "unat td' - unat td1"] ih st show ?case by simp
qed

section \<open>Whole committees\<close>

definition payable :: "address set \<Rightarrow> CommitteeData \<Rightarrow> bool" where
  "payable A d \<longleftrightarrow> well_sampled d \<and> (\<forall>stub \<in> set (cd_PaymentPercents d). pay_Address stub \<in> A)"

lemma shares_within:
  assumes "well_sampled d"
  shows "(\<Sum>x \<leftarrow> cd_PaymentPercents d. unat (pay_Percent x) * amt div (unat (NumberOfSamples d) * 100)) \<le> amt"
proof -
  let ?q = "unat (NumberOfSamples d) * 100" and ?ps = "cd_PaymentPercents d"
  have "(\<Sum>x \<leftarrow> ?ps. unat (pay_Percent x) * amt div ?q) \<le> percent_sum ?ps * amt div ?q"
    unfolding percent_sum_def by (rule sum_div_le)
  also have "\<dots> = amt * percent_sum ?ps div ?q" by (simp add: mult.commute)
  also have "\<dots> \<le> amt"
    by (rule share_le) (use assms in \<open>simp add: well_sampled_def mult.commute\<close>)
  finally show ?thesis .
qed

lemma pay_committee_books:
  assumes ok: "books_on E A s" and out: "outputs_in A s" and d: "payable A data"
    and t: "pay_committee p data s = (t, Inr data')"
  shows "books_on E A t" and "outputs_in A t" and "total_supply t \<le> total_supply s" and "payable A data'"
proof -
  have "books_on E A t \<and> outputs_in A t \<and> total_supply t \<le> total_supply s \<and> payable A data'"
  proof (cases "length (cd_PaymentPercents data) = 0")
    case True
    with t ok out d show ?thesis by (simp add: pay_committee_def)
  next
    case False
    let ?pool = "GetPool (cd_ChainId data) s"
    let ?amt = "pool_Amount ?pool"
    obtain u v w td where u: "fold_op (pay_stub data ?amt p) (cd_PaymentPercents data) 0 s = (u, Inr td)"
      and v: "SubFromTotalSupply (?amt - td) u = (v, Inr ())"
      and w: "SetPool (?pool\<lparr>pool_Amount := 0\<rparr>) v = (t, w)"
      and data': "cd_PaymentPercents data' = []" "NumberOfSamples data' = 0"
      using t False unfolding pay_committee_def
      by (simp add: bindE_reads) (auto elim!: bindE_okE)
    have s_ok: "funds_ok A s" "ledger_on E s" "held s = total_supply s"
      using ok by (simp_all add: books_on_def)
    have stubs: "\<forall>stub \<in> set (cd_PaymentPercents data). pay_Address stub \<in> A" "well_sampled data"
      using d by (simp_all add: payable_def)
    note pay = pay_stubs_paying [OF u s_ok(1,2) out stubs(1)]
    have td: "unat td \<le> unat ?amt"
      using pay shares_within [OF stubs(2), of "unat ?amt"] by simp
    then have diff: "unat (?amt - td) = unat ?amt - unat td"
      by (simp add: unat_sub word_le_nat_alt)
    have u_ok: "funds_ok A u" "ledger_on E u" "outputs_in A u" "pools u = pools s"
        "total_supply u = total_supply s" "held u = held s + unat td"
      using pay by (simp_all add: paying_def)
    note sub = SubFromTotalSupply_step [OF v]
    have pv: "pools v = pools s" using sub(3) u_ok(4) by (simp add: others_def)
    have wf: "kv_wf (validators v)" using u_ok(1) sub(2) by (simp add: funds_ok_def)
    note fv = funds_ok_others [OF sub(3) u_ok(1) wf]
    have v_ok: "funds_ok A v" "ledger_on E v" "outputs_in A v" "held v = held u"
      using fv sub(2,4) u_ok(2,3) by (simp_all add: outputs_in_def stake_total_def)
    have "kv_wf (pools v)" using v_ok(1) by (simp add: funds_ok_def)
    note set = SetPool_step(2,3) [OF this w]
    have bal: "pool_balance (cd_ChainId data) v = unat ?amt"
      by (simp add: pool_balance_def GetPool_def pv)
    have keep: "validators t = validators v" "supplyTracker t = supplyTracker v" "accounts t = accounts v"
        "Cfg t = Cfg v" "cache_accounts t = cache_accounts v"
      by (rule frameD [where m = "SetPool (?pool\<lparr>pool_Amount := 0\<rparr>)", OF _ w], intro frame_rules, simp)+
    have ht: "held t + unat ?amt = held v"
      using set(2) bal account_total_cong [OF keep(3)] by (simp add: held_def stake_total_def keep(1))
    have tt: "total_supply t + (unat ?amt - unat td) = total_supply s"
      using sub(1) diff u_ok(5) total_supply_cong [OF keep(2)] by simp
    have "held t = total_supply t" "total_supply t \<le> total_supply s"
      using ht tt td v_ok(4) u_ok(6) s_ok(3) by linarith+
    moreover have "funds_ok A t"
      using v_ok(1) set(1) accounts_ok_cong [OF keep(3-5)] by (simp add: funds_ok_def keep(1))
    moreover have "outputs_in A t" using v_ok(3) by (simp add: outputs_in_def keep(1))
    moreover have "payable A data'" using data' by (simp add: payable_def well_sampled_def)
    ultimately show ?thesis
      using ledger_on_cong [OF keep(1,2)] v_ok(2) by (simp add: books_on_def)
  qed
  then show "books_on E A t" "outputs_in A t" "total_supply t \<le> total_supply s" "payable A data'" by auto
qed

lemma pay_all_books:
  assumes "fold_op (\<lambda>data done. bindE (pay_committee p data) (\<lambda>d. ok (done @ [d]))) l acc s = (t, Inr l')"
    and "books_on E A s" and "outputs_in A s" and "\<forall>d \<in> set l. payable A d" and "\<forall>d \<in> set acc. payable A d"
  shows "books_on E A t \<and> outputs_in A t \<and> total_supply t \<le> total_supply s \<and> (\<forall>d \<in> set l'. payable A d)"
  using assms
proof (induction l arbitrary: acc s)
  case Nil
  then show ?case by (simp add: op_simps)
next
  case (Cons x l)
  obtain u d where u: "pay_committee p x s = (u, Inr d)"
    and rest: "fold_op (\<lambda>data done. bindE (pay_committee p data) (\<lambda>d. ok (done @ [d]))) l (acc @ [d]) u
      = (t, Inr l')"
    using Cons.prems(1) by (auto elim!: bindE_okE)
  have "payable A x" using Cons.prems(4) by simp
  note st = pay_committee_books [OF Cons.prems(2,3) this u]
  show ?case
    using Cons.IH [OF rest st(1,2)] Cons.prems(4,5) st(3,4) by auto
qed

lemma DistributeCommitteeRewards_books:
  assumes ok: "books_on E A s" and out: "outputs_in A s" and d: "\<forall>d \<in> set (committeesData s). payable A d"
    and t: "DistributeCommitteeRewards s = (t, Inr ())"
  shows "books_on E A t" and "outputs_in A t" and "total_supply t \<le> total_supply s"
    and "\<forall>d \<in> set (committeesData t). payable A d"
proof -
  let ?all = "\<lambda>p. fold_op (\<lambda>data done. bindE (pay_committee p data) (\<lambda>d. ok (done @ [d])))"
  obtain p u v l where u: "GetParamsVal s = (u, Inr p)"
    and v: "?all p (committeesData u) [] u = (v, Inr l)" and tv: "t = v\<lparr>committeesData := l\<rparr>"
    using t unfolding DistributeCommitteeRewards_def SetCommitteesData_def
    by (auto simp: reads_apply writes_apply elim!: bindE_okE)
  obtain c where c: "u = s\<lparr>cache_valParams := c\<rparr>" using GetParamsVal_cache [OF u] by blast
  have u_ok: "books_on E A u" "outputs_in A u" "total_supply u = total_supply s"
      "\<forall>d \<in> set (committeesData u). payable A d"
    using ok out d by (simp_all add: c outputs_in_def total_supply_def)
  have "money t = money v" by (simp add: tv money_def others_def)
  note m = money_books [OF this]
  from pay_all_books [OF v u_ok(1,2,4)] u_ok(3) m
  show "books_on E A t" "outputs_in A t" "total_supply t \<le> total_supply s"
    "\<forall>d \<in> set (committeesData t). payable A d"
    by (simp_all add: tv outputs_in_def)
qed

end
