(* ===== verification/Roster.thy ===== *)
theory Roster
  imports Uphold Rewards
begin

text \<open>
  The roster of validators: every validator is filed under its own address and its output address
  is one of the addresses in use.  Every operation of the program that writes a validator keeps
  this, whatever else it does.
\<close>

section \<open>The invariant\<close>

definition vals_ok :: "address set \<Rightarrow> StateMachine \<Rightarrow> bool" where
  "vals_ok A s \<longleftrightarrow> (\<forall>(a, v) \<in> set (validators s). val_Address v = a \<and> val_Output v \<in> A)"

lemma vals_ok_get: "vals_ok A s \<Longrightarrow> kv_get (validators s) a = Some v \<Longrightarrow> val_Address v = a \<and> val_Output v \<in> A"
  by (auto simp: vals_ok_def dest: kv_get_in_set)

lemma vals_ok_outputs: "vals_ok A s \<Longrightarrow> outputs_in A s"
  by (auto simp: outputs_in_def dest: vals_ok_get)

lemma vals_ok_cong: "validators t = validators s \<Longrightarrow> vals_ok A s \<Longrightarrow> vals_ok A t"
  by (simp add: vals_ok_def)

lemma set_kv_set: "set (kv_set k v l) \<subseteq> insert (k, v) (set l)"
  by (induction k v l rule: kv_set.induct) auto

lemma set_kv_del: "set (kv_del k l) \<subseteq> set l"
  by (induction k l rule: kv_del.induct) auto

lemma vals_ok_set [intro]:
  "vals_ok A s \<Longrightarrow> val_Output v \<in> A \<Longrightarrow> vals_ok A (s\<lparr>validators := kv_set (val_Address v) v (validators s)\<rparr>)"
  using set_kv_set [of "val_Address v" v "validators s"] by (auto simp: vals_ok_def)

lemma vals_ok_del [intro]: "vals_ok A s \<Longrightarrow> vals_ok A (s\<lparr>validators := kv_del k (validators s)\<rparr>)"
  using set_kv_del [of k "validators s"] by (auto simp: vals_ok_def)

section \<open>The rules\<close>

text \<open>The rules for this invariant, tried before the general ones.\<close>

named_theorems roster_rules

lemma roster_frame: "frame validators m \<Longrightarrow> preserves (vals_ok A) m"
  by (rule preserves_frame [where g = validators]) (auto intro: vals_ok_cong)

lemma roster_writes [roster_rules]:
  "(\<And>s. validators (f s) = validators s) \<Longrightarrow> preserves (vals_ok A) (writes f)"
  by (rule preserves_writes) (auto intro: vals_ok_cong)

lemma GetValidator_output:
  "vals_ok A s \<Longrightarrow> GetValidator a s = Inr v \<Longrightarrow> val_Output v \<in> A"
  by (auto simp: GetValidator_def dest: vals_ok_get split: option.splits)

lemma roster_get [roster_rules]:
  "(\<And>v. val_Output v \<in> A \<Longrightarrow> Q v) \<Longrightarrow> upholds (vals_ok A) (gets (GetValidator a)) Q"
  by (rule upholds_gets) (auto dest: GetValidator_output)

lemma roster_look [roster_rules]:
  "(\<And>r. \<forall>v. r = Inr v \<longrightarrow> val_Output v \<in> A \<Longrightarrow> Q r) \<Longrightarrow>
     upholds (vals_ok A) (reads (GetValidator a)) Q"
  by (rule upholds_reads) (auto dest: GetValidator_output)

lemma roster_ok [roster_rules]: "Q a \<Longrightarrow> upholds (vals_ok A) (ok a) Q"
  by (rule upholds_ok)

lemma roster_SetValidator [roster_rules]:
  "val_Output v \<in> A \<Longrightarrow> preserves (vals_ok A) (SetValidator v)"
  unfolding SetValidator_def by (rule preserves_writes) auto

section \<open>Pausing and unstaking\<close>

lemma roster_paused [roster_rules]:
  "val_Output v \<in> A \<Longrightarrow> preserves (vals_ok A) (SetValidatorPaused a v h)"
  unfolding SetValidatorPaused_def Let_def
  by (assumption | rule roster_rules uphold_rules | (simp; fail))+

lemma roster_unpaused [roster_rules]:
  "val_Output v \<in> A \<Longrightarrow> (\<And>w. val_Output w \<in> A \<Longrightarrow> Q w) \<Longrightarrow>
     upholds (vals_ok A) (SetValidatorUnpaused a v) Q"
  unfolding SetValidatorUnpaused_def Let_def
  by (assumption | rule roster_rules uphold_rules | (simp; fail))+

lemma roster_unstaking [roster_rules]:
  assumes "val_Output v \<in> A"
  shows "preserves (vals_ok A) (SetValidatorUnstaking a v h)"
proof -
  have start: "upholds (vals_ok A) (if val_MaxPausedHeight v \<noteq> 0 then SetValidatorUnpaused a v else ok v)
      (\<lambda>w. val_Output w \<in> A)"
    using assms by (auto intro!: roster_unpaused roster_ok)
  show ?thesis
    unfolding SetValidatorUnstaking_def Let_def
    by (assumption | rule start roster_rules uphold_rules | (simp; fail))+
qed

lemma roster_below_minimum [roster_rules]:
  "val_Output v \<in> A \<Longrightarrow> preserves (vals_ok A) (SetValidatorUnstakingIfBelowMinimum v p)"
  unfolding SetValidatorUnstakingIfBelowMinimum_def Let_def
  by (assumption | rule roster_rules uphold_rules | (simp; fail))+

section \<open>Stake\<close>

lemma roster_UpdateValidatorStake [roster_rules]:
  "val_Output v \<in> A \<Longrightarrow> preserves (vals_ok A) (UpdateValidatorStake v cs n)"
  unfolding UpdateValidatorStake_def Let_def
  by (assumption | rule roster_rules uphold_rules roster_frame | (intro frame_rules; simp; fail)
      | (simp; fail))+

lemma roster_DeleteValidator [roster_rules]: "preserves (vals_ok A) (DeleteValidator v)"
  unfolding DeleteValidator_def
  by (assumption | rule roster_rules uphold_rules roster_frame vals_ok_del | (intro frame_rules; simp; fail))+

lemma roster_addEvent [roster_rules]: "preserves (vals_ok A) (addEvent m a c)"
  unfolding addEvent_def by (assumption | rule roster_rules | simp)+

lemma roster_params [roster_rules]: "preserves (vals_ok A) GetParamsVal"
  by (rule roster_frame) (intro frame_rules, simp)

lemma roster_AccountAdd [roster_rules]: "preserves (vals_ok A) (AccountAdd a n)"
  by (rule roster_frame, intro frame_rules) simp

lemma roster_AccountSub [roster_rules]: "preserves (vals_ok A) (AccountSub a n)"
  by (rule roster_frame, intro frame_rules) simp

lemma roster_DeleteFinishedUnstaking: "preserves (vals_ok A) DeleteFinishedUnstaking"
  unfolding DeleteFinishedUnstaking_def finish_unstaking_def delete_unstaking_key_def Let_def
  by (assumption | rule roster_rules uphold_rules | (simp; fail))+

section \<open>The handlers\<close>

lemma roster_HandleMessageStake:
  "stk_OutputAddress msg \<in> A \<Longrightarrow> preserves (vals_ok A) (HandleMessageStake msg)"
  unfolding HandleMessageStake_def
  by (assumption | rule roster_rules uphold_rules roster_frame | (intro frame_rules; simp; fail) | (simp; fail))+

lemma roster_HandleMessageEditStake:
  "eds_OutputAddress msg \<in> A \<Longrightarrow> preserves (vals_ok A) (HandleMessageEditStake msg)"
  unfolding HandleMessageEditStake_def Let_def
  by (assumption | rule roster_rules uphold_rules | (simp; fail))+

lemma roster_HandleMessageUnstake: "preserves (vals_ok A) (HandleMessageUnstake a)"
  unfolding HandleMessageUnstake_def Let_def
  by (assumption | rule roster_rules uphold_rules | (simp; fail))+

lemma roster_HandleMessagePause: "preserves (vals_ok A) (HandleMessagePause a)"
  unfolding HandleMessagePause_def
  by (assumption | rule roster_rules uphold_rules | (simp; fail))+

lemma roster_HandleMessageUnpause: "preserves (vals_ok A) (HandleMessageUnpause a)"
  unfolding HandleMessageUnpause_def
  by (assumption | rule roster_rules uphold_rules | (simp; fail))+

section \<open>Automatic pause and forced unstaking\<close>

lemma HandleMessagePause_err:
  "HandleMessagePause a s = (t, Inl e) \<Longrightarrow> validators t = validators s"
proof -
  have no: "SetValidatorPaused a v h x \<noteq> (t, Inl e)" for v h x
    by (simp add: SetValidatorPaused_def SetValidator_def op_simps Let_def)
  assume "HandleMessagePause a s = (t, Inl e)"
  then show ?thesis
    by (auto simp: HandleMessagePause_def bindE_Inl_iff gets_apply reads_apply ok_apply fail_apply no
        dest!: GetParamsVal_cache split: if_splits)
qed

lemma roster_pause_attempt [roster_rules]: "preserves (vals_ok A) (attempt (HandleMessagePause a))"
proof (rule upholdsI)
  fix s t r assume s: "vals_ok A s" and "attempt (HandleMessagePause a) s = (t, Inr r)"
  then obtain x where "HandleMessagePause a s = (t, x)" by (cases "HandleMessagePause a s") (auto simp: op_simps)
  with s show "vals_ok A t \<and> True"
    by (cases x) (auto dest: HandleMessagePause_err upholdsD [OF roster_HandleMessagePause] intro: vals_ok_cong)
qed

lemma roster_SetValidatorsPaused: "preserves (vals_ok A) (SetValidatorsPaused c xs)"
  unfolding SetValidatorsPaused_def pause_one_def
  by (assumption | rule roster_rules uphold_rules | (simp; fail))+

lemma roster_ForceUnstakeMaxPaused: "preserves (vals_ok A) ForceUnstakeMaxPaused"
  unfolding ForceUnstakeMaxPaused_def ForceUnstakeValidator_def delete_paused_key_def
  by (assumption | rule roster_rules uphold_rules | (simp; fail))+

section \<open>Slashing\<close>

lemma roster_burn_stake [roster_rules]:
  "val_Output v \<in> A \<Longrightarrow> preserves (vals_ok A) (burn_stake v pct cs p)"
  unfolding burn_stake_def Let_def
  by (assumption | rule roster_rules uphold_rules roster_frame | (intro frame_rules; simp; fail) | (simp; fail))+

lemma roster_SlashValidators: "preserves (vals_ok A) (SlashValidators xs c pct p)"
  unfolding SlashValidators_def slash_one_def SlashValidator_def Let_def
  by (assumption | rule roster_rules uphold_rules | (simp; fail))+

lemma roster_SlashAndResetNonSigners [roster_rules]:
  "preserves (vals_ok A) (SlashAndResetNonSigners c p)"
  unfolding SlashAndResetNonSigners_def SlashNonSigners_def Let_def
  by (assumption | rule roster_SetValidatorsPaused roster_SlashValidators roster_rules uphold_rules
      | (simp; fail))+

lemma frame_index_heights [frame_rules]:
  "(\<And>s x. g (s\<lparr>doubleSigners := x\<rparr>) = g s) \<Longrightarrow> frame g (index_heights a hs)"
  by (induction hs) (simp_all, (intro frame_rules; simp)+)

lemma frame_collect_double_signer [frame_rules]:
  "(\<And>s x. g (s\<lparr>doubleSigners := x\<rparr>) = g s) \<Longrightarrow> frame g (collect_double_signer d l)"
  unfolding collect_double_signer_def by (intro frame_rules)

lemma roster_HandleDoubleSigners [roster_rules]:
  "preserves (vals_ok A) (HandleDoubleSigners c p dss)"
proof -
  have F: "frame validators (fold_op collect_double_signer dss [])"
    by (intro frame_rules) simp
  show ?thesis
    unfolding HandleDoubleSigners_def SlashDoubleSigners_def
    by (rule upholds_bindE [OF roster_frame [OF F] roster_SlashValidators])
qed

lemma roster_HandleByzantine: "preserves (vals_ok A) (HandleByzantine c results sig vs)"
  unfolding HandleByzantine_def IncrementNonSigners_def increment_one_def
  by (assumption | rule roster_rules uphold_rules | (simp add: Let_def; fail))+

section \<open>Rewards\<close>

lemma roster_DistributeCommitteeReward [roster_rules]:
  "preserves (vals_ok A) (DistributeCommitteeReward stub n k p)"
  unfolding DistributeCommitteeReward_def Let_def
  by (assumption | rule roster_rules uphold_rules | (simp; fail))+

lemma roster_DistributeCommitteeRewards: "preserves (vals_ok A) DistributeCommitteeRewards"
proof -
  have F: "frame validators (SubFromTotalSupply n)" "frame validators (SetPool p)"
      "frame validators (SetCommitteesData l)" for n p l
    unfolding SetCommitteesData_def by (intro frame_rules; simp)+
  show ?thesis
    unfolding DistributeCommitteeRewards_def pay_committee_def pay_stub_def
    by (assumption | rule F [THEN roster_frame] roster_rules uphold_rules | (simp; fail))+
qed

end
