(* ===== verification/OrderBook.thy ===== *)
theory OrderBook
  imports Rewards
begin

text \<open>
  The order book of sell orders (fsm/swap.go) with the handlers of its messages (fsm/message.go:
  create, edit and delete order).  The tokens of an order wait in the escrow pool of its chain.
  The second part is the buyer side: which lock, reset and close commands a committee derives from
  the blocks of its chain.
\<close>

section \<open>The store of orders\<close>

definition SetOrder :: "SellOrder \<Rightarrow> u64 \<Rightarrow> unit fsm" where
  "SetOrder order chainId = writes (\<lambda>s. s\<lparr>orders := kv_set (chainId, so_Id order) order (orders s)\<rparr>)"

definition DeleteOrder :: "bytes \<Rightarrow> u64 \<Rightarrow> unit fsm" where
  "DeleteOrder orderId chainId = writes (\<lambda>s. s\<lparr>orders := kv_del (chainId, orderId) (orders s)\<rparr>)"

definition GetOrder :: "bytes \<Rightarrow> u64 \<Rightarrow> StateMachine \<Rightarrow> err + SellOrder" where
  "GetOrder orderId chainId s =
     (case kv_get (orders s) (chainId, orderId) of
        None \<Rightarrow> Inl ErrOrderNotFound
      | Some order \<Rightarrow> Inr order)"

definition GetOrderBook :: "u64 \<Rightarrow> StateMachine \<Rightarrow> SellOrder list" where
  "GetOrderBook chainId s = map snd (filter (\<lambda>e. fst (fst e) = chainId) (orders s))"

text \<open>The keys ascend by chain id, so dropping repeated chain ids leaves them sorted.\<close>

definition GetOrderBooks :: "StateMachine \<Rightarrow> (u64 \<times> SellOrder list) list" where
  "GetOrderBooks s = map (\<lambda>c. (c, GetOrderBook c s)) (remdups_adj (map (\<lambda>e. fst (fst e)) (orders s)))"

definition GetTotalEscrowed :: "address option \<Rightarrow> StateMachine \<Rightarrow> u64" where
  "GetTotalEscrowed a s =
     sum_list (map AmountForSale (filter
       (\<lambda>order. case a of None \<Rightarrow> True | Some a \<Rightarrow> SellersSendAddress order = a)
       (concat (map snd (GetOrderBooks s)))))"

definition EscrowPool :: "u64 \<Rightarrow> u64" where
  "EscrowPool chainId = chainId + EscrowPoolAddend"

text \<open>Genesis import of one order of the book of \<open>chainId\<close>.\<close>

definition import_order :: "u64 \<times> SellOrder \<Rightarrow> Supply \<Rightarrow> Supply fsm" where
  "import_order e sp =
     (case e of (chainId, order) \<Rightarrow>
       if MaxUint64 - AmountForSale order < Total sp then fail ErrInvalidAmount
       else
         bindE (SetOrder order chainId) (\<lambda>_.
         bindE (PoolAdd (EscrowPool chainId) (AmountForSale order)) (\<lambda>_.
           ok (sp\<lparr>Total := Total sp + AmountForSale order\<rparr>))))"

definition SetOrderBooks :: "(u64 \<times> SellOrder list) option list option \<Rightarrow> Supply \<Rightarrow> Supply fsm" where
  "SetOrderBooks l sp =
     (case l of
        None \<Rightarrow> ok sp
      | Some books \<Rightarrow>
          fold_op import_order
            (concat (map (\<lambda>b. case b of None \<Rightarrow> [] | Some (c, os) \<Rightarrow> map (Pair c) os) books)) sp)"

section \<open>Orders of the committee\<close>

definition LockSellOrder :: "LockOrder \<Rightarrow> u64 \<Rightarrow> unit fsm" where
  "LockSellOrder lock chainId =
     bindE (gets (GetOrder (lo_OrderId lock) chainId)) (\<lambda>order.
       if BuyerReceiveAddress order \<noteq> [] then fail ErrOrderLocked
       else
         let order = order\<lparr>BuyerReceiveAddress := lo_BuyerReceiveAddress lock,
           BuyerSendAddress := lo_BuyerSendAddress lock,
           BuyerChainDeadline := lo_BuyerChainDeadline lock\<rparr> in
         bindE (SetOrder order chainId) (\<lambda>_.
           addEvent (EventOrderBookLock order) (BuyerReceiveAddress order) (so_Committee order)))"

definition ResetOrder :: "bytes \<Rightarrow> u64 \<Rightarrow> unit fsm" where
  "ResetOrder orderId chainId =
     bindE (gets (GetOrder orderId chainId)) (\<lambda>order.
     bindE (addEvent (EventOrderBookReset (so_Id order)) (SellersSendAddress order) (so_Committee order)) (\<lambda>_.
       SetOrder (order\<lparr>BuyerReceiveAddress := [], BuyerSendAddress := [], BuyerChainDeadline := 0\<rparr>) chainId))"

definition CloseOrder :: "bytes \<Rightarrow> u64 \<Rightarrow> unit fsm" where
  "CloseOrder orderId chainId =
     bindE (gets (GetOrder orderId chainId)) (\<lambda>order.
       if BuyerReceiveAddress order = [] then fail ErrInvalidLockOrder
       else
         bindE (reads (GetAccount (BuyerReceiveAddress order))) (\<lambda>buyerAccount.
           if MaxUint64 - AmountForSale order < acc_Amount buyerAccount then fail ErrInvalidAmount
           else
             bindE (reads (GetPool (EscrowPool chainId))) (\<lambda>escrowPool.
               if pool_Amount escrowPool < AmountForSale order then fail ErrInsufficientFunds
               else
                 bindE (PoolSub (EscrowPool chainId) (AmountForSale order)) (\<lambda>_.
                 bindE (AccountAdd (BuyerReceiveAddress order) (AmountForSale order)) (\<lambda>_.
                 bindE (addEvent (EventOrderBookSwap order) (BuyerReceiveAddress order) (so_Committee order)) (\<lambda>_.
                   DeleteOrder orderId chainId))))))"

text \<open>Failures are logged and skipped.\<close>

definition lenient :: "unit fsm \<Rightarrow> unit fsm" where
  "lenient m = bindE (attempt m) (\<lambda>_. ok ())"

definition HandleCommitteeSwaps :: "Orders option \<Rightarrow> u64 \<Rightarrow> unit fsm" where
  "HandleCommitteeSwaps ords chainId =
     (case ords of
        None \<Rightarrow> ok ()
      | Some x \<Rightarrow>
          bindE (for_op (\<lambda>l. case l of None \<Rightarrow> ok ()
            | Some lock \<Rightarrow> lenient (LockSellOrder lock chainId)) (LockOrders x)) (\<lambda>_.
          bindE (for_op (\<lambda>i. if i \<in> set (CloseOrders x) then ok () else lenient (ResetOrder i chainId))
            (ResetOrders x)) (\<lambda>_.
            for_op (\<lambda>i. lenient (CloseOrder i chainId)) (CloseOrders x))))"

section \<open>Messages of the seller\<close>

definition HandleMessageCreateOrder :: "MessageCreateOrder \<Rightarrow> unit fsm" where
  "HandleMessageCreateOrder msg =
     bindE GetParamsVal (\<lambda>valParams.
       if co_AmountForSale msg < MinimumOrderSize valParams then fail ErrMinimumOrderSize
       else
         bindE (AccountSub (co_SellersSendAddress msg) (co_AmountForSale msg)) (\<lambda>_.
         bindE (PoolAdd (EscrowPool (co_ChainId msg)) (co_AmountForSale msg)) (\<lambda>_.
           SetOrder \<lparr>so_Id = co_OrderId msg, so_Committee = co_ChainId msg, so_Data = co_Data msg,
             AmountForSale = co_AmountForSale msg, RequestedAmount = co_RequestedAmount msg,
             SellerReceiveAddress = co_SellerReceiveAddress msg, BuyerSendAddress = [],
             BuyerReceiveAddress = [], BuyerChainDeadline = 0,
             SellersSendAddress = co_SellersSendAddress msg\<rparr> (co_ChainId msg))))"

definition HandleMessageEditOrder :: "MessageEditOrder \<Rightarrow> unit fsm" where
  "HandleMessageEditOrder msg =
     bindE (gets (GetOrder (eo_OrderId msg) (eo_ChainId msg))) (\<lambda>order.
       if BuyerReceiveAddress order \<noteq> [] then fail ErrOrderLocked
       else
         bindE GetParamsVal (\<lambda>valParams.
           if eo_AmountForSale msg < MinimumOrderSize valParams then fail ErrMinimumOrderSize
           else
             bindE
               (if AmountForSale order < eo_AmountForSale msg then
                  let amountDifference = eo_AmountForSale msg - AmountForSale order in
                  bindE (AccountSub (SellersSendAddress order) amountDifference) (\<lambda>_.
                    PoolAdd (EscrowPool (eo_ChainId msg)) amountDifference)
                else if eo_AmountForSale msg < AmountForSale order then
                  let amountDifference = AmountForSale order - eo_AmountForSale msg in
                  bindE (PoolSub (EscrowPool (eo_ChainId msg)) amountDifference) (\<lambda>_.
                    AccountAdd (SellersSendAddress order) amountDifference)
                else ok ()) (\<lambda>_.
             SetOrder \<lparr>so_Id = so_Id order, so_Committee = eo_ChainId msg, so_Data = eo_Data msg,
               AmountForSale = eo_AmountForSale msg, RequestedAmount = eo_RequestedAmount msg,
               SellerReceiveAddress = eo_SellerReceiveAddress msg, BuyerSendAddress = [],
               BuyerReceiveAddress = [], BuyerChainDeadline = 0,
               SellersSendAddress = SellersSendAddress order\<rparr> (eo_ChainId msg))))"

definition HandleMessageDeleteOrder :: "MessageDeleteOrder \<Rightarrow> unit fsm" where
  "HandleMessageDeleteOrder msg =
     bindE (gets (GetOrder (do_OrderId msg) (do_ChainId msg))) (\<lambda>order.
       if BuyerReceiveAddress order \<noteq> [] then fail ErrOrderLocked
       else
         bindE (PoolSub (EscrowPool (do_ChainId msg)) (AmountForSale order)) (\<lambda>_.
         bindE (AccountAdd (SellersSendAddress order) (AmountForSale order)) (\<lambda>_.
           DeleteOrder (do_OrderId msg) (do_ChainId msg))))"

section \<open>The buyer side\<close>

text \<open>
  What the parser reads of a block: its transactions with message type, memo, fee and the decoded
  message when it is a send.  Decoding a memo from JSON is a parameter.
\<close>

record MemoTx =
  mt_MessageType :: string
  mt_Memo :: string
  mt_Fee :: u64
  mt_Send :: "MessageSend option"

record CloseOrderMemo =
  com_OrderId :: bytes
  com_ChainId :: u64
  com_CloseOrder :: bool

record memo_codec =
  json_valid :: "string \<Rightarrow> bool"
  json_lock :: "string \<Rightarrow> LockOrder option"
  json_close :: "string \<Rightarrow> CloseOrderMemo option"

definition ParseLockOrder ::
  "memo_codec \<Rightarrow> string \<Rightarrow> address \<Rightarrow> u64 \<Rightarrow> StateMachine \<Rightarrow> LockOrder option" where
  "ParseLockOrder j memo buyerSendAddress deadlineBlocks s =
     (case json_lock j memo of
        None \<Rightarrow> None
      | Some bo \<Rightarrow>
          if MaxUint64 - Height s < deadlineBlocks then None
          else
            let bo = bo\<lparr>lo_BuyerSendAddress := buyerSendAddress\<rparr> in
            if length (lo_BuyerSendAddress bo) \<noteq> 0 \<and> length (lo_BuyerReceiveAddress bo) \<noteq> 0
              \<and> lo_ChainId bo = cfg_ChainId (Cfg s)
            then Some (bo\<lparr>lo_BuyerChainDeadline := Height s + deadlineBlocks\<rparr>)
            else None)"

definition ParseCloseOrder :: "memo_codec \<Rightarrow> string \<Rightarrow> StateMachine \<Rightarrow> CloseOrderMemo option" where
  "ParseCloseOrder j memo s =
     (case json_close j memo of
        None \<Rightarrow> None
      | Some co \<Rightarrow>
          if com_ChainId co = cfg_ChainId (Cfg s) \<and> com_CloseOrder co then Some co else None)"

record commands =
  cmd_locks :: "bytes \<rightharpoonup> LockOrder"
  cmd_closes :: "bytes \<rightharpoonup> CloseOrderMemo"
  cmd_sends :: "bytes \<Rightarrow> MessageSend list"

definition no_commands :: commands where
  "no_commands = \<lparr>cmd_locks = Map.empty, cmd_closes = Map.empty, cmd_sends = (\<lambda>_. [])\<rparr>"

definition MessageSendName :: string where "MessageSendName = ''send''"

definition parse_memo_tx ::
  "memo_codec \<Rightarrow> u64 \<Rightarrow> u64 \<Rightarrow> StateMachine \<Rightarrow> commands \<Rightarrow> MemoTx \<Rightarrow> commands" where
  "parse_memo_tx j minFee deadlineBlocks s acc tx =
     (if mt_MessageType tx \<noteq> MessageSendName \<or> mt_Memo tx = [] \<or> mt_Fee tx < minFee
        \<or> \<not> json_valid j (mt_Memo tx) then acc
      else case mt_Send tx of
        None \<Rightarrow> acc
      | Some send \<Rightarrow>
          (case ParseLockOrder j (mt_Memo tx) (snd_FromAddress send) deadlineBlocks s of
             Some lock \<Rightarrow>
               if cmd_locks acc (lo_OrderId lock) = None
               then acc\<lparr>cmd_locks := (cmd_locks acc)(lo_OrderId lock \<mapsto> lock)\<rparr> else acc
           | None \<Rightarrow>
               (case ParseCloseOrder j (mt_Memo tx) s of
                  None \<Rightarrow> acc
                | Some co \<Rightarrow>
                    let acc = (if cmd_closes acc (com_OrderId co) = None
                      then acc\<lparr>cmd_closes := (cmd_closes acc)(com_OrderId co \<mapsto> co)\<rparr> else acc) in
                    acc\<lparr>cmd_sends := (cmd_sends acc)
                      (com_OrderId co := cmd_sends acc (com_OrderId co) @ [send])\<rparr>)))"

definition ParseBlockForLockAndCloseOrders :: "memo_codec \<Rightarrow> MemoTx list list \<Rightarrow> commands fsm" where
  "ParseBlockForLockAndCloseOrders j blocks =
     bindE (attempt GetParams) (\<lambda>r.
       case r of
         Inl _ \<Rightarrow> ok no_commands
       | Inr params \<Rightarrow>
           reads (\<lambda>s. foldl (parse_memo_tx j (SendFee (Fee params) * LockOrderFeeMultiplier (Params.Validator params))
             (BuyDeadlineBlocks (Params.Validator params)) s) no_commands (concat blocks)))"

definition pays_order :: "SellOrder \<Rightarrow> MessageSend \<Rightarrow> bool" where
  "pays_order order send =
     (snd_Amount send = RequestedAmount order \<and> snd_FromAddress send = BuyerSendAddress order
       \<and> snd_ToAddress send = SellerReceiveAddress order)"

datatype verdict = Keep | Lock LockOrder | Reset bytes | Close bytes

definition judge_order :: "commands \<Rightarrow> u64 \<Rightarrow> SellOrder \<Rightarrow> verdict" where
  "judge_order cmds height order =
     (if length (BuyerReceiveAddress order) = 0 then
        (case cmd_locks cmds (so_Id order) of None \<Rightarrow> Keep | Some lock \<Rightarrow> Lock lock)
      else if BuyerChainDeadline order < height then Reset (so_Id order)
      else case cmd_closes cmds (so_Id order) of
        None \<Rightarrow> Keep
      | Some co \<Rightarrow>
          if list_ex (pays_order order) (cmd_sends cmds (so_Id order)) then Close (com_OrderId co)
          else Keep)"

text \<open>The blocks to scan: the proposal and, from height 16 on, those at \<open>N - 15\<close> to \<open>N - 11\<close>.\<close>

definition scanned_blocks :: "(u64 \<Rightarrow> MemoTx list option) \<Rightarrow> u64 \<Rightarrow> MemoTx list \<Rightarrow> MemoTx list list" where
  "scanned_blocks load height proposal =
     proposal # (if 16 \<le> height then List.map_filter load (map (\<lambda>i. height - 15 + of_nat i) [0..<5]) else [])"

definition ProcessRootChainOrderBook ::
  "memo_codec \<Rightarrow> (u64 \<Rightarrow> MemoTx list option) \<Rightarrow> SellOrder list option \<Rightarrow> u64 \<Rightarrow> MemoTx list \<Rightarrow>
     (LockOrder list \<times> bytes list \<times> bytes list) fsm" where
  "ProcessRootChainOrderBook j load book blockHeight proposal =
     (case book of
        None \<Rightarrow> ok ([], [], [])
      | Some os \<Rightarrow>
          bindE (ParseBlockForLockAndCloseOrders j (scanned_blocks load blockHeight proposal)) (\<lambda>cmds.
          bindE (reads Height) (\<lambda>h.
            let vs = map (judge_order cmds h) os in
            ok (List.map_filter (\<lambda>v. case v of Lock l \<Rightarrow> Some l | _ \<Rightarrow> None) vs,
                List.map_filter (\<lambda>v. case v of Close i \<Rightarrow> Some i | _ \<Rightarrow> None) vs,
                List.map_filter (\<lambda>v. case v of Reset i \<Rightarrow> Some i | _ \<Rightarrow> None) vs))))"


section \<open>Transfers keep the books\<close>

lemma total_supply_less: "total_supply s < 18446744073709551616"
  by (simp add: total_supply_def unat_u64_less)

lemma AccountSub_pools:
  assumes "AccountSub a n s = (t, r)"
  shows "pools t = pools s" "orders t = orders s"
  by (rule frameD [where m = "AccountSub a n", OF _ assms], intro frame_rules, simp)+

lemma AccountAdd_pools:
  assumes "AccountAdd a n s = (t, r)"
  shows "pools t = pools s" "orders t = orders s"
  by (rule frameD [where m = "AccountAdd a n", OF _ assms], intro frame_rules, simp)+

lemma PoolAdd_keeps:
  assumes "PoolAdd i n s = (t, r)"
  shows "validators t = validators s" "supplyTracker t = supplyTracker s" "orders t = orders s"
  by (rule frameD [where m = "PoolAdd i n", OF _ assms], intro frame_rules, simp)+

lemma PoolSub_keeps:
  assumes "PoolSub i n s = (t, r)"
  shows "validators t = validators s" "supplyTracker t = supplyTracker s" "orders t = orders s"
  by (rule frameD [where m = "PoolSub i n", OF _ assms], intro frame_rules, simp)+

lemma pool_balance_cong: "pools t = pools s \<Longrightarrow> pool_balance j t = pool_balance j s"
  by (simp add: pool_balance_def GetPool_def)

lemma acct_pool_books:
  assumes ok: "books_on E A s" and a: "a \<in> A"
    and t: "bindE (AccountSub a n) (\<lambda>_. PoolAdd i n) s = (t, Inr ())"
  shows "books_on E A t" and "total_supply t = total_supply s" and "orders t = orders s"
    and "pool_balance j t = pool_balance j s + (if j = i then unat n else 0)"
proof -
  obtain u where u: "AccountSub a n s = (u, Inr ())" "PoolAdd i n u = (t, Inr ())"
    using t by (auto elim: bindE_okE)
  note k = AccountSub_keeps [OF u(1)] PoolAdd_keeps [OF u(2)] AccountSub_pools [OF u(1)]
  have s_ok: "funds_ok A s" "ledger_on E s" "held s = total_supply s"
    using ok by (simp_all add: books_on_def)
  have cap: "held s < 18446744073709551616" using total_supply_less s_ok(3) by simp
  have st: "supplyTracker t = supplyTracker s" "validators t = validators s" using k by simp_all
  note tr = acct_pool.transfer_conserves [OF s_ok(1) a _ cap t]
  show tot: "total_supply t = total_supply s" by (rule total_supply_cong [OF st(1)])
  show "books_on E A t"
    using tr ledger_on_cong [OF st(2,1)] s_ok tot by (simp add: books_on_def)
  show "orders t = orders s" using k by simp
  note sub = AccountSub_funds [OF s_ok(1) a u(1)]
  have "pool_balance i u + unat n < 18446744073709551616"
    by (rule pool_room [OF sub(1)]) (use sub(2) cap in simp)
  with PoolAdd_step(4) [OF _ this u(2), of j] sub(1) k pool_balance_cong [of u s j]
  show "pool_balance j t = pool_balance j s + (if j = i then unat n else 0)"
    by (simp add: funds_ok_def)
qed

lemma pool_acct_books:
  assumes ok: "books_on E A s" and a: "a \<in> A"
    and t: "bindE (PoolSub i n) (\<lambda>_. AccountAdd a n) s = (t, Inr ())"
  shows "books_on E A t" and "total_supply t = total_supply s" and "orders t = orders s"
    and "pool_balance j t + (if j = i then unat n else 0) = pool_balance j s"
proof -
  obtain u where u: "PoolSub i n s = (u, Inr ())" "AccountAdd a n u = (t, Inr ())"
    using t by (auto elim: bindE_okE)
  note k = PoolSub_keeps [OF u(1)] AccountAdd_keeps [OF u(2)] AccountAdd_pools [OF u(2)]
  have s_ok: "funds_ok A s" "ledger_on E s" "held s = total_supply s"
    using ok by (simp_all add: books_on_def)
  have cap: "held s < 18446744073709551616" using total_supply_less s_ok(3) by simp
  have st: "supplyTracker t = supplyTracker s" "validators t = validators s" using k by simp_all
  note tr = pool_acct.transfer_conserves [OF s_ok(1) _ a cap t]
  show tot: "total_supply t = total_supply s" by (rule total_supply_cong [OF st(1)])
  show "books_on E A t"
    using tr ledger_on_cong [OF st(2,1)] s_ok tot by (simp add: books_on_def)
  show "orders t = orders s" using k by simp
  have "kv_wf (pools s)" using s_ok(1) by (simp add: funds_ok_def)
  from PoolSub_step(3) [OF this u(1), of j] k pool_balance_cong [of t u j]
  show "pool_balance j t + (if j = i then unat n else 0) = pool_balance j s" by simp
qed

text \<open>A pool that holds enough can always pay an account.\<close>

lemma balance_le: "accounts_ok A s \<Longrightarrow> balance a s \<le> account_total s"
  using kv.total_ge [OF accounts_ok_wf, of A s a _ "\<lambda>acc. unat (acc_Amount acc)"]
  by (auto simp: balance_def stored_account_def account_total_def new_Account_def split: option.split)

lemma pool_pays:
  assumes ok: "books_on E A s" and a: "a \<in> A" and enough: "unat n \<le> pool_balance i s"
  shows "\<exists>t. bindE (PoolSub i n) (\<lambda>_. AccountAdd a n) s = (t, Inr ())"
    and "\<exists>u. PoolSub i n s = (u, Inr ())"
    and "balance a s + unat n < 18446744073709551616"
proof -
  have s_ok: "funds_ok A s" "accounts_ok A s" "kv_wf (pools s)" "held s = total_supply s"
    using ok by (simp_all add: books_on_def funds_ok_def)
  have "balance a s + pool_balance i s \<le> held s"
    using balance_le [OF s_ok(2)] pool_balance_le [OF s_ok(3)] by (simp add: held_def add_mono trans_le_add1)
  then show room: "balance a s + unat n < 18446744073709551616"
    using enough s_ok(4) total_supply_less [of s] by linarith
  show ex: "\<exists>u. PoolSub i n s = (u, Inr ())"
    using enough by (auto simp: PoolSub_def SetPool_def op_simps pool_balance_def word_le_nat_alt not_less)
  then obtain u where u: "PoolSub i n s = (u, Inr ())" by blast
  have keep: "accounts u = accounts s" "Cfg u = Cfg s" "cache_accounts u = cache_accounts s" "Height u = Height s"
    by (rule frameD [where m = "PoolSub i n", OF _ u], intro frame_rules, simp)+
  have "accounts_ok A u" using s_ok(2) accounts_ok_cong [OF keep(1-3)] by simp
  moreover have "balance a u = balance a s" by (simp add: balance_def stored_account_def keep(1))
  ultimately have "AccountAdd a n u \<noteq> (t, Inl e)" for t e
    using AccountAdd_err(3) [OF _ a, of u n t e] room by auto
  then have "\<exists>t. AccountAdd a n u = (t, Inr ())"
    by (metis old.unit.exhaust prod.exhaust sum.exhaust)
  then show "\<exists>t. bindE (PoolSub i n) (\<lambda>_. AccountAdd a n) s = (t, Inr ())"
    using u by (simp add: bindE_of_ok)
qed

section \<open>The escrow invariant\<close>

definition escrow_of :: "u64 \<Rightarrow> SellOrder \<Rightarrow> nat" where
  "escrow_of c o' = (if so_Committee o' = c then unat (AmountForSale o') else 0)"

definition escrowed :: "u64 \<Rightarrow> StateMachine \<Rightarrow> nat" where
  "escrowed c s = kv_sum (escrow_of c) (orders s)"

text \<open>Every order is filed under its own committee and id, and its tokens are in the escrow pool.\<close>

definition orders_ok :: "StateMachine \<Rightarrow> bool" where
  "orders_ok s \<longleftrightarrow> kv_wf (orders s) \<and>
     (\<forall>k o'. kv_get (orders s) k = Some o' \<longrightarrow> k = (so_Committee o', so_Id o')) \<and>
     (\<forall>c. escrowed c s \<le> pool_balance (EscrowPool c) s)"

lemma EscrowPool_eq [simp]: "EscrowPool c = EscrowPool d \<longleftrightarrow> c = d"
  by (simp add: EscrowPool_def)

text \<open>Filing an order that replaces \<open>old\<close> after the pool received the difference.\<close>

lemma SetOrder_step:
  assumes ok: "kv_wf (orders s)" "\<forall>k o'. kv_get (orders s) k = Some o' \<longrightarrow> k = (so_Committee o', so_Id o')"
    and c: "so_Committee x = c"
    and bal: "\<And>d. escrowed d s + (if d = c then unat (AmountForSale x) else 0) \<le>
      pool_balance (EscrowPool d) s + (case kv_get (orders s) (c, so_Id x) of None \<Rightarrow> 0
        | Some old \<Rightarrow> if d = c then unat (AmountForSale old) else 0)"
    and t: "SetOrder x c s = (t, r)"
  shows "orders_ok t"
proof -
  have ot: "orders t = kv_set (c, so_Id x) x (orders s)" "pools t = pools s"
    using t by (auto simp: SetOrder_def op_simps)
  have "escrowed d t \<le> pool_balance (EscrowPool d) t" for d
  proof -
    have up: "escrowed d t + (case kv_get (orders s) (c, so_Id x) of None \<Rightarrow> 0 | Some u \<Rightarrow> escrow_of d u)
        = escrowed d s + escrow_of d x"
      unfolding escrowed_def ot(1) by (rule kv.total_upd [OF ok(1)])
    have "escrow_of d x = (if d = c then unat (AmountForSale x) else 0)"
      using c by (auto simp: escrow_of_def)
    moreover have "(case kv_get (orders s) (c, so_Id x) of None \<Rightarrow> 0 | Some u \<Rightarrow> escrow_of d u)
        = (case kv_get (orders s) (c, so_Id x) of None \<Rightarrow> 0
            | Some old \<Rightarrow> if d = c then unat (AmountForSale old) else 0)"
      using ok(2) by (auto simp: escrow_of_def split: option.split)
    ultimately show ?thesis
      using up bal [of d] pool_balance_cong [OF ot(2), of "EscrowPool d"] by linarith
  qed
  with ok c show ?thesis
    by (auto simp: orders_ok_def ot(1) kv_wf_set kv_get_set)
qed

lemma DeleteOrder_step:
  assumes ok: "kv_wf (orders s)" "\<forall>k o'. kv_get (orders s) k = Some o' \<longrightarrow> k = (so_Committee o', so_Id o')"
    and old: "kv_get (orders s) (c, i) = Some old"
    and bal: "\<And>d. escrowed d s \<le> pool_balance (EscrowPool d) s + (if d = c then unat (AmountForSale old) else 0)"
    and t: "DeleteOrder i c s = (t, r)"
  shows "orders_ok t"
proof -
  have ot: "orders t = kv_del (c, i) (orders s)" "pools t = pools s"
    using t by (auto simp: DeleteOrder_def op_simps)
  have oc: "so_Committee old = c" using ok(2) old by auto
  have "escrowed d t \<le> pool_balance (EscrowPool d) t" for d
  proof -
    have "escrowed d t + escrow_of d old = escrowed d s"
      unfolding escrowed_def ot(1) by (rule kv.total_del_old [OF ok(1) old])
    then show ?thesis
      using bal [of d] pool_balance_cong [OF ot(2), of "EscrowPool d"] oc
      by (auto simp: escrow_of_def split: if_splits)
  qed
  with ok show ?thesis
    by (auto simp: orders_ok_def ot(1) kv_wf_del kv_get_del)
qed

lemma orders_money:
  assumes "SetOrder x c s = (t, r) \<or> DeleteOrder i c s = (t, r)"
  shows "money t = money s"
  using assms by (auto simp: SetOrder_def DeleteOrder_def op_simps money_def others_def)

lemma books_of_money: "money t = money s \<Longrightarrow> books_on E A t = books_on E A s"
  by (rule money_books(1))


section \<open>Sellers\<close>

definition parties_in :: "address set \<Rightarrow> SellOrder \<Rightarrow> bool" where
  "parties_in A x \<longleftrightarrow> SellersSendAddress x \<in> A \<and>
     (BuyerReceiveAddress x \<noteq> [] \<longrightarrow> BuyerReceiveAddress x \<in> A)"

definition market_ok :: "entry set \<Rightarrow> address set \<Rightarrow> StateMachine \<Rightarrow> bool" where
  "market_ok E A s \<longleftrightarrow> books_on E A s \<and> orders_ok s \<and>
     (\<forall>k x. kv_get (orders s) k = Some x \<longrightarrow> parties_in A x)"

lemma market_okD:
  assumes "market_ok E A s"
  shows "books_on E A s" "orders_ok s" "kv_wf (orders s)"
    "\<And>k x. kv_get (orders s) k = Some x \<Longrightarrow> k = (so_Committee x, so_Id x)"
    "\<And>k x. kv_get (orders s) k = Some x \<Longrightarrow> parties_in A x"
    "\<And>c. escrowed c s \<le> pool_balance (EscrowPool c) s"
  using assms by (auto simp: market_ok_def orders_ok_def)

lemma GetOrder_Inr: "GetOrder i c s = Inr x \<longleftrightarrow> kv_get (orders s) (c, i) = Some x"
  by (simp add: GetOrder_def split: option.split)

text \<open>An order's tokens are in its escrow pool.\<close>

lemma order_backed:
  assumes "market_ok E A s" and "kv_get (orders s) (c, i) = Some x"
  shows "unat (AmountForSale x) \<le> pool_balance (EscrowPool c) s"
proof -
  have "so_Committee x = c" using market_okD(4) [OF assms] by simp
  then have "unat (AmountForSale x) = escrow_of c x" by (simp add: escrow_of_def)
  also have "\<dots> \<le> escrowed c s"
    unfolding escrowed_def by (rule kv.total_ge [OF market_okD(3) [OF assms(1)] assms(2)])
  also have "\<dots> \<le> pool_balance (EscrowPool c) s" by (rule market_okD(6) [OF assms(1)])
  finally show ?thesis .
qed

lemma market_SetOrder:
  assumes ok: "market_ok E A s" and u: "books_on E A u" "orders u = orders s"
    and c: "so_Committee x = c" and x: "parties_in A x"
    and bal: "\<And>d. pool_balance (EscrowPool d) s + (if d = c then unat (AmountForSale x) else 0) \<le>
      pool_balance (EscrowPool d) u + (case kv_get (orders s) (c, so_Id x) of None \<Rightarrow> 0
        | Some old \<Rightarrow> if d = c then unat (AmountForSale old) else 0)"
    and t: "SetOrder x c u = (t, r)"
  shows "market_ok E A t" and "total_supply t = total_supply u"
proof -
  note D = market_okD [OF ok]
  have m: "money t = money u" using orders_money [of x c u t r] t by blast
  have "orders_ok t"
  proof (rule SetOrder_step [OF _ _ c _ t])
    show "kv_wf (orders u)" "\<forall>k o'. kv_get (orders u) k = Some o' \<longrightarrow> k = (so_Committee o', so_Id o')"
      using D(3,4) u(2) by auto
    fix d
    have "escrowed d u = escrowed d s" by (simp add: escrowed_def u(2))
    with bal [of d] D(6) [of d] show "escrowed d u + (if d = c then unat (AmountForSale x) else 0) \<le>
      pool_balance (EscrowPool d) u + (case kv_get (orders u) (c, so_Id x) of None \<Rightarrow> 0
        | Some old \<Rightarrow> if d = c then unat (AmountForSale old) else 0)"
      unfolding u(2) by linarith
  qed
  moreover have "orders t = kv_set (c, so_Id x) x (orders s)"
    using t u(2) by (auto simp: SetOrder_def op_simps)
  ultimately show "market_ok E A t"
    using books_of_money [OF m] u(1) D(5) x by (auto simp: market_ok_def kv_get_set)
  show "total_supply t = total_supply u" by (rule money_books(3) [OF m])
qed

lemma market_DeleteOrder:
  assumes ok: "market_ok E A s" and u: "books_on E A u" "orders u = orders s"
    and old: "kv_get (orders s) (c, i) = Some x"
    and bal: "\<And>d. pool_balance (EscrowPool d) s \<le> pool_balance (EscrowPool d) u
      + (if d = c then unat (AmountForSale x) else 0)"
    and t: "DeleteOrder i c u = (t, r)"
  shows "market_ok E A t" and "total_supply t = total_supply u"
proof -
  note D = market_okD [OF ok]
  have m: "money t = money u" using orders_money [of _ c u t r i] t by blast
  have "orders_ok t"
  proof (rule DeleteOrder_step [OF _ _ _ _ t])
    show "kv_wf (orders u)" "\<forall>k o'. kv_get (orders u) k = Some o' \<longrightarrow> k = (so_Committee o', so_Id o')"
      "kv_get (orders u) (c, i) = Some x"
      using D(3,4) u(2) old by auto
    fix d
    have "escrowed d u = escrowed d s" by (simp add: escrowed_def u(2))
    with bal [of d] D(6) [of d] show "escrowed d u \<le> pool_balance (EscrowPool d) u
      + (if d = c then unat (AmountForSale x) else 0)" by linarith
  qed
  moreover have "orders t = kv_del (c, i) (orders s)"
    using t u(2) by (auto simp: DeleteOrder_def op_simps)
  ultimately show "market_ok E A t"
    using books_of_money [OF m] u(1) D(3,5) by (auto simp: market_ok_def kv_get_del split: if_splits)
  show "total_supply t = total_supply u" by (rule money_books(3) [OF m])
qed

lemma market_cache [simp]: "market_ok E A (s\<lparr>cache_valParams := c\<rparr>) = market_ok E A s"
  "pool_balance j (s\<lparr>cache_valParams := c\<rparr>) = pool_balance j s"
  by (auto simp: market_ok_def orders_ok_def escrowed_def pool_balance_def GetPool_def)

lemma HandleMessageCreateOrder_market:
  assumes ok: "market_ok E A s" and a: "co_SellersSendAddress msg \<in> A"
    and t: "HandleMessageCreateOrder msg s = (t, Inr ())"
  shows "market_ok E A t" and "total_supply t = total_supply s"
proof -
  let ?n = "co_AmountForSale msg" and ?c = "co_ChainId msg"
  obtain p q u w x where p: "GetParamsVal s = (q, Inr p)"
    and tr: "bindE (AccountSub (co_SellersSendAddress msg) ?n) (\<lambda>_. PoolAdd (EscrowPool ?c) ?n) q = (u, Inr ())"
    and set: "SetOrder x ?c u = (t, w)" and x: "so_Committee x = ?c" "parties_in A x" "AmountForSale x = ?n"
    using t a unfolding HandleMessageCreateOrder_def
    by (auto simp: bindE_assoc [symmetric] parties_in_def elim!: bindE_okE split: if_splits)
      (auto simp: bindE_Inr_iff parties_in_def)
  obtain c where c: "q = s\<lparr>cache_valParams := c\<rparr>" using GetParamsVal_cache [OF p] by blast
  have q: "market_ok E A q" "total_supply q = total_supply s"
    using ok by (simp_all add: c total_supply_def)
  note B = acct_pool_books [OF market_okD(1) [OF q(1)] a tr]
  note S = market_SetOrder [OF q(1) B(1,3) x(1,2) _ set]
  show "market_ok E A t" "total_supply t = total_supply s"
    using S(1,2) B(2,4) q(2) by (auto simp: x(3) split: option.split)
qed


lemma edit_transfer:
  assumes b: "books_on E A q" and a: "SellersSendAddress x \<in> A"
    and t: "(if AmountForSale x < n then
        let d = n - AmountForSale x in bindE (AccountSub (SellersSendAddress x) d) (\<lambda>_. PoolAdd (EscrowPool c) d)
      else if n < AmountForSale x then
        let d = AmountForSale x - n in bindE (PoolSub (EscrowPool c) d) (\<lambda>_. AccountAdd (SellersSendAddress x) d)
      else ok ()) q = (u, Inr ())"
  shows "books_on E A u" and "orders u = orders q" and "total_supply u = total_supply q"
    and "pool_balance (EscrowPool d) u + (if d = c then unat (AmountForSale x) else 0) =
      pool_balance (EscrowPool d) q + (if d = c then unat n else 0)"
proof -
  consider "AmountForSale x < n" | "n < AmountForSale x" | "n = AmountForSale x"
    using less_linear by blast
  then have "books_on E A u \<and> orders u = orders q \<and> total_supply u = total_supply q \<and>
    pool_balance (EscrowPool d) u + (if d = c then unat (AmountForSale x) else 0) =
      pool_balance (EscrowPool d) q + (if d = c then unat n else 0)"
  proof cases
    case 1
    then have tr: "bindE (AccountSub (SellersSendAddress x) (n - AmountForSale x))
        (\<lambda>_. PoolAdd (EscrowPool c) (n - AmountForSale x)) q = (u, Inr ())"
      using t by (simp add: Let_def)
    have "unat (n - AmountForSale x) = unat n - unat (AmountForSale x)" "unat (AmountForSale x) < unat n"
      using 1 by (simp_all add: unat_sub less_imp_le word_less_nat_alt)
    with acct_pool_books [OF b a tr] show ?thesis by auto
  next
    case 2
    then have tr: "bindE (PoolSub (EscrowPool c) (AmountForSale x - n))
        (\<lambda>_. AccountAdd (SellersSendAddress x) (AmountForSale x - n)) q = (u, Inr ())"
      using t less_not_sym [OF 2] by (simp add: Let_def)
    have "unat (AmountForSale x - n) = unat (AmountForSale x) - unat n" "unat n < unat (AmountForSale x)"
      using 2 by (simp_all add: unat_sub less_imp_le word_less_nat_alt)
    with pool_acct_books(1-3) [OF b a tr] pool_acct_books(4) [OF b a tr, of "EscrowPool d"]
    show ?thesis by auto
  next
    case 3
    with t b show ?thesis by simp
  qed
  then show "books_on E A u" "orders u = orders q" "total_supply u = total_supply q"
    "pool_balance (EscrowPool d) u + (if d = c then unat (AmountForSale x) else 0) =
      pool_balance (EscrowPool d) q + (if d = c then unat n else 0)" by auto
qed

lemma HandleMessageEditOrder_market:
  assumes ok: "market_ok E A s" and t: "HandleMessageEditOrder msg s = (t, Inr ())"
  shows "market_ok E A t" and "total_supply t = total_supply s"
proof -
  let ?n = "eo_AmountForSale msg" and ?c = "eo_ChainId msg" and ?i = "eo_OrderId msg"
  obtain x where x: "kv_get (orders s) (?c, ?i) = Some x" "BuyerReceiveAddress x = []"
    using t by (auto simp: HandleMessageEditOrder_def bindE_gets GetOrder_def split: option.splits if_splits)
  obtain p q where p: "GetParamsVal s = (q, Inr p)"
    using t x unfolding HandleMessageEditOrder_def
    by (auto simp: bindE_gets GetOrder_def elim: bindE_okE)
  obtain c where c: "q = s\<lparr>cache_valParams := c\<rparr>" using GetParamsVal_cache [OF p] by blast
  have q: "market_ok E A q" "total_supply q = total_supply s" "kv_get (orders q) (?c, ?i) = Some x"
    using ok x by (simp_all add: c total_supply_def)
  obtain u w y where tr: "(if AmountForSale x < ?n then
        let d = ?n - AmountForSale x in bindE (AccountSub (SellersSendAddress x) d) (\<lambda>_. PoolAdd (EscrowPool ?c) d)
      else if ?n < AmountForSale x then
        let d = AmountForSale x - ?n in bindE (PoolSub (EscrowPool ?c) d) (\<lambda>_. AccountAdd (SellersSendAddress x) d)
      else ok ()) q = (u, Inr ())"
    and set: "SetOrder y ?c u = (t, w)" and y: "so_Committee y = ?c" "so_Id y = so_Id x"
      "AmountForSale y = ?n" "SellersSendAddress y = SellersSendAddress x" "BuyerReceiveAddress y = []"
    using t x p unfolding HandleMessageEditOrder_def
    by (auto simp: bindE_gets GetOrder_def bindE_of_ok elim!: bindE_okE split: if_split_asm)
  have "so_Id x = ?i" using market_okD(4) [OF q(1,3)] by simp
  then have old: "kv_get (orders q) (?c, so_Id y) = Some x" using q(3) y(2) by simp
  have sx: "SellersSendAddress x \<in> A" using market_okD(5) [OF q(1,3)] by (simp add: parties_in_def)
  then have py: "parties_in A y" using y(4,5) by (simp add: parties_in_def)
  note E = edit_transfer [OF market_okD(1) [OF q(1)] sx tr]
  note S = market_SetOrder [OF q(1) E(1,2) y(1) py _ set]
  have bal: "pool_balance (EscrowPool d) q + (if d = ?c then unat (AmountForSale y) else 0) \<le>
      pool_balance (EscrowPool d) u + (case kv_get (orders q) (?c, so_Id y) of None \<Rightarrow> 0
        | Some old \<Rightarrow> if d = ?c then unat (AmountForSale old) else 0)" for d
    using E(4) [of d] by (simp add: old y(3))
  show "market_ok E A t" "total_supply t = total_supply s"
    using S(1,2) [OF bal] E(3) q(2) by simp_all
qed

lemma HandleMessageDeleteOrder_market:
  assumes ok: "market_ok E A s" and x: "GetOrder (do_OrderId msg) (do_ChainId msg) s = Inr x"
    and unlocked: "BuyerReceiveAddress x = []"
  shows "\<exists>t. HandleMessageDeleteOrder msg s = (t, Inr ()) \<and> market_ok E A t \<and>
    total_supply t = total_supply s \<and>
    balance (SellersSendAddress x) t = balance (SellersSendAddress x) s + unat (AmountForSale x) \<and>
    GetOrder (do_OrderId msg) (do_ChainId msg) t = Inl ErrOrderNotFound"
proof -
  let ?c = "do_ChainId msg" and ?i = "do_OrderId msg" and ?n = "AmountForSale x"
    and ?a = "SellersSendAddress x"
  note old = x [unfolded GetOrder_Inr]
  have a: "?a \<in> A" using market_okD(5) [OF ok old] by (simp add: parties_in_def)
  note b = market_okD(1) [OF ok]
  note pays = pool_pays [OF b a order_backed [OF ok old]]
  obtain u where u: "bindE (PoolSub (EscrowPool ?c) ?n) (\<lambda>_. AccountAdd ?a ?n) s = (u, Inr ())"
    using pays(1) by blast
  note B = pool_acct_books [OF b a u]
  obtain t r where t: "DeleteOrder ?i ?c u = (t, r)" by fastforce
  have td: "t = u\<lparr>orders := kv_del (?c, ?i) (orders u)\<rparr>" "r = Inr ()"
    using t by (simp_all add: DeleteOrder_def op_simps)
  note D = market_DeleteOrder [OF ok B(1,3) old _ t]
  have bal: "pool_balance (EscrowPool d) s \<le> pool_balance (EscrowPool d) u + (if d = ?c then unat ?n else 0)" for d
    using B(4) [of "EscrowPool d"] by simp
  have run: "HandleMessageDeleteOrder msg s = (t, Inr ())"
    using x unlocked u t td(2) by (simp add: HandleMessageDeleteOrder_def bindE_gets bindE_assoc [symmetric] bindE_of_ok)
  obtain v where v: "PoolSub (EscrowPool ?c) ?n s = (v, Inr ())" "AccountAdd ?a ?n v = (u, Inr ())"
    using u by (auto elim: bindE_okE)
  have keep: "accounts v = accounts s" "Cfg v = Cfg s" "cache_accounts v = cache_accounts s"
    by (rule frameD [where m = "PoolSub (EscrowPool ?c) ?n", OF _ v(1)], intro frame_rules, simp)+
  have "accounts_ok A v"
    using b accounts_ok_cong [OF keep] by (simp add: books_on_def funds_ok_def)
  from AccountAdd_ok(3) [OF this a v(2), of ?a] have "balance ?a u = balance ?a s + unat ?n"
    by (simp add: balance_def stored_account_def keep(1))
  then have "balance ?a t = balance ?a s + unat ?n"
    by (simp add: td(1) balance_def stored_account_def)
  moreover have "GetOrder ?i ?c t = Inl ErrOrderNotFound"
    using market_okD(3) [OF ok] by (simp add: td(1) GetOrder_def kv_get_del B(3))
  ultimately show ?thesis
    using run D(1,2) [OF bal] B(2) by simp
qed

section \<open>The committee\<close>

lemma addEvent_market: "addEvent m a c s = (t, r) \<Longrightarrow> market_ok E A t = market_ok E A s \<and> money t = money s
    \<and> orders t = orders s \<and> r = Inr ()"
  by (auto simp: addEvent_def op_simps market_ok_def orders_ok_def escrowed_def pool_balance_def GetPool_def)

lemma LockSellOrder_market:
  assumes ok: "market_ok E A s" and a: "lo_BuyerReceiveAddress lock \<in> A"
    and t: "LockSellOrder lock c s = (t, r)"
  shows "market_ok E A t" and "total_supply t = total_supply s"
proof -
  have "market_ok E A t \<and> total_supply t = total_supply s"
  proof (cases "r")
    case (Inl e)
    then have "t = s"
      using t by (auto simp: LockSellOrder_def bindE_gets SetOrder_def addEvent_def op_simps Let_def
          split: sum.splits if_splits)
    with ok show ?thesis by simp
  next
    case (Inr y)
    obtain x where x: "kv_get (orders s) (c, lo_OrderId lock) = Some x"
      using t Inr by (auto simp: LockSellOrder_def bindE_gets GetOrder_def split: option.splits if_splits)
    let ?x = "x\<lparr>BuyerReceiveAddress := lo_BuyerReceiveAddress lock,
      BuyerSendAddress := lo_BuyerSendAddress lock, BuyerChainDeadline := lo_BuyerChainDeadline lock\<rparr>"
    obtain u w where u: "SetOrder ?x c s = (u, w)"
      and e: "addEvent (EventOrderBookLock ?x) (BuyerReceiveAddress ?x) (so_Committee ?x) u = (t, r)"
      using t Inr x by (auto simp: LockSellOrder_def bindE_gets GetOrder_def Let_def elim!: bindE_okE
          split: if_splits)
    have k: "so_Committee x = c" "so_Id x = lo_OrderId lock" using market_okD(4) [OF ok x] by auto
    have "parties_in A ?x" using market_okD(5) [OF ok x] a by (simp add: parties_in_def)
    from market_SetOrder [OF ok market_okD(1) [OF ok] refl _ this _ u] k x
    have "market_ok E A u" "total_supply u = total_supply s" by auto
    with addEvent_market [OF e] money_books(3) [of t u] show ?thesis by simp
  qed
  then show "market_ok E A t" "total_supply t = total_supply s" by auto
qed

lemma ResetOrder_market:
  assumes ok: "market_ok E A s" and t: "ResetOrder i c s = (t, r)"
  shows "market_ok E A t" and "total_supply t = total_supply s"
proof -
  have "market_ok E A t \<and> total_supply t = total_supply s"
  proof (cases "GetOrder i c s")
    case (Inl e)
    with t ok show ?thesis by (simp add: ResetOrder_def bindE_gets)
  next
    case (Inr x)
    note x = Inr [unfolded GetOrder_Inr]
    let ?x = "x\<lparr>BuyerReceiveAddress := [], BuyerSendAddress := [], BuyerChainDeadline := 0\<rparr>"
    obtain u w where e: "addEvent (EventOrderBookReset (so_Id x)) (SellersSendAddress x) (so_Committee x) s = (u, Inr w)"
      and set: "SetOrder ?x c u = (t, r)"
      using t Inr by (cases "addEvent (EventOrderBookReset (so_Id x)) (SellersSendAddress x) (so_Committee x) s")
        (auto simp: ResetOrder_def bindE_gets addEvent_def op_simps)
    note E = addEvent_market [OF e]
    have u: "market_ok E A u" "kv_get (orders u) (c, i) = Some x" "total_supply u = total_supply s"
      using ok x E money_books(3) [of u s] by auto
    have k: "so_Committee x = c" "so_Id x = i" using market_okD(4) [OF ok x] by auto
    have "parties_in A ?x" using market_okD(5) [OF ok x] by (simp add: parties_in_def)
    from market_SetOrder [OF u(1) market_okD(1) [OF u(1)] refl _ this _ set] k u
    show ?thesis by auto
  qed
  then show "market_ok E A t" "total_supply t = total_supply s" by auto
qed

text \<open>Closing a locked order always pays the buyer: neither the escrow nor the credit can fail.\<close>

lemma CloseOrder_pays:
  assumes ok: "market_ok E A s" and x: "GetOrder i c s = Inr x" and locked: "BuyerReceiveAddress x \<noteq> []"
  shows "\<exists>t. CloseOrder i c s = (t, Inr ()) \<and> market_ok E A t \<and> total_supply t = total_supply s \<and>
    balance (BuyerReceiveAddress x) t = balance (BuyerReceiveAddress x) s + unat (AmountForSale x) \<and>
    GetOrder i c t = Inl ErrOrderNotFound"
proof -
  let ?n = "AmountForSale x" and ?a = "BuyerReceiveAddress x"
  note old = x [unfolded GetOrder_Inr]
  have a: "?a \<in> A" using market_okD(5) [OF ok old] locked by (simp add: parties_in_def)
  note b = market_okD(1) [OF ok] and backed = order_backed [OF ok old]
  have acc: "accounts_ok A s" using b by (simp add: books_on_def funds_ok_def)
  note pays = pool_pays [OF b a backed]
  have g1: "\<not> MaxUint64 - ?n < acc_Amount (GetAccount ?a s)"
    using pays(3) GetAccount_stored [OF acc a] by (simp add: u64_simps balance_def)
  have g2: "\<not> pool_Amount (GetPool (EscrowPool c) s) < ?n"
    using backed by (simp add: pool_balance_def word_le_nat_alt not_less)
  obtain u where u: "bindE (PoolSub (EscrowPool c) ?n) (\<lambda>_. AccountAdd ?a ?n) s = (u, Inr ())"
    using pays(1) by blast
  note B = pool_acct_books [OF b a u]
  obtain v w where e: "addEvent (EventOrderBookSwap x) ?a (so_Committee x) u = (v, w)" by fastforce
  note E = addEvent_market [OF e]
  obtain t r where t: "DeleteOrder i c v = (t, r)" by fastforce
  have td: "t = v\<lparr>orders := kv_del (c, i) (orders v)\<rparr>" "r = Inr ()"
    using t by (simp_all add: DeleteOrder_def op_simps)
  have ve: "v = u\<lparr>events := events v\<rparr>" using e by (auto simp: addEvent_def op_simps)
  have vb: "books_on E A v" using E B(1) books_of_money by blast
  have vo: "orders v = orders s" using E B(3) by simp
  have pv: "pool_balance j v = pool_balance j u" for j
    by (subst ve) (simp add: pool_balance_def GetPool_def)
  note D = market_DeleteOrder [OF ok vb vo old _ t]
  have bal: "pool_balance (EscrowPool d) s \<le> pool_balance (EscrowPool d) v + (if d = c then unat ?n else 0)" for d
    using B(4) [of "EscrowPool d"] by (simp add: pv)
  have run: "CloseOrder i c s = (t, Inr ())"
    using x locked g1 g2 u t td(2) e E
    by (simp add: CloseOrder_def bindE_gets bindE_reads bindE_assoc [symmetric] bindE_of_ok)
  obtain q where q: "PoolSub (EscrowPool c) ?n s = (q, Inr ())" "AccountAdd ?a ?n q = (u, Inr ())"
    using u by (auto elim: bindE_okE)
  have keep: "accounts q = accounts s" "Cfg q = Cfg s" "cache_accounts q = cache_accounts s"
    by (rule frameD [where m = "PoolSub (EscrowPool c) ?n", OF _ q(1)], intro frame_rules, simp)+
  have "accounts_ok A q" using acc accounts_ok_cong [OF keep] by simp
  from AccountAdd_ok(3) [OF this a q(2), of ?a] have "balance ?a u = balance ?a s + unat ?n"
    by (simp add: balance_def stored_account_def keep(1))
  then have "balance ?a t = balance ?a s + unat ?n"
    unfolding td(1) by (subst ve) (simp add: balance_def stored_account_def)
  moreover have "GetOrder i c t = Inl ErrOrderNotFound"
    using market_okD(3) [OF ok] by (simp add: td(1) GetOrder_def kv_get_del vo)
  moreover have "total_supply v = total_supply u" using E money_books(3) by blast
  ultimately show ?thesis
    using run D(1,2) [OF bal] B(2) by simp
qed

lemma CloseOrder_market:
  assumes ok: "market_ok E A s" and t: "CloseOrder i c s = (t, r)"
  shows "market_ok E A t" and "total_supply t = total_supply s"
proof -
  have "market_ok E A t \<and> total_supply t = total_supply s"
  proof (cases "GetOrder i c s")
    case (Inl e)
    with t ok show ?thesis by (simp add: CloseOrder_def bindE_gets)
  next
    case (Inr x)
    show ?thesis
    proof (cases "BuyerReceiveAddress x = []")
      case True
      with t ok Inr show ?thesis by (simp add: CloseOrder_def bindE_gets fail_apply)
    next
      case False
      with CloseOrder_pays [OF ok Inr] t show ?thesis by auto
    qed
  qed
  then show "market_ok E A t" "total_supply t = total_supply s" by auto
qed

lemma lenient_apply: "lenient m s = (fst (m s), Inr ())"
  by (simp add: lenient_def bindE_attempt ok_apply)

lemma for_op_total:
  assumes "\<And>x s. \<exists>v. f x s = (v, Inr ())"
  shows "\<exists>v. for_op f xs s = (v, Inr ())"
proof (induction xs arbitrary: s)
  case Nil
  then show ?case by (simp add: ok_apply)
next
  case (Cons x xs)
  obtain u where "f x s = (u, Inr ())" using assms by blast
  with Cons.IH [of u] show ?case by (simp add: bindE_of_ok)
qed

text \<open>Whatever the committee orders, the market stays in order and no token is made or lost.\<close>

lemma HandleCommitteeSwaps_market:
  assumes ok: "market_ok E A s" and t: "HandleCommitteeSwaps (Some x) c s = (t, r)"
    and a: "\<And>lock. Some lock \<in> set (LockOrders x) \<Longrightarrow> lo_BuyerReceiveAddress lock \<in> A"
  shows "r = Inr ()" and "market_ok E A t" and "total_supply t = total_supply s"
proof -
  let ?I = "\<lambda>u. market_ok E A u \<and> total_supply u = total_supply s"
  let ?f = "\<lambda>l. case l of None \<Rightarrow> ok () | Some lock \<Rightarrow> lenient (LockSellOrder lock c)"
  let ?g = "\<lambda>i. if i \<in> set (CloseOrders x) then ok () else lenient (ResetOrder i c)"
  let ?h = "\<lambda>i. lenient (CloseOrder i c)"
  obtain u where u: "for_op ?f (LockOrders x) s = (u, Inr ())"
    using for_op_total [of ?f] by (force simp: lenient_apply ok_apply split: option.split)
  obtain v where v: "for_op ?g (ResetOrders x) u = (v, Inr ())"
    using for_op_total [of ?g] by (force simp: lenient_apply ok_apply)
  obtain w where w: "for_op ?h (CloseOrders x) v = (w, Inr ())"
    using for_op_total [of ?h] by (force simp: lenient_apply)
  have tw: "t = w" "r = Inr ()"
    using t u v w by (simp_all add: HandleCommitteeSwaps_def bindE_of_ok)
  have "?I u"
  proof (rule for_op_inv [OF u])
    show "?I s" using ok by simp
    fix l y z
    assume l: "l \<in> set (LockOrders x)" and y: "?I y" and z: "?f l y = (z, Inr ())"
    show "?I z"
    proof (cases l)
      case None
      with y z show ?thesis by simp
    next
      case (Some lock)
      have "LockSellOrder lock c y = (z, snd (LockSellOrder lock c y))"
        using z Some by (auto simp: lenient_apply prod_eq_iff)
      from LockSellOrder_market [OF _ a this] y l Some show ?thesis by auto
    qed
  qed
  then have "?I v"
  proof (rule for_op_inv [OF v])
    fix i y z
    assume y: "?I y" and z: "?g i y = (z, Inr ())"
    show "?I z"
    proof (cases "i \<in> set (CloseOrders x)")
      case False
      then have "ResetOrder i c y = (z, snd (ResetOrder i c y))"
        using z by (auto simp: lenient_apply prod_eq_iff)
      from ResetOrder_market [OF _ this] y show ?thesis by auto
    qed (use y z in simp)
  qed
  then have "?I w"
  proof (rule for_op_inv [OF w])
    fix i y z
    assume y: "?I y" and z: "?h i y = (z, Inr ())"
    then have "CloseOrder i c y = (z, snd (CloseOrder i c y))"
      by (auto simp: lenient_apply prod_eq_iff)
    from CloseOrder_market [OF _ this] y show "?I z" by auto
  qed
  then show "r = Inr ()" "market_ok E A t" "total_supply t = total_supply s" using tw by auto
qed


section \<open>What a close command proves\<close>

text \<open>Every recorded send comes from a transaction that was scanned and paid the minimum fee.\<close>

definition commands_from :: "MemoTx set \<Rightarrow> u64 \<Rightarrow> commands \<Rightarrow> bool" where
  "commands_from T minFee c \<longleftrightarrow>
     (\<forall>k co. cmd_closes c k = Some co \<longrightarrow> com_OrderId co = k) \<and>
     (\<forall>k send. send \<in> set (cmd_sends c k) \<longrightarrow>
        (\<exists>tx \<in> T. mt_Send tx = Some send \<and> minFee \<le> mt_Fee tx))"

lemma parse_memo_tx_from:
  assumes "commands_from T minFee c" and "tx \<in> T"
  shows "commands_from T minFee (parse_memo_tx j minFee d s c tx)"
  using assms unfolding parse_memo_tx_def Let_def
  by (auto simp: commands_from_def not_less split: option.split)

lemma parse_all_from:
  assumes "commands_from T minFee c" and "set txs \<subseteq> T"
  shows "commands_from T minFee (foldl (parse_memo_tx j minFee d s) c txs)"
  using assms by (induction txs arbitrary: c) (simp_all add: parse_memo_tx_from)

lemma frame_GetParams: "frame (\<lambda>s. s\<lparr>cache_valParams := None, cache_feeParams := None\<rparr>) GetParams"
  unfolding GetParams_def by (intro frame_rules) simp_all

lemma Parse_from:
  assumes "ParseBlockForLockAndCloseOrders j blocks s = (t, Inr c)"
  obtains minFee where "commands_from (set (concat blocks)) minFee c" and "Height t = Height s"
    and "\<And>ps u. GetParams s = (u, Inr ps) \<Longrightarrow>
      minFee = SendFee (Fee ps) * LockOrderFeeMultiplier (Params.Validator ps)"
proof -
  obtain u r where u: "GetParams s = (u, r)" by fastforce
  have "u\<lparr>cache_valParams := None, cache_feeParams := None\<rparr>
      = s\<lparr>cache_valParams := None, cache_feeParams := None\<rparr>"
    using frameD [where m = GetParams, OF frame_GetParams u] .
  from arg_cong [OF this, of Height] have h: "Height u = Height s" by simp
  have none: "commands_from (set (concat blocks)) m no_commands" for m
    by (simp add: commands_from_def no_commands_def)
  show thesis
  proof (cases r)
    case (Inl e)
    with assms u have "t = u" "c = no_commands"
      by (simp_all add: ParseBlockForLockAndCloseOrders_def bindE_attempt)
    with that [of 0] none u Inl h show thesis by simp
  next
    case (Inr ps)
    let ?m = "SendFee (Fee ps) * LockOrderFeeMultiplier (Params.Validator ps)"
    have c: "t = u" "c = foldl (parse_memo_tx j ?m (BuyDeadlineBlocks (Params.Validator ps)) u)
        no_commands (concat blocks)"
      using assms u Inr by (auto simp: ParseBlockForLockAndCloseOrders_def bindE_attempt reads_apply)
    have "commands_from (set (concat blocks)) ?m c"
      unfolding c(2) by (rule parse_all_from [OF none]) simp
    from that [of ?m, OF this] u Inr c(1) h show thesis by simp
  qed
qed

text \<open>An order is reported closed only when it is locked, not expired, and a scanned send paid it.\<close>

lemma closed_orders_paid:
  assumes t: "ProcessRootChainOrderBook j load (Some os) bh proposal s = (t, Inr (locks, closes, resets))"
    and i: "i \<in> set closes"
  shows "\<exists>order \<in> set os. so_Id order = i \<and> BuyerReceiveAddress order \<noteq> [] \<and>
    Height s \<le> BuyerChainDeadline order \<and>
    (\<exists>tx \<in> set (concat (scanned_blocks load bh proposal)). \<exists>send. mt_Send tx = Some send \<and> pays_order order send)"
proof -
  obtain u cmds where u: "ParseBlockForLockAndCloseOrders j (scanned_blocks load bh proposal) s = (u, Inr cmds)"
    and out: "closes = List.map_filter (\<lambda>v. case v of Close i \<Rightarrow> Some i | _ \<Rightarrow> None)
      (map (judge_order cmds (Height u)) os)"
    using t unfolding ProcessRootChainOrderBook_def
    by (auto simp: bindE_reads Let_def reads_apply elim!: bindE_okE)
  obtain m where from_txs: "commands_from (set (concat (scanned_blocks load bh proposal))) m cmds"
    and h: "Height u = Height s"
    by (rule Parse_from [OF u]) simp
  obtain order where order: "order \<in> set os" "judge_order cmds (Height s) order = Close i"
    using i by (auto simp: out h List.map_filter_def split: verdict.splits)
  then obtain co send where co: "cmd_closes cmds (so_Id order) = Some co" "com_OrderId co = i"
    "BuyerReceiveAddress order \<noteq> []" "Height s \<le> BuyerChainDeadline order"
    "send \<in> set (cmd_sends cmds (so_Id order))" "pays_order order send"
    by (auto simp: judge_order_def list_ex_iff not_less split: if_splits option.splits)
  with from_txs order(1) show ?thesis unfolding commands_from_def by fastforce
qed

end
