(* ===== verification/Liquidity.thy ===== *)
theory Liquidity
  imports OrderBook
begin

text \<open>
  The automated market maker of fsm/dex.go and the liquidity points of fsm/account.go: the points of
  a pool, the price formula, and the three kinds of operation of a batch (limit orders, liquidity
  withdrawals, liquidity deposits).  The Go code passes the sizes of the two pools as pointers
  \<open>x\<close> and \<open>y\<close>; here an operation returns the new sizes.  The elements of a batch are never nil:
  \<open>DexBatch.CheckBasic\<close> refuses a nil entry and the state machine writes none.
\<close>

section \<open>Liquidity points\<close>

fun point_index :: "PoolPoints list \<Rightarrow> address \<Rightarrow> nat" where
  "point_index [] a = 0"
| "point_index (lp # ps) a = (if pp_Address lp = a then 0 else Suc (point_index ps a))"

definition GetPointsFor :: "address \<Rightarrow> Pool \<Rightarrow> err + u64" where
  "GetPointsFor a x =
     (let i = point_index (pool_Points x) a in
      if i < length (pool_Points x) then Inr (pp_Points (pool_Points x ! i))
      else Inl ErrPointHolderNotFound)"

definition AddPoints :: "address \<Rightarrow> u64 \<Rightarrow> Pool \<Rightarrow> err + Pool" where
  "AddPoints a n x =
     (let i = point_index (pool_Points x) a in
      if n = 0 then Inr x
      else if i < length (pool_Points x) then
        let lp = pool_Points x ! i in
        if MaxUint64 - n < TotalPoolPoints x then Inl ErrInvalidAmount
        else if MaxUint64 - n < pp_Points lp then Inl ErrInvalidAmount
        else Inr (x\<lparr>TotalPoolPoints := TotalPoolPoints x + n,
          pool_Points := (pool_Points x)[i := lp\<lparr>pp_Points := pp_Points lp + n\<rparr>]\<rparr>)
      else if MaxUint64 - n < TotalPoolPoints x then Inl ErrInvalidAmount
      else if MaxLiquidityProviders \<le> length (pool_Points x) then Inl ErrInvalidLiquidityPool
      else Inr (x\<lparr>TotalPoolPoints := TotalPoolPoints x + n,
        pool_Points := pool_Points x @ [\<lparr>pp_Address = a, pp_Points = n\<rparr>]\<rparr>))"

text \<open>An entry that reaches zero leaves the list; a pool may not be left without points.\<close>

definition RemovePoints :: "address \<Rightarrow> u64 \<Rightarrow> Pool \<Rightarrow> err + Pool" where
  "RemovePoints a n x =
     (let i = point_index (pool_Points x) a in
      if i < length (pool_Points x) then
        let lp = pool_Points x ! i;
            left = pp_Points lp - n;
            ps = (if left = 0 then take i (pool_Points x) @ drop (Suc i) (pool_Points x)
                  else (pool_Points x)[i := lp\<lparr>pp_Points := left\<rparr>]) in
        if TotalPoolPoints x - n = 0 then Inl ErrZeroLiquidityPool
        else Inr (x\<lparr>TotalPoolPoints := TotalPoolPoints x - n, pool_Points := ps\<rparr>)
      else Inl ErrPointHolderNotFound)"

section \<open>The price formula\<close>

text \<open>Uniswap V2 with a fee of one percent, on integers without a bound.\<close>

definition SafeComputeDY :: "u64 \<Rightarrow> u64 \<Rightarrow> u64 \<Rightarrow> u64" where
  "SafeComputeDY x y dX =
     (let amountInWithFee = unat dX * 990 in
      of_nat ((amountInWithFee * unat y) div (unat x * 1000 + amountInWithFee)))"

record DexPrice =
  LocalChainId :: u64
  RemoteChainId :: u64
  LocalPool :: u64
  RemotePool :: u64
  E6ScaledPrice :: u64

definition getPrice :: "u64 \<Rightarrow> DexBatch \<Rightarrow> err + DexPrice" where
  "getPrice self batch =
     (if db_PoolSize batch = 0 \<or> db_CounterPoolSize batch = 0 then Inl ErrInvalidLiquidityPool
      else let price = unat (db_PoolSize batch) * 1000000 div unat (db_CounterPoolSize batch) in
        if 18446744073709551616 \<le> price then Inl ErrInvalidLiquidityPool
        else Inr \<lparr>LocalChainId = self, RemoteChainId = db_Committee batch,
          LocalPool = db_PoolSize batch, RemotePool = db_CounterPoolSize batch,
          E6ScaledPrice = of_nat price\<rparr>)"

section \<open>Limit orders\<close>

definition BigEndian :: "u64 \<Rightarrow> bytes" where
  "BigEndian x = map (\<lambda>i. ucast (drop_bit (8 * (7 - i)) x)) [0..<8]"

record DexLimitOrderWithKey =
  ko_Order :: DexLimitOrder
  ko_Key :: bytes

text \<open>The copy leaves the order id out.\<close>

definition DexLimitOrder_Copy :: "DexLimitOrder \<Rightarrow> DexLimitOrder" where
  "DexLimitOrder_Copy x = x\<lparr>dlo_OrderId := []\<rparr>"

text \<open>The source sorts by the hexadecimal text of the hash, which orders like its bytes.\<close>

definition HashKey :: "Config \<Rightarrow> nat \<Rightarrow> bytes \<Rightarrow> DexLimitOrder \<Rightarrow> bytes" where
  "HashKey cfg index blockHash x =
     HashOf cfg (blockHash @ BigEndian (of_nat index) @ OrderBytes cfg x)"

definition CopyOrders :: "Config \<Rightarrow> bytes \<Rightarrow> DexLimitOrder list \<Rightarrow> DexLimitOrderWithKey list" where
  "CopyOrders cfg blockHash os =
     map (\<lambda>(i, order). \<lparr>ko_Order = DexLimitOrder_Copy order,
         ko_Key = HashKey cfg i blockHash (DexLimitOrder_Copy order)\<rparr>) (List.enumerate 0 os)"

definition execute_order :: "u64 \<Rightarrow> DexLimitOrderWithKey \<Rightarrow> u64 \<times> u64 \<times> (bytes \<rightharpoonup> u64) \<Rightarrow>
    (u64 \<times> u64 \<times> (bytes \<rightharpoonup> u64)) fsm" where
  "execute_order chainId order = (\<lambda>(x, y, result).
     let dX = dlo_AmountForSale (ko_Order order);
         offered = SafeComputeDY x y dX;
         dY = (if offered < dlo_RequestedAmount (ko_Order order) then 0 else offered);
         (xAfter, overflow) = (if dY \<noteq> 0 then AddUint64 x dX else (0, False)) in
     if overflow then fail ErrInvalidLiquidityPool
     else bindE (addEvent (EventDexSwap dX dY False (dY \<noteq> 0) (dlo_OrderId (ko_Order order)))
         (dlo_Address (ko_Order order)) chainId) (\<lambda>_.
       ok (if dY \<noteq> 0 then (xAfter, y - dY, result(ko_Key order \<mapsto> dY))
           else (x, y, result(ko_Key order \<mapsto> dY)))))"

definition pay_order :: "u64 \<Rightarrow> (bytes \<rightharpoonup> u64) \<Rightarrow> DexLimitOrderWithKey \<Rightarrow> u64 list \<Rightarrow> u64 list fsm" where
  "pay_order chainId result order receipts =
     (let out = (case result (ko_Key order) of None \<Rightarrow> 0 | Some n \<Rightarrow> n) in
      if out = 0 then ok (receipts @ [0])
      else bindE (PoolSub (chainId + LiquidityPoolAddend) out) (\<lambda>_.
        bindE (AccountAdd (dlo_Address (ko_Order order)) out) (\<lambda>_.
          ok (receipts @ [out]))))"

text \<open>The hash of the previous block comes from the indexer; \<open>LoadBlock\<close> never asks below height 1.\<close>

definition LoadBlockHash :: "(u64 \<Rightarrow> bytes option) \<Rightarrow> u64 \<Rightarrow> bytes option" where
  "LoadBlockHash hashAt height = hashAt (if height \<le> 1 then 1 else height)"

definition HandleDexBatchOrders ::
  "(u64 \<Rightarrow> bytes option) \<Rightarrow> DexLimitOrder list \<Rightarrow> u64 \<Rightarrow> u64 \<Rightarrow> u64 \<Rightarrow> (u64 list \<times> u64 \<times> u64) fsm" where
  "HandleDexBatchOrders hashAt os x y chainId =
     bindE (reads (\<lambda>s. (Cfg s, LoadBlockHash hashAt (Height s - 1)))) (\<lambda>(cfg, prevBlk).
       case prevBlk of
         None \<Rightarrow> fail ErrNilBlock
       | Some hash \<Rightarrow>
           let keyed = CopyOrders cfg hash os in
           if x = 0 \<or> y = 0 then fail ErrInvalidLiquidityPool
           else
             bindE (fold_op (execute_order chainId) (sort_key ko_Key keyed) (x, y, Map.empty))
               (\<lambda>(x', y', result).
             bindE (fold_op (pay_order chainId result) keyed []) (\<lambda>receipts.
               ok (receipts, x', y'))))"

section \<open>Withdrawals\<close>

text \<open>A holder that is not found is logged and skipped.\<close>

fun points_to_remove :: "Pool \<Rightarrow> DexLiquidityWithdraw list \<Rightarrow> u64 \<Rightarrow> err + u64" where
  "points_to_remove p [] n = Inr n"
| "points_to_remove p (w # ws) n =
     (case GetPointsFor (dlw_Address w) p of
        Inl _ \<Rightarrow> points_to_remove p ws n
      | Inr initialPoints \<Rightarrow>
          let (n', overflow) = AddUint64 n (SafeMulDiv initialPoints (dlw_Percent w) 100) in
          if overflow then Inl ErrInvalidLiquidityPool else points_to_remove p ws n')"

definition pay_withdrawal :: "u64 \<Rightarrow> bool \<Rightarrow> u64 \<Rightarrow> u64 \<Rightarrow> u64 \<Rightarrow> DexLiquidityWithdraw \<Rightarrow>
    Pool \<times> u64 \<times> u64 \<Rightarrow> (Pool \<times> u64 \<times> u64) fsm" where
  "pay_withdrawal counterChainId isLocal totalX totalY totalPoints w = (\<lambda>(p, paidX, paidY).
     case GetPointsFor (dlw_Address w) p of
       Inl _ \<Rightarrow> ok (p, paidX, paidY)
     | Inr initialPoints \<Rightarrow>
         let points = SafeMulDiv initialPoints (dlw_Percent w) 100;
             yShare = SafeMulDiv totalY points totalPoints;
             xShare = SafeMulDiv totalX points totalPoints in
         case RemovePoints (dlw_Address w) points p of
           Inl e \<Rightarrow> fail e
         | Inr p' \<Rightarrow>
             let (payout, counter) = (if isLocal then (xShare, yShare) else (yShare, xShare)) in
             bindE (AccountAdd (dlw_Address w) payout) (\<lambda>_.
             bindE (addEvent (EventDexLiquidityWithdrawal payout counter (dlw_OrderId w) points)
                 (dlw_Address w) counterChainId) (\<lambda>_.
               ok (p', paidX + xShare, paidY + yShare))))"

definition HandleBatchWithdraw ::
  "DexLiquidityWithdraw list \<Rightarrow> u64 \<Rightarrow> u64 \<Rightarrow> u64 \<Rightarrow> bool \<Rightarrow> (u64 \<times> u64) fsm" where
  "HandleBatchWithdraw withdrawals counterChainId x y isLocal =
     (if length withdrawals = 0 then ok (x, y)
      else bindE (reads (GetPool (counterChainId + LiquidityPoolAddend))) (\<lambda>p.
        case points_to_remove p withdrawals 0 of
          Inl e \<Rightarrow> fail e
        | Inr totalPoints \<Rightarrow>
            if totalPoints = 0 \<or> TotalPoolPoints p = 0 then ok (x, y)
            else
              let totalY = SafeMulDiv y totalPoints (TotalPoolPoints p);
                  totalX = SafeMulDiv x totalPoints (TotalPoolPoints p) in
              bindE (fold_op (pay_withdrawal counterChainId isLocal totalX totalY totalPoints)
                  withdrawals (p, 0, 0)) (\<lambda>(p', paidX, paidY).
              bindE (SetPool (p'\<lparr>pool_Amount := (if isLocal then x - paidX else y - paidY)\<rparr>)) (\<lambda>_.
                ok (x - paidX, y - paidY)))))"

section \<open>Deposits\<close>

definition deadAddr :: address where
  "deadAddr = concat (replicate 10 [0xde, 0xad])"

fun total_deposit :: "DexLiquidityDeposit list \<Rightarrow> u64 \<Rightarrow> err + u64" where
  "total_deposit [] n = Inr n"
| "total_deposit (d # ds) n =
     (let (n', overflow) = AddUint64 n (dld_Amount d) in
      if overflow then Inl ErrInvalidLiquidityPool else total_deposit ds n')"

definition deposit_one :: "u64 \<Rightarrow> bool \<Rightarrow> u64 \<Rightarrow> u64 \<Rightarrow> DexLiquidityDeposit \<Rightarrow>
    Pool \<times> u64 \<times> u64 \<Rightarrow> (Pool \<times> u64 \<times> u64) fsm" where
  "deposit_one chainId isLocal totalDL totalDeposit d = (\<lambda>(p, x, distributed).
     let share = SafeMulDiv totalDL (dld_Amount d) totalDeposit in
     if 0 < share \<and> GetPointsFor (dld_Address d) p = Inl ErrPointHolderNotFound
        \<and> MaxLiquidityProviders \<le> length (pool_Points p) then fail ErrInvalidLiquidityPool
     else case AddPoints (dld_Address d) share p of
       Inl e \<Rightarrow> fail e
     | Inr p' \<Rightarrow>
         bindE (if isLocal then
             bindE (PoolSub (chainId + HoldingPoolAddend) (dld_Amount d)) (\<lambda>_.
               let (n, overflow) = AddUint64 (pool_Amount p') (dld_Amount d) in
               if overflow then fail ErrInvalidLiquidityPool else ok (p'\<lparr>pool_Amount := n\<rparr>))
           else ok p') (\<lambda>p''.
         let (x', overflow) = AddUint64 x (dld_Amount d) in
         if overflow then fail ErrInvalidLiquidityPool
         else bindE (addEvent (EventDexLiquidityDeposit (dld_Amount d) isLocal (dld_OrderId d) share)
             (dld_Address d) chainId) (\<lambda>_. ok (p'', x', distributed + share))))"

text \<open>The first deposit gives the points of the existing liquidity to the dead address.\<close>

definition initial_points :: "u64 \<Rightarrow> u64 \<Rightarrow> Pool \<Rightarrow> err + Pool \<times> u64" where
  "initial_points x y p =
     (if TotalPoolPoints p = 0 then
        let L = SqrtProductUint64 x y in
        (case AddPoints deadAddr L p of Inl e \<Rightarrow> Inl e | Inr p' \<Rightarrow> Inr (p', L))
      else Inr (p, TotalPoolPoints p))"

definition HandleBatchDeposit ::
  "DexLiquidityDeposit list \<Rightarrow> u64 \<Rightarrow> u64 \<Rightarrow> u64 \<Rightarrow> bool \<Rightarrow> (u64 \<times> u64) fsm" where
  "HandleBatchDeposit deposits chainId x y isLocal =
     (if length deposits = 0 then ok (x, y)
      else bindE (reads (GetPool (chainId + LiquidityPoolAddend))) (\<lambda>p0.
        case total_deposit deposits 0 of
          Inl e \<Rightarrow> fail e
        | Inr totalDeposit \<Rightarrow>
            if totalDeposit = 0 \<or> x = 0 \<or> y = 0 then ok (x, y)
            else case initial_points x y p0 of
              Inl e \<Rightarrow> fail e
            | Inr (p, L) \<Rightarrow>
                let oldK = SqrtProductUint64 x y;
                    (xAfter, overflow) = AddUint64 x totalDeposit;
                    newK = SqrtProductUint64 xAfter y in
                if oldK = 0 then fail ErrInvalidLiquidityPool
                else if overflow then fail ErrInvalidLiquidityPool
                else if newK < oldK then fail ErrInvalidLiquidityPool
                else
                  let totalDL = SafeMulDiv L (newK - oldK) oldK in
                  bindE (fold_op (deposit_one chainId isLocal totalDL totalDeposit) deposits (p, x, 0))
                    (\<lambda>(p', x', distributed).
                  case AddPoints deadAddr (totalDL - distributed) p' of
                    Inl e \<Rightarrow> fail e
                  | Inr p'' \<Rightarrow> bindE (SetPool p'') (\<lambda>_. ok (x', y)))))"


section \<open>The price never empties the pool\<close>

lemma unat_SafeComputeDY:
  "unat (SafeComputeDY x y dX) = unat dX * 990 * unat y div (unat x * 1000 + unat dX * 990)"
  "SafeComputeDY x y dX \<le> y"
proof -
  let ?q = "unat dX * 990 * unat y div (unat x * 1000 + unat dX * 990)"
  have "?q \<le> unat y"
    using share_le [of "unat dX * 990" "unat x * 1000 + unat dX * 990" "unat y"] by (simp add: mult.commute)
  then show "unat (SafeComputeDY x y dX) = ?q" "SafeComputeDY x y dX \<le> y"
    using unat_u64_less [of y] by (simp_all add: SafeComputeDY_def Let_def unat_of_nat_u64 word_le_nat_alt)
qed

text \<open>The product of the reserves does not fall: that is what protects the liquidity providers.\<close>

lemma SafeComputeDY_product:
  assumes "0 < x" and "0 < y"
  shows "unat x * unat y \<le> (unat x + unat dX) * (unat y - unat (SafeComputeDY x y dX))"
    and "SafeComputeDY x y dX < y"
proof -
  define a b d n where "a = unat x" and "b = unat y" and "d = unat (SafeComputeDY x y dX)" and "n = unat dX"
  have pos: "0 < a" "0 < b" using assms by (simp_all add: a_def b_def word_gt_0 unat_gt_0)
  have d: "d = n * 990 * b div (a * 1000 + n * 990)"
    by (simp add: d_def a_def b_def n_def unat_SafeComputeDY)
  then have up: "d * (a * 1000 + n * 990) \<le> n * 990 * b"
    by (simp add: div_times_less_eq_dividend)
  have less: "d < b"
  proof (rule ccontr)
    assume "\<not> d < b"
    then have "b * (a * 1000 + n * 990) \<le> n * 990 * b"
      using up mult_le_mono1 [of b d "a * 1000 + n * 990"] by linarith
    with pos show False by (simp add: algebra_simps)
  qed
  then show "SafeComputeDY x y dX < y" by (simp add: word_less_nat_alt d_def b_def)
  have "d * n \<le> b * n" using less by simp
  with up have "d * (a + n) \<le> n * b" by (simp add: algebra_simps)
  moreover have "(a + n) * (b - d) + d * (a + n) = (a + n) * b"
    using less by (metis add_mult_distrib2 le_add_diff_inverse2 less_imp_le mult.commute)
  ultimately have "a * b \<le> (a + n) * (b - d)" by (simp add: algebra_simps)
  then show "unat x * unat y \<le> (unat x + unat dX) * (unat y - unat (SafeComputeDY x y dX))"
    by (simp add: a_def b_def d_def n_def)
qed

section \<open>The points add up\<close>

definition points_total :: "PoolPoints list \<Rightarrow> nat" where
  "points_total ps = (\<Sum>lp \<leftarrow> ps. unat (pp_Points lp))"

definition points_ok :: "Pool \<Rightarrow> bool" where
  "points_ok p \<longleftrightarrow> points_total (pool_Points p) = unat (TotalPoolPoints p)"

lemma points_total_simps [simp]:
  "points_total [] = 0" "points_total (lp # ps) = unat (pp_Points lp) + points_total ps"
  "points_total (ps @ qs) = points_total ps + points_total qs"
  by (simp_all add: points_total_def)

lemma points_total_update:
  "i < length ps \<Longrightarrow> points_total (ps[i := lp]) + unat (pp_Points (ps ! i)) = points_total ps + unat (pp_Points lp)"
  by (induction ps arbitrary: i) (auto split: nat.split simp: nth_Cons')

lemma points_total_remove:
  "i < length ps \<Longrightarrow>
     points_total (take i ps @ drop (Suc i) ps) + unat (pp_Points (ps ! i)) = points_total ps"
proof (induction ps arbitrary: i)
  case (Cons lp ps)
  show ?case
  proof (cases i)
    case (Suc j)
    with Cons.prems Cons.IH [of j] show ?thesis by simp
  qed simp
qed simp

lemma points_total_ge: "i < length ps \<Longrightarrow> unat (pp_Points (ps ! i)) \<le> points_total ps"
  using points_total_remove [of i ps] by linarith

lemma GetPointsFor_le:
  "points_ok p \<Longrightarrow> GetPointsFor a p = Inr n \<Longrightarrow> unat n \<le> unat (TotalPoolPoints p)"
  using points_total_ge [of "point_index (pool_Points p) a" "pool_Points p"]
  by (auto simp: GetPointsFor_def points_ok_def Let_def split: if_splits)

lemma AddPoints_ok:
  assumes ok: "points_ok p" and q: "AddPoints a n p = Inr q"
  shows "points_ok q" and "unat (TotalPoolPoints q) = unat (TotalPoolPoints p) + unat n"
    and "pool_Id q = pool_Id p" and "pool_Amount q = pool_Amount p"
proof -
  let ?i = "point_index (pool_Points p) a"
  have "points_ok q \<and> unat (TotalPoolPoints q) = unat (TotalPoolPoints p) + unat n \<and>
    pool_Id q = pool_Id p \<and> pool_Amount q = pool_Amount p"
  proof (cases "n \<noteq> 0 \<and> ?i < length (pool_Points p)")
    case True
    let ?lp = "pool_Points p ! ?i"
    have room: "unat (TotalPoolPoints p) + unat n < 18446744073709551616"
        "unat (pp_Points ?lp) + unat n < 18446744073709551616"
      using q True by (auto simp: AddPoints_def Let_def u64_simps split: if_splits)
    from True q points_total_update [of ?i "pool_Points p" "?lp\<lparr>pp_Points := pp_Points ?lp + n\<rparr>"] ok
    show ?thesis
      by (auto simp: AddPoints_def Let_def points_ok_def unat_add_u64 [OF room(1)] unat_add_u64 [OF room(2)]
          split: if_splits)
  next
    case False
    then show ?thesis
      using q ok by (auto simp: AddPoints_def Let_def points_ok_def u64_simps unat_add_u64 split: if_splits)
  qed
  then show "points_ok q" "unat (TotalPoolPoints q) = unat (TotalPoolPoints p) + unat n"
    "pool_Id q = pool_Id p" "pool_Amount q = pool_Amount p" by auto
qed

lemma RemovePoints_ok:
  assumes ok: "points_ok p" and m: "GetPointsFor a p = Inr m" "n \<le> m" and q: "RemovePoints a n p = Inr q"
  shows "points_ok q" and "unat (TotalPoolPoints q) + unat n = unat (TotalPoolPoints p)"
    and "pool_Id q = pool_Id p" and "pool_Amount q = pool_Amount p"
proof -
  let ?i = "point_index (pool_Points p) a"
  let ?lp = "pool_Points p ! ?i"
  have i: "?i < length (pool_Points p)" and m': "m = pp_Points ?lp"
    using m(1) by (auto simp: GetPointsFor_def Let_def split: if_splits)
  have le: "unat n \<le> unat (pp_Points ?lp)" "unat (pp_Points ?lp) \<le> unat (TotalPoolPoints p)"
    using m(2) m' points_total_ge [OF i] ok by (simp_all add: word_le_nat_alt points_ok_def)
  have tot: "unat (TotalPoolPoints p - n) = unat (TotalPoolPoints p) - unat n"
    using le by (intro unat_sub) (simp add: word_le_nat_alt)
  have lft: "unat (pp_Points ?lp - n) = unat (pp_Points ?lp) - unat n"
    using le by (intro unat_sub) (simp add: word_le_nat_alt)
  define ps where "ps = (if pp_Points ?lp - n = 0 then take ?i (pool_Points p) @ drop (Suc ?i) (pool_Points p)
      else (pool_Points p)[?i := ?lp\<lparr>pp_Points := pp_Points ?lp - n\<rparr>])"
  have q': "q = p\<lparr>TotalPoolPoints := TotalPoolPoints p - n, pool_Points := ps\<rparr>"
    using q i unfolding RemovePoints_def Let_def ps_def by (simp split: if_split_asm)
  have "points_total ps + unat n = points_total (pool_Points p)"
  proof (cases "pp_Points ?lp - n = 0")
    case True
    then show ?thesis using points_total_remove [OF i] lft le by (simp add: ps_def)
  next
    case False
    then show ?thesis
      using points_total_update [OF i, of "?lp\<lparr>pp_Points := pp_Points ?lp - n\<rparr>"] lft le
      by (simp add: ps_def)
  qed
  then show "points_ok q" "unat (TotalPoolPoints q) + unat n = unat (TotalPoolPoints p)"
    "pool_Id q = pool_Id p" "pool_Amount q = pool_Amount p"
    using ok tot le by (simp_all add: q' points_ok_def)
qed


section \<open>Frames\<close>

text \<open>Operations on batches touch accounts, pools and events only.\<close>

lemma frame_addEvent [frame_rules]: "(\<And>s x. g (s\<lparr>events := x\<rparr>) = g s) \<Longrightarrow> frame g (addEvent m a c)"
  unfolding addEvent_def by (intro frame_rules) simp

lemma frame_liquidity [frame_rules]:
  assumes "\<And>s x y. g (s\<lparr>cache_accounts := x, accounts := y\<rparr>) = g s"
    and "\<And>s x. g (s\<lparr>pools := x\<rparr>) = g s" and "\<And>s x. g (s\<lparr>events := x\<rparr>) = g s"
  shows "frame g (HandleDexBatchOrders hashAt os x y c)" "frame g (HandleBatchWithdraw ws c x y b)"
    "frame g (HandleBatchDeposit ds c x y b)"
  unfolding HandleDexBatchOrders_def execute_order_def pay_order_def HandleBatchWithdraw_def
    pay_withdrawal_def HandleBatchDeposit_def deposit_one_def Let_def
  by (intro frame_rules assms)+

section \<open>Pools with points\<close>

definition liquid :: "StateMachine \<Rightarrow> bool" where
  "liquid s \<longleftrightarrow> (\<forall>i. points_ok (GetPool i s))"

lemma liquid_cong: "pools t = pools s \<Longrightarrow> liquid t = liquid s"
  by (simp add: liquid_def GetPool_def)

lemma GetPool_SetPool:
  assumes "kv_wf (pools s)" and "SetPool p s = (t, r)"
  shows "GetPool i t = (if i = pool_Id p then if pool_Amount p = 0 then new_Pool i else p else GetPool i s)"
proof -
  have "pools t = (if pool_Amount p = 0 then kv_del (pool_Id p) (pools s) else kv_set (pool_Id p) p (pools s))"
    using assms(2) by (auto simp: SetPool_def op_simps)
  then show ?thesis
    using assms(1) by (auto simp: GetPool_def kv_get_set kv_get_del)
qed

lemma points_ok_simps [simp]:
  "points_ok (new_Pool i)" "points_ok (p\<lparr>pool_Amount := n\<rparr>) = points_ok p"
  by (simp_all add: points_ok_def new_Pool_def)

lemma SetPool_liquid:
  "liquid s \<Longrightarrow> points_ok p \<Longrightarrow> kv_wf (pools s) \<Longrightarrow> SetPool p s = (t, r) \<Longrightarrow> liquid t"
  by (simp add: liquid_def GetPool_SetPool)

lemma PoolSub_liquid:
  "liquid s \<Longrightarrow> kv_wf (pools s) \<Longrightarrow> PoolSub i n s = (t, Inr ()) \<Longrightarrow> liquid t"
  by (auto simp: PoolSub_def bindE_reads liquid_def GetPool_SetPool split: if_splits)

lemma PoolAdd_liquid:
  "liquid s \<Longrightarrow> kv_wf (pools s) \<Longrightarrow> PoolAdd i n s = (t, r) \<Longrightarrow> liquid t"
  by (auto simp: PoolAdd_def bindE_reads liquid_def GetPool_SetPool)

lemma transfer_liquid:
  assumes "books_on E A s" and "liquid s"
  shows "bindE (PoolSub i n) (\<lambda>_. AccountAdd a n) s = (t, Inr ()) \<Longrightarrow> liquid t"
    and "bindE (AccountSub a n) (\<lambda>_. PoolAdd i n) s = (t, Inr ()) \<Longrightarrow> liquid t"
proof -
  have wf: "kv_wf (pools s)" using assms(1) by (simp add: books_on_def funds_ok_def)
  show "liquid t" if t: "bindE (PoolSub i n) (\<lambda>_. AccountAdd a n) s = (t, Inr ())"
  proof -
    obtain u where u: "PoolSub i n s = (u, Inr ())" "AccountAdd a n u = (t, Inr ())"
      using t by (auto elim: bindE_okE)
    from PoolSub_liquid [OF assms(2) wf u(1)] liquid_cong [OF AccountAdd_pools(1) [OF u(2)]] show ?thesis by simp
  qed
  show "liquid t" if t: "bindE (AccountSub a n) (\<lambda>_. PoolAdd i n) s = (t, Inr ())"
  proof -
    obtain u where u: "AccountSub a n s = (u, Inr ())" "PoolAdd i n u = (t, Inr ())"
      using t by (auto elim: bindE_okE)
    note p = AccountSub_pools(1) [OF u(1)]
    from PoolAdd_liquid [OF _ _ u(2)] liquid_cong [OF p] assms(2) wf p show ?thesis by simp
  qed
qed

lemma events_books [simp]: "liquid (s\<lparr>events := x\<rparr>) = liquid s" "pool_balance i (s\<lparr>events := x\<rparr>) = pool_balance i s"
  "GetPool i (s\<lparr>events := x\<rparr>) = GetPool i s" "total_supply (s\<lparr>events := x\<rparr>) = total_supply s"
  by (simp_all add: liquid_def GetPool_def pool_balance_def total_supply_def)

section \<open>Orders keep the books\<close>

definition receipt :: "(bytes \<rightharpoonup> u64) \<Rightarrow> DexLimitOrderWithKey \<Rightarrow> u64" where
  "receipt m order = (case m (ko_Key order) of None \<Rightarrow> 0 | Some n \<Rightarrow> n)"

lemma execute_order_step:
  assumes "execute_order c order (x, y, m) s = (t, Inr (x', y', m'))"
  shows "\<exists>dY ev. t = s\<lparr>events := ev\<rparr> \<and> m' = m(ko_Key order \<mapsto> dY) \<and> unat y' + unat dY = unat y"
proof -
  let ?o = "ko_Order order"
  define dY where "dY = (if SafeComputeDY x y (dlo_AmountForSale ?o) < dlo_RequestedAmount ?o then 0
    else SafeComputeDY x y (dlo_AmountForSale ?o))"
  have le: "dY \<le> y" by (simp add: dY_def unat_SafeComputeDY)
  obtain xa ov where a: "(if dY \<noteq> 0 then AddUint64 x (dlo_AmountForSale ?o) else (0, False)) = (xa, ov)"
    by fastforce
  have "(if ov then fail ErrInvalidLiquidityPool
      else bindE (addEvent (EventDexSwap (dlo_AmountForSale ?o) dY False (dY \<noteq> 0) (dlo_OrderId ?o)) (dlo_Address ?o) c)
        (\<lambda>_. ok (if dY \<noteq> 0 then (xa, y - dY, m(ko_Key order \<mapsto> dY)) else (x, y, m(ko_Key order \<mapsto> dY))))) s
      = (t, Inr (x', y', m'))"
    using assms unfolding execute_order_def Let_def prod.case dY_def [symmetric] a .
  then have "t = s\<lparr>events := events t\<rparr>" "m' = m(ko_Key order \<mapsto> dY)" "y' = y - dY"
    by (auto simp: addEvent_def bindE_writes split: if_split_asm)
  then show ?thesis
    using le by (intro exI [of _ dY] exI [of _ "events t"]) (simp add: unat_sub word_le_nat_alt)
qed

lemma execute_orders:
  assumes "fold_op (execute_order c) l (x, y, m) s = (t, Inr (x', y', m'))" and "distinct (map ko_Key l)"
  shows "(\<exists>ev. t = s\<lparr>events := ev\<rparr>) \<and> unat y' + (\<Sum>order \<leftarrow> l. unat (receipt m' order)) = unat y \<and>
    (\<forall>k. k \<notin> ko_Key ` set l \<longrightarrow> m' k = m k)"
  using assms
proof (induction l arbitrary: x y m s)
  case Nil
  then have "t = s" "y' = y" "m' = m" by (auto simp: op_simps)
  then show ?case by (intro conjI exI [of _ "events s"]) simp_all
next
  case (Cons order l)
  obtain q u where qu: "execute_order c order (x, y, m) s = (u, Inr q)"
    "fold_op (execute_order c) l q u = (t, Inr (x', y', m'))"
    using Cons.prems(1) by (auto elim: bindE_okE)
  obtain x1 y1 m1 where q: "q = (x1, y1, m1)" by (cases q) auto
  note u = qu(1) [unfolded q] and rest = qu(2) [unfolded q]
  obtain dY ev where st: "u = s\<lparr>events := ev\<rparr>" "m1 = m(ko_Key order \<mapsto> dY)" "unat y1 + unat dY = unat y"
    using execute_order_step [OF u] by blast
  have "distinct (map ko_Key l)" using Cons.prems(2) by simp
  note ih = Cons.IH [OF rest this]
  have "m' (ko_Key order) = Some dY"
    using ih Cons.prems(2) by (simp add: st(2))
  then have "receipt m' order = dY" by (simp add: receipt_def)
  with ih st show ?case by auto
qed

lemma pay_order_books:
  assumes ok: "books_on E A s" and liq: "liquid s" and a: "dlo_Address (ko_Order order) \<in> A"
    and t: "pay_order c m order rs s = (t, Inr rs')"
  shows "books_on E A t \<and> liquid t \<and> total_supply t = total_supply s \<and> rs' = rs @ [receipt m order] \<and>
    pool_balance j t + (if j = c + LiquidityPoolAddend then unat (receipt m order) else 0) = pool_balance j s"
proof (cases "receipt m order = 0")
  case True
  with t ok liq show ?thesis by (simp add: pay_order_def Let_def receipt_def [symmetric])
next
  case False
  let ?n = "receipt m order"
  have "bindE (bindE (PoolSub (c + LiquidityPoolAddend) ?n)
      (\<lambda>_. AccountAdd (dlo_Address (ko_Order order)) ?n)) (\<lambda>_. ok (rs @ [?n])) s = (t, Inr rs')"
    using t False by (simp add: pay_order_def Let_def receipt_def [symmetric] bindE_assoc)
  then have tr: "bindE (PoolSub (c + LiquidityPoolAddend) ?n)
      (\<lambda>_. AccountAdd (dlo_Address (ko_Order order)) ?n) s = (t, Inr ())" and rs: "rs' = rs @ [?n]"
    by (auto elim: bindE_okE)
  note p = pool_acct_books [OF ok a tr]
  show ?thesis
    using p(1,2) p(4) [of j] transfer_liquid(1) [OF ok liq tr] rs by simp
qed

lemma pay_orders_books:
  assumes "fold_op (pay_order c m) l rs s = (t, Inr rs')" and "books_on E A s" and "liquid s"
    and "\<forall>order \<in> set l. dlo_Address (ko_Order order) \<in> A"
  shows "books_on E A t \<and> liquid t \<and> total_supply t = total_supply s \<and> rs' = rs @ map (receipt m) l \<and>
    pool_balance j t + (if j = c + LiquidityPoolAddend then \<Sum>order \<leftarrow> l. unat (receipt m order) else 0)
      = pool_balance j s"
  using assms
proof (induction l arbitrary: rs s)
  case Nil
  then show ?case by (auto simp: op_simps)
next
  case (Cons order l)
  obtain rs1 u where u: "pay_order c m order rs s = (u, Inr rs1)"
    and rest: "fold_op (pay_order c m) l rs1 u = (t, Inr rs')"
    using Cons.prems(1) by (auto elim: bindE_okE)
  have a: "dlo_Address (ko_Order order) \<in> A" using Cons.prems(4) by simp
  note st = pay_order_books [OF Cons.prems(2,3) a u, of j]
  with Cons.IH [OF rest] Cons.prems(4) show ?case by (auto split: if_splits)
qed

lemma CopyOrders_address:
  "\<forall>order \<in> set os. dlo_Address order \<in> A \<Longrightarrow> \<forall>k \<in> set (CopyOrders cfg h os). dlo_Address (ko_Order k) \<in> A"
  by (auto simp: CopyOrders_def DexLimitOrder_Copy_def in_set_enumerate_eq)

lemma HandleDexBatchOrders_books:
  assumes ok: "books_on E A s" and liq: "liquid s" and a: "\<forall>order \<in> set os. dlo_Address order \<in> A"
    and keys: "\<And>h. distinct (map ko_Key (CopyOrders (Cfg s) h os))"
    and y: "unat y = pool_balance (c + LiquidityPoolAddend) s"
    and t: "HandleDexBatchOrders hashAt os x y c s = (t, Inr (rs, x', y'))"
  shows "books_on E A t" and "liquid t" and "total_supply t = total_supply s"
    and "length rs = length os" and "unat y' = pool_balance (c + LiquidityPoolAddend) t"
    and "j \<noteq> c + LiquidityPoolAddend \<Longrightarrow> pool_balance j t = pool_balance j s"
proof -
  obtain h where h: "LoadBlockHash hashAt (Height s - 1) = Some h"
    using t by (auto simp: HandleDexBatchOrders_def op_simps split: option.splits)
  let ?k = "CopyOrders (Cfg s) h os" and ?l = "c + LiquidityPoolAddend"
  have "bindE (fold_op (execute_order c) (sort_key ko_Key ?k) (x, y, Map.empty)) (\<lambda>(x', y', result).
      bindE (fold_op (pay_order c result) ?k []) (\<lambda>receipts. ok (receipts, x', y'))) s = (t, Inr (rs, x', y'))"
    using t h by (simp add: HandleDexBatchOrders_def bindE_reads Let_def split: if_split_asm)
  then obtain q u where u': "fold_op (execute_order c) (sort_key ko_Key ?k) (x, y, Map.empty) s = (u, Inr q)"
    and v': "(case q of (x', y', result) \<Rightarrow>
      bindE (fold_op (pay_order c result) ?k []) (\<lambda>receipts. ok (receipts, x', y'))) u = (t, Inr (rs, x', y'))"
    by (rule bindE_okE)
  obtain x1 y1 m where q: "q = (x1, y1, m)" by (cases q) auto
  have "bindE (fold_op (pay_order c m) ?k []) (\<lambda>receipts. ok (receipts, x1, y1)) u = (t, Inr (rs, x', y'))"
    using v' by (simp add: q)
  then obtain r w where "fold_op (pay_order c m) ?k [] u = (w, Inr r)" "(ok (r, x1, y1) :: _ fsm) w = (t, Inr (rs, x', y'))"
    by (rule bindE_okE)
  then have v: "fold_op (pay_order c m) ?k [] u = (t, Inr rs)" and xy: "x1 = x'" "y1 = y'"
    by simp_all
  note u = u' [unfolded q xy]
  have perm: "mset (sort_key ko_Key ?k) = mset ?k" by simp
  have "distinct (map ko_Key (sort_key ko_Key ?k))"
    using keys [of h] mset_eq_imp_distinct_iff [of "map ko_Key (sort_key ko_Key ?k)" "map ko_Key ?k"]
    by (simp add: perm)
  note e = execute_orders [OF u this]
  have sum: "(\<Sum>order \<leftarrow> sort_key ko_Key ?k. unat (receipt m order)) = (\<Sum>order \<leftarrow> ?k. unat (receipt m order))"
    unfolding sum_mset_sum_list [symmetric] mset_map perm ..
  have u_ok: "books_on E A u" "liquid u" "total_supply u = total_supply s" "pool_balance j u = pool_balance j s" for j
    using e ok liq by auto
  note p = pay_orders_books [OF v u_ok(1,2) CopyOrders_address [OF a]]
  show "books_on E A t" "liquid t" "total_supply t = total_supply s" "length rs = length os"
    using p u_ok(3) by (auto simp: CopyOrders_def)
  show "unat y' = pool_balance ?l t"
    using p [of ?l] e y u_ok(4) [of ?l] sum by simp
  show "j \<noteq> ?l \<Longrightarrow> pool_balance j t = pool_balance j s"
    using p [of j] u_ok(4) [of j] by simp
qed


text \<open>Keys are distinct when the hash has no collision: the index is part of what is hashed.\<close>

lemma BigEndian_inj:
  assumes "BigEndian x = BigEndian y"
  shows "x = y"
proof (rule bit_word_eqI)
  fix n assume n: "n < LENGTH(64)"
  define i where "i = 7 - n div 8"
  have i: "i < 8" "8 * (7 - i) + n mod 8 = n" "n mod 8 < 8" using n by (simp_all add: i_def)
  have nth: "BigEndian z ! i = ucast (drop_bit (8 * (7 - i)) z)" for z
    using i(1) by (simp add: BigEndian_def)
  have "bit (BigEndian z ! i) (n mod 8) = bit z n" for z
    using i by (simp add: nth bit_ucast_iff bit_drop_bit_eq)
  then show "bit x n = bit y n" using assms by metis
qed

text \<open>
  What is asked of the hash function: for one block hash, orders at different positions of a batch get
  different keys.  A hash without collisions does.
\<close>

definition keys_apart :: "Config \<Rightarrow> bool" where
  "keys_apart cfg \<longleftrightarrow> (\<forall>h i j a b. i < 18446744073709551616 \<longrightarrow> j < 18446744073709551616 \<longrightarrow> i \<noteq> j \<longrightarrow>
     HashKey cfg i h a \<noteq> HashKey cfg j h b)"

lemma inj_keys_apart:
  assumes "inj (HashOf cfg)"
  shows "keys_apart cfg"
  unfolding keys_apart_def
proof (intro allI impI)
  fix i j :: nat and h a b
  assume ij: "i < 18446744073709551616" "j < 18446744073709551616" "i \<noteq> j"
  have len: "length (BigEndian z) = 8" for z by (simp add: BigEndian_def)
  have "unat (of_nat i :: u64) = i" "unat (of_nat j :: u64) = j"
    using ij by (auto intro: unat_of_nat_u64)
  then have "(of_nat i :: u64) \<noteq> of_nat j" using ij(3) by auto
  then have "BigEndian (of_nat i) \<noteq> BigEndian (of_nat j)" using BigEndian_inj by blast
  then show "HashKey cfg i h a \<noteq> HashKey cfg j h b"
    using assms len by (auto simp: HashKey_def inj_eq)
qed

lemma CopyOrders_distinct:
  assumes "keys_apart cfg" and "length os < 18446744073709551616"
  shows "distinct (map ko_Key (CopyOrders cfg h os))"
  unfolding distinct_conv_nth
proof (intro allI impI)
  fix i j
  assume ij: "i < length (map ko_Key (CopyOrders cfg h os))" "j < length (map ko_Key (CopyOrders cfg h os))" "i \<noteq> j"
  have key: "map ko_Key (CopyOrders cfg h os) ! k = HashKey cfg k h (DexLimitOrder_Copy (os ! k))"
    if "k < length os" for k
    using that by (simp add: CopyOrders_def nth_enumerate_eq)
  have l: "i < length os" "j < length os" using ij by (simp_all add: CopyOrders_def)
  then show "map ko_Key (CopyOrders cfg h os) ! i \<noteq> map ko_Key (CopyOrders cfg h os) ! j"
    unfolding key [OF l(1)] key [OF l(2)] using assms ij(3) by (simp add: keys_apart_def)
qed

section \<open>Withdrawals keep the books\<close>

lemma SafeMulDiv_upper: "unat (SafeMulDiv a b c) \<le> unat a * unat b div unat c"
proof (cases "c = 0")
  case False
  have "unat (of_nat n :: u64) \<le> n" for n
    by (simp add: unat_of_nat)
  then show ?thesis using False by (simp add: SafeMulDiv_def)
qed (simp add: SafeMulDiv_def)

text \<open>A share is at most in proportion to the points it burns.\<close>

lemma share_bound:
  assumes "0 < T"
  shows "unat T * unat (SafeMulDiv (SafeMulDiv x P T) n P) \<le> unat x * unat n"
proof (cases "P = 0")
  case True
  then show ?thesis by (simp add: SafeMulDiv_def)
next
  case False
  let ?t = "unat (SafeMulDiv x P T)" and ?s = "unat (SafeMulDiv (SafeMulDiv x P T) n P)"
  have p: "0 < unat P" using False by (simp add: unat_gt_0)
  have t: "?t * unat T \<le> unat x * unat P"
    using SafeMulDiv_upper [of x P T] by (meson div_times_less_eq_dividend le_trans mult_le_mono1)
  have "?s * unat P \<le> ?t * unat n"
    using SafeMulDiv_upper [of "SafeMulDiv x P T" n P]
    by (meson div_times_less_eq_dividend le_trans mult_le_mono1)
  then have "?s * unat P * unat T \<le> ?t * unat n * unat T" by (rule mult_le_mono1)
  also have "\<dots> = ?t * unat T * unat n" by (simp add: mult.commute mult.left_commute)
  also have "\<dots> \<le> unat x * unat P * unat n" using t by (rule mult_le_mono1)
  finally have "(unat T * ?s) * unat P \<le> (unat x * unat n) * unat P" by (simp add: mult.commute mult.left_commute)
  with p show ?thesis by simp
qed

text \<open>What has been paid so far is in proportion to the points burned so far.\<close>

definition paid_within :: "Pool \<Rightarrow> u64 \<Rightarrow> Pool \<Rightarrow> u64 \<Rightarrow> bool" where
  "paid_within p0 x p paid \<longleftrightarrow> unat (TotalPoolPoints p) \<le> unat (TotalPoolPoints p0) \<and>
     unat (TotalPoolPoints p0) * unat paid \<le>
       unat x * (unat (TotalPoolPoints p0) - unat (TotalPoolPoints p))"

lemma paid_within_le: "paid_within p0 x p paid \<Longrightarrow> TotalPoolPoints p0 \<noteq> 0 \<Longrightarrow> unat paid \<le> unat x"
proof -
  assume a: "paid_within p0 x p paid" "TotalPoolPoints p0 \<noteq> 0"
  let ?T = "unat (TotalPoolPoints p0)"
  have "?T * unat paid \<le> unat x * ?T"
    using a(1) unfolding paid_within_def by (meson diff_le_self le_trans mult_le_mono2)
  moreover have "0 < ?T" using a(2) by (simp add: unat_gt_0)
  ultimately show ?thesis by (simp add: mult.commute)
qed

lemma paid_within_step:
  assumes old: "paid_within p0 x p paid" and T: "TotalPoolPoints p0 \<noteq> 0"
    and q: "unat (TotalPoolPoints q) + unat n = unat (TotalPoolPoints p)"
    and s: "s = SafeMulDiv (SafeMulDiv x P (TotalPoolPoints p0)) n P"
  shows "unat (paid + s) = unat paid + unat s" and "paid_within p0 x q (paid + s)"
proof -
  let ?T = "unat (TotalPoolPoints p0)"
  have pos: "0 < ?T" using T by (simp add: unat_gt_0)
  have b: "?T * unat s \<le> unat x * unat n"
    unfolding s by (rule share_bound) (use T in \<open>simp add: word_gt_0\<close>)
  have le: "unat (TotalPoolPoints p) \<le> ?T" and o: "?T * unat paid \<le> unat x * (?T - unat (TotalPoolPoints p))"
    using old by (simp_all add: paid_within_def)
  have "?T * (unat paid + unat s) \<le> unat x * (?T - unat (TotalPoolPoints p) + unat n)"
    using o b by (simp add: distrib_left)
  moreover have "?T - unat (TotalPoolPoints p) + unat n = ?T - unat (TotalPoolPoints q)"
    using q le by simp
  ultimately have sum: "?T * (unat paid + unat s) \<le> unat x * (?T - unat (TotalPoolPoints q))" by simp
  have "?T * (unat paid + unat s) \<le> unat x * ?T"
    by (rule le_trans [OF sum mult_le_mono2]) simp
  then have "unat paid + unat s \<le> unat x"
    using pos by (simp only: mult.commute [of ?T] mult_le_cancel2)
  then show add: "unat (paid + s) = unat paid + unat s"
    using unat_u64_less [of x] by (intro unat_add_u64) simp
  show "paid_within p0 x q (paid + s)"
    using sum q le by (simp add: paid_within_def add)
qed

lemma withdrawn_points_le:
  assumes "pct \<le> 100"
  shows "SafeMulDiv m pct 100 \<le> m"
proof -
  have "unat m * unat pct div 100 \<le> unat m"
    using share_le [of "unat pct" 100 "unat m"] assms by (simp add: word_le_nat_alt)
  with SafeMulDiv_upper [of m pct 100] show ?thesis by (simp add: word_le_nat_alt)
qed

definition paying_out :: "bool \<Rightarrow> address set \<Rightarrow> StateMachine \<Rightarrow> Pool \<Rightarrow> u64 \<Rightarrow> u64 \<Rightarrow>
    Pool \<times> u64 \<times> u64 \<Rightarrow> StateMachine \<Rightarrow> bool" where
  "paying_out isLocal A s p0 x y = (\<lambda>(p, X, Y) u.
     points_ok p \<and> pool_Id p = pool_Id p0 \<and> paid_within p0 x p X \<and> paid_within p0 y p Y \<and>
     funds_ok A u \<and> held u = held s + (if isLocal then unat X else unat Y) \<and>
     pools u = pools s \<and> validators u = validators s \<and> supplyTracker u = supplyTracker s)"

lemma pay_withdrawal_step:
  assumes I: "paying_out isLocal A s p0 x y st u" and T: "TotalPoolPoints p0 \<noteq> 0"
    and w: "dlw_Address w \<in> A" "dlw_Percent w \<le> 100"
    and t: "pay_withdrawal c isLocal (SafeMulDiv x P (TotalPoolPoints p0))
      (SafeMulDiv y P (TotalPoolPoints p0)) P w st u = (v, Inr st')"
  shows "paying_out isLocal A s p0 x y st' v"
proof -
  obtain p X Y where st: "st = (p, X, Y)" by (cases st) auto
  have i: "points_ok p" "pool_Id p = pool_Id p0" "paid_within p0 x p X" "paid_within p0 y p Y"
      "funds_ok A u" "held u = held s + (if isLocal then unat X else unat Y)"
      "pools u = pools s" "validators u = validators s" "supplyTracker u = supplyTracker s"
    using I by (auto simp: paying_out_def st)
  show ?thesis
  proof (cases "GetPointsFor (dlw_Address w) p")
    case (Inl e)
    with t I show ?thesis by (simp add: pay_withdrawal_def st)
  next
    case (Inr m)
    let ?n = "SafeMulDiv m (dlw_Percent w) 100"
    let ?ys = "SafeMulDiv (SafeMulDiv y P (TotalPoolPoints p0)) ?n P"
    let ?xs = "SafeMulDiv (SafeMulDiv x P (TotalPoolPoints p0)) ?n P"
    let ?pay = "if isLocal then ?xs else ?ys" and ?other = "if isLocal then ?ys else ?xs"
    obtain q where q: "RemovePoints (dlw_Address w) ?n p = Inr q"
      using t Inr by (auto simp: pay_withdrawal_def st Let_def split: sum.splits)
    have "bindE (AccountAdd (dlw_Address w) ?pay) (\<lambda>_. bindE (addEvent (EventDexLiquidityWithdrawal
        ?pay ?other (dlw_OrderId w) ?n) (dlw_Address w) c) (\<lambda>_. ok (q, X + ?xs, Y + ?ys))) u = (v, Inr st')"
      using t Inr q by (cases isLocal) (simp_all add: pay_withdrawal_def st Let_def)
    then obtain z where z: "AccountAdd (dlw_Address w) ?pay u = (z, Inr ())"
      and ev: "addEvent (EventDexLiquidityWithdrawal ?pay ?other (dlw_OrderId w) ?n) (dlw_Address w) c z = (v, Inr ())"
      and st': "st' = (q, X + ?xs, Y + ?ys)"
      by (auto elim!: bindE_okE)
    obtain es where v: "v = z\<lparr>events := es\<rparr>" using addEvent_state [OF ev] by blast
    note r = RemovePoints_ok [OF i(1) Inr withdrawn_points_le [OF w(2)] q]
    note xs = paid_within_step [OF i(3) T r(2) refl] and ys = paid_within_step [OF i(4) T r(2) refl]
    note acc = AccountAdd_funds [OF i(5) w(1) z]
    note keep = AccountAdd_keeps [OF z] AccountAdd_pools(1) [OF z]
    have ve: "funds_ok A v = funds_ok A z" "held v = held z" "pools v = pools z" "validators v = validators z"
        "supplyTracker v = supplyTracker z"
      by (simp_all add: v funds_ok_def accounts_ok_def stored_account_def held_def account_total_def
          pool_total_def stake_total_def)
    show ?thesis
      using r xs ys acc keep i by (auto simp: paying_out_def st' ve)
  qed
qed

lemma HandleBatchWithdraw_books:
  assumes ok: "books_on E A s" and liq: "liquid s"
    and w: "\<forall>w \<in> set ws. dlw_Address w \<in> A \<and> dlw_Percent w \<le> 100"
    and size: "unat (if isLocal then x else y) = pool_balance (c + LiquidityPoolAddend) s"
    and t: "HandleBatchWithdraw ws c x y isLocal s = (t, Inr (x', y'))"
  shows "books_on E A t" and "liquid t" and "total_supply t = total_supply s"
    and "unat (if isLocal then x' else y') = pool_balance (c + LiquidityPoolAddend) t"
    and "j \<noteq> c + LiquidityPoolAddend \<Longrightarrow> pool_balance j t = pool_balance j s"
proof -
  let ?l = "c + LiquidityPoolAddend"
  let ?p0 = "GetPool ?l s"
  let ?goal = "books_on E A t \<and> liquid t \<and> total_supply t = total_supply s \<and>
    unat (if isLocal then x' else y') = pool_balance ?l t \<and> (j \<noteq> ?l \<longrightarrow> pool_balance j t = pool_balance j s)"
  have ?goal
  proof (cases "t = s \<and> x' = x \<and> y' = y")
    case True
    with ok liq size show ?thesis by (cases isLocal) simp_all
  next
    case changed: False
    obtain P where P: "points_to_remove ?p0 ws 0 = Inr P" and T: "TotalPoolPoints ?p0 \<noteq> 0"
      using t changed by (auto simp: HandleBatchWithdraw_def bindE_reads split: sum.splits if_splits)
    let ?X = "SafeMulDiv x P (TotalPoolPoints ?p0)" and ?Y = "SafeMulDiv y P (TotalPoolPoints ?p0)"
    have "bindE (fold_op (pay_withdrawal c isLocal ?X ?Y P) ws (?p0, 0, 0)) (\<lambda>(p', paidX, paidY).
        bindE (SetPool (p'\<lparr>pool_Amount := if isLocal then x - paidX else y - paidY\<rparr>))
          (\<lambda>_. ok (x - paidX, y - paidY))) s = (t, Inr (x', y'))"
      using t changed P T by (auto simp: HandleBatchWithdraw_def bindE_reads Let_def split: if_split_asm)
    then obtain q u where u: "fold_op (pay_withdrawal c isLocal ?X ?Y P) ws (?p0, 0, 0) s = (u, Inr q)"
      and rest: "(case q of (p', paidX, paidY) \<Rightarrow>
        bindE (SetPool (p'\<lparr>pool_Amount := if isLocal then x - paidX else y - paidY\<rparr>))
          (\<lambda>_. ok (x - paidX, y - paidY))) u = (t, Inr (x', y'))"
      by (rule bindE_okE)
    obtain p X Y where q: "q = (p, X, Y)" by (cases q) auto
    have s_ok: "funds_ok A s" "ledger_on E s" "held s = total_supply s" "kv_wf (pools s)"
      using ok by (simp_all add: books_on_def funds_ok_def)
    have "paying_out isLocal A s ?p0 x y (?p0, 0, 0) s"
      using liq s_ok(1) by (simp add: paying_out_def paid_within_def liquid_def)
    then have I: "paying_out isLocal A s ?p0 x y q u"
    proof (rule fold_op_inv [OF u])
      fix w st v st' v'
      assume "w \<in> set ws" and step: "paying_out isLocal A s ?p0 x y st v"
        "pay_withdrawal c isLocal ?X ?Y P w st v = (v', Inr st')"
      with w show "paying_out isLocal A s ?p0 x y st' v'"
        by (intro pay_withdrawal_step [OF step(1) T _ _ step(2)]) auto
    qed
    then have i: "points_ok p" "pool_Id p = ?l" "paid_within ?p0 x p X" "paid_within ?p0 y p Y"
      "funds_ok A u" "held u = held s + (if isLocal then unat X else unat Y)"
      "pools u = pools s" "validators u = validators s" "supplyTracker u = supplyTracker s"
      by (auto simp: paying_out_def q)
    let ?amt = "if isLocal then x - X else y - Y"
    let ?p = "p\<lparr>pool_Amount := ?amt\<rparr>"
    have set: "SetPool ?p u = (t, Inr ())" and xy: "x' = x - X" "y' = y - Y"
      using rest by (auto simp: q elim!: bindE_okE)
    have wf: "kv_wf (pools u)" using i(7) s_ok(4) by simp
    note S = SetPool_step(2,3) [OF wf set] SetPool_step(4) [OF wf set]
    have le: "unat X \<le> unat x" "unat Y \<le> unat y" using paid_within_le [OF _ T] i(3,4) by blast+
    have amt: "unat ?amt + (if isLocal then unat X else unat Y) = pool_balance ?l s"
      using le size by (auto simp: unat_sub word_le_nat_alt split: if_splits)
    have pb: "pool_balance k u = pool_balance k s" for k by (rule pool_balance_cong [OF i(7)])
    note only = pools_only [where m = "SetPool ?p", OF _ _ _ _ set]
    have keep: "supplyTracker t = supplyTracker u"
      by (rule frameD [where m = "SetPool ?p", OF _ set], intro frame_rules, simp)
    have "accounts_ok A t = accounts_ok A u" "account_total t = account_total u"
      "stake_total t = stake_total u" "validators t = validators u"
      by (rule only; intro frame_rules; simp)+
    with S(1,2) amt i pb [of ?l] have "funds_ok A t" "held t = held s"
      by (auto simp: funds_ok_def held_def split: if_splits)
    moreover have "ledger_on E t"
      using ledger_on_cong [of t s] \<open>validators t = validators u\<close> keep i(8,9) s_ok(2) by simp
    moreover have "total_supply t = total_supply s" using keep i(9) by (simp add: total_supply_def)
    moreover have "liquid t"
      using SetPool_liquid [OF _ _ wf set] liquid_cong [OF i(7)] liq i(1) by simp
    ultimately show ?thesis
      using S(3) pb s_ok(3) i(2) xy by (auto simp: books_on_def)
  qed
  then show "books_on E A t" "liquid t" "total_supply t = total_supply s"
    "unat (if isLocal then x' else y') = pool_balance (c + LiquidityPoolAddend) t"
    "j \<noteq> c + LiquidityPoolAddend \<Longrightarrow> pool_balance j t = pool_balance j s" by auto
qed


section \<open>Deposits keep the books\<close>

lemma pool_ids_differ: "(c :: u64) + HoldingPoolAddend \<noteq> c + LiquidityPoolAddend"
  by (simp add: HoldingPoolAddend_def LiquidityPoolAddend_def)

text \<open>The pool under construction \<open>p\<close> has received what has left the state.\<close>

definition depositing :: "bool \<Rightarrow> address set \<Rightarrow> StateMachine \<Rightarrow> Pool \<Rightarrow>
    Pool \<times> u64 \<times> u64 \<Rightarrow> StateMachine \<Rightarrow> bool" where
  "depositing isLocal A s p0 = (\<lambda>(p, X, n) u.
     points_ok p \<and> pool_Id p = pool_Id p0 \<and> funds_ok A u \<and> liquid u \<and>
     held u + unat (pool_Amount p) = held s + unat (pool_Amount p0) \<and>
     (if isLocal then X = pool_Amount p else pool_Amount p = pool_Amount p0) \<and>
     validators u = validators s \<and> supplyTracker u = supplyTracker s)"

lemma AddUint64_ok: "AddUint64 a b = (n, False) \<Longrightarrow> unat n = unat a + unat b \<and> n = a + b"
  using AddUint64_exact [of a b n False] by (auto simp: AddUint64_def)

lemma events_funds [simp]:
  "funds_ok A (s\<lparr>events := x\<rparr>) = funds_ok A s" "held (s\<lparr>events := x\<rparr>) = held s"
  by (simp_all add: funds_ok_def accounts_ok_def stored_account_def held_def account_total_def
      pool_total_def stake_total_def)

lemma deposit_one_step:
  assumes I: "depositing isLocal A s p0 st u"
    and t: "deposit_one c isLocal DL TD d st u = (v, Inr st')"
  shows "depositing isLocal A s p0 st' v"
    and "pool_balance j v + (if isLocal \<and> j = c + HoldingPoolAddend then unat (dld_Amount d) else 0)
      = pool_balance j u"
proof -
  obtain p X n where st: "st = (p, X, n)" by (cases st) auto
  have i: "points_ok p" "pool_Id p = pool_Id p0" "funds_ok A u" "liquid u"
      "held u + unat (pool_Amount p) = held s + unat (pool_Amount p0)"
      "if isLocal then X = pool_Amount p else pool_Amount p = pool_Amount p0"
      "validators u = validators s" "supplyTracker u = supplyTracker s"
    using I by (auto simp: depositing_def st)
  let ?share = "SafeMulDiv DL (dld_Amount d) TD"
  let ?move = "\<lambda>q. if isLocal then bindE (PoolSub (c + HoldingPoolAddend) (dld_Amount d)) (\<lambda>_.
      let (k, overflow) = AddUint64 (pool_Amount q) (dld_Amount d) in
      if overflow then fail ErrInvalidLiquidityPool else ok (q\<lparr>pool_Amount := k\<rparr>)) else ok q"
  obtain q where q: "AddPoints (dld_Address d) ?share p = Inr q"
    using t by (auto simp: deposit_one_def st Let_def split: sum.splits if_splits)
  obtain X' overflow where X': "AddUint64 X (dld_Amount d) = (X', overflow)" by fastforce
  have "bindE (?move q) (\<lambda>q'. if overflow then fail ErrInvalidLiquidityPool
      else bindE (addEvent (EventDexLiquidityDeposit (dld_Amount d) isLocal (dld_OrderId d) ?share) (dld_Address d) c)
        (\<lambda>_. ok (q', X', n + ?share))) u = (v, Inr st')"
    using t unfolding deposit_one_def st
    by (cases isLocal; cases overflow) (simp_all add: q X' Let_def split: if_split_asm)
  then obtain q' w where w: "?move q u = (w, Inr q')"
    and rest: "(if overflow then fail ErrInvalidLiquidityPool
      else bindE (addEvent (EventDexLiquidityDeposit (dld_Amount d) isLocal (dld_OrderId d) ?share) (dld_Address d) c)
        (\<lambda>_. ok (q', X', n + ?share))) w = (v, Inr st')"
    by (rule bindE_okE)
  from rest have no: "\<not> overflow"
    and ev: "addEvent (EventDexLiquidityDeposit (dld_Amount d) isLocal (dld_OrderId d) ?share) (dld_Address d) c w
      = (v, Inr ())" and st': "st' = (q', X', n + ?share)"
    by (auto elim!: bindE_okE split: if_split_asm)
  obtain es where v: "v = w\<lparr>events := es\<rparr>" using addEvent_state [OF ev] by blast
  note a = AddPoints_ok [OF i(1) q]
  have x: "unat X' = unat X + unat (dld_Amount d)" "X' = X + dld_Amount d"
    using AddUint64_ok [of X "dld_Amount d" X'] X' no by auto
  have "depositing isLocal A s p0 st' w \<and>
    pool_balance j w + (if isLocal \<and> j = c + HoldingPoolAddend then unat (dld_Amount d) else 0) = pool_balance j u"
  proof (cases isLocal)
    case False
    with w a i x show ?thesis by (auto simp: depositing_def st')
  next
    case True
    obtain k o2 where k: "AddUint64 (pool_Amount q) (dld_Amount d) = (k, o2)" by fastforce
    have sub: "PoolSub (c + HoldingPoolAddend) (dld_Amount d) u = (w, Inr ())"
      and q': "q' = q\<lparr>pool_Amount := k\<rparr>" "\<not> o2"
      using w True by (auto simp: k elim!: bindE_okE split: if_split_asm)
    have kn: "unat k = unat (pool_Amount q) + unat (dld_Amount d)" "k = pool_Amount q + dld_Amount d"
      using AddUint64_ok [of "pool_Amount q" "dld_Amount d" k] k q'(2) by auto
    have wf: "kv_wf (pools u)" using i(3) by (simp add: funds_ok_def)
    note f = PoolSub_funds [OF i(3) sub] and b = PoolSub_step(3) [OF wf sub, of j]
      and l = PoolSub_liquid [OF i(4) wf sub] and keep = PoolSub_keeps [OF sub]
    have "depositing isLocal A s p0 st' w"
      using a f l keep i True kn x by (auto simp: depositing_def st' q'(1))
    with b True show ?thesis by (auto split: if_splits)
  qed
  then show "depositing isLocal A s p0 st' v"
    and "pool_balance j v + (if isLocal \<and> j = c + HoldingPoolAddend then unat (dld_Amount d) else 0)
      = pool_balance j u"
    by (auto simp: depositing_def v st' split: prod.splits)
qed

lemma deposits_fold:
  assumes "fold_op (deposit_one c isLocal DL TD) ds st u = (v, Inr st')" and "depositing isLocal A s p0 st u"
  shows "depositing isLocal A s p0 st' v \<and>
    pool_balance j v + (if isLocal \<and> j = c + HoldingPoolAddend then \<Sum>d \<leftarrow> ds. unat (dld_Amount d) else 0)
      = pool_balance j u"
  using assms
proof (induction ds arbitrary: st u)
  case Nil
  then show ?case by (auto simp: op_simps)
next
  case (Cons d ds)
  obtain w st1 where w: "deposit_one c isLocal DL TD d st u = (w, Inr st1)"
    and rest: "fold_op (deposit_one c isLocal DL TD) ds st1 w = (v, Inr st')"
    using Cons.prems(1) by (auto elim: bindE_okE)
  note step = deposit_one_step(1) [OF Cons.prems(2) w] deposit_one_step(2) [OF Cons.prems(2) w, of j]
  from Cons.IH [OF rest step(1)] step(2) show ?case by (auto split: if_splits)
qed

lemma HandleBatchDeposit_books:
  assumes ok: "books_on E A s" and liq: "liquid s"
    and size: "unat (if isLocal then x else y) = pool_balance (c + LiquidityPoolAddend) s"
    and t: "HandleBatchDeposit ds c x y isLocal s = (t, Inr (x', y'))"
  shows "books_on E A t" and "liquid t" and "total_supply t = total_supply s"
    and "unat (if isLocal then x' else y') = pool_balance (c + LiquidityPoolAddend) t"
    and "j \<noteq> c + LiquidityPoolAddend \<Longrightarrow> pool_balance j t \<le> pool_balance j s \<and> pool_balance j s \<le> pool_balance j t +
      (if isLocal \<and> j = c + HoldingPoolAddend then \<Sum>d \<leftarrow> ds. unat (dld_Amount d) else 0)"
proof -
  let ?l = "c + LiquidityPoolAddend"
  let ?p0 = "GetPool ?l s"
  let ?near = "\<lambda>k t. pool_balance k t \<le> pool_balance k s \<and> pool_balance k s \<le> pool_balance k t +
      (if isLocal \<and> k = c + HoldingPoolAddend then \<Sum>d \<leftarrow> ds. unat (dld_Amount d) else 0)"
  let ?goal = "books_on E A t \<and> liquid t \<and> total_supply t = total_supply s \<and>
    unat (if isLocal then x' else y') = pool_balance ?l t \<and> (j \<noteq> ?l \<longrightarrow> ?near j t)"
  have ?goal
  proof (cases "t = s \<and> x' = x \<and> y' = y")
    case True
    with ok liq size show ?thesis by (cases isLocal) simp_all
  next
    case changed: False
    obtain TD where TD: "total_deposit ds 0 = Inr TD"
      using t changed by (auto simp: HandleBatchDeposit_def bindE_reads split: sum.splits if_splits)
    obtain p L where p: "initial_points x y ?p0 = Inr (p, L)"
      using t changed TD by (auto simp: HandleBatchDeposit_def bindE_reads split: sum.splits if_splits)
    obtain xa ov where xa: "AddUint64 x TD = (xa, ov)" by fastforce
    let ?DL = "SafeMulDiv L (SqrtProductUint64 xa y - SqrtProductUint64 x y) (SqrtProductUint64 x y)"
    have "bindE (fold_op (deposit_one c isLocal ?DL TD) ds (p, x, 0)) (\<lambda>(p', x', n).
        case AddPoints deadAddr (?DL - n) p' of Inl e \<Rightarrow> fail e
        | Inr p'' \<Rightarrow> bindE (SetPool p'') (\<lambda>_. ok (x', y))) s = (t, Inr (x', y'))"
      using t changed by (auto simp: HandleBatchDeposit_def bindE_reads Let_def TD p xa split: if_split_asm)
    then obtain q u where u: "fold_op (deposit_one c isLocal ?DL TD) ds (p, x, 0) s = (u, Inr q)"
      and rest: "(case q of (p', x', n) \<Rightarrow>
        case AddPoints deadAddr (?DL - n) p' of Inl e \<Rightarrow> fail e
        | Inr p'' \<Rightarrow> bindE (SetPool p'') (\<lambda>_. ok (x', y))) u = (t, Inr (x', y'))"
      by (rule bindE_okE)
    obtain p1 X n where q: "q = (p1, X, n)" by (cases q) auto
    obtain p2 where p2: "AddPoints deadAddr (?DL - n) p1 = Inr p2"
      using rest by (auto simp: q split: sum.splits)
    have set: "SetPool p2 u = (t, Inr ())" and xy: "x' = X" "y' = y"
      using rest by (auto simp: q p2 elim!: bindE_okE)
    have s_ok: "funds_ok A s" "ledger_on E s" "held s = total_supply s"
      using ok by (simp_all add: books_on_def)
    have p0: "points_ok ?p0" "unat (pool_Amount ?p0) = pool_balance ?l s"
      using liq by (simp_all add: liquid_def pool_balance_def)
    have p_ok: "points_ok p \<and> pool_Id p = ?l \<and> pool_Amount p = pool_Amount ?p0"
      using p AddPoints_ok [OF p0(1)] p0(1) by (auto simp: initial_points_def Let_def split: if_splits sum.splits)
    have "isLocal \<Longrightarrow> x = pool_Amount ?p0"
      using size p0(2) by (simp add: word_unat_eq_iff)
    then have "depositing isLocal A s ?p0 (p, x, 0) s"
      using p_ok s_ok(1) liq by (simp add: depositing_def)
    note F = deposits_fold [OF u this]
    have i: "points_ok p1" "pool_Id p1 = ?l" "funds_ok A u" "liquid u"
      "held u + unat (pool_Amount p1) = held s + pool_balance ?l s"
      "if isLocal then X = pool_Amount p1 else pool_Amount p1 = pool_Amount ?p0"
      "validators u = validators s" "supplyTracker u = supplyTracker s"
      using F p0(2) by (auto simp: depositing_def q)
    note a = AddPoints_ok [OF i(1) p2]
    have wf: "kv_wf (pools u)" using i(3) by (simp add: funds_ok_def)
    note S = SetPool_step(2,3) [OF wf set] SetPool_step(4) [OF wf set]
    note only = pools_only [where m = "SetPool p2", OF _ _ _ _ set]
    have keep: "supplyTracker t = supplyTracker u"
      by (rule frameD [where m = "SetPool p2", OF _ set], intro frame_rules, simp)
    have o: "accounts_ok A t = accounts_ok A u" "account_total t = account_total u"
      "stake_total t = stake_total u" "validators t = validators u"
      by (rule only; intro frame_rules; simp)+
    have "pool_balance ?l u = pool_balance ?l s" using F [of ?l] pool_ids_differ [of c] by auto
    with S(1,2) o a i have "funds_ok A t" "held t = held s"
      by (auto simp: funds_ok_def held_def)
    moreover have "ledger_on E t"
      using ledger_on_cong [of t s] o(4) keep i(7,8) s_ok(2) by simp
    moreover have "total_supply t = total_supply s" using keep i(8) by (simp add: total_supply_def)
    moreover have "liquid t" by (rule SetPool_liquid [OF i(4) a(1) wf set])
    moreover have "unat (if isLocal then x' else y') = pool_balance ?l t"
      using S(3) [of ?l] a(3,4) i(2,6) xy size p0(2) by (auto split: if_splits)
    moreover have "j \<noteq> ?l \<Longrightarrow> ?near j t"
      using S(3) [of j] a(3) i(2) F [of j] by (auto split: if_splits)
    ultimately show ?thesis using s_ok(3) by (simp add: books_on_def)
  qed
  then show "books_on E A t" "liquid t" "total_supply t = total_supply s"
    "unat (if isLocal then x' else y') = pool_balance (c + LiquidityPoolAddend) t"
    "j \<noteq> ?l \<Longrightarrow> ?near j t" by auto
qed

end
