(* ===== verification/Dex.thy ===== *)
theory Dex
  imports Liquidity
begin

text \<open>
  The cross-chain exchange of fsm/dex.go: the batches of operations a chain collects (\<open>next\<close>) and
  the one it has sent to the counter chain (\<open>locked\<close>), the processing of the counter chain's batch
  and of the receipts for our own, the rotation, the same-block inclusion and the liveness
  fallback, together with the message handlers that fill the next batch (fsm/message.go) and the
  helpers of lib/dex.go.
\<close>

section \<open>Batches\<close>

definition empty_batch :: DexBatch where
  "empty_batch = \<lparr>db_Committee = 0, db_ReceiptHash = [], db_Orders = [], db_Deposits = [],
     db_Withdrawals = [], db_PoolSize = 0, db_CounterPoolSize = 0, db_PoolPoints = [],
     db_TotalPoolPoints = 0, db_Receipts = [], db_LockedHeight = 0, db_LivenessFallback = False\<rparr>"

definition EmptyReceiptsHash :: bytes where
  "EmptyReceiptsHash = replicate 32 0x46"

definition DexBatch_Copy :: "DexBatch \<Rightarrow> DexBatch" where
  "DexBatch_Copy x = x\<lparr>db_CounterPoolSize := 0, db_PoolPoints := [], db_TotalPoolPoints := 0\<rparr>"

definition DexBatch_IsEmpty :: "DexBatch \<Rightarrow> bool" where
  "DexBatch_IsEmpty x \<longleftrightarrow> length (db_ReceiptHash x) = 0 \<and> length (db_Receipts x) = 0 \<and>
     length (db_Orders x) = 0 \<and> length (db_Withdrawals x) = 0 \<and> length (db_Deposits x) = 0"

text \<open>\<open>Hash\<close> writes the placeholder into the object it is called on when that is empty.\<close>

definition mark_empty :: "DexBatch \<Rightarrow> DexBatch" where
  "mark_empty x = (if DexBatch_IsEmpty x then x\<lparr>db_ReceiptHash := EmptyReceiptsHash\<rparr> else x)"

definition DexBatch_Hash :: "Config \<Rightarrow> DexBatch \<Rightarrow> bytes" where
  "DexBatch_Hash cfg x = HashOf cfg (BatchBytes cfg (DexBatch_Copy (mark_empty x)))"

text \<open>An empty message encodes to no bytes, and reads back as an absent batch.\<close>

definition GetDexBatch :: "u64 \<Rightarrow> bool \<Rightarrow> bool \<Rightarrow> StateMachine \<Rightarrow> DexBatch" where
  "GetDexBatch chainId locked withPoints s =
     (let lPool = GetPool (chainId + LiquidityPoolAddend) s;
          absent = empty_batch\<lparr>db_Committee := chainId, db_PoolSize := pool_Amount lPool\<rparr> in
      case kv_get (if locked then lockedBatches s else nextBatches s) chainId of
        None \<Rightarrow> absent
      | Some b \<Rightarrow>
          if b = empty_batch then absent
          else if withPoints then
            b\<lparr>db_PoolPoints := pool_Points lPool, db_TotalPoolPoints := TotalPoolPoints lPool\<rparr>
          else b)"

definition GetDexBatches :: "bool \<Rightarrow> StateMachine \<Rightarrow> DexBatch list" where
  "GetDexBatches lockedBatch s = kv_values (if lockedBatch then lockedBatches s else nextBatches s)"

definition SetLockedBatch :: "u64 \<Rightarrow> DexBatch \<Rightarrow> unit fsm" where
  "SetLockedBatch chainId b = writes (\<lambda>s. s\<lparr>lockedBatches := kv_set chainId b (lockedBatches s)\<rparr>)"

definition SetNextBatch :: "u64 \<Rightarrow> DexBatch \<Rightarrow> unit fsm" where
  "SetNextBatch chainId b = writes (\<lambda>s. s\<lparr>nextBatches := kv_set chainId b (nextBatches s)\<rparr>)"

definition DeleteLockedBatch :: "u64 \<Rightarrow> unit fsm" where
  "DeleteLockedBatch chainId = writes (\<lambda>s. s\<lparr>lockedBatches := kv_del chainId (lockedBatches s)\<rparr>)"

definition DeleteNextBatch :: "u64 \<Rightarrow> unit fsm" where
  "DeleteNextBatch chainId = writes (\<lambda>s. s\<lparr>nextBatches := kv_del chainId (nextBatches s)\<rparr>)"

definition GetDexPrice :: "u64 \<Rightarrow> StateMachine \<Rightarrow> err + DexPrice" where
  "GetDexPrice chainId s = getPrice (cfg_ChainId (Cfg s)) (GetDexBatch chainId True False s)"

definition GetDexPrices :: "StateMachine \<Rightarrow> DexPrice list" where
  "GetDexPrices s =
     List.map_filter (\<lambda>b. case getPrice (cfg_ChainId (Cfg s)) b of Inl _ \<Rightarrow> None | Inr p \<Rightarrow> Some p)
       (GetDexBatches True s)"

section \<open>Receipts for our own batch\<close>

text \<open>The receipt of an order is what the counter chain paid for it; zero means that it failed.\<close>

definition settle_order :: "u64 \<Rightarrow> u64 \<Rightarrow> DexLimitOrder \<times> u64 \<Rightarrow> u64 \<times> u64 \<Rightarrow> (u64 \<times> u64) fsm" where
  "settle_order committee chainId = (\<lambda>(order, dY) (x, y).
     bindE (PoolSub (chainId + HoldingPoolAddend) (dlo_AmountForSale order)) (\<lambda>_.
     bindE (if dY \<noteq> 0 then
              if y \<le> dY then fail ErrRemotePoolSizeDebit
              else bindE (PoolAdd (chainId + LiquidityPoolAddend) (dlo_AmountForSale order)) (\<lambda>_.
                ok (x + dlo_AmountForSale order, y - dY))
            else bindE (AccountAdd (dlo_Address order) (dlo_AmountForSale order)) (\<lambda>_. ok (x, y))) (\<lambda>xy.
     bindE (addEvent (EventDexSwap (dlo_AmountForSale order) dY True (dY \<noteq> 0) (dlo_OrderId order))
         (dlo_Address order) committee) (\<lambda>_.
       ok xy))))"

definition HandleOrderReceipts ::
  "DexBatch \<Rightarrow> DexBatch \<Rightarrow> u64 \<Rightarrow> u64 \<Rightarrow> u64 \<Rightarrow> (u64 \<times> u64) fsm" where
  "HandleOrderReceipts localBatch remoteBatch chainId x y =
     fold_op (settle_order (db_Committee localBatch) chainId)
       (zip (db_Orders localBatch) (db_Receipts remoteBatch)) (x, y)"

text \<open>
  The result says whether our batch stays locked, and carries the mirror of the counter pool.  When
  the receipts do not belong to our batch, nothing happens: the counter chain has not seen it yet.
\<close>

definition HandleReceiptsForOurLockedBatch ::
  "DexBatch \<Rightarrow> u64 \<Rightarrow> u64 \<Rightarrow> (bool \<times> u64) fsm" where
  "HandleReceiptsForOurLockedBatch remoteBatch mirror counterChainId =
     bindE (reads (\<lambda>s. (Cfg s, GetDexBatch counterChainId True False s))) (\<lambda>(cfg, localBatch).
       if DexBatch_IsEmpty localBatch then ok (False, mirror)
       else if db_ReceiptHash remoteBatch \<noteq> DexBatch_Hash cfg localBatch
          \<or> length (db_Orders localBatch) \<noteq> length (db_Receipts remoteBatch) then ok (True, mirror)
       else
         bindE (reads (GetPoolBalance (counterChainId + LiquidityPoolAddend))) (\<lambda>localPoolSize.
         bindE (HandleOrderReceipts localBatch remoteBatch counterChainId localPoolSize mirror) (\<lambda>(x, y).
         bindE (HandleBatchWithdraw (db_Withdrawals localBatch) counterChainId x y True) (\<lambda>(x, y).
         bindE (HandleBatchDeposit (db_Deposits localBatch) counterChainId x y True) (\<lambda>(x, y).
         bindE (DeleteLockedBatch counterChainId) (\<lambda>_.
           ok (False, y)))))))"

section \<open>The batch of the counter chain\<close>

definition HandleRemoteChainLockedBatch ::
  "(u64 \<Rightarrow> bytes option) \<Rightarrow> DexBatch \<Rightarrow> u64 \<Rightarrow> u64 \<Rightarrow> (u64 list \<times> u64) fsm" where
  "HandleRemoteChainLockedBatch hashAt remoteBatch mirror chainId =
     bindE (reads (GetPoolBalance (chainId + LiquidityPoolAddend))) (\<lambda>localPoolSize.
     bindE (HandleDexBatchOrders hashAt (db_Orders remoteBatch) mirror localPoolSize chainId) (\<lambda>(receipts, x, y).
     bindE (HandleBatchWithdraw (db_Withdrawals remoteBatch) chainId x y False) (\<lambda>(x, y).
     bindE (HandleBatchDeposit (db_Deposits remoteBatch) chainId x y False) (\<lambda>(x, y).
       ok (receipts, x)))))"

definition RotateDexBatches :: "bytes \<Rightarrow> u64 \<Rightarrow> u64 \<Rightarrow> u64 \<Rightarrow> u64 list \<Rightarrow> unit fsm" where
  "RotateDexBatches receiptsHash lPoolSize counterPoolSize chainId receipts =
     bindE (reads (GetDexBatch chainId True False)) (\<lambda>lockedBatch.
       if \<not> DexBatch_IsEmpty lockedBatch then ok ()
       else
         bindE (reads (\<lambda>s. (Height s, GetDexBatch chainId False False s))) (\<lambda>(height, next).
           let next' = next\<lparr>db_PoolSize := lPoolSize, db_ReceiptHash := receiptsHash,
             db_CounterPoolSize := counterPoolSize, db_LockedHeight := height,
             db_Receipts := (if length receipts \<noteq> 0 then receipts else db_Receipts next)\<rparr> in
           bindE (DeleteNextBatch chainId) (\<lambda>_. SetLockedBatch chainId next')))"

text \<open>
  \<open>cached\<close> tells whether the remote batch is the object in the cache of the state machine, which
  \<open>Hash\<close> then writes to.
\<close>

definition HandleRemoteDexBatch ::
  "(u64 \<Rightarrow> bytes option) \<Rightarrow> bool \<Rightarrow> DexBatch \<Rightarrow> u64 \<Rightarrow> unit fsm" where
  "HandleRemoteDexBatch hashAt cached remoteBatch chainId =
     (let remoteBatchCopy = DexBatch_Copy remoteBatch; mirror = db_PoolSize remoteBatch;
          rotate = (\<lambda>receipts midPointPoolSize mirror.
            bindE (reads Cfg) (\<lambda>cfg.
            bindE (if cached then writes (\<lambda>s. s\<lparr>cache_rootDexBatch := Some (mark_empty remoteBatch)\<rparr>)
                   else ok ()) (\<lambda>_.
              RotateDexBatches
                (if db_LivenessFallback remoteBatch
                 then DexBatch_Hash cfg ((DexBatch_Copy (mark_empty remoteBatch))\<lparr>db_LivenessFallback := False\<rparr>)
                 else DexBatch_Hash cfg remoteBatch) midPointPoolSize mirror chainId receipts))) in
      bindE (reads (GetPoolBalance (chainId + LiquidityPoolAddend))) (\<lambda>midPointPoolSize.
        if DexBatch_IsEmpty remoteBatch then rotate [] midPointPoolSize mirror
        else
          bindE (HandleReceiptsForOurLockedBatch remoteBatchCopy mirror chainId) (\<lambda>(locked, mirror).
            if locked then ok ()
            else
              bindE (reads (GetPoolBalance (chainId + LiquidityPoolAddend))) (\<lambda>midPointPoolSize.
              bindE (HandleRemoteChainLockedBatch hashAt remoteBatchCopy mirror chainId) (\<lambda>(receipts, mirror).
                rotate receipts midPointPoolSize mirror)))))"

section \<open>Liveness fallback\<close>

definition refund :: "u64 \<Rightarrow> address \<times> u64 \<Rightarrow> unit fsm" where
  "refund rcId = (\<lambda>(a, n).
     bindE (PoolSub (rcId + HoldingPoolAddend) n) (\<lambda>_. AccountAdd a n))"

definition HandleLivenessFallback :: "u64 \<Rightarrow> DexBatch \<Rightarrow> DexBatch \<Rightarrow> unit fsm" where
  "HandleLivenessFallback rcId localBatch remoteBatch =
     bindE (for_op (refund rcId)
       (map (\<lambda>order. (dlo_Address order, dlo_AmountForSale order)) (db_Orders localBatch))) (\<lambda>_.
     bindE (for_op (refund rcId)
       (map (\<lambda>deposit. (dld_Address deposit, dld_Amount deposit)) (db_Deposits localBatch))) (\<lambda>_.
     bindE (SetPoolPoints (rcId + LiquidityPoolAddend) (db_PoolPoints remoteBatch)
       (db_TotalPoolPoints remoteBatch)) (\<lambda>_.
       SetLockedBatch rcId empty_batch)))"

section \<open>The handler\<close>

text \<open>
  A nested chain works against its root: it takes the batch that the controller put in the cache,
  unless the certificate carries a liveness fallback.
\<close>

definition HandleDexBatch ::
  "(u64 \<Rightarrow> bytes option) \<Rightarrow> u64 \<Rightarrow> CertificateResult \<Rightarrow> bool \<Rightarrow> unit fsm" where
  "HandleDexBatch hashAt chainId results isNested =
     bindE (if isNested then GetRootChainId else ok chainId) (\<lambda>chainId.
     bindE (reads cache_rootDexBatch) (\<lambda>cache.
       let remote = (if isNested then
             (case cr_RootDexBatch results of
                None \<Rightarrow> None
              | Some b \<Rightarrow> if db_LivenessFallback b then Some b else cache)
           else cr_DexBatch results);
         cached = (isNested \<and> \<not> (case cr_RootDexBatch results of
           None \<Rightarrow> False | Some b \<Rightarrow> db_LivenessFallback b)) in
       bindE (reads (GetPoolBalance (chainId + LiquidityPoolAddend))) (\<lambda>liqPoolSize.
         case remote of
           None \<Rightarrow> ok ()
         | Some remoteBatch \<Rightarrow>
             if liqPoolSize = 0 then ok ()
             else
               bindE (reads (GetDexBatch chainId True False)) (\<lambda>localBatch.
               bindE (if db_LivenessFallback remoteBatch
                      then HandleLivenessFallback chainId localBatch remoteBatch else ok ()) (\<lambda>_.
                 HandleRemoteDexBatch hashAt cached remoteBatch chainId)))))"

section \<open>Same-block inclusion\<close>

definition canMove :: "nat \<Rightarrow> nat \<Rightarrow> nat \<Rightarrow> nat" where
  "canMove lockedLen nextLen mx =
     (if nextLen = 0 \<or> mx \<le> lockedLen then 0
      else if nextLen < mx - lockedLen then nextLen else mx - lockedLen)"

definition include_batch :: "u64 \<times> DexBatch \<Rightarrow> unit fsm" where
  "include_batch = (\<lambda>(k, dexBatch).
     bindE (reads (\<lambda>s. (Height s, GetDexBatch (db_Committee dexBatch) False False s))) (\<lambda>(height, next).
       if db_LockedHeight dexBatch \<noteq> height then ok ()
       else
         let no = canMove (length (db_Orders dexBatch)) (length (db_Orders next)) MaxOrdersPerDexBatch;
             nd = canMove (length (db_Deposits dexBatch)) (length (db_Deposits next)) MaxDepositsPerDexBatch;
             nw = canMove (length (db_Withdrawals dexBatch)) (length (db_Withdrawals next))
               MaxWithdrawsPerDexBatch;
             dexBatch' = dexBatch\<lparr>db_Orders := db_Orders dexBatch @ take no (db_Orders next),
               db_Deposits := db_Deposits dexBatch @ take nd (db_Deposits next),
               db_Withdrawals := db_Withdrawals dexBatch @ take nw (db_Withdrawals next)\<rparr>;
             next' = next\<lparr>db_Orders := drop no (db_Orders next),
               db_Deposits := drop nd (db_Deposits next),
               db_Withdrawals := drop nw (db_Withdrawals next)\<rparr> in
         if no = 0 \<and> nd = 0 \<and> nw = 0 then ok ()
         else bindE (SetLockedBatch k dexBatch') (\<lambda>_.
           if length (db_Orders next') = 0 \<and> length (db_Deposits next') = 0
             \<and> length (db_Withdrawals next') = 0
           then DeleteNextBatch (db_Committee dexBatch)
           else SetNextBatch (db_Committee dexBatch) next')))"

definition IncludeSameBlockDex :: "unit fsm" where
  "IncludeSameBlockDex = bindE (reads lockedBatches) (\<lambda>entries. for_op include_batch entries)"

section \<open>Messages\<close>

definition HandleMessageDexLimitOrder :: "MessageDexLimitOrder \<Rightarrow> unit fsm" where
  "HandleMessageDexLimitOrder msg =
     bindE (reads (\<lambda>s. (cfg_ChainId (Cfg s), GetDexBatch (mdl_ChainId msg) False False s))) (\<lambda>(self, batch).
       if db_PoolSize batch = 0 \<or> self = mdl_ChainId msg then fail ErrInvalidLiquidityPool
       else if MaxOrdersPerDexBatch \<le> length (db_Orders batch) then fail ErrMaxDexBatchSize
       else
         bindE (AccountSub (mdl_Address msg) (mdl_AmountForSale msg)) (\<lambda>_.
         bindE (PoolAdd (mdl_ChainId msg + HoldingPoolAddend) (mdl_AmountForSale msg)) (\<lambda>_.
           SetNextBatch (mdl_ChainId msg) (batch\<lparr>db_Orders := db_Orders batch @
             [\<lparr>dlo_AmountForSale = mdl_AmountForSale msg, dlo_RequestedAmount = mdl_RequestedAmount msg,
               dlo_Address = mdl_Address msg, dlo_OrderId = mdl_OrderId msg\<rparr>]\<rparr>))))"

definition HandleMessageDexLiquidityDeposit :: "MessageDexLiquidityDeposit \<Rightarrow> unit fsm" where
  "HandleMessageDexLiquidityDeposit msg =
     bindE (reads (\<lambda>s. (cfg_ChainId (Cfg s), GetDexBatch (mdd_ChainId msg) False False s,
         GetPool (mdd_ChainId msg + LiquidityPoolAddend) s))) (\<lambda>(self, batch, lPool).
       if pool_Amount lPool = 0 \<or> self = mdd_ChainId msg
          \<or> MaxLiquidityProviders \<le> length (pool_Points lPool) then fail ErrInvalidLiquidityPool
       else if MaxDepositsPerDexBatch \<le> length (db_Deposits batch) then fail ErrMaxDexBatchSize
       else
         bindE (AccountSub (mdd_Address msg) (mdd_Amount msg)) (\<lambda>_.
         bindE (PoolAdd (mdd_ChainId msg + HoldingPoolAddend) (mdd_Amount msg)) (\<lambda>_.
           SetNextBatch (mdd_ChainId msg) (batch\<lparr>db_Deposits := db_Deposits batch @
             [\<lparr>dld_Address = mdd_Address msg, dld_Amount = mdd_Amount msg, dld_OrderId = mdd_OrderId msg\<rparr>]\<rparr>))))"

definition HandleMessageDexLiquidityWithdraw :: "MessageDexLiquidityWithdraw \<Rightarrow> unit fsm" where
  "HandleMessageDexLiquidityWithdraw msg =
     bindE (reads (\<lambda>s. (cfg_ChainId (Cfg s), GetDexBatch (mdw_ChainId msg) False False s,
         GetPool (mdw_ChainId msg + LiquidityPoolAddend) s))) (\<lambda>(self, batch, p).
       if db_PoolSize batch = 0 \<or> self = mdw_ChainId msg then fail ErrInvalidLiquidityPool
       else if MaxWithdrawsPerDexBatch \<le> length (db_Withdrawals batch) then fail ErrMaxDexBatchSize
       else case GetPointsFor (mdw_Address msg) p of
         Inl e \<Rightarrow> fail e
       | Inr _ \<Rightarrow> SetNextBatch (mdw_ChainId msg) (batch\<lparr>db_Withdrawals := db_Withdrawals batch @
           [\<lparr>dlw_Address = mdw_Address msg, dlw_Percent = mdw_Percent msg, dlw_OrderId = mdw_OrderId msg\<rparr>]\<rparr>))"


section \<open>Well-formed batches\<close>

definition batch_ok :: "address set \<Rightarrow> DexBatch \<Rightarrow> bool" where
  "batch_ok A b \<longleftrightarrow> (\<forall>x \<in> set (db_Orders b). dlo_Address x \<in> A) \<and>
     (\<forall>x \<in> set (db_Deposits b). dld_Address x \<in> A) \<and>
     (\<forall>x \<in> set (db_Withdrawals b). dlw_Address x \<in> A \<and> dlw_Percent x \<le> 100)"

definition batches_ok :: "address set \<Rightarrow> StateMachine \<Rightarrow> bool" where
  "batches_ok A s \<longleftrightarrow> kv_wf (lockedBatches s) \<and> kv_wf (nextBatches s) \<and>
     (\<forall>c b. kv_get (lockedBatches s) c = Some b \<longrightarrow> batch_ok A b) \<and>
     (\<forall>c b. kv_get (nextBatches s) c = Some b \<longrightarrow> batch_ok A b)"

text \<open>The invariant of the exchange.\<close>

definition dex_ok :: "entry set \<Rightarrow> address set \<Rightarrow> StateMachine \<Rightarrow> bool" where
  "dex_ok E A s \<longleftrightarrow> books_on E A s \<and> liquid s \<and> batches_ok A s"

lemma batch_ok_empty [simp]: "batch_ok A empty_batch"
  by (simp add: batch_ok_def empty_batch_def)

lemma batch_ok_simps [simp]:
  "batch_ok A (b\<lparr>db_PoolSize := n\<rparr>) = batch_ok A b" "batch_ok A (b\<lparr>db_ReceiptHash := h\<rparr>) = batch_ok A b"
  "batch_ok A (b\<lparr>db_CounterPoolSize := n\<rparr>) = batch_ok A b" "batch_ok A (b\<lparr>db_LockedHeight := n\<rparr>) = batch_ok A b"
  "batch_ok A (b\<lparr>db_Receipts := rs\<rparr>) = batch_ok A b" "batch_ok A (b\<lparr>db_Committee := n\<rparr>) = batch_ok A b"
  "batch_ok A (DexBatch_Copy b) = batch_ok A b"
  by (simp_all add: batch_ok_def DexBatch_Copy_def)

lemma GetDexBatch_ok: "batches_ok A s \<Longrightarrow> batch_ok A (GetDexBatch c l False s)"
  by (auto simp: GetDexBatch_def Let_def batches_ok_def split: option.split)

lemma batches_ok_cong:
  "lockedBatches t = lockedBatches s \<Longrightarrow> nextBatches t = nextBatches s \<Longrightarrow> batches_ok A t = batches_ok A s"
  by (simp add: batches_ok_def)

text \<open>Writing and deleting batches.\<close>

lemma books_batches [simp]:
  "books_on E A (s\<lparr>lockedBatches := x\<rparr>) = books_on E A s" "liquid (s\<lparr>lockedBatches := x\<rparr>) = liquid s"
  "books_on E A (s\<lparr>nextBatches := y\<rparr>) = books_on E A s" "liquid (s\<lparr>nextBatches := y\<rparr>) = liquid s"
  "books_on E A (s\<lparr>cache_rootDexBatch := z\<rparr>) = books_on E A s" "liquid (s\<lparr>cache_rootDexBatch := z\<rparr>) = liquid s"
  "total_supply (s\<lparr>lockedBatches := x\<rparr>) = total_supply s" "total_supply (s\<lparr>nextBatches := y\<rparr>) = total_supply s"
  "total_supply (s\<lparr>cache_rootDexBatch := z\<rparr>) = total_supply s"
  by (simp_all add: books_on_def total_supply_def liquid_def GetPool_def funds_ok_def accounts_ok_def
      stored_account_def held_def account_total_def pool_total_def stake_total_def
      ledger_on_cong [of "s\<lparr>lockedBatches := x\<rparr>" s] ledger_on_cong [of "s\<lparr>nextBatches := y\<rparr>" s]
      ledger_on_cong [of "s\<lparr>cache_rootDexBatch := z\<rparr>" s])

lemma write_batch:
  assumes "dex_ok E A s"
  shows "batch_ok A b \<Longrightarrow> SetLockedBatch c b s = (t, r) \<Longrightarrow> dex_ok E A t \<and> total_supply t = total_supply s"
    and "batch_ok A b \<Longrightarrow> SetNextBatch c b s = (t, r) \<Longrightarrow> dex_ok E A t \<and> total_supply t = total_supply s"
    and "DeleteLockedBatch c s = (t, r) \<Longrightarrow> dex_ok E A t \<and> total_supply t = total_supply s"
    and "DeleteNextBatch c s = (t, r) \<Longrightarrow> dex_ok E A t \<and> total_supply t = total_supply s"
  using assms by (auto simp: SetLockedBatch_def SetNextBatch_def DeleteLockedBatch_def DeleteNextBatch_def
      writes_apply dex_ok_def batches_ok_def kv_get_set kv_wf_set kv_get_del kv_wf_del split: if_split_asm)

section \<open>Settling our own batch\<close>

text \<open>Moving tokens from one pool to another.\<close>

lemma pool_pool_books:
  assumes ok: "books_on E A s" and ij: "i \<noteq> j"
    and t: "bindE (PoolSub i n) (\<lambda>_. PoolAdd j n) s = (t, Inr ())"
  shows "books_on E A t" and "total_supply t = total_supply s"
    and "pool_balance k t + (if k = i then unat n else 0) = pool_balance k s + (if k = j then unat n else 0)"
proof -
  obtain u where u: "PoolSub i n s = (u, Inr ())" "PoolAdd j n u = (t, Inr ())"
    using t by (auto elim: bindE_okE)
  note keep = PoolSub_keeps [OF u(1)] PoolAdd_keeps [OF u(2)]
  have s_ok: "funds_ok A s" "ledger_on E s" "held s = total_supply s" "kv_wf (pools s)"
    using ok by (simp_all add: books_on_def funds_ok_def)
  have cap: "held s < 18446744073709551616" using total_supply_less s_ok(3) by simp
  have st: "supplyTracker t = supplyTracker s" "validators t = validators s" using keep by simp_all
  note tr = pool_pool.transfer_conserves [OF s_ok(1) _ _ cap t]
  show tot: "total_supply t = total_supply s" by (rule total_supply_cong [OF st(1)])
  show "books_on E A t"
    using tr ledger_on_cong [OF st(2,1)] s_ok tot by (simp add: books_on_def)
  note sub = PoolSub_funds [OF s_ok(1) u(1)]
  have "pool_balance j u + unat n < 18446744073709551616"
    by (rule pool_room [OF sub(1)]) (use sub(2) cap in simp)
  moreover have "kv_wf (pools u)" using sub(1) by (simp add: funds_ok_def)
  ultimately show "pool_balance k t + (if k = i then unat n else 0) = pool_balance k s + (if k = j then unat n else 0)"
    using PoolSub_step(3) [OF s_ok(4) u(1), of k] PoolAdd_step(4) [of u j n t "Inr ()" k] u(2) ij by auto
qed

definition settling :: "entry set \<Rightarrow> address set \<Rightarrow> u64 \<Rightarrow> StateMachine \<Rightarrow> u64 \<times> u64 \<Rightarrow> StateMachine \<Rightarrow> bool" where
  "settling E A c s = (\<lambda>(x, y) u. books_on E A u \<and> liquid u \<and> total_supply u = total_supply s \<and>
     unat x = pool_balance (c + LiquidityPoolAddend) u)"

lemma settle_order_step:
  assumes I: "settling E A c s xy u" and a: "dlo_Address (fst e) \<in> A"
    and t: "settle_order k c e xy u = (v, Inr xy')"
  shows "settling E A c s xy' v"
proof -
  obtain order dY x y where e: "e = (order, dY)" "xy = (x, y)" by (cases e; cases xy) auto
  let ?n = "dlo_AmountForSale order"
  have i: "books_on E A u" "liquid u" "total_supply u = total_supply s"
      "unat x = pool_balance (c + LiquidityPoolAddend) u"
    using I by (auto simp: settling_def e)
  obtain w z where w: "PoolSub (c + HoldingPoolAddend) ?n u = (w, Inr ())"
    and z: "(if dY \<noteq> 0 then if y \<le> dY then fail ErrRemotePoolSizeDebit
        else bindE (PoolAdd (c + LiquidityPoolAddend) ?n) (\<lambda>_. ok (x + ?n, y - dY))
      else bindE (AccountAdd (dlo_Address order) ?n) (\<lambda>_. ok (x, y))) w = (z, Inr xy')"
    and ev: "addEvent (EventDexSwap ?n dY True (dY \<noteq> 0) (dlo_OrderId order)) (dlo_Address order) k z = (v, Inr ())"
    using t unfolding settle_order_def e prod.case by (elim bindE_okE) auto
  obtain es where v: "v = z\<lparr>events := es\<rparr>" using addEvent_state [OF ev] by blast
  have "settling E A c s xy' z"
  proof (cases "dY = 0")
    case True
    then have xy: "xy' = (x, y)" and "AccountAdd (dlo_Address order) ?n w = (z, Inr ())"
      using z by (auto elim!: bindE_okE)
    with w have tr: "bindE (PoolSub (c + HoldingPoolAddend) ?n) (\<lambda>_. AccountAdd (dlo_Address order) ?n) u = (z, Inr ())"
      by (simp add: bindE_of_ok)
    have a': "dlo_Address order \<in> A" using a by (simp add: e)
    from pool_acct_books(1,2) [OF i(1) a' tr] pool_acct_books(4) [OF i(1) a' tr, of "c + LiquidityPoolAddend"]
      transfer_liquid(1) [OF i(1,2) tr] i pool_ids_differ [of c]
    show ?thesis by (auto simp: settling_def xy)
  next
    case False
    then have xy: "xy' = (x + ?n, y - dY)" and "PoolAdd (c + LiquidityPoolAddend) ?n w = (z, Inr ())"
      using z by (auto elim!: bindE_okE split: if_split_asm)
    with w have add: "PoolAdd (c + LiquidityPoolAddend) ?n w = (z, Inr ())"
      and tr: "bindE (PoolSub (c + HoldingPoolAddend) ?n) (\<lambda>_. PoolAdd (c + LiquidityPoolAddend) ?n) u = (z, Inr ())"
      by (simp_all add: bindE_of_ok)
    note b = pool_pool_books(1,2) [OF i(1) pool_ids_differ tr]
      pool_pool_books(3) [OF i(1) pool_ids_differ tr, of "c + LiquidityPoolAddend"]
    have wf: "kv_wf (pools u)" using i(1) by (simp add: books_on_def funds_ok_def)
    have "liquid z"
      using PoolAdd_liquid [OF PoolSub_liquid [OF i(2) wf w] PoolSub_step(1) [OF wf w] add] .
    moreover have bal: "pool_balance (c + LiquidityPoolAddend) z = unat x + unat ?n"
      using b(3) i(4) pool_ids_differ [of c] by auto
    moreover have "unat (x + ?n) = unat x + unat ?n"
      using bal unat_u64_less [of "pool_Amount (GetPool (c + LiquidityPoolAddend) z)"]
      by (intro unat_add_u64) (simp add: pool_balance_def)
    ultimately show ?thesis using b i by (simp add: settling_def xy)
  qed
  then show ?thesis by (auto simp: settling_def v split: prod.splits)
qed

lemma HandleOrderReceipts_books:
  assumes ok: "books_on E A s" "liquid s" and a: "batch_ok A localBatch"
    and x: "unat x = pool_balance (c + LiquidityPoolAddend) s"
    and t: "HandleOrderReceipts localBatch remoteBatch c x y s = (t, Inr (x', y'))"
  shows "books_on E A t" and "liquid t" and "total_supply t = total_supply s"
    and "unat x' = pool_balance (c + LiquidityPoolAddend) t"
proof -
  have "settling E A c s (x', y') t"
  proof (rule fold_op_inv [OF t [unfolded HandleOrderReceipts_def]])
    show "settling E A c s (x, y) s" using ok x by (simp add: settling_def)
    fix e xy u xy' v
    assume e: "e \<in> set (zip (db_Orders localBatch) (db_Receipts remoteBatch))" and I: "settling E A c s xy u"
      and t: "settle_order (db_Committee localBatch) c e xy u = (v, Inr xy')"
    from e have "fst e \<in> set (db_Orders localBatch)" by (metis prod.collapse set_zip_leftD)
    then have "dlo_Address (fst e) \<in> A" using a by (simp add: batch_ok_def)
    from settle_order_step [OF I this t] show "settling E A c s xy' v" .
  qed
  then show "books_on E A t" "liquid t" "total_supply t = total_supply s"
    "unat x' = pool_balance (c + LiquidityPoolAddend) t"
    by (auto simp: settling_def)
qed


section \<open>The life cycle keeps the invariant\<close>

lemma frame_batches [frame_rules]:
  "(\<And>s x. g (s\<lparr>lockedBatches := x\<rparr>) = g s) \<Longrightarrow> frame g (SetLockedBatch c b)"
  "(\<And>s x. g (s\<lparr>nextBatches := x\<rparr>) = g s) \<Longrightarrow> frame g (SetNextBatch c b)"
  "(\<And>s x. g (s\<lparr>lockedBatches := x\<rparr>) = g s) \<Longrightarrow> frame g (DeleteLockedBatch c)"
  "(\<And>s x. g (s\<lparr>nextBatches := x\<rparr>) = g s) \<Longrightarrow> frame g (DeleteNextBatch c)"
  unfolding SetLockedBatch_def SetNextBatch_def DeleteLockedBatch_def DeleteNextBatch_def
  by (intro frame_rules; simp)+

lemma frame_HandleOrderReceipts [frame_rules]:
  assumes "\<And>s x y. g (s\<lparr>cache_accounts := x, accounts := y\<rparr>) = g s"
    and "\<And>s x. g (s\<lparr>pools := x\<rparr>) = g s" and "\<And>s x. g (s\<lparr>events := x\<rparr>) = g s"
  shows "frame g (HandleOrderReceipts b b' c x y)"
  unfolding HandleOrderReceipts_def settle_order_def
  by (intro frame_rules; simp only: split_def; intro frame_rules assms)

lemma batches_frame:
  "frame lockedBatches m \<Longrightarrow> frame nextBatches m \<Longrightarrow> m s = (t, r) \<Longrightarrow> batches_ok A t = batches_ok A s"
  by (rule batches_ok_cong) (auto dest: frameD)

lemma batches_liquidity:
  "HandleOrderReceipts b b' c x y s = (t, r1) \<Longrightarrow> batches_ok A t = batches_ok A s"
  "HandleDexBatchOrders hashAt os x y c s = (t, r2) \<Longrightarrow> batches_ok A t = batches_ok A s"
  "HandleBatchWithdraw ws c x y l s = (t, r3) \<Longrightarrow> batches_ok A t = batches_ok A s"
  "HandleBatchDeposit ds c x y l s = (t, r3) \<Longrightarrow> batches_ok A t = batches_ok A s"
  by (rule batches_frame [where m = "HandleOrderReceipts b b' c x y"]
      batches_frame [where m = "HandleDexBatchOrders hashAt os x y c"]
      batches_frame [where m = "HandleBatchWithdraw ws c x y l"]
      batches_frame [where m = "HandleBatchDeposit ds c x y l"]; (intro frame_rules; simp)?; assumption?)+

lemma receipts_keep:
  assumes ok: "dex_ok E A s" and t: "HandleReceiptsForOurLockedBatch remote m c s = (t, Inr (locked, m'))"
  shows "dex_ok E A t" and "total_supply t = total_supply s"
proof -
  let ?b = "GetDexBatch c True False s"
  have s_ok: "books_on E A s" "liquid s" "batches_ok A s" using ok by (simp_all add: dex_ok_def)
  have b: "batch_ok A ?b" by (rule GetDexBatch_ok [OF s_ok(3)])
  have "dex_ok E A t \<and> total_supply t = total_supply s"
  proof (cases "t = s")
    case True
    with ok show ?thesis by simp
  next
    case False
    let ?x = "GetPoolBalance (c + LiquidityPoolAddend) s"
    have "bindE (HandleOrderReceipts ?b remote c ?x m) (\<lambda>(x, y).
        bindE (HandleBatchWithdraw (db_Withdrawals ?b) c x y True) (\<lambda>(x, y).
        bindE (HandleBatchDeposit (db_Deposits ?b) c x y True) (\<lambda>(x, y).
        bindE (DeleteLockedBatch c) (\<lambda>_. ok (False, y))))) s = (t, Inr (locked, m'))"
      using t False by (auto simp: HandleReceiptsForOurLockedBatch_def bindE_reads split: if_split_asm)
    then obtain u x y v x1 y1 w x2 y2 where u: "HandleOrderReceipts ?b remote c ?x m s = (u, Inr (x, y))"
      and v: "HandleBatchWithdraw (db_Withdrawals ?b) c x y True u = (v, Inr (x1, y1))"
      and w: "HandleBatchDeposit (db_Deposits ?b) c x1 y1 True v = (w, Inr (x2, y2))"
      and d: "DeleteLockedBatch c w = (t, Inr ())"
      by (elim bindE_okE) (auto elim!: bindE_okE split: prod.splits)
    have F: "batches_ok A u = batches_ok A s" "batches_ok A v = batches_ok A u" "batches_ok A w = batches_ok A v"
      using batches_liquidity(1) [OF u] batches_liquidity(3) [OF v] batches_liquidity(4) [OF w] by blast+
    have "unat ?x = pool_balance (c + LiquidityPoolAddend) s"
      by (simp add: GetPoolBalance_def pool_balance_def)
    note U = HandleOrderReceipts_books [OF s_ok(1,2) b this u]
    have wi: "\<forall>w \<in> set (db_Withdrawals ?b). dlw_Address w \<in> A \<and> dlw_Percent w \<le> 100"
      using b by (simp add: batch_ok_def)
    have "unat (if True then x else y) = pool_balance (c + LiquidityPoolAddend) u" using U(4) by simp
    note V = HandleBatchWithdraw_books [OF U(1,2) wi this v]
    note W = HandleBatchDeposit_books [OF V(1,2,4) w]
    have "dex_ok E A w" using W(1,2) F s_ok(3) by (simp add: dex_ok_def)
    from write_batch(3) [OF this d] U(3) V(3) W(3) show ?thesis by simp
  qed
  then show "dex_ok E A t" "total_supply t = total_supply s" by auto
qed

text \<open>What is asked of a batch that arrives from outside.\<close>

definition remote_ok :: "address set \<Rightarrow> DexBatch \<Rightarrow> bool" where
  "remote_ok A b \<longleftrightarrow> batch_ok A b \<and> length (db_Orders b) < 18446744073709551616 \<and>
     (db_LivenessFallback b \<longrightarrow> points_total (db_PoolPoints b) = unat (db_TotalPoolPoints b))"

lemma remote_batch_keep:
  assumes ok: "dex_ok E A s" and b: "remote_ok A b" and inj: "keys_apart (Cfg s)"
    and t: "HandleRemoteChainLockedBatch hashAt b m c s = (t, Inr (rs, m'))"
  shows "dex_ok E A t" and "total_supply t = total_supply s" and "length rs = length (db_Orders b)"
proof -
  have s_ok: "books_on E A s" "liquid s" "batches_ok A s" using ok by (simp_all add: dex_ok_def)
  let ?y = "GetPoolBalance (c + LiquidityPoolAddend) s"
  have "bindE (HandleDexBatchOrders hashAt (db_Orders b) m ?y c) (\<lambda>(receipts, x, y).
      bindE (HandleBatchWithdraw (db_Withdrawals b) c x y False) (\<lambda>(x, y).
      bindE (HandleBatchDeposit (db_Deposits b) c x y False) (\<lambda>(x, y). ok (receipts, x)))) s = (t, Inr (rs, m'))"
    using t by (simp add: HandleRemoteChainLockedBatch_def bindE_reads)
  then obtain u x y v x1 y1 x2 y2 where u: "HandleDexBatchOrders hashAt (db_Orders b) m ?y c s = (u, Inr (rs, x, y))"
    and v: "HandleBatchWithdraw (db_Withdrawals b) c x y False u = (v, Inr (x1, y1))"
    and w: "HandleBatchDeposit (db_Deposits b) c x1 y1 False v = (t, Inr (x2, y2))"
    by (elim bindE_okE) (auto elim!: bindE_okE split: prod.splits)
  have F: "batches_ok A u = batches_ok A s" "batches_ok A v = batches_ok A u" "batches_ok A t = batches_ok A v"
    using batches_liquidity(2) [OF u] batches_liquidity(3) [OF v] batches_liquidity(4) [OF w] by blast+
  have a: "\<forall>order \<in> set (db_Orders b). dlo_Address order \<in> A"
    and wi: "\<forall>w \<in> set (db_Withdrawals b). dlw_Address w \<in> A \<and> dlw_Percent w \<le> 100"
    and len: "length (db_Orders b) < 18446744073709551616"
    using b by (simp_all add: remote_ok_def batch_ok_def)
  have y: "unat ?y = pool_balance (c + LiquidityPoolAddend) s"
    by (simp add: GetPoolBalance_def pool_balance_def)
  note U = HandleDexBatchOrders_books [OF s_ok(1,2) a CopyOrders_distinct [OF inj len] y u]
  have "unat (if False then x else y) = pool_balance (c + LiquidityPoolAddend) u" using U(5) by simp
  note V = HandleBatchWithdraw_books [OF U(1,2) wi this v]
  note W = HandleBatchDeposit_books [OF V(1,2,4) w]
  show "dex_ok E A t" using W(1,2) F s_ok(3) by (simp add: dex_ok_def)
  show "total_supply t = total_supply s" using U(3) V(3) W(3) by simp
  show "length rs = length (db_Orders b)" by (rule U(4))
qed

lemma rotate_keep:
  assumes ok: "dex_ok E A s" and t: "RotateDexBatches h n m c rs s = (t, r)"
  shows "dex_ok E A t" and "total_supply t = total_supply s" and "r = Inr ()"
proof -
  have "dex_ok E A t \<and> total_supply t = total_supply s \<and> r = Inr ()"
  proof (cases "DexBatch_IsEmpty (GetDexBatch c True False s)")
    case False
    with t ok show ?thesis by (simp add: RotateDexBatches_def bindE_reads ok_apply)
  next
    case True
    obtain u where u: "DeleteNextBatch c s = (u, Inr ())" by (simp add: DeleteNextBatch_def writes_apply)
    have run: "SetLockedBatch c ((GetDexBatch c False False s)\<lparr>db_PoolSize := n, db_ReceiptHash := h,
        db_CounterPoolSize := m, db_LockedHeight := Height s,
        db_Receipts := (if length rs \<noteq> 0 then rs else db_Receipts (GetDexBatch c False False s))\<rparr>) u = (t, r)"
      using t True by (simp add: RotateDexBatches_def bindE_reads bindE_of_ok [where m = "DeleteNextBatch c", OF u] Let_def)
    note d = write_batch(4) [OF ok u]
    have "batch_ok A (GetDexBatch c False False s)" using ok by (intro GetDexBatch_ok) (simp add: dex_ok_def)
    with write_batch(1) [OF conjunct1 [OF d] _ run] d run show ?thesis by (simp add: SetLockedBatch_def writes_apply)
  qed
  then show "dex_ok E A t" "total_supply t = total_supply s" "r = Inr ()" by auto
qed


text \<open>The steps before the rotation leave the configuration alone.\<close>

lemma frame_refund [frame_rules]:
  assumes "\<And>s x y. g (s\<lparr>cache_accounts := x, accounts := y\<rparr>) = g s" and "\<And>s x. g (s\<lparr>pools := x\<rparr>) = g s"
  shows "frame g (refund c e)"
  unfolding refund_def by (intro frame_rules assms)

lemma frame_exchange [frame_rules]:
  assumes "\<And>s x y. g (s\<lparr>cache_accounts := x, accounts := y\<rparr>) = g s"
    and "\<And>s x. g (s\<lparr>pools := x\<rparr>) = g s" and "\<And>s x. g (s\<lparr>events := x\<rparr>) = g s"
    and "\<And>s x. g (s\<lparr>lockedBatches := x\<rparr>) = g s"
  shows "frame g (HandleReceiptsForOurLockedBatch b m c)" "frame g (HandleRemoteChainLockedBatch hashAt b m c)"
    "frame g (HandleLivenessFallback c b b')"
  unfolding HandleReceiptsForOurLockedBatch_def HandleRemoteChainLockedBatch_def
    HandleLivenessFallback_def SetPoolPoints_def
  by (intro frame_rules assms)+

lemma frame_exchange_rotate [frame_rules]:
  assumes "\<And>s x y. g (s\<lparr>cache_accounts := x, accounts := y\<rparr>) = g s"
    and "\<And>s x. g (s\<lparr>pools := x\<rparr>) = g s" and "\<And>s x. g (s\<lparr>events := x\<rparr>) = g s"
    and "\<And>s x. g (s\<lparr>lockedBatches := x\<rparr>) = g s" and "\<And>s x. g (s\<lparr>nextBatches := x\<rparr>) = g s"
    and "\<And>s x. g (s\<lparr>cache_rootDexBatch := x\<rparr>) = g s"
  shows "frame g (RotateDexBatches h n m c rs)" "frame g (HandleRemoteDexBatch hashAt cached b c)"
    "frame g (HandleDexBatch hashAt c results nested)" "frame g IncludeSameBlockDex"
  unfolding HandleDexBatch_def HandleRemoteDexBatch_def RotateDexBatches_def Let_def GetRootChainId_def
    IncludeSameBlockDex_def include_batch_def
  by (intro frame_rules assms)+

lemma HandleRemoteDexBatch_keep:
  assumes ok: "dex_ok E A s" and b: "remote_ok A b" and inj: "keys_apart (Cfg s)"
    and t: "HandleRemoteDexBatch hashAt cached b c s = (t, Inr ())"
  shows "dex_ok E A t \<and> total_supply t = total_supply s"
proof -
  let ?l = "c + LiquidityPoolAddend"
  define rot where "rot = (\<lambda>rs n m. bindE (reads Cfg) (\<lambda>cfg.
      bindE (if cached then writes (\<lambda>s. s\<lparr>cache_rootDexBatch := Some (mark_empty b)\<rparr>) else ok ()) (\<lambda>_.
        RotateDexBatches (if db_LivenessFallback b
          then DexBatch_Hash cfg ((DexBatch_Copy (mark_empty b))\<lparr>db_LivenessFallback := False\<rparr>)
          else DexBatch_Hash cfg b) n m c rs)))"
  have rot: "dex_ok E A t \<and> total_supply t = total_supply u"
    if okr: "dex_ok E A u" and run: "rot rs n m u = (t, Inr ())" for u rs n m
  proof -
    obtain h u' where u': "u' = u \<or> u' = u\<lparr>cache_rootDexBatch := Some (mark_empty b)\<rparr>"
      and r: "RotateDexBatches h n m c rs u' = (t, Inr ())"
      using run unfolding rot_def
      by (cases cached) (auto simp: bindE_reads bindE_writes)
    have "dex_ok E A u'" "total_supply u' = total_supply u"
      using okr u' by (auto simp: dex_ok_def batches_ok_def)
    with rotate_keep [OF _ r] show ?thesis by simp
  qed
  show ?thesis
  proof (cases "DexBatch_IsEmpty b")
    case True
    with t have "rot [] (GetPoolBalance ?l s) (db_PoolSize b) s = (t, Inr ())"
      by (simp add: HandleRemoteDexBatch_def Let_def bindE_reads rot_def)
    from rot [OF ok this] show ?thesis .
  next
    case False
    have "bindE (HandleReceiptsForOurLockedBatch (DexBatch_Copy b) (db_PoolSize b) c) (\<lambda>(locked, m).
        if locked then ok () else bindE (reads (GetPoolBalance ?l)) (\<lambda>n.
          bindE (HandleRemoteChainLockedBatch hashAt (DexBatch_Copy b) m c) (\<lambda>(rs, m). rot rs n m))) s
      = (t, Inr ())"
      using t False unfolding rot_def HandleRemoteDexBatch_def Let_def by (simp add: bindE_reads [of "GetPoolBalance ?l" _ s])
    then obtain u locked m where u: "HandleReceiptsForOurLockedBatch (DexBatch_Copy b) (db_PoolSize b) c s = (u, Inr (locked, m))"
      and rest: "(if locked then ok () else bindE (reads (GetPoolBalance ?l)) (\<lambda>n.
          bindE (HandleRemoteChainLockedBatch hashAt (DexBatch_Copy b) m c) (\<lambda>(rs, m). rot rs n m))) u = (t, Inr ())"
      by (elim bindE_okE) (auto split: prod.splits)
    note U = receipts_keep [OF ok u]
    show ?thesis
    proof (cases locked)
      case True
      with rest U show ?thesis by simp
    next
      case nl: False
      from rest nl have "bindE (HandleRemoteChainLockedBatch hashAt (DexBatch_Copy b) m c)
          (\<lambda>(rs, m). rot rs (GetPoolBalance ?l u) m) u = (t, Inr ())"
        by (simp add: bindE_reads)
      then obtain v rs m' where v: "HandleRemoteChainLockedBatch hashAt (DexBatch_Copy b) m c u = (v, Inr (rs, m'))"
        and r: "rot rs (GetPoolBalance ?l u) m' v = (t, Inr ())"
        by (elim bindE_okE) (auto split: prod.splits)
      have "Cfg u = Cfg s"
        by (rule frameD [where m = "HandleReceiptsForOurLockedBatch (DexBatch_Copy b) (db_PoolSize b) c", OF _ u],
            intro frame_rules, simp_all)
      then have injv: "keys_apart (Cfg u)" using inj by simp
      have "remote_ok A (DexBatch_Copy b)"
        using b by (auto simp: remote_ok_def DexBatch_Copy_def batch_ok_def points_total_def)
      note V = remote_batch_keep [OF U(1) this injv v]
      from rot [OF V(1) r] V(2) U(2) show ?thesis by simp
    qed
  qed
qed

section \<open>The fallback keeps the invariant\<close>

lemma refunds_books:
  assumes "for_op (refund c) l s = (t, Inr ())" and "books_on E A s" and "liquid s"
    and "\<forall>e \<in> set l. fst e \<in> A"
  shows "books_on E A t \<and> liquid t \<and> total_supply t = total_supply s"
proof (rule for_op_inv [OF assms(1)])
  show "books_on E A s \<and> liquid s \<and> total_supply s = total_supply s" using assms(2,3) by simp
  fix e u v
  assume e: "e \<in> set l" and I: "books_on E A u \<and> liquid u \<and> total_supply u = total_supply s"
    and t: "refund c e u = (v, Inr ())"
  have a: "fst e \<in> A" using e assms(4) by blast
  have tr: "bindE (PoolSub (c + HoldingPoolAddend) (snd e)) (\<lambda>_. AccountAdd (fst e) (snd e)) u = (v, Inr ())"
    using t by (simp add: refund_def split: prod.splits)
  from pool_acct_books(1,2) [OF _ a tr, of E] transfer_liquid(1) [OF _ _ tr, of E A] I
  show "books_on E A v \<and> liquid v \<and> total_supply v = total_supply s" by auto
qed

lemma SetPoolPoints_keep:
  assumes ok: "books_on E A s" "liquid s" and pts: "points_total ps = unat n"
    and t: "SetPoolPoints i ps n s = (t, r)"
  shows "books_on E A t" and "liquid t" and "total_supply t = total_supply s"
proof -
  let ?p = "(GetPool i s)\<lparr>pool_Points := ps, TotalPoolPoints := n\<rparr>"
  have set: "SetPool ?p s = (t, r)" using t by (simp add: SetPoolPoints_def bindE_reads)
  have s_ok: "funds_ok A s" "ledger_on E s" "held s = total_supply s" "kv_wf (pools s)"
    using ok by (simp_all add: books_on_def funds_ok_def)
  note S = SetPool_step [OF s_ok(4) set]
  note only = pools_only [where m = "SetPool ?p", OF _ _ _ _ set]
  have o: "accounts_ok A t = accounts_ok A s" "account_total t = account_total s"
    "stake_total t = stake_total s" "validators t = validators s"
    by (rule only; intro frame_rules; simp)+
  have keep: "supplyTracker t = supplyTracker s"
    by (rule frameD [where m = "SetPool ?p", OF _ set], intro frame_rules, simp)
  have "pool_total t = pool_total s" using S(3) by (simp add: pool_balance_def)
  with o S(2) s_ok have "funds_ok A t" "held t = held s" by (auto simp: funds_ok_def held_def)
  then show "books_on E A t" "total_supply t = total_supply s"
    using ledger_on_cong [of t s E] o(4) keep s_ok by (simp_all add: books_on_def total_supply_def)
  show "liquid t"
    by (rule SetPool_liquid [OF ok(2) _ s_ok(4) set]) (use pts in \<open>simp add: points_ok_def\<close>)
qed

lemma HandleLivenessFallback_keep:
  assumes ok: "dex_ok E A s" and l: "batch_ok A local_b" and b: "remote_ok A b" "db_LivenessFallback b"
    and t: "HandleLivenessFallback c local_b b s = (t, Inr ())"
  shows "dex_ok E A t \<and> total_supply t = total_supply s"
proof -
  let ?o = "map (\<lambda>order. (dlo_Address order, dlo_AmountForSale order)) (db_Orders local_b)"
  let ?d = "map (\<lambda>deposit. (dld_Address deposit, dld_Amount deposit)) (db_Deposits local_b)"
  obtain u v w where u: "for_op (refund c) ?o s = (u, Inr ())" and v: "for_op (refund c) ?d u = (v, Inr ())"
    and w: "SetPoolPoints (c + LiquidityPoolAddend) (db_PoolPoints b) (db_TotalPoolPoints b) v = (w, Inr ())"
    and x: "SetLockedBatch c empty_batch w = (t, Inr ())"
    using t unfolding HandleLivenessFallback_def by (auto elim!: bindE_okE)
  have s_ok: "books_on E A s" "liquid s" "batches_ok A s" using ok by (simp_all add: dex_ok_def)
  have U: "books_on E A u \<and> liquid u \<and> total_supply u = total_supply s"
    by (rule refunds_books [OF u s_ok(1,2)]) (use l in \<open>auto simp: batch_ok_def\<close>)
  then have U': "books_on E A u" "liquid u" by auto
  have V: "books_on E A v \<and> liquid v \<and> total_supply v = total_supply u"
    by (rule refunds_books [OF v U']) (use l in \<open>auto simp: batch_ok_def\<close>)
  then have V': "books_on E A v" "liquid v" by auto
  have "points_total (db_PoolPoints b) = unat (db_TotalPoolPoints b)" using b by (simp add: remote_ok_def)
  note W = SetPoolPoints_keep [OF V' this w]
  have "batches_ok A u = batches_ok A s"
    by (rule batches_frame [where m = "for_op (refund c) ?o", OF _ _ u]; intro frame_for_op frame_refund; simp)
  moreover have "batches_ok A v = batches_ok A u"
    by (rule batches_frame [where m = "for_op (refund c) ?d", OF _ _ v]; intro frame_for_op frame_refund; simp)
  moreover have "batches_ok A w = batches_ok A v"
    by (rule batches_frame [where m = "SetPoolPoints (c + LiquidityPoolAddend) (db_PoolPoints b)
        (db_TotalPoolPoints b)", OF _ _ w]; unfold SetPoolPoints_def; intro frame_rules; simp)
  ultimately have F: "batches_ok A w" using s_ok(3) by simp
  with W have "dex_ok E A w" by (simp add: dex_ok_def)
  from write_batch(1) [OF this batch_ok_empty x] W(3) U V show ?thesis by simp
qed


definition results_ok :: "address set \<Rightarrow> CertificateResult \<Rightarrow> bool" where
  "results_ok A r \<longleftrightarrow> (\<forall>b. cr_DexBatch r = Some b \<longrightarrow> remote_ok A b) \<and>
     (\<forall>b. cr_RootDexBatch r = Some b \<longrightarrow> remote_ok A b)"

lemma HandleDexBatch_keep:
  assumes ok: "dex_ok E A s" and r: "results_ok A results"
    and cache: "\<And>b. cache_rootDexBatch s = Some b \<Longrightarrow> remote_ok A b" and inj: "keys_apart (Cfg s)"
    and t: "HandleDexBatch hashAt c results nested s = (t, Inr ())"
  shows "dex_ok E A t \<and> total_supply t = total_supply s"
proof -
  obtain root where root: "(if nested then GetRootChainId else ok c) s = (s, Inr root)"
    using t by (cases nested) (auto simp: HandleDexBatch_def GetRootChainId_def GetParamsCons_def op_simps
        split: option.splits)
  define remote where "remote = (if nested then
      (case cr_RootDexBatch results of None \<Rightarrow> None
       | Some b \<Rightarrow> if db_LivenessFallback b then Some b else cache_rootDexBatch s)
    else cr_DexBatch results)"
  show ?thesis
  proof (cases "remote = None \<or> GetPoolBalance (root + LiquidityPoolAddend) s = 0")
    case True
    with t root ok show ?thesis
      unfolding HandleDexBatch_def bindE_of_ok [where m = "if nested then GetRootChainId else ok c", OF root] Let_def
      by (cases remote) (simp_all add: bindE_reads remote_def [symmetric])
  next
    case False
    then obtain b where b: "remote = Some b" by auto
    have b_ok: "remote_ok A b"
      using b r cache by (auto simp: remote_def results_ok_def split: if_split_asm option.splits)
    let ?l = "GetDexBatch root True False s"
    obtain cached where "bindE (if db_LivenessFallback b then HandleLivenessFallback root ?l b else ok ())
        (\<lambda>_. HandleRemoteDexBatch hashAt cached b root) s = (t, Inr ())"
      using t False b unfolding HandleDexBatch_def bindE_of_ok [where m = "if nested then GetRootChainId else ok c", OF root] Let_def
      by (simp add: bindE_reads remote_def [symmetric])
    then obtain u where u: "(if db_LivenessFallback b then HandleLivenessFallback root ?l b else ok ()) s = (u, Inr ())"
      and h: "HandleRemoteDexBatch hashAt cached b root u = (t, Inr ())"
      by (rule bindE_okE) simp
    have l: "batch_ok A ?l" using ok by (intro GetDexBatch_ok) (simp add: dex_ok_def)
    have U: "dex_ok E A u \<and> total_supply u = total_supply s"
      using u HandleLivenessFallback_keep [OF ok l b_ok, of root u] ok by (auto split: if_split_asm)
    have "frame Cfg (if db_LivenessFallback b then HandleLivenessFallback root ?l b else ok ())"
      by (intro frame_rules; simp)
    from frameD [where m = "if db_LivenessFallback b then HandleLivenessFallback root ?l b else ok ()", OF this u] inj
    have "keys_apart (Cfg u)" by simp
    from HandleRemoteDexBatch_keep [OF _ b_ok this h, of E] U show ?thesis by simp
  qed
qed

section \<open>Same-block inclusion\<close>

lemma canMove_eq: "canMove l n m = min n (m - l)"
  by (auto simp: canMove_def)

lemma batch_ok_split:
  "batch_ok A b \<Longrightarrow> batch_ok A n \<Longrightarrow> batch_ok A (b\<lparr>db_Orders := db_Orders b @ take i (db_Orders n),
     db_Deposits := db_Deposits b @ take j (db_Deposits n),
     db_Withdrawals := db_Withdrawals b @ take k (db_Withdrawals n)\<rparr>)"
  "batch_ok A n \<Longrightarrow> batch_ok A (n\<lparr>db_Orders := drop i (db_Orders n),
     db_Deposits := drop j (db_Deposits n), db_Withdrawals := drop k (db_Withdrawals n)\<rparr>)"
  by (auto simp: batch_ok_def dest: in_set_takeD in_set_dropD)

text \<open>The outcome of one step: nothing, or some operations moved from the front of the next batch.\<close>

lemma include_batch_cases:
  assumes "include_batch (k, b) s = (t, r)"
  defines "n \<equiv> GetDexBatch (db_Committee b) False False s"
  obtains (same) "t = s" "r = Inr ()"
  | (moved) i j l b' n' where "r = Inr ()" "i = min (length (db_Orders n)) (MaxOrdersPerDexBatch - length (db_Orders b))"
    "j = min (length (db_Deposits n)) (MaxDepositsPerDexBatch - length (db_Deposits b))"
    "l = min (length (db_Withdrawals n)) (MaxWithdrawsPerDexBatch - length (db_Withdrawals b))"
    "i \<noteq> 0 \<or> j \<noteq> 0 \<or> l \<noteq> 0"
    "b' = b\<lparr>db_Orders := db_Orders b @ take i (db_Orders n), db_Deposits := db_Deposits b @ take j (db_Deposits n),
      db_Withdrawals := db_Withdrawals b @ take l (db_Withdrawals n)\<rparr>"
    "n' = n\<lparr>db_Orders := drop i (db_Orders n), db_Deposits := drop j (db_Deposits n),
      db_Withdrawals := drop l (db_Withdrawals n)\<rparr>"
    "t = s\<lparr>lockedBatches := kv_set k b' (lockedBatches s), nextBatches :=
      (if db_Orders n' = [] \<and> db_Deposits n' = [] \<and> db_Withdrawals n' = []
       then kv_del (db_Committee b) (nextBatches s) else kv_set (db_Committee b) n' (nextBatches s))\<rparr>"
proof -
  let ?i = "min (length (db_Orders n)) (MaxOrdersPerDexBatch - length (db_Orders b))"
  let ?j = "min (length (db_Deposits n)) (MaxDepositsPerDexBatch - length (db_Deposits b))"
  let ?l = "min (length (db_Withdrawals n)) (MaxWithdrawsPerDexBatch - length (db_Withdrawals b))"
  let ?b = "b\<lparr>db_Orders := db_Orders b @ take ?i (db_Orders n),
    db_Deposits := db_Deposits b @ take ?j (db_Deposits n),
    db_Withdrawals := db_Withdrawals b @ take ?l (db_Withdrawals n)\<rparr>"
  let ?n = "n\<lparr>db_Orders := drop ?i (db_Orders n), db_Deposits := drop ?j (db_Deposits n),
    db_Withdrawals := drop ?l (db_Withdrawals n)\<rparr>"
  have run: "(if db_LockedHeight b \<noteq> Height s then ok ()
      else if ?i = 0 \<and> ?j = 0 \<and> ?l = 0 then ok ()
      else bindE (SetLockedBatch k ?b) (\<lambda>_.
        if length (db_Orders ?n) = 0 \<and> length (db_Deposits ?n) = 0 \<and> length (db_Withdrawals ?n) = 0
        then DeleteNextBatch (db_Committee b) else SetNextBatch (db_Committee b) ?n)) s = (t, r)"
    using assms(1) unfolding include_batch_def prod.case bindE_reads canMove_eq n_def [symmetric] Let_def .
  show thesis
  proof (cases "db_LockedHeight b \<noteq> Height s \<or> (?i = 0 \<and> ?j = 0 \<and> ?l = 0)")
    case True
    then have "ok () s = (t, r)" using run by (simp only: if_True if_False split: if_split_asm) auto
    then show thesis by (intro same) (simp_all add: ok_apply)
  next
    case False
    then have c: "\<not> db_LockedHeight b \<noteq> Height s" "\<not> (?i = 0 \<and> ?j = 0 \<and> ?l = 0)" by blast+
    note run [unfolded if_not_P [OF c(1)] if_not_P [OF c(2)]]
    then show thesis
      by (intro moved [OF _ refl refl refl _ refl refl])
        (use False in \<open>auto simp: SetLockedBatch_def SetNextBatch_def DeleteNextBatch_def op_simps
          split: if_splits\<close>)
  qed
qed


lemma include_batch_keep:
  assumes ok: "dex_ok E A s" and b: "batch_ok A b" and t: "include_batch (k, b) s = (t, r)"
  shows "dex_ok E A t" and "total_supply t = total_supply s"
proof -
  let ?n = "GetDexBatch (db_Committee b) False False s"
  have n: "batch_ok A ?n" using ok by (intro GetDexBatch_ok) (simp add: dex_ok_def)
  have "dex_ok E A t \<and> total_supply t = total_supply s"
    using t
  proof (cases rule: include_batch_cases)
    case same
    with ok show ?thesis by simp
  next
    case (moved i j l b' n')
    have "batch_ok A b'" "batch_ok A n'"
      unfolding moved(6,7) by (rule batch_ok_split(1) [OF b n], rule batch_ok_split(2) [OF n])
    with ok show ?thesis
      by (auto simp: moved(8) dex_ok_def batches_ok_def kv_get_set kv_wf_set kv_get_del kv_wf_del
          split: if_split_asm)
  qed
  then show "dex_ok E A t" "total_supply t = total_supply s" by auto
qed

lemma IncludeSameBlockDex_keep:
  assumes ok: "dex_ok E A s" and t: "IncludeSameBlockDex s = (t, Inr ())"
  shows "dex_ok E A t \<and> total_supply t = total_supply s"
proof -
  have run: "for_op include_batch (lockedBatches s) s = (t, Inr ())"
    using t by (simp add: IncludeSameBlockDex_def bindE_reads)
  have entries: "\<forall>e \<in> set (lockedBatches s). batch_ok A (snd e)"
    using ok kv_get_iff_set [of "lockedBatches s"] by (auto simp: dex_ok_def batches_ok_def)
  show ?thesis
  proof (rule for_op_inv [OF run])
    show "dex_ok E A s \<and> total_supply s = total_supply s" using ok by simp
    fix e u v
    assume "e \<in> set (lockedBatches s)" "dex_ok E A u \<and> total_supply u = total_supply s"
      and step: "include_batch e u = (v, Inr ())"
    with entries include_batch_keep [of E A u "snd e" "fst e" v "Inr ()"]
    show "dex_ok E A v \<and> total_supply v = total_supply s" by auto
  qed
qed

text \<open>The operations of a chain that wait: those in its locked batch, then those in its next batch.\<close>

definition waiting_orders :: "u64 \<Rightarrow> StateMachine \<Rightarrow> DexLimitOrder list" where
  "waiting_orders c s = db_Orders (GetDexBatch c True False s) @ db_Orders (GetDexBatch c False False s)"

definition waiting_deposits :: "u64 \<Rightarrow> StateMachine \<Rightarrow> DexLiquidityDeposit list" where
  "waiting_deposits c s = db_Deposits (GetDexBatch c True False s) @ db_Deposits (GetDexBatch c False False s)"

definition waiting_withdrawals :: "u64 \<Rightarrow> StateMachine \<Rightarrow> DexLiquidityWithdraw list" where
  "waiting_withdrawals c s =
     db_Withdrawals (GetDexBatch c True False s) @ db_Withdrawals (GetDexBatch c False False s)"

definition waiting :: "u64 \<Rightarrow> StateMachine \<Rightarrow>
    DexLimitOrder list \<times> DexLiquidityDeposit list \<times> DexLiquidityWithdraw list" where
  "waiting c s = (waiting_orders c s, waiting_deposits c s, waiting_withdrawals c s)"

lemma GetDexBatch_lists:
  "db_Orders (GetDexBatch c l p s) = (case kv_get (if l then lockedBatches s else nextBatches s) c of
     None \<Rightarrow> [] | Some b \<Rightarrow> db_Orders b)"
  "db_Deposits (GetDexBatch c l p s) = (case kv_get (if l then lockedBatches s else nextBatches s) c of
     None \<Rightarrow> [] | Some b \<Rightarrow> db_Deposits b)"
  "db_Withdrawals (GetDexBatch c l p s) = (case kv_get (if l then lockedBatches s else nextBatches s) c of
     None \<Rightarrow> [] | Some b \<Rightarrow> db_Withdrawals b)"
  by (auto simp: GetDexBatch_def Let_def empty_batch_def split: option.split)

lemma include_batch_waiting:
  assumes wf: "kv_wf (nextBatches s)" and old: "kv_get (lockedBatches s) k = Some b" and k: "db_Committee b = k"
    and t: "include_batch (k, b) s = (t, r)"
  shows "waiting c t = waiting c s" and "kv_wf (nextBatches t)" and "Height t = Height s"
    and "c \<noteq> k \<Longrightarrow> kv_get (lockedBatches t) c = kv_get (lockedBatches s) c"
    and "length (db_Orders (GetDexBatch k True False t)) \<le> max MaxOrdersPerDexBatch (length (db_Orders b))"
    and "length (db_Deposits (GetDexBatch k True False t)) \<le> max MaxDepositsPerDexBatch (length (db_Deposits b))"
    and "length (db_Withdrawals (GetDexBatch k True False t)) \<le> max MaxWithdrawsPerDexBatch (length (db_Withdrawals b))"
proof -
  let ?n = "GetDexBatch (db_Committee b) False False s"
  let ?caps = "length (db_Orders (GetDexBatch k True False t)) \<le> max MaxOrdersPerDexBatch (length (db_Orders b)) \<and>
    length (db_Deposits (GetDexBatch k True False t)) \<le> max MaxDepositsPerDexBatch (length (db_Deposits b)) \<and>
    length (db_Withdrawals (GetDexBatch k True False t)) \<le> max MaxWithdrawsPerDexBatch (length (db_Withdrawals b))"
  have "waiting c t = waiting c s \<and> kv_wf (nextBatches t) \<and> Height t = Height s \<and>
      (c \<noteq> k \<longrightarrow> kv_get (lockedBatches t) c = kv_get (lockedBatches s) c) \<and> ?caps"
    using t
  proof (cases rule: include_batch_cases)
    case same
    with wf old show ?thesis by (simp add: GetDexBatch_lists)
  next
    case (moved i j l b' n')
    have lt: "lockedBatches t = kv_set k b' (lockedBatches s)" "Height t = Height s" by (simp_all add: moved(8))
    let ?gone = "db_Orders n' = [] \<and> db_Deposits n' = [] \<and> db_Withdrawals n' = []"
    have nt: "nextBatches t = (if ?gone then kv_del k (nextBatches s) else kv_set k n' (nextBatches s))"
      by (simp add: moved(8) k)
    have get: "kv_get (nextBatches t) d = (if d = k then if ?gone then None else Some n'
        else kv_get (nextBatches s) d)" for d
      by (simp add: nt kv_get_set kv_get_del wf)
    have lists: "db_Orders b' @ db_Orders n' = db_Orders b @ db_Orders ?n"
      "db_Deposits b' @ db_Deposits n' = db_Deposits b @ db_Deposits ?n"
      "db_Withdrawals b' @ db_Withdrawals n' = db_Withdrawals b @ db_Withdrawals ?n"
      by (simp_all add: moved(6,7))
    have "waiting c t = waiting c s"
    proof (cases "c = k")
      case False
      then show ?thesis
        by (simp add: waiting_def waiting_orders_def waiting_deposits_def waiting_withdrawals_def
            GetDexBatch_lists lt get kv_get_set)
    next
      case True
      then show ?thesis
        using lists by (cases ?gone) (auto simp: waiting_def waiting_orders_def waiting_deposits_def
            waiting_withdrawals_def GetDexBatch_lists lt get kv_get_set old k)
    qed
    moreover have ?caps
      using moved(2-4) by (auto simp: GetDexBatch_lists lt kv_get_set moved(6))
    ultimately show ?thesis
      using wf by (auto simp: lt nt kv_get_set kv_wf_set kv_wf_del)
  qed
  then show "waiting c t = waiting c s" "kv_wf (nextBatches t)" "Height t = Height s"
    "c \<noteq> k \<Longrightarrow> kv_get (lockedBatches t) c = kv_get (lockedBatches s) c"
    "length (db_Orders (GetDexBatch k True False t)) \<le> max MaxOrdersPerDexBatch (length (db_Orders b))"
    "length (db_Deposits (GetDexBatch k True False t)) \<le> max MaxDepositsPerDexBatch (length (db_Deposits b))"
    "length (db_Withdrawals (GetDexBatch k True False t)) \<le> max MaxWithdrawsPerDexBatch (length (db_Withdrawals b))"
    by auto
qed

text \<open>A locked batch is filed under its committee, or is the placeholder of a fallback.\<close>

definition batches_filed :: "StateMachine \<Rightarrow> bool" where
  "batches_filed s \<longleftrightarrow> kv_wf (lockedBatches s) \<and> kv_wf (nextBatches s) \<and>
     (\<forall>k b. kv_get (lockedBatches s) k = Some b \<longrightarrow> db_Committee b = k \<or> b = empty_batch)"

lemma IncludeSameBlockDex_waiting:
  assumes filed: "batches_filed s" and h: "Height s \<noteq> 0" and t: "IncludeSameBlockDex s = (t, Inr ())"
  shows "waiting c t = waiting c s"
proof -
  have run: "for_op include_batch (lockedBatches s) s = (t, Inr ())"
    using t by (simp add: IncludeSameBlockDex_def bindE_reads)
  define J where "J = (\<lambda>es u. distinct (map fst es) \<and> kv_wf (nextBatches u) \<and> Height u = Height s \<and>
    (\<forall>e \<in> set es. kv_get (lockedBatches u) (fst e) = Some (snd e) \<and>
      (db_Committee (snd e) = fst e \<or> snd e = empty_batch)) \<and> waiting c u = waiting c s)"
  have "J (lockedBatches s) s"
    using filed kv_get_iff_set [of "lockedBatches s"] distinct_kv_keys [of "lockedBatches s"]
    by (auto simp: J_def batches_filed_def kv_keys_def)
  then have "J [] t"
  proof (rule for_op_rule [where J = J, OF _ run])
    fix e es u v
    assume I: "J (e # es) u" and step: "include_batch e u = (v, Inr ())"
    obtain k b where e: "e = (k, b)" by (cases e)
    show "J es v"
    proof (cases "b = empty_batch")
      case True
      then have "v = u" using step I h
        by (auto simp: e include_batch_def bindE_reads J_def empty_batch_def ok_apply)
      with I show ?thesis by (simp add: J_def)
    next
      case False
      have old: "kv_get (lockedBatches u) k = Some b" "db_Committee b = k" "kv_wf (nextBatches u)"
        using I False by (auto simp: J_def e)
      note W = include_batch_waiting [OF old(3,1,2) step [unfolded e]]
      have "kv_get (lockedBatches v) (fst e') = Some (snd e')" if e': "e' \<in> set es" for e'
      proof -
        have "fst e' \<noteq> k" using I e' by (auto simp: J_def e)
        from W(4) [OF this] I e' show ?thesis by (simp add: J_def)
      qed
      with I W(1-3) show ?thesis by (simp add: J_def)
    qed
  qed
  then show ?thesis by (simp add: J_def)
qed

section \<open>The message handlers\<close>

lemma enqueue_keep:
  assumes ok: "dex_ok E A s" and a: "a \<in> A" and b: "batch_ok A b"
    and t: "bindE (AccountSub a n) (\<lambda>_. bindE (PoolAdd i n) (\<lambda>_. SetNextBatch c b)) s = (t, Inr ())"
  shows "dex_ok E A t" and "total_supply t = total_supply s"
    and "pool_balance j t = pool_balance j s + (if j = i then unat n else 0)"
proof -
  have s_ok: "books_on E A s" "liquid s" "batches_ok A s" using ok by (simp_all add: dex_ok_def)
  obtain u where tr: "bindE (AccountSub a n) (\<lambda>_. PoolAdd i n) s = (u, Inr ())"
    and w: "SetNextBatch c b u = (t, Inr ())"
    using t unfolding bindE_assoc [symmetric] by (rule bindE_okE) simp
  have "batches_ok A u = batches_ok A s"
    by (rule batches_frame [where m = "bindE (AccountSub a n) (\<lambda>_. PoolAdd i n)", OF _ _ tr]; intro frame_rules; simp)
  with acct_pool_books(1) [OF s_ok(1) a tr] transfer_liquid(2) [OF s_ok(1,2) tr] s_ok(3)
  have u: "dex_ok E A u" by (simp add: dex_ok_def)
  from write_batch(2) [OF u b w] acct_pool_books(2) [OF s_ok(1) a tr]
  show "dex_ok E A t" "total_supply t = total_supply s" by simp_all
  have "pools t = pools u" using w by (auto simp: SetNextBatch_def writes_apply)
  from pool_balance_cong [OF this] acct_pool_books(4) [OF s_ok(1) a tr, of j]
  show "pool_balance j t = pool_balance j s + (if j = i then unat n else 0)" by simp
qed

lemma HandleMessageDexLimitOrder_keep:
  assumes ok: "dex_ok E A s" and a: "mdl_Address msg \<in> A"
    and t: "HandleMessageDexLimitOrder msg s = (t, Inr ())"
  shows "dex_ok E A t" and "total_supply t = total_supply s"
    and "pool_balance (mdl_ChainId msg + HoldingPoolAddend) t =
      pool_balance (mdl_ChainId msg + HoldingPoolAddend) s + unat (mdl_AmountForSale msg)"
proof -
  let ?b = "GetDexBatch (mdl_ChainId msg) False False s"
  let ?b' = "?b\<lparr>db_Orders := db_Orders ?b @ [\<lparr>dlo_AmountForSale = mdl_AmountForSale msg,
    dlo_RequestedAmount = mdl_RequestedAmount msg, dlo_Address = mdl_Address msg, dlo_OrderId = mdl_OrderId msg\<rparr>]\<rparr>"
  have "batch_ok A ?b" using ok by (intro GetDexBatch_ok) (simp add: dex_ok_def)
  then have "batch_ok A ?b'" using a by (auto simp: batch_ok_def)
  moreover have "bindE (AccountSub (mdl_Address msg) (mdl_AmountForSale msg)) (\<lambda>_.
      bindE (PoolAdd (mdl_ChainId msg + HoldingPoolAddend) (mdl_AmountForSale msg)) (\<lambda>_.
        SetNextBatch (mdl_ChainId msg) ?b')) s = (t, Inr ())"
    using t by (simp add: HandleMessageDexLimitOrder_def bindE_reads split: if_split_asm)
  ultimately show "dex_ok E A t" "total_supply t = total_supply s"
    "pool_balance (mdl_ChainId msg + HoldingPoolAddend) t =
      pool_balance (mdl_ChainId msg + HoldingPoolAddend) s + unat (mdl_AmountForSale msg)"
    using enqueue_keep [OF ok a] by auto
qed

lemma HandleMessageDexLiquidityDeposit_keep:
  assumes ok: "dex_ok E A s" and a: "mdd_Address msg \<in> A"
    and t: "HandleMessageDexLiquidityDeposit msg s = (t, Inr ())"
  shows "dex_ok E A t" and "total_supply t = total_supply s"
    and "pool_balance (mdd_ChainId msg + HoldingPoolAddend) t =
      pool_balance (mdd_ChainId msg + HoldingPoolAddend) s + unat (mdd_Amount msg)"
proof -
  let ?b = "GetDexBatch (mdd_ChainId msg) False False s"
  let ?b' = "?b\<lparr>db_Deposits := db_Deposits ?b @ [\<lparr>dld_Address = mdd_Address msg, dld_Amount = mdd_Amount msg,
    dld_OrderId = mdd_OrderId msg\<rparr>]\<rparr>"
  have "batch_ok A ?b" using ok by (intro GetDexBatch_ok) (simp add: dex_ok_def)
  then have "batch_ok A ?b'" using a by (auto simp: batch_ok_def)
  moreover have "bindE (AccountSub (mdd_Address msg) (mdd_Amount msg)) (\<lambda>_.
      bindE (PoolAdd (mdd_ChainId msg + HoldingPoolAddend) (mdd_Amount msg)) (\<lambda>_.
        SetNextBatch (mdd_ChainId msg) ?b')) s = (t, Inr ())"
    using t by (simp add: HandleMessageDexLiquidityDeposit_def bindE_reads split: if_split_asm)
  ultimately show "dex_ok E A t" "total_supply t = total_supply s"
    "pool_balance (mdd_ChainId msg + HoldingPoolAddend) t =
      pool_balance (mdd_ChainId msg + HoldingPoolAddend) s + unat (mdd_Amount msg)"
    using enqueue_keep [OF ok a] by auto
qed

lemma HandleMessageDexLiquidityWithdraw_keep:
  assumes ok: "dex_ok E A s" and a: "mdw_Address msg \<in> A" and pct: "mdw_Percent msg \<le> 100"
    and t: "HandleMessageDexLiquidityWithdraw msg s = (t, Inr ())"
  shows "dex_ok E A t" and "total_supply t = total_supply s"
proof -
  let ?b = "GetDexBatch (mdw_ChainId msg) False False s"
  let ?b' = "?b\<lparr>db_Withdrawals := db_Withdrawals ?b @ [\<lparr>dlw_Address = mdw_Address msg,
    dlw_Percent = mdw_Percent msg, dlw_OrderId = mdw_OrderId msg\<rparr>]\<rparr>"
  have "batch_ok A ?b" using ok by (intro GetDexBatch_ok) (simp add: dex_ok_def)
  then have "batch_ok A ?b'" using a pct by (auto simp: batch_ok_def)
  moreover have "SetNextBatch (mdw_ChainId msg) ?b' s = (t, Inr ())"
    using t by (auto simp: HandleMessageDexLiquidityWithdraw_def bindE_reads split: if_split_asm sum.splits)
  ultimately show "dex_ok E A t" "total_supply t = total_supply s"
    using write_batch(2) [OF ok] by blast+
qed

end
