(* ===== verification/World.thy ===== *)
theory World
  imports Roster Dex
begin

text \<open>
  The invariant of a whole block.  \<open>world E A n\<close> puts the books, the liquidity points, the dex
  batches, the roster of validators, the payment records of the committees and the parties of the
  sell orders together, with a bound \<open>n\<close> on the total supply; \<open>A\<close> is the set of addresses in use
  and \<open>E\<close> the ledger entries that must agree.  Each operation that a message or a block boundary
  runs gets one rule here.
\<close>

section \<open>The invariant\<close>

definition payouts_ok :: "address set \<Rightarrow> StateMachine \<Rightarrow> bool" where
  "payouts_ok A s \<longleftrightarrow> (\<forall>d \<in> set (committeesData s). payable A d)"

definition parties_ok :: "address set \<Rightarrow> StateMachine \<Rightarrow> bool" where
  "parties_ok A s \<longleftrightarrow> (\<forall>e \<in> set (orders s). parties_in A (snd e))"

definition remote_cache_ok :: "address set \<Rightarrow> StateMachine \<Rightarrow> bool" where
  "remote_cache_ok A s \<longleftrightarrow>
     (\<forall>b. cache_rootDexBatch s = Some b \<longrightarrow> remote_ok A b) \<and> keys_apart (Cfg s)"

definition world :: "entry set \<Rightarrow> address set \<Rightarrow> nat \<Rightarrow> StateMachine \<Rightarrow> bool" where
  "world E A n s \<longleftrightarrow> dex_ok E A s \<and> vals_ok A s \<and> payouts_ok A s \<and> parties_ok A s \<and>
     remote_cache_ok A s \<and> total_supply s \<le> n"

text \<open>What most operations leave alone.\<close>

definition rest_of where
  "rest_of s = (lockedBatches s, nextBatches s, committeesData s, orders s, cache_rootDexBatch s, Cfg s, Height s)"

lemma worldD:
  assumes "world E A n s"
  shows "dex_ok E A s" "books_on E A s" "liquid s" "batches_ok A s" "vals_ok A s" "payouts_ok A s"
    "parties_ok A s" "remote_cache_ok A s" "total_supply s \<le> n" "outputs_in A s"
  using assms by (auto simp: world_def dex_ok_def dest: vals_ok_outputs)

lemma world_mono: "world E A n s \<Longrightarrow> n \<le> m \<Longrightarrow> world E A m s"
  by (auto simp: world_def)

lemma rest_of_cong:
  assumes "rest_of t = rest_of s"
  shows "batches_ok A t = batches_ok A s" "payouts_ok A t = payouts_ok A s"
    "parties_ok A t = parties_ok A s" "remote_cache_ok A t = remote_cache_ok A s"
  using assms by (simp_all add: rest_of_def batches_ok_def payouts_ok_def parties_ok_def remote_cache_ok_def)

lemma world_step:
  assumes "world E A n s" and "rest_of t = rest_of s" and "vals_ok A t" and "liquid t"
    and "books_on E A t" and "total_supply t \<le> m"
  shows "world E A m t"
  using assms rest_of_cong [OF assms(2)] by (simp add: world_def dex_ok_def)

definition rest_but_data where
  "rest_but_data s = (lockedBatches s, nextBatches s, orders s, cache_rootDexBatch s, Cfg s, Height s)"

lemma world_step_data:
  assumes "world E A n s" and "rest_but_data t = rest_but_data s" and "payouts_ok A t"
    and "vals_ok A t" and "liquid t" and "books_on E A t" and "total_supply t \<le> m"
  shows "world E A m t"
  using assms by (simp add: world_def dex_ok_def rest_but_data_def batches_ok_def parties_ok_def
      remote_cache_ok_def)

lemma rest_of_simps [simp]:
  "rest_of (s\<lparr>accounts := x1\<rparr>) = rest_of s" "rest_of (s\<lparr>cache_accounts := x2\<rparr>) = rest_of s"
  "rest_of (s\<lparr>pools := x3\<rparr>) = rest_of s" "rest_of (s\<lparr>validators := x4\<rparr>) = rest_of s"
  "rest_of (s\<lparr>supplyTracker := x5\<rparr>) = rest_of s" "rest_of (s\<lparr>committees := x6\<rparr>) = rest_of s"
  "rest_of (s\<lparr>delegates := x7\<rparr>) = rest_of s" "rest_of (s\<lparr>paused := x8\<rparr>) = rest_of s"
  "rest_of (s\<lparr>unstaking := x9\<rparr>) = rest_of s" "rest_of (s\<lparr>events := x10\<rparr>) = rest_of s"
  "rest_of (s\<lparr>cache_valParams := x11\<rparr>) = rest_of s" "rest_of (s\<lparr>cache_feeParams := x12\<rparr>) = rest_of s"
  "rest_of (s\<lparr>nonSigners := x13\<rparr>) = rest_of s" "rest_of (s\<lparr>doubleSigners := x14\<rparr>) = rest_of s"
  "rest_of (s\<lparr>slashTracker := x15\<rparr>) = rest_of s"
  by (simp_all add: rest_of_def)

text \<open>An operation that touches neither the pools nor the rest.\<close>

lemma world_frame:
  assumes "frame rest_of m" and "frame pools m" and "preserves (vals_ok A) m"
    and "\<And>s t r. world E A n s \<Longrightarrow> m s = (t, Inr r) \<Longrightarrow> books_on E A t \<and> total_supply t \<le> total_supply s"
  shows "preserves (world E A n) m"
proof (rule upholdsI)
  fix s t r assume s: "world E A n s" and t: "m s = (t, Inr r)"
  have "vals_ok A t" using upholdsD [OF assms(3) worldD(5) [OF s] t] by simp
  moreover have "liquid t" using worldD(3) [OF s] liquid_cong [OF frameD [OF assms(2) t]] by simp
  ultimately show "world E A n t \<and> True"
    using world_step [OF s frameD [OF assms(1) t]] assms(4) [OF s t] worldD(9) [OF s] by auto
qed

section \<open>Liquidity points under pool operations\<close>

definition pools_fine :: "StateMachine \<Rightarrow> bool" where
  "pools_fine s \<longleftrightarrow> liquid s \<and> kv_wf (pools s)"

named_theorems pools_rules

lemma pools_frame: "frame pools m \<Longrightarrow> preserves pools_fine m"
  by (rule preserves_frame [where g = pools]) (simp_all add: pools_fine_def liquid_def GetPool_def)

lemma pools_PoolAdd [pools_rules]: "preserves pools_fine (PoolAdd i n)"
proof (rule upholdsI)
  fix s t r assume s: "pools_fine s" and t: "PoolAdd i n s = (t, Inr r)"
  then have "liquid t" using PoolAdd_liquid [of s i n t "Inr r"] by (simp add: pools_fine_def)
  moreover have "kv_wf (pools t)"
    using s t by (auto simp: pools_fine_def PoolAdd_def bindE_reads SetPool_def writes_apply kv_wf_set kv_wf_del
        split: if_splits)
  ultimately show "pools_fine t \<and> True" by (simp add: pools_fine_def)
qed

lemma pools_PoolSub [pools_rules]: "preserves pools_fine (PoolSub i n)"
proof (rule upholdsI)
  fix s t r assume s: "pools_fine s" and t: "PoolSub i n s = (t, Inr r)"
  then have "liquid t" using PoolSub_liquid [of s i n t] by (simp add: pools_fine_def)
  moreover have "kv_wf (pools t)"
    using s t by (auto simp: pools_fine_def PoolSub_def bindE_reads SetPool_def op_simps kv_wf_set kv_wf_del
        split: if_splits)
  ultimately show "pools_fine t \<and> True" by (simp add: pools_fine_def)
qed

lemma pools_SetPool [pools_rules]: "points_ok p \<Longrightarrow> preserves pools_fine (SetPool p)"
proof (rule upholdsI)
  fix s t r assume p: "points_ok p" and s: "pools_fine s" and t: "SetPool p s = (t, Inr r)"
  then have "liquid t" using SetPool_liquid [of s p t "Inr r"] by (simp add: pools_fine_def)
  moreover have "kv_wf (pools t)"
    using s t by (auto simp: pools_fine_def SetPool_def op_simps kv_wf_set kv_wf_del split: if_splits)
  ultimately show "pools_fine t \<and> True" by (simp add: pools_fine_def)
qed

lemma pools_GetPool [pools_rules]:
  "(\<And>p. points_ok p \<Longrightarrow> Q p) \<Longrightarrow> upholds pools_fine (reads (GetPool i)) Q"
  by (rule upholds_reads) (simp add: pools_fine_def liquid_def)

lemma pools_MintToPool [pools_rules]: "preserves pools_fine (MintToPool i n)"
  unfolding MintToPool_def
  by (assumption | rule pools_rules uphold_rules pools_frame | (intro frame_rules; simp; fail))+

lemma pools_accounts [pools_rules]:
  "preserves pools_fine (AccountAdd a n)" "preserves pools_fine (AccountSub a n)"
  by (rule pools_frame, intro frame_rules, simp)+

lemma pools_fine_of: "world E A n s \<Longrightarrow> pools_fine s"
  by (auto simp: pools_fine_def books_on_def funds_ok_def dest: worldD)

text \<open>An operation on the money: the books are shown by the caller, the rest follows from frames.\<close>

lemma world_money:
  assumes "frame rest_of m" and "preserves pools_fine m" and "preserves (vals_ok A) m"
    and "world E A n s" and "m s = (t, Inr r)" and "books_on E A t" and "total_supply t \<le> k"
  shows "world E A k t"
proof (rule world_step [OF assms(4) frameD [OF assms(1,5)] _ _ assms(6,7)])
  show "vals_ok A t" using upholdsD [OF assms(3) worldD(5) [OF assms(4)] assms(5)] by simp
  show "liquid t" using upholdsD [OF assms(2) pools_fine_of [OF assms(4)] assms(5)] by (simp add: pools_fine_def)
qed

section \<open>Validators\<close>

named_theorems world_rules

lemma world_moneyless:
  assumes "frame rest_of m" and "preserves (vals_ok A) m"
    and "\<And>s t r. kv_wf (validators s) \<Longrightarrow> m s = (t, Inr r) \<Longrightarrow> money t = money s"
  shows "preserves (world E A n) m"
proof (rule upholdsI)
  fix s t r assume s: "world E A n s" and t: "m s = (t, Inr r)"
  have "kv_wf (validators s)" using worldD(2) [OF s] by (simp add: books_on_def funds_ok_def)
  from assms(3) [OF this t] have m: "money t = money s" .
  then have "pools t = pools s" by (simp add: money_def others_def)
  then have "liquid t" using worldD(3) [OF s] liquid_cong by metis
  moreover have "vals_ok A t" using upholdsD [OF assms(2) worldD(5) [OF s] t] by simp
  ultimately show "world E A n t \<and> True"
    using world_step [OF s frameD [OF assms(1) t]] money_books(1,3) [OF m] worldD(2,9) [OF s] by simp
qed

lemma rest_of_staking:
  "frame rest_of ForceUnstakeMaxPaused" "frame rest_of (HandleMessagePause a)"
  "frame rest_of (HandleMessageUnpause a)" "frame rest_of (HandleMessageUnstake a)"
  "frame rest_of DeleteFinishedUnstaking" "frame rest_of (HandleMessageStake stk)"
  "frame rest_of (HandleMessageEditStake eds)"
  unfolding ForceUnstakeMaxPaused_def ForceUnstakeValidator_def delete_paused_key_def addEvent_def
    HandleMessagePause_def HandleMessageUnpause_def HandleMessageUnstake_def Let_def
    DeleteFinishedUnstaking_def finish_unstaking_def delete_unstaking_key_def
    HandleMessageStake_def HandleMessageEditStake_def
  by (intro frame_rules; simp)+

lemma pools_of_staking:
  "frame pools DeleteFinishedUnstaking" "frame pools (HandleMessageStake stk)"
  "frame pools (HandleMessageEditStake eds)"
  unfolding DeleteFinishedUnstaking_def finish_unstaking_def delete_unstaking_key_def addEvent_def Let_def
    HandleMessageStake_def HandleMessageEditStake_def
  by (intro frame_rules; simp)+

lemma world_pause [world_rules]:
  "preserves (world E A n) ForceUnstakeMaxPaused"
  "preserves (world E A n) (HandleMessagePause a)"
  "preserves (world E A n) (HandleMessageUnpause a)"
  "preserves (world E A n) (HandleMessageUnstake a)"
  by (rule world_moneyless [OF rest_of_staking(1) roster_ForceUnstakeMaxPaused ForceUnstakeMaxPaused_money]
      world_moneyless [OF rest_of_staking(2) roster_HandleMessagePause HandleMessagePause_money]
      world_moneyless [OF rest_of_staking(3) roster_HandleMessageUnpause HandleMessageUnpause_money]
      world_moneyless [OF rest_of_staking(4) roster_HandleMessageUnstake HandleMessageUnstake_money];
      assumption)+

lemma world_unstaking [world_rules]: "preserves (world E A n) DeleteFinishedUnstaking"
  by (rule world_frame [OF rest_of_staking(5) pools_of_staking(1) roster_DeleteFinishedUnstaking])
    (use DeleteFinishedUnstaking_books(1,3) worldD(2,10) in fastforce)

lemma world_stake [world_rules]:
  assumes "stk_Signer msg \<in> A" and "stk_OutputAddress msg \<in> A"
  shows "preserves (world E A n) (HandleMessageStake msg)"
  by (rule world_frame [OF rest_of_staking(6) pools_of_staking(2) roster_HandleMessageStake [OF assms(2)]])
    (use HandleMessageStake_books(1,2) [OF worldD(2) assms(1)] in fastforce)

lemma world_edit_stake [world_rules]:
  assumes "eds_Signer msg \<in> A" and "eds_OutputAddress msg \<in> A"
  shows "preserves (world E A n) (HandleMessageEditStake msg)"
  by (rule world_frame [OF rest_of_staking(7) pools_of_staking(3) roster_HandleMessageEditStake [OF assms(2)]])
    (use HandleMessageEditStake_books(1,2) [OF worldD(2) assms(1)] in fastforce)

section \<open>Byzantine evidence\<close>

lemma rest_of_HandleByzantine: "frame rest_of (HandleByzantine c results sig vs)"
    "frame pools (HandleByzantine c results sig vs)"
  unfolding HandleByzantine_def SlashAndResetNonSigners_def SlashNonSigners_def SlashDoubleSigners_def
    SlashValidators_def slash_one_def SlashValidator_def burn_stake_def HandleDoubleSigners_def
    IncrementNonSigners_def increment_one_def SetValidatorsPaused_def pause_one_def addEvent_def
    HandleMessagePause_def Let_def
  by (intro frame_rules; simp)+

lemma world_byzantine [world_rules]:
  assumes E: "E \<subseteq> joint_entries"
  shows "preserves (world E A n) (HandleByzantine c results sig vs)"
  by (rule world_frame [OF rest_of_HandleByzantine roster_HandleByzantine])
    (use HandleByzantine_books [OF worldD(2) E] in fastforce)

section \<open>Rewards\<close>

lemma pools_DistributeCommitteeRewards: "preserves pools_fine DistributeCommitteeRewards"
proof -
  have F: "frame pools (pay_stub d k p stub tot)" "frame pools (SubFromTotalSupply m)"
      "frame pools GetParamsVal" "frame pools (SetCommitteesData l)" for d k p stub tot m l
    unfolding pay_stub_def DistributeCommitteeReward_def addEvent_def SetCommitteesData_def Let_def
    by (intro frame_rules; simp)+
  show ?thesis
    unfolding DistributeCommitteeRewards_def pay_committee_def
    by (assumption | rule pools_rules uphold_rules F [THEN pools_frame] | (simp; fail))+
qed

lemma rest_but_DistributeCommitteeRewards: "frame rest_but_data DistributeCommitteeRewards"
  unfolding DistributeCommitteeRewards_def pay_committee_def pay_stub_def DistributeCommitteeReward_def
    addEvent_def SetCommitteesData_def Let_def
  by (intro frame_rules; simp add: rest_but_data_def)

lemma world_rewards [world_rules]: "preserves (world E A n) DistributeCommitteeRewards"
proof (rule upholdsI)
  fix s t and r :: unit
  assume s: "world E A n s" and t: "DistributeCommitteeRewards s = (t, Inr r)"
  note B = DistributeCommitteeRewards_books [OF worldD(2) [OF s] worldD(10) [OF s] _ t [simplified]]
  have pay: "\<forall>d \<in> set (committeesData s). payable A d" using worldD(6) [OF s] by (simp add: payouts_ok_def)
  have "vals_ok A t" using upholdsD [OF roster_DistributeCommitteeRewards worldD(5) [OF s] t] by simp
  moreover have "liquid t"
    using upholdsD [OF pools_DistributeCommitteeRewards pools_fine_of [OF s] t] by (simp add: pools_fine_def)
  moreover note rest = frameD [OF rest_but_DistributeCommitteeRewards t]
  ultimately show "world E A n t \<and> True"
    using world_step_data [OF s] B [OF pay] worldD(9) [OF s] by (simp add: payouts_ok_def)
qed

section \<open>Transfers\<close>

lemma world_acct_pool [world_rules]:
  assumes a: "a \<in> A"
  shows "preserves (world E A n) (bindE (AccountSub a k) (\<lambda>_. PoolAdd i k))"
proof (rule upholdsI)
  let ?m = "bindE (AccountSub a k) (\<lambda>_. PoolAdd i k)"
  fix s t and r :: unit
  assume s: "world E A n s" and "?m s = (t, Inr r)"
  then have t: "?m s = (t, Inr ())" by simp
  have F: "frame rest_of ?m" "frame validators ?m" "preserves pools_fine ?m"
    by (intro frame_rules; simp)+ (rule uphold_rules pools_rules)+
  show "world E A n t \<and> True"
    using world_money [OF F(1,3) roster_frame [OF F(2)] s t] worldD(9) [OF s]
      acct_pool_books(1,2) [OF worldD(2) [OF s] a t] by simp
qed

lemma world_pool_acct [world_rules]:
  assumes a: "a \<in> A"
  shows "preserves (world E A n) (bindE (PoolSub i k) (\<lambda>_. AccountAdd a k))"
proof (rule upholdsI)
  let ?m = "bindE (PoolSub i k) (\<lambda>_. AccountAdd a k)"
  fix s t and r :: unit
  assume s: "world E A n s" and "?m s = (t, Inr r)"
  then have t: "?m s = (t, Inr ())" by simp
  have F: "frame rest_of ?m" "frame validators ?m" "preserves pools_fine ?m"
    by (intro frame_rules; simp)+ (rule uphold_rules pools_rules)+
  show "world E A n t \<and> True"
    using world_money [OF F(1,3) roster_frame [OF F(2)] s t] worldD(9) [OF s]
      pool_acct_books(1,2) [OF worldD(2) [OF s] a t] by simp
qed

lemma world_fees [world_rules]:
  "a \<in> A \<Longrightarrow> preserves (world E A n) (AccountDeductFees a fee)"
  using world_acct_pool [of a A E n fee]
  by (auto simp: upholds_def AccountDeductFees_def bindE_apply reads_apply split: prod.splits sum.splits)

lemma world_acct_acct [world_rules]:
  assumes a: "a \<in> A" and b: "b \<in> A"
  shows "preserves (world E A n) (bindE (AccountSub a k) (\<lambda>_. AccountAdd b k))"
proof (rule upholdsI)
  let ?m = "bindE (AccountSub a k) (\<lambda>_. AccountAdd b k)"
  fix s t and r :: unit
  assume s: "world E A n s" and "?m s = (t, Inr r)"
  then have t: "?m s = (t, Inr ())" by simp
  have F: "frame rest_of ?m" "frame validators ?m" "frame supplyTracker ?m" "preserves pools_fine ?m"
    by (intro frame_rules; simp)+ (rule uphold_rules pools_rules)+
  have s_ok: "funds_ok A s" "ledger_on E s" "held s = total_supply s"
    using worldD(2) [OF s] by (simp_all add: books_on_def)
  have cap: "held s < 18446744073709551616" using s_ok(3) total_supply_less by simp
  note tr = acct_acct.transfer_conserves [OF s_ok(1) a b cap t]
  have sup: "supplyTracker t = supplyTracker s" "validators t = validators s"
    by (rule frameD [OF F(3) t], rule frameD [OF F(2) t])
  then have "books_on E A t" "total_supply t = total_supply s"
    using tr s_ok ledger_on_cong [OF sup(2,1), of E] total_supply_cong [OF sup(1)]
    by (simp_all add: books_on_def)
  then show "world E A n t \<and> True"
    using world_money [OF F(1,4) roster_frame [OF F(2)] s t] worldD(9) [OF s] by simp
qed

section \<open>The exchange\<close>

lemma world_dex:
  assumes "frame validators m" and "frame committeesData m" and "frame orders m"
    and "preserves (remote_cache_ok A) m"
    and "\<And>s t r. world E A n s \<Longrightarrow> m s = (t, Inr r) \<Longrightarrow> dex_ok E A t \<and> total_supply t = total_supply s"
  shows "preserves (world E A n) m"
proof (rule upholdsI)
  fix s t r assume s: "world E A n s" and t: "m s = (t, Inr r)"
  have "vals_ok A t" "payouts_ok A t" "parties_ok A t"
    using worldD(5-7) [OF s] frameD [OF assms(1) t] frameD [OF assms(2) t] frameD [OF assms(3) t]
    by (simp_all add: vals_ok_def payouts_ok_def parties_ok_def)
  moreover have "remote_cache_ok A t" using upholdsD [OF assms(4) worldD(8) [OF s] t] by simp
  ultimately show "world E A n t \<and> True"
    using assms(5) [OF s t] worldD(9) [OF s] by (simp add: world_def)
qed

lemma remote_ok_mark [simp]: "remote_ok A (mark_empty b) = remote_ok A b"
  by (simp add: remote_ok_def mark_empty_def batch_ok_def)

lemma remote_frame: "frame (\<lambda>s. (cache_rootDexBatch s, Cfg s)) m \<Longrightarrow> preserves (remote_cache_ok A) m"
  by (rule preserves_frame) (auto simp: remote_cache_ok_def)

lemma remote_look:
  "(\<And>c. (\<And>b. c = Some b \<Longrightarrow> remote_ok A b) \<Longrightarrow> Q c) \<Longrightarrow> upholds (remote_cache_ok A) (reads cache_rootDexBatch) Q"
  by (rule upholds_reads) (auto simp: remote_cache_ok_def)

lemma remote_write:
  "remote_ok A b \<Longrightarrow> preserves (remote_cache_ok A) (writes (\<lambda>s. s\<lparr>cache_rootDexBatch := Some b\<rparr>))"
  by (rule preserves_writes) (simp add: remote_cache_ok_def)

lemma remote_HandleRemoteDexBatch:
  assumes "remote_ok A b"
  shows "preserves (remote_cache_ok A) (HandleRemoteDexBatch hashAt cached b c)"
proof -
  have w: "preserves (remote_cache_ok A)
      (if cached then writes (\<lambda>s. s\<lparr>cache_rootDexBatch := Some (mark_empty b)\<rparr>) else ok ())"
    using assms by (auto intro!: remote_write preserves_ok)
  have F: "frame (\<lambda>s. (cache_rootDexBatch s, Cfg s)) (RotateDexBatches h n m c rs)"
      "frame (\<lambda>s. (cache_rootDexBatch s, Cfg s)) (HandleReceiptsForOurLockedBatch b' m c)"
      "frame (\<lambda>s. (cache_rootDexBatch s, Cfg s)) (HandleRemoteChainLockedBatch hashAt b' m c)" for h n m rs b'
    unfolding RotateDexBatches_def Let_def by (intro frame_rules; simp)+
  show ?thesis
    unfolding HandleRemoteDexBatch_def Let_def
    by (rule w F [THEN remote_frame] uphold_rules)+
qed

lemma remote_HandleDexBatch:
  assumes "results_ok A results"
  shows "preserves (remote_cache_ok A) (HandleDexBatch hashAt c results nested)"
proof -
  have F: "frame (\<lambda>s. (cache_rootDexBatch s, Cfg s)) GetRootChainId"
      "frame (\<lambda>s. (cache_rootDexBatch s, Cfg s)) (HandleLivenessFallback c' b b')" for c' b b'
    unfolding GetRootChainId_def by (intro frame_rules; simp)+
  have look: "upholds (remote_cache_ok A) (reads cache_rootDexBatch) (\<lambda>c. \<forall>b. c = Some b \<longrightarrow> remote_ok A b)"
    by (rule remote_look) simp
  have pick: "remote_ok A b"
    if "\<forall>b. cache = Some b \<longrightarrow> remote_ok A b"
      and "(if nested then case cr_RootDexBatch results of None \<Rightarrow> None
              | Some b \<Rightarrow> if db_LivenessFallback b then Some b else cache else cr_DexBatch results) = Some b" for cache b
    using assms that by (auto simp: results_ok_def split: if_split_asm option.splits)
  show ?thesis
    unfolding HandleDexBatch_def Let_def
    by (rule look F [THEN remote_frame] remote_HandleRemoteDexBatch uphold_rules | erule (1) pick)+
qed

lemma world_HandleDexBatch [world_rules]:
  assumes r: "results_ok A results"
  shows "preserves (world E A n) (HandleDexBatch hashAt c results nested)"
proof (rule world_dex [OF _ _ _ remote_HandleDexBatch [OF r]])
  let ?m = "HandleDexBatch hashAt c results nested"
  show "frame validators ?m" "frame committeesData ?m" "frame orders ?m"
    by (intro frame_rules; simp)+
  fix s t and x :: unit
  assume s: "world E A n s" and "?m s = (t, Inr x)"
  then show "dex_ok E A t \<and> total_supply t = total_supply s"
    using HandleDexBatch_keep [OF worldD(1) [OF s] r] worldD(8) [OF s] by (simp add: remote_cache_ok_def)
qed

lemma world_include [world_rules]: "preserves (world E A n) IncludeSameBlockDex"
proof (rule world_dex)
  show "frame validators IncludeSameBlockDex" "frame committeesData IncludeSameBlockDex" "frame orders IncludeSameBlockDex"
    by (intro frame_rules; simp)+
  show "preserves (remote_cache_ok A) IncludeSameBlockDex"
    unfolding IncludeSameBlockDex_def include_batch_def Let_def
    by (rule remote_frame, intro frame_rules; simp)
qed (use IncludeSameBlockDex_keep worldD(1) in fastforce)

lemma frame_dex_messages:
  assumes "\<And>s x y. g (s\<lparr>cache_accounts := x, accounts := y\<rparr>) = g s"
    and "\<And>s x. g (s\<lparr>pools := x\<rparr>) = g s" and "\<And>s x. g (s\<lparr>nextBatches := x\<rparr>) = g s"
  shows "frame g (HandleMessageDexLimitOrder m1)" "frame g (HandleMessageDexLiquidityDeposit m2)"
    "frame g (HandleMessageDexLiquidityWithdraw m3)"
  unfolding HandleMessageDexLimitOrder_def HandleMessageDexLiquidityDeposit_def
    HandleMessageDexLiquidityWithdraw_def
  by (intro frame_rules assms)+

lemma world_dex_messages [world_rules]:
  "mdl_Address m1 \<in> A \<Longrightarrow> preserves (world E A n) (HandleMessageDexLimitOrder m1)"
  "mdd_Address m2 \<in> A \<Longrightarrow> preserves (world E A n) (HandleMessageDexLiquidityDeposit m2)"
  "mdw_Address m3 \<in> A \<Longrightarrow> mdw_Percent m3 \<le> 100 \<Longrightarrow>
     preserves (world E A n) (HandleMessageDexLiquidityWithdraw m3)"
proof -
  show "preserves (world E A n) (HandleMessageDexLimitOrder m1)" if "mdl_Address m1 \<in> A"
    by (rule world_dex [OF _ _ _ remote_frame])
      (use that HandleMessageDexLimitOrder_keep(1,2) worldD(1) in \<open>fastforce intro!: frame_dex_messages\<close>)+
  show "preserves (world E A n) (HandleMessageDexLiquidityDeposit m2)" if "mdd_Address m2 \<in> A"
    by (rule world_dex [OF _ _ _ remote_frame])
      (use that HandleMessageDexLiquidityDeposit_keep(1,2) worldD(1) in \<open>fastforce intro!: frame_dex_messages\<close>)+
  show "preserves (world E A n) (HandleMessageDexLiquidityWithdraw m3)"
    if "mdw_Address m3 \<in> A" "mdw_Percent m3 \<le> 100"
    by (rule world_dex [OF _ _ _ remote_frame])
      (use that HandleMessageDexLiquidityWithdraw_keep(1,2) worldD(1) in \<open>fastforce intro!: frame_dex_messages\<close>)+
qed

section \<open>Sell orders\<close>

text \<open>Writing and deleting orders.\<close>

lemma world_orders:
  assumes s: "world E A n s" and l: "\<forall>e \<in> set l. parties_in A (snd e)"
  shows "world E A n (s\<lparr>orders := l\<rparr>)"
proof -
  have "money (s\<lparr>orders := l\<rparr>) = money s" by (simp add: money_def others_def)
  note m = money_books [OF this]
  show ?thesis
    using s l m by (simp add: world_def dex_ok_def batches_ok_def vals_ok_def payouts_ok_def parties_ok_def
        remote_cache_ok_def liquid_def GetPool_def)
qed

lemma world_SetOrder [world_rules]: "parties_in A x \<Longrightarrow> preserves (world E A n) (SetOrder x c)"
  unfolding SetOrder_def
proof (rule preserves_writes)
  fix s assume x: "parties_in A x" and s: "world E A n s"
  show "world E A n (s\<lparr>orders := kv_set (c, so_Id x) x (orders s)\<rparr>)"
    by (rule world_orders [OF s])
      (use worldD(7) [OF s] x set_kv_set [of "(c, so_Id x)" x "orders s"] in \<open>auto simp: parties_ok_def\<close>)
qed

lemma world_DeleteOrder [world_rules]: "preserves (world E A n) (DeleteOrder i c)"
  unfolding DeleteOrder_def
proof (rule preserves_writes)
  fix s assume s: "world E A n s"
  show "world E A n (s\<lparr>orders := kv_del (c, i) (orders s)\<rparr>)"
    by (rule world_orders [OF s])
      (use worldD(7) [OF s] set_kv_del [of "(c, i)" "orders s"] in \<open>auto simp: parties_ok_def\<close>)
qed

lemma world_GetOrder [world_rules]:
  "(\<And>x. parties_in A x \<Longrightarrow> Q x) \<Longrightarrow> upholds (world E A n) (gets (GetOrder i c)) Q"
  by (rule upholds_gets) (fastforce simp: GetOrder_Inr parties_ok_def dest!: worldD(7) kv_get_in_set)

lemma world_addEvent [world_rules]: "preserves (world E A n) (addEvent m a c)"
  by (rule world_moneyless) (auto simp: addEvent_def op_simps intro!: frame_rules roster_frame)

lemma world_params [world_rules]: "preserves (world E A n) GetParamsVal"
  by (rule world_moneyless) (auto dest!: GetParamsVal_cache intro!: frame_rules roster_frame)

lemma world_CreateOrder [world_rules]:
  assumes "co_SellersSendAddress msg \<in> A"
  shows "preserves (world E A n) (HandleMessageCreateOrder msg)"
  unfolding HandleMessageCreateOrder_def bindE_assoc [symmetric]
  by (rule world_rules uphold_rules assms | (simp add: parties_in_def assms; fail))+

lemma world_DeleteOrderMsg [world_rules]: "preserves (world E A n) (HandleMessageDeleteOrder msg)"
  unfolding HandleMessageDeleteOrder_def bindE_assoc [symmetric]
  by (assumption | rule world_rules uphold_rules | (simp add: parties_in_def; fail))+

lemma world_EditOrder [world_rules]: "preserves (world E A n) (HandleMessageEditOrder msg)"
  unfolding HandleMessageEditOrder_def Let_def
  by (assumption | rule world_rules uphold_rules | (simp add: parties_in_def; fail))+

subsection \<open>Orders of the committee\<close>

text \<open>A failing order of the committee has changed nothing.\<close>

lemma LockSellOrder_err: "LockSellOrder lock c s = (t, Inl e) \<Longrightarrow> t = s"
  by (auto simp: LockSellOrder_def bindE_gets SetOrder_def addEvent_def op_simps Let_def
      split: sum.splits if_splits)

lemma ResetOrder_err: "ResetOrder i c s = (t, Inl e) \<Longrightarrow> t = s"
  by (auto simp: ResetOrder_def bindE_gets SetOrder_def addEvent_def op_simps split: sum.splits)

lemma CloseOrder_err:
  assumes w: "world E A n s" and t: "CloseOrder i c s = (t, Inl e)"
  shows "t = s"
proof (rule ccontr)
  assume "t \<noteq> s"
  then obtain x where x: "GetOrder i c s = Inr x" and locked: "BuyerReceiveAddress x \<noteq> []"
    and enough: "unat (AmountForSale x) \<le> pool_balance (EscrowPool c) s"
    and run: "bindE (bindE (PoolSub (EscrowPool c) (AmountForSale x))
        (\<lambda>_. AccountAdd (BuyerReceiveAddress x) (AmountForSale x))) (\<lambda>_.
      bindE (addEvent (EventOrderBookSwap x) (BuyerReceiveAddress x) (so_Committee x)) (\<lambda>_.
        DeleteOrder i c)) s = (t, Inl e)"
    using t by (auto simp: CloseOrder_def bindE_gets bindE_reads fail_apply bindE_assoc pool_balance_def
        word_le_nat_alt not_less split: sum.splits if_splits)
  have "parties_in A x"
    using world_GetOrder [of A "parties_in A" E n i c] w x by (auto simp: upholds_def gets_apply)
  then have "BuyerReceiveAddress x \<in> A" using locked by (simp add: parties_in_def)
  from pool_pays(1) [OF worldD(2) [OF w] this enough] obtain u
    where u: "bindE (PoolSub (EscrowPool c) (AmountForSale x))
        (\<lambda>_. AccountAdd (BuyerReceiveAddress x) (AmountForSale x)) s = (u, Inr ())" by blast
  show False
    using run unfolding bindE_of_ok [where m = "bindE (PoolSub (EscrowPool c) (AmountForSale x))
        (\<lambda>_. AccountAdd (BuyerReceiveAddress x) (AmountForSale x))", OF u] by (simp add: addEvent_def DeleteOrder_def op_simps)
qed

lemma world_lenient:
  assumes "preserves (world E A n) m" and "\<And>s t e. world E A n s \<Longrightarrow> m s = (t, Inl e) \<Longrightarrow> t = s"
  shows "preserves (world E A n) (lenient m)"
proof (rule upholdsI)
  fix s t and r :: unit assume s: "world E A n s" and "lenient m s = (t, Inr r)"
  then obtain x where "m s = (t, x)" by (cases "m s") (auto simp: lenient_apply)
  with s assms show "world E A n t \<and> True" by (cases x) (auto dest: upholdsD)
qed

lemma world_CloseOrder: "preserves (world E A n) (CloseOrder i c)"
proof (rule upholdsI)
  fix s t and r :: unit assume s: "world E A n s" and t: "CloseOrder i c s = (t, Inr r)"
  then obtain x where x: "GetOrder i c s = Inr x" and locked: "BuyerReceiveAddress x \<noteq> []"
    and run: "bindE (bindE (PoolSub (EscrowPool c) (AmountForSale x))
        (\<lambda>_. AccountAdd (BuyerReceiveAddress x) (AmountForSale x))) (\<lambda>_.
      bindE (addEvent (EventOrderBookSwap x) (BuyerReceiveAddress x) (so_Committee x)) (\<lambda>_.
        DeleteOrder i c)) s = (t, Inr r)"
    by (auto simp: CloseOrder_def bindE_gets bindE_reads fail_apply bindE_assoc split: sum.splits if_splits)
  have "parties_in A x"
    using world_GetOrder [of A "parties_in A" E n i c] s x by (auto simp: upholds_def gets_apply)
  then have a: "BuyerReceiveAddress x \<in> A" using locked by (simp add: parties_in_def)
  have "preserves (world E A n) (bindE (bindE (PoolSub (EscrowPool c) (AmountForSale x))
        (\<lambda>_. AccountAdd (BuyerReceiveAddress x) (AmountForSale x))) (\<lambda>_.
      bindE (addEvent (EventOrderBookSwap x) (BuyerReceiveAddress x) (so_Committee x)) (\<lambda>_.
        DeleteOrder i c)))"
    by (rule a world_rules uphold_rules)+
  from upholdsD [OF this s run] show "world E A n t \<and> True" .
qed

lemma world_ResetOrder: "preserves (world E A n) (ResetOrder i c)"
  unfolding ResetOrder_def
  by (assumption | rule world_rules uphold_rules | (simp add: parties_in_def; fail))+

lemma world_LockSellOrder: "lo_BuyerReceiveAddress lock \<in> A \<Longrightarrow> preserves (world E A n) (LockSellOrder lock c)"
  unfolding LockSellOrder_def Let_def
  by (assumption | rule world_rules uphold_rules | (simp add: parties_in_def; fail))+

definition orders_in :: "address set \<Rightarrow> Orders option \<Rightarrow> bool" where
  "orders_in A os \<longleftrightarrow> (\<forall>x lock. os = Some x \<longrightarrow> Some lock \<in> set (LockOrders x) \<longrightarrow>
     lo_BuyerReceiveAddress lock \<in> A)"

lemma world_HandleCommitteeSwaps [world_rules]:
  assumes "orders_in A os"
  shows "preserves (world E A n) (HandleCommitteeSwaps os c)"
proof -
  have L: "preserves (world E A n) (lenient (LockSellOrder lock c))" if "lo_BuyerReceiveAddress lock \<in> A" for lock
    by (rule world_lenient [OF world_LockSellOrder [OF that] LockSellOrder_err])
  have R: "preserves (world E A n) (lenient (ResetOrder i c))" for i
    by (rule world_lenient [OF world_ResetOrder ResetOrder_err])
  have C: "preserves (world E A n) (lenient (CloseOrder i c))" for i
    by (rule world_lenient [OF world_CloseOrder CloseOrder_err])
  show ?thesis
    unfolding HandleCommitteeSwaps_def
    by (rule L R C uphold_rules | (use assms in \<open>force simp: orders_in_def\<close>))+
qed

end
