(* ===== verification/Gov.thy ===== *)
theory Gov
  imports World
begin

text \<open>
  On-chain governance (fsm/gov.go): the local vote on a proposal, the update of one parameter by
  space and name, and the adjustments that keep the state within the new parameters.  The lemmas:
  an update never moves a token, and the stake ledger still matches the validators after a
  committee reset, a raised minimum stake or a lowered committee maximum.
\<close>

section \<open>The proposal vote\<close>

definition ApproveProposal :: "u64 \<Rightarrow> u64 \<Rightarrow> string \<Rightarrow> StateMachine \<Rightarrow> err + unit" where
  "ApproveProposal startHeight endHeight proposalHash s =
     (if Height s < startHeight \<or> endHeight < Height s then Inl ErrRejectProposal
      else case ProposeVoteConfig s of
        REJECT_ALL \<Rightarrow> Inl ErrRejectProposal
      | APPROVE_LIST \<Rightarrow>
          (case ApproveList (Cfg s) of
             Inl e \<Rightarrow> Inl e
           | Inr proposals \<Rightarrow>
               (if proposals proposalHash = Some True then Inr () else Inl ErrRejectProposal))
      | _ \<Rightarrow> Inr ())"

section \<open>Adjusting the state to new parameters\<close>

definition DeleteCheckpointsForChain :: "u64 \<Rightarrow> unit fsm" where
  "DeleteCheckpointsForChain chainId =
     writes (\<lambda>s. s\<lparr>checkpoints := filter (\<lambda>e. fst (fst e) \<noteq> chainId) (checkpoints s)\<rparr>)"

text \<open>The part of \<open>ConformStateToParamUpdate\<close> that a nonzero \<open>ResetCommittee\<close> asks for.\<close>

definition reset_committee :: "ConsensusParams \<Rightarrow> unit fsm" where
  "reset_committee cons =
     (if ResetCommittee cons = 0 then ok ()
      else
        bindE (OverwriteCommitteeData (new_CommitteeData (ResetCommittee cons))) (\<lambda>_.
        bindE (DeleteCheckpointsForChain (ResetCommittee cons)) (\<lambda>_.
        bindE (DeleteLockedBatch (ResetCommittee cons)) (\<lambda>_.
          SetParamsCons (cons\<lparr>ResetCommittee := 0\<rparr>)))))"

definition reset_root_height :: "unit fsm" where
  "reset_root_height =
     bindE (reads (\<lambda>s. GetCommitteeData (cfg_ChainId (Cfg s)) s)) (\<lambda>selfCommittee.
       OverwriteCommitteeData (selfCommittee\<lparr>LastRootHeightUpdated := 0\<rparr>))"

text \<open>\<open>maxCommittees\<close> committees of a validator, in a circle from a start that moves on.\<close>

definition kept_committees :: "nat \<Rightarrow> nat \<Rightarrow> u64 list \<Rightarrow> u64 list" where
  "kept_committees maxCommittees idx cs =
     map (\<lambda>i. cs ! ((idx mod length cs + i) mod length cs)) [0..<maxCommittees]"

definition trim_committees :: "nat \<Rightarrow> Validator \<Rightarrow> nat \<Rightarrow> nat fsm" where
  "trim_committees maxCommittees v idx =
     (if length (val_Committees v) \<le> maxCommittees then ok idx
      else
        let newCommittees = kept_committees maxCommittees idx (val_Committees v) in
        bindE (if \<not> val_Delegate v
               then UpdateCommittees (val_Address v) v (val_StakedAmount v) newCommittees
               else UpdateDelegations (val_Address v) v (val_StakedAmount v) newCommittees) (\<lambda>_.
        bindE (SetValidator (v\<lparr>val_Committees := newCommittees\<rparr>)) (\<lambda>_.
          ok (Suc idx))))"

definition ConformStateToParamUpdate :: "Params \<Rightarrow> unit fsm" where
  "ConformStateToParamUpdate previousParams =
     bindE GetParams (\<lambda>params.
     bindE (reset_committee (Consensus params)) (\<lambda>_.
     bindE (if RootChainId (Consensus previousParams) \<noteq> RootChainId (Consensus params)
            then reset_root_height else ok ()) (\<lambda>_.
     bindE (if MinimumStakeForValidators (Validator previousParams)
                 < MinimumStakeForValidators (Validator params)
               \<or> MinimumStakeForDelegates (Validator previousParams)
                 < MinimumStakeForDelegates (Validator params)
            then
              bindE (reads (\<lambda>s. kv_values (validators s)))
                (for_op (\<lambda>v. bindE (SetValidatorUnstakingIfBelowMinimum v (Validator params)) (\<lambda>_. ok ())))
            else ok ()) (\<lambda>_.
       if MaxCommittees (Validator previousParams) \<le> MaxCommittees (Validator params) then ok ()
       else
         bindE (reads (\<lambda>s. kv_values (validators s))) (\<lambda>vs.
         bindE (fold_op (trim_committees (unat (MaxCommittees (Validator params)))) vs 0) (\<lambda>_.
           ok ()))))))"

section \<open>Updating a parameter\<close>

text \<open>
  The setter works on the object that the getter returned.  For the validator and fee spaces this
  is the cached object, so the cache shows the new value even when the setter's check fails.
\<close>

definition set_space :: "'p \<Rightarrow> 'p setter \<Rightarrow> ('p \<Rightarrow> StateMachine \<Rightarrow> StateMachine) \<Rightarrow> ('p \<Rightarrow> unit fsm) \<Rightarrow>
    unit fsm" where
  "set_space sp setter cached save =
     (case setter sp of
        (sp', Inl e) \<Rightarrow> bindE (writes (cached sp')) (\<lambda>_. fail e)
      | (sp', Inr _) \<Rightarrow> bindE (writes (cached sp')) (\<lambda>_. save sp'))"

definition set_value :: "(string \<Rightarrow> u64 \<Rightarrow> 'p setter) \<Rightarrow> (string \<Rightarrow> string \<Rightarrow> 'p setter) \<Rightarrow>
    string \<Rightarrow> param_value \<Rightarrow> 'p setter" where
  "set_value SetUint64 SetString paramName v =
     (case v of
        UInt64Wrapper n \<Rightarrow> SetUint64 paramName n
      | StringWrapper x \<Rightarrow> SetString paramName x
      | OtherValue \<Rightarrow> fail ErrUnknownParamType)"

text \<open>A new protocol version may not be queued while the scheduled one waits for its height.\<close>

definition may_queue :: "string \<Rightarrow> param_value \<Rightarrow> ConsensusParams \<Rightarrow> StateMachine \<Rightarrow> err + unit" where
  "may_queue paramName v cons s =
     (case v of
        StringWrapper _ \<Rightarrow>
          if paramName = ''protocolVersion'' then
            (case ParseProtocolVersion cons of
               Inl e \<Rightarrow> Inl e
             | Inr currentProtocol \<Rightarrow>
                 if Height s < pv_Height currentProtocol then Inl ErrInvalidProtocolVersion else Inr ())
          else Inr ()
      | _ \<Rightarrow> Inr ())"

definition UpdateParam :: "string \<Rightarrow> string \<Rightarrow> param_value \<Rightarrow> unit fsm" where
  "UpdateParam paramSpace paramName v =
     bindE GetParams (\<lambda>previousParams.
     bindE
       (if paramSpace = ''cons'' then
          bindE GetParamsCons (\<lambda>sp.
          bindE (gets (may_queue paramName v sp)) (\<lambda>_.
            set_space sp (set_value ConsensusParams_SetUint64 ConsensusParams_SetString paramName v)
              (\<lambda>_ s. s) SetParamsCons))
        else if paramSpace = ''val'' then
          bindE GetParamsVal (\<lambda>sp.
            set_space sp (set_value ValidatorParams_SetUint64 no_SetString paramName v)
              (\<lambda>p s. s\<lparr>cache_valParams := Some p\<rparr>) SetParamsVal)
        else if paramSpace = ''fee'' then
          bindE GetParamsFee (\<lambda>sp.
            set_space sp (set_value FeeParams_SetUint64 no_SetString paramName v)
              (\<lambda>p s. s\<lparr>cache_feeParams := Some p\<rparr>) SetParamsFee)
        else if paramSpace = ''gov'' then
          bindE GetParamsGov (\<lambda>sp.
            set_space sp (set_value GovernanceParams_SetUint64 no_SetString paramName v)
              (\<lambda>_ s. s) SetParamsGov)
        else fail ErrUnknownParamSpace) (\<lambda>_.
     ConformStateToParamUpdate previousParams))"

text \<open>The space names that a user may type.\<close>

definition contains :: "string \<Rightarrow> string \<Rightarrow> bool" where
  "contains x sub \<longleftrightarrow> (\<exists>i \<in> set [0..<Suc (length x)]. take (length sub) (drop i x) = sub)"

definition FormatParamSpace :: "string \<Rightarrow> string" where
  "FormatParamSpace paramSpace =
     (let x = ToLower paramSpace in
      if contains x ''con'' then ''cons''
      else if contains x ''gov'' then ''gov''
      else if contains x ''fee'' then ''fee''
      else if contains x ''val'' then ''val''
      else x)"

section \<open>Shrinking the committee lists\<close>

lemma length_kept_committees [simp]: "length (kept_committees m i cs) = m"
  by (simp add: kept_committees_def)

text \<open>What is kept comes from the old list, and no committee is kept twice.\<close>

lemma kept_committees_subset: "m \<le> length cs \<Longrightarrow> set (kept_committees m i cs) \<subseteq> set cs"
  by (cases "cs = []") (auto simp: kept_committees_def)

lemma kept_committees_distinct:
  assumes "distinct cs" and "m \<le> length cs"
  shows "distinct (kept_committees m i cs)"
proof -
  let ?n = "length cs" and ?k = "i mod length cs"
  have "x = y" if xy: "x < m" "y < m" and eq: "cs ! ((?k + x) mod ?n) = cs ! ((?k + y) mod ?n)" for x y
  proof -
    have pos: "0 < ?n" using xy assms(2) by linarith
    then have "(?k + x) mod ?n = (?k + y) mod ?n"
      using eq nth_eq_iff_index_eq [OF assms(1)] by simp
    then have "int (?k + x) mod int ?n = int (?k + y) mod int ?n" by (simp only: of_nat_mod [symmetric])
    then have "int ?n dvd int x - int y" by (simp add: mod_eq_dvd_iff)
    moreover have "\<bar>int x - int y\<bar> < int ?n" using xy assms(2) by linarith
    ultimately have "int x - int y = 0" using dvd_imp_le_int [of "int x - int y" "int ?n"] by fastforce
    then show ?thesis by simp
  qed
  then show ?thesis
    by (auto simp: kept_committees_def distinct_map intro!: inj_onI)
qed

text \<open>Rewriting one validator leaves the others.\<close>

definition others_kept :: "address \<Rightarrow> StateMachine \<Rightarrow> StateMachine \<Rightarrow> bool" where
  "others_kept a s t \<longleftrightarrow> (\<forall>b. b \<noteq> a \<longrightarrow> kv_get (validators t) b = kv_get (validators s) b)"

lemma trim_committees_world:
  assumes w: "world E A n s" and v: "kv_get (validators s) (val_Address v) = Some v"
    and t: "trim_committees m v i s = (t, Inr j)"
  shows "world E A n t" and "others_kept (val_Address v) s t"
    and "\<exists>x. kv_get (validators t) (val_Address v) = Some x \<and> length (val_Committees x) \<le> m"
proof -
  have "world E A n t \<and> others_kept (val_Address v) s t \<and>
    (\<exists>x. kv_get (validators t) (val_Address v) = Some x \<and> length (val_Committees x) \<le> m)"
  proof (cases "length (val_Committees v) \<le> m")
    case True
    with t w v show ?thesis by (simp add: trim_committees_def others_kept_def)
  next
    case False
    let ?cs = "kept_committees m i (val_Committees v)" and ?n = "val_StakedAmount v"
    let ?new = "v\<lparr>val_Committees := ?cs\<rparr>"
    let ?lists = "if \<not> val_Delegate v then UpdateCommittees (val_Address v) v ?n ?cs
      else UpdateDelegations (val_Address v) v ?n ?cs"
    obtain u where u: "?lists s = (u, Inr ())" and set: "SetValidator ?new u = (t, Inr ())"
      using t False by (auto simp: trim_committees_def Let_def elim!: bindE_okE split: if_split_asm)
    have F: "frame validators ?lists" "frame others ?lists" "frame rest_of ?lists" "frame pools ?lists"
      by (intro frame_rules; simp add: others_def)+
    note same = frameD [where m = ?lists, OF F(1) u] frameD [where m = ?lists, OF F(2) u]
      frameD [where m = ?lists, OF F(3) u] frameD [where m = ?lists, OF F(4) u]
    have td: "t = u\<lparr>validators := kv_set (val_Address v) ?new (validators s)\<rparr>"
      using set same(1) by (simp add: SetValidator_def writes_apply)
    have "moves (\<lambda>e. weight e v) (\<lambda>e. weight e ?new) s t"
    proof (cases "val_Delegate v")
      case True
      with u have "UpdateDelegations (val_Address v) v ?n ?cs s = (u, Inr ())" by simp
      from moves_trans [OF shifts_moves [OF UpdateDelegations_shifts [OF this]] SetValidator_moves [OF set]] True
      show ?thesis by (simp add: moves_def all_entry)
    next
      case False
      with u have "UpdateCommittees (val_Address v) v ?n ?cs s = (u, Inr ())" by simp
      from moves_trans [OF shifts_moves [OF UpdateCommittees_shifts [OF this]] SetValidator_moves [OF set]] False
      show ?thesis by (simp add: moves_def all_entry)
    qed
    note m = this [unfolded moves_def]
    have s_ok: "funds_ok A s" "ledger_on E s" "held s = total_supply s" "kv_wf (validators s)"
      using worldD(2) [OF w] by (simp_all add: books_on_def funds_ok_def)
    have val: "validators t = kv_set (val_Address v) ?new (validators s)" by (simp add: td)
    have "ledger_on E t"
      by (rule ledger_replace [OF s_ok(2,4) v _ val]) (use m in simp)
    moreover have "stake_total t = stake_total s"
      unfolding stake_total_def val by (rule kv.total_upd_same [OF s_ok(4) v]) simp
    moreover have oth: "others t = others s" using same(2) by (simp add: td others_def)
    moreover have "kv_wf (validators t)" by (simp add: val kv_wf_set s_ok(4))
    ultimately have books: "books_on E A t"
      using stake_books [OF s_ok(1,2), of 0 t] s_ok(3) m by simp
    have "val_Output v \<in> A" using vals_ok_get [OF worldD(5) [OF w] v] by simp
    then have "vals_ok A t"
      using vals_ok_set [of A u ?new] worldD(5) [OF w] same(1) by (simp add: td vals_ok_def)
    moreover have "liquid t" using worldD(3) [OF w] liquid_cong [of t s] oth by (simp add: others_def)
    moreover have "rest_of t = rest_of s" using same(3) by (simp add: td)
    ultimately have "world E A n t"
      using world_step [OF w, of t] books m worldD(9) [OF w] by simp
    then show ?thesis by (simp add: others_kept_def val)
  qed
  then show "world E A n t" "others_kept (val_Address v) s t"
    "\<exists>x. kv_get (validators t) (val_Address v) = Some x \<and> length (val_Committees x) \<le> m" by auto
qed

lemma below_minimum_world:
  assumes w: "world E A n s" and v: "kv_get (validators s) (val_Address v) = Some v"
    and t: "SetValidatorUnstakingIfBelowMinimum v p s = (t, Inr b)"
  shows "world E A n t" and "others_kept (val_Address v) s t"
    and "\<exists>x. kv_get (validators t) (val_Address v) = Some x \<and> True"
proof -
  note e = below_minimum_effect [OF t]
  have wf: "kv_wf (validators s)" using worldD(2) [OF w] by (simp add: books_on_def funds_ok_def)
  have m: "money t = money s"
  proof (cases b)
    case True
    with e obtain x where x: "validators t = kv_set (val_Address v) x (validators s)" "same_stake x v"
      "supplyTracker t = supplyTracker s" "others t = others s" by auto
    with stakes_kv_set [OF wf v x(2)] show ?thesis by (simp add: money_def)
  qed (use e in simp)
  then have "pools t = pools s" by (simp add: money_def others_def)
  then have "liquid t" using worldD(3) [OF w] liquid_cong by metis
  moreover have "val_Output v \<in> A" using vals_ok_get [OF worldD(5) [OF w] v] by simp
  then have "vals_ok A t"
    using upholdsD [OF roster_below_minimum worldD(5) [OF w] t] by simp
  moreover have "frame rest_of (SetValidatorUnstakingIfBelowMinimum v p)" by (intro frame_rules; simp)
  from frameD [OF this t] have "rest_of t = rest_of s" .
  ultimately show "world E A n t"
    using world_step [OF w, of t] money_books(1,3) [OF m] worldD(2,9) [OF w] by simp
  show "others_kept (val_Address v) s t" "\<exists>x. kv_get (validators t) (val_Address v) = Some x \<and> True"
    using e v by (cases b; auto simp: others_kept_def)+
qed

text \<open>A pass over a snapshot of the validators in which each step rewrites its own validator.\<close>

definition pending :: "Validator list \<Rightarrow> StateMachine \<Rightarrow> bool" where
  "pending vs s \<longleftrightarrow> distinct (map val_Address vs) \<and>
     (\<forall>v \<in> set vs. kv_get (validators s) (val_Address v) = Some v)"

lemma pending_step:
  assumes p: "pending (v # vs) s" and k: "others_kept (val_Address v) s t"
  shows "pending vs t"
  unfolding pending_def
proof (intro conjI ballI)
  show "distinct (map val_Address vs)" using p by (simp add: pending_def)
  fix w assume w: "w \<in> set vs"
  have "val_Address v \<notin> val_Address ` set vs" using p unfolding pending_def by simp
  then have "val_Address w \<noteq> val_Address v" using w by (metis imageI)
  then have "kv_get (validators t) (val_Address w) = kv_get (validators s) (val_Address w)"
    using k by (simp add: others_kept_def)
  also have "\<dots> = Some w" using p w by (simp add: pending_def)
  finally show "kv_get (validators t) (val_Address w) = Some w" .
qed

lemma pending_all:
  assumes w: "world E A n s"
  shows "pending (kv_values (validators s)) s"
proof -
  have wf: "kv_wf (validators s)" using worldD(2) [OF w] by (simp add: books_on_def funds_ok_def)
  have keys: "map val_Address (kv_values (validators s)) = kv_keys (validators s)"
  proof -
    have "(val_Address \<circ> snd) e = fst e" if "e \<in> set (validators s)" for e
      using worldD(5) [OF w] that by (cases e) (auto simp: vals_ok_def)
    then show ?thesis unfolding kv_values_def kv_keys_def map_map by (rule map_cong [OF refl])
  qed
  have "kv_get (validators s) (val_Address v) = Some v" if "v \<in> set (kv_values (validators s))" for v
    using that wf vals_ok_get [OF worldD(5) [OF w]] by (auto simp: kv_values_set)
  then show ?thesis
    using distinct_kv_keys [OF wf] by (simp add: pending_def keys)
qed

lemma over_validators:
  assumes step: "\<And>v a s t b. world E A n s \<Longrightarrow> kv_get (validators s) (val_Address v) = Some v \<Longrightarrow>
      f v a s = (t, Inr b) \<Longrightarrow> world E A n t \<and> others_kept (val_Address v) s t \<and>
      (\<exists>x. kv_get (validators t) (val_Address v) = Some x \<and> R x)"
    and s: "world E A n s" and run: "fold_op f (kv_values (validators s)) a s = (t, Inr b)"
  shows "world E A n t" and "\<forall>c v. kv_get (validators t) c = Some v \<longrightarrow> R v"
proof -
  define J where "J vs u \<longleftrightarrow> world E A n u \<and> pending vs u \<and>
    (\<forall>c v. kv_get (validators u) c = Some v \<longrightarrow> R v \<or> c \<in> val_Address ` set vs)" for vs u
  have "J [] t"
  proof (rule fold_op_rule [OF _ run, of "\<lambda>vs _. J vs"])
    have "c \<in> val_Address ` set (kv_values (validators s))" if v: "kv_get (validators s) c = Some v" for c v
    proof -
      have "v \<in> set (kv_values (validators s))"
        using kv_get_in_set [OF v] by (force simp: kv_values_def)
      moreover have "c = val_Address v" using vals_ok_get [OF worldD(5) [OF s] v] by simp
      ultimately show ?thesis by simp
    qed
    then show "J (kv_values (validators s)) s" using s pending_all [OF s] by (simp add: J_def)
    fix v vs x u y w
    assume u: "J (v # vs) u" and fv: "f v x u = (w, Inr y)"
    then have "world E A n u" "kv_get (validators u) (val_Address v) = Some v" "pending (v # vs) u"
      by (simp_all add: J_def pending_def)
    note st = step [OF this(1,2) fv] and p = this(3)
    have "R z \<or> c \<in> val_Address ` set vs" if z: "kv_get (validators w) c = Some z" for c z
    proof (cases "c = val_Address v")
      case False
      with st z have "kv_get (validators u) c = Some z" by (simp add: others_kept_def)
      with u False show ?thesis by (auto simp: J_def)
    qed (use st z in auto)
    with st pending_step [OF p] show "J vs w" unfolding J_def by blast
  qed
  then show "world E A n t" "\<forall>c v. kv_get (validators t) c = Some v \<longrightarrow> R v" by (simp_all add: J_def)
qed

lemma world_over_validators:
  assumes "\<And>v a s t b. world E A n s \<Longrightarrow> kv_get (validators s) (val_Address v) = Some v \<Longrightarrow>
      f v a s = (t, Inr b) \<Longrightarrow> world E A n t \<and> others_kept (val_Address v) s t \<and>
      (\<exists>x. kv_get (validators t) (val_Address v) = Some x \<and> R x)"
  shows "preserves (world E A n) (bindE (reads (\<lambda>s. kv_values (validators s))) (\<lambda>vs. fold_op f vs x))"
  by (rule upholdsI) (use over_validators(1) [OF assms] in \<open>simp add: bindE_reads\<close>)

lemma for_op_fold: "for_op f xs = fold_op (\<lambda>x _. f x) xs ()"
  by (induction xs) simp_all

section \<open>A parameter update keeps the state in order\<close>

lemma world_params_write [simp]:
  "world E A n (s\<lparr>params_cons := a\<rparr>) = world E A n s" "world E A n (s\<lparr>params_gov := b\<rparr>) = world E A n s"
  "world E A n (s\<lparr>params_val := c\<rparr>) = world E A n s" "world E A n (s\<lparr>params_fee := d\<rparr>) = world E A n s"
  "world E A n (s\<lparr>cache_valParams := c\<rparr>) = world E A n s"
  "world E A n (s\<lparr>cache_feeParams := d\<rparr>) = world E A n s"
  "world E A n (s\<lparr>checkpoints := k\<rparr>) = world E A n s"
proof -
  have m: "money (s\<lparr>params_cons := a\<rparr>) = money s" "money (s\<lparr>params_gov := b\<rparr>) = money s"
    "money (s\<lparr>params_val := c\<rparr>) = money s" "money (s\<lparr>params_fee := d\<rparr>) = money s"
    "money (s\<lparr>cache_feeParams := d\<rparr>) = money s" "money (s\<lparr>checkpoints := k\<rparr>) = money s"
    by (simp_all add: money_def others_def)
  note b = m [THEN money_books(1)] m [THEN money_books(3)]
  show "world E A n (s\<lparr>params_cons := a\<rparr>) = world E A n s" "world E A n (s\<lparr>params_gov := b\<rparr>) = world E A n s"
    "world E A n (s\<lparr>params_val := c\<rparr>) = world E A n s" "world E A n (s\<lparr>params_fee := d\<rparr>) = world E A n s"
    "world E A n (s\<lparr>cache_valParams := c\<rparr>) = world E A n s"
    "world E A n (s\<lparr>cache_feeParams := d\<rparr>) = world E A n s"
    "world E A n (s\<lparr>checkpoints := k\<rparr>) = world E A n s"
    by (simp_all add: world_def dex_ok_def b batches_ok_def vals_ok_def payouts_ok_def parties_ok_def
        remote_cache_ok_def liquid_def GetPool_def total_supply_def)
qed

lemma payable_new [simp]: "payable A (new_CommitteeData c)"
  by (simp add: payable_def well_sampled_def new_CommitteeData_def)

lemma payouts_list:
  assumes "payouts_ok A s" and "getCommitteeDataAndList c s = (l, d, i)"
  shows "\<forall>x \<in> set l. payable A x" and "payable A d"
  using assms by (auto simp: getCommitteeDataAndList_def payouts_ok_def Let_def split: if_split_asm)

lemma payouts_GetCommitteeData: "payouts_ok A s \<Longrightarrow> payable A (GetCommitteeData c s)"
  by (cases "getCommitteeDataAndList c s") (auto simp: GetCommitteeData_def dest: payouts_list(2))

lemma world_SetCommitteesData:
  "\<forall>x \<in> set l. payable A x \<Longrightarrow> preserves (world E A n) (SetCommitteesData l)"
  unfolding SetCommitteesData_def
proof (rule preserves_writes)
  fix s assume l: "\<forall>x \<in> set l. payable A x" and s: "world E A n s"
  have "money (s\<lparr>committeesData := l\<rparr>) = money s" by (simp add: money_def others_def)
  note m = money_books [OF this]
  show "world E A n (s\<lparr>committeesData := l\<rparr>)"
    by (rule world_step_data [OF s])
      (use l m worldD [OF s] in \<open>simp_all add: rest_but_data_def payouts_ok_def vals_ok_def liquid_def GetPool_def\<close>)
qed

lemma world_OverwriteCommitteeData [world_rules]:
  assumes d: "payable A d"
  shows "preserves (world E A n) (OverwriteCommitteeData d)"
proof -
  have look: "upholds (world E A n) (reads (getCommitteeDataAndList (cd_ChainId d)))
      (\<lambda>(l, _, _). \<forall>x \<in> set l. payable A x)"
    by (rule upholds_reads) (auto dest!: worldD(6) payouts_list(1))
  have upd: "\<forall>x \<in> set (l[i := d]). payable A x" if "\<forall>x \<in> set l. payable A x" for l i
    using that d set_update_subset_insert [of l i d] by auto
  show ?thesis
    unfolding OverwriteCommitteeData_def
    by (rule upholds_bindE [OF look]) (auto intro!: world_SetCommitteesData upd)
qed

lemma world_DeleteLockedBatch [world_rules]: "preserves (world E A n) (DeleteLockedBatch c)"
proof (rule world_dex)
  show "frame validators (DeleteLockedBatch c)" "frame committeesData (DeleteLockedBatch c)"
    "frame orders (DeleteLockedBatch c)"
    by (intro frame_rules; simp)+
  show "preserves (remote_cache_ok A) (DeleteLockedBatch c)"
    by (rule remote_frame, intro frame_rules; simp)
qed (use write_batch(3) worldD(1) in blast)

lemma world_SetParams [world_rules]:
  "preserves (world E A n) (SetParamsCons c)" "preserves (world E A n) (SetParamsVal v)"
  "preserves (world E A n) (SetParamsFee f)" "preserves (world E A n) (SetParamsGov g)"
  unfolding SetParamsCons_def SetParamsVal_def SetParamsFee_def SetParamsGov_def
  by (rule preserves_writes; simp)+

lemma world_GetParams [world_rules]:
  "preserves (world E A n) GetParams" "preserves (world E A n) GetParamsCons"
  "preserves (world E A n) GetParamsFee" "preserves (world E A n) GetParamsGov"
proof -
  show F: "preserves (world E A n) GetParamsCons" "preserves (world E A n) GetParamsFee"
    "preserves (world E A n) GetParamsGov"
    by (rule upholdsI; auto simp: GetParamsCons_def GetParamsGov_def dest!: GetParamsFee_cache
        split: option.splits)+
  show "preserves (world E A n) GetParams"
    unfolding GetParams_def by (rule F world_rules uphold_rules)+
qed

lemma world_reset_committee [world_rules]:
  "preserves (world E A n) (reset_committee c)" "preserves (world E A n) reset_root_height"
proof -
  have D: "preserves (world E A n) (DeleteCheckpointsForChain c)" for c
    unfolding DeleteCheckpointsForChain_def by (rule preserves_writes) simp
  show "preserves (world E A n) (reset_committee c)"
    unfolding reset_committee_def by (rule D world_rules uphold_rules payable_new)+
  have "upholds (world E A n) (reads (\<lambda>s. GetCommitteeData (cfg_ChainId (Cfg s)) s)) (payable A)"
    by (rule upholds_reads) (auto dest!: worldD(6) intro: payouts_GetCommitteeData)
  then show "preserves (world E A n) reset_root_height"
    unfolding reset_root_height_def
    by (rule upholds_bindE) (rule world_OverwriteCommitteeData, simp add: payable_def well_sampled_def)
qed

lemma world_min_stake:
  "preserves (world E A n) (bindE (reads (\<lambda>s. kv_values (validators s)))
     (for_op (\<lambda>v. bindE (SetValidatorUnstakingIfBelowMinimum v p) (\<lambda>_. ok ()))))"
  unfolding for_op_fold
  by (rule world_over_validators) (auto elim!: bindE_okE dest: below_minimum_world)

lemma world_trim:
  "preserves (world E A n) (bindE (reads (\<lambda>s. kv_values (validators s)))
     (\<lambda>vs. bindE (fold_op (trim_committees m) vs i) (\<lambda>_. ok ())))"
  unfolding bindE_assoc [symmetric]
  by (rule upholds_bindE [OF world_over_validators [where R = "\<lambda>x. length (val_Committees x) \<le> m"] preserves_ok])
    (blast dest: trim_committees_world)

lemma world_ConformStateToParamUpdate [world_rules]:
  "preserves (world E A n) (ConformStateToParamUpdate previousParams)"
  unfolding ConformStateToParamUpdate_def
  by (rule world_min_stake world_trim world_rules uphold_rules)+

lemma world_set_space:
  assumes "\<And>x s. world E A n s \<Longrightarrow> world E A n (cached x s)" and "\<And>x. preserves (world E A n) (save x)"
  shows "preserves (world E A n) (set_space sp setter cached save)"
  unfolding set_space_def by (rule assms uphold_rules | assumption)+

theorem world_UpdateParam [world_rules]: "preserves (world E A n) (UpdateParam sp k v)"
  unfolding UpdateParam_def
  by (rule world_set_space world_rules uphold_rules | (simp; fail))+

section \<open>The new committee maximum holds at once\<close>

definition committees_within :: "nat \<Rightarrow> StateMachine \<Rightarrow> bool" where
  "committees_within m s \<longleftrightarrow>
     (\<forall>a v. kv_get (validators s) a = Some v \<longrightarrow> length (val_Committees v) \<le> m)"

lemma ConformState_trims:
  assumes s: "world E A n s" and t: "ConformStateToParamUpdate previousParams s = (t, Inr ())"
    and p: "GetParams s = (u, Inr params)"
    and lower: "MaxCommittees (Validator params) < MaxCommittees (Validator previousParams)"
  shows "committees_within (unat (MaxCommittees (Validator params))) t"
proof -
  let ?m = "unat (MaxCommittees (Validator params))"
  have "\<exists>w. world E A n w \<and> bindE (reads (\<lambda>s. kv_values (validators s)))
      (\<lambda>vs. bindE (fold_op (trim_committees ?m) vs 0) (\<lambda>_. ok ())) w = (t, Inr ())"
  proof -
    define pre where "pre = bindE (reset_committee (Consensus params)) (\<lambda>_.
       bindE (if RootChainId (Consensus previousParams) \<noteq> RootChainId (Consensus params)
              then reset_root_height else ok ()) (\<lambda>_.
         if MinimumStakeForValidators (Validator previousParams) < MinimumStakeForValidators (Validator params)
          \<or> MinimumStakeForDelegates (Validator previousParams) < MinimumStakeForDelegates (Validator params)
         then bindE (reads (\<lambda>s. kv_values (validators s)))
           (for_op (\<lambda>v. bindE (SetValidatorUnstakingIfBelowMinimum v (Validator params)) (\<lambda>_. ok ())))
         else ok ()))"
    have nle: "(MaxCommittees (Validator previousParams) \<le> MaxCommittees (Validator params)) = False"
      using lower by simp
    have u: "world E A n u" using upholdsD [OF world_GetParams(1) s p] by simp
    have pre: "preserves (world E A n) pre"
      unfolding pre_def by (rule world_min_stake world_rules uphold_rules)+
    have "bindE pre (\<lambda>_. bindE (reads (\<lambda>s. kv_values (validators s)))
        (\<lambda>vs. bindE (fold_op (trim_committees ?m) vs 0) (\<lambda>_. ok ()))) u = (t, Inr ())"
      using t unfolding ConformStateToParamUpdate_def bindE_of_ok [where m = GetParams, OF p] pre_def
        bindE_assoc nle if_False .
    then obtain w x where "pre u = (w, Inr x)" and run: "bindE (reads (\<lambda>s. kv_values (validators s)))
        (\<lambda>vs. bindE (fold_op (trim_committees ?m) vs 0) (\<lambda>_. ok ())) w = (t, Inr ())"
      by (rule bindE_okE)
    with upholdsD [OF pre u] show ?thesis by blast
  qed
  then obtain w i where w: "world E A n w"
    and run: "fold_op (trim_committees ?m) (kv_values (validators w)) 0 w = (t, Inr i)"
    by (auto simp: bindE_reads elim!: bindE_okE)
  have step: "world E A n y \<and> others_kept (val_Address v) x y \<and>
      (\<exists>z. kv_get (validators y) (val_Address v) = Some z \<and> length (val_Committees z) \<le> ?m)"
    if "world E A n x" "kv_get (validators x) (val_Address v) = Some v"
      "trim_committees ?m v a x = (y, Inr b)" for v a x y b
    using trim_committees_world [OF that] by blast
  from over_validators(2) [OF step w run] show ?thesis by (simp add: committees_within_def)
qed

section \<open>The stored parameters stay valid\<close>

definition params_valid :: "StateMachine \<Rightarrow> bool" where
  "params_valid s \<longleftrightarrow>
     (\<forall>p. params_cons s = Some p \<longrightarrow> ConsensusParams_Check p = Inr ()) \<and>
     (\<forall>p. params_val s = Some p \<longrightarrow> ValidatorParams_Check p = Inr ()) \<and>
     (\<forall>p. params_gov s = Some p \<longrightarrow> GovernanceParams_Check p = Inr ())"

lemma params_valid_frame:
  "frame (\<lambda>s. (params_cons s, params_val s, params_gov s)) m \<Longrightarrow> preserves params_valid m"
  by (rule preserves_frame) (auto simp: params_valid_def)

lemma valid_set_space:
  assumes "\<And>x s. params_valid s \<Longrightarrow> params_valid (cached x s)"
    and "\<And>x. setter sp = (x, Inr ()) \<Longrightarrow> preserves params_valid (save x)"
  shows "preserves params_valid (set_space sp setter cached save)"
proof (cases "setter sp")
  case (Pair x r)
  show ?thesis
  proof (cases r)
    case (Inl e)
    show ?thesis unfolding set_space_def Pair Inl prod.case sum.case
      by (rule upholds_bindE [OF preserves_writes upholds_fail]) (rule assms, assumption)
  next
    case (Inr y)
    have "preserves params_valid (save x)" using assms(2) Pair Inr by simp
    then show ?thesis unfolding set_space_def Pair Inr prod.case sum.case
      by (intro upholds_bindE [OF preserves_writes] assms(1))
  qed
qed

lemma params_valid_writes [simp]:
  "params_valid (s\<lparr>cache_valParams := v\<rparr>) = params_valid s"
  "params_valid (s\<lparr>cache_feeParams := f\<rparr>) = params_valid s"
  by (simp_all add: params_valid_def)

lemma valid_setters:
  "ConsensusParams_Check c = Inr () \<Longrightarrow> preserves params_valid (SetParamsCons c)"
  "ValidatorParams_Check v = Inr () \<Longrightarrow> preserves params_valid (SetParamsVal v)"
  "GovernanceParams_Check g = Inr () \<Longrightarrow> preserves params_valid (SetParamsGov g)"
  "preserves params_valid (SetParamsFee f)"
  unfolding SetParamsCons_def SetParamsVal_def SetParamsFee_def SetParamsGov_def
  by (rule preserves_writes; simp add: params_valid_def)+

lemma set_value_checked:
  "set_value ConsensusParams_SetUint64 ConsensusParams_SetString k v c = (c', Inr ()) \<Longrightarrow>
     ConsensusParams_Check c' = Inr ()"
  "set_value ValidatorParams_SetUint64 no_SetString k v p = (p', Inr ()) \<Longrightarrow> ValidatorParams_Check p' = Inr ()"
  "set_value GovernanceParams_SetUint64 no_SetString k v g = (g', Inr ()) \<Longrightarrow> GovernanceParams_Check g' = Inr ()"
  by (auto simp: set_value_def no_SetString_def split: param_value.splits
      dest: ConsensusParams_SetUint64_checked ConsensusParams_SetString_checked
        ValidatorParams_SetUint64_checked GovernanceParams_SetUint64_checked)

lemma valid_GetParams:
  "upholds params_valid GetParams (\<lambda>p. ConsensusParams_Check (Consensus p) = Inr ())"
proof -
  have c: "upholds params_valid GetParamsCons (\<lambda>c. ConsensusParams_Check c = Inr ())"
    by (rule upholdsI) (auto simp: GetParamsCons_def params_valid_def split: option.splits)
  have F: "preserves params_valid GetParamsVal" "preserves params_valid GetParamsFee"
      "preserves params_valid GetParamsGov"
    by (rule params_valid_frame, intro frame_rules; simp)+
  show ?thesis
    unfolding GetParams_def by (rule c F uphold_rules upholds_ok | simp)+
qed

lemma valid_ConformState: "preserves params_valid (ConformStateToParamUpdate previousParams)"
proof -
  have F: "preserves params_valid (OverwriteCommitteeData d)" "preserves params_valid (DeleteCheckpointsForChain c)"
      "preserves params_valid (DeleteLockedBatch c)" "preserves params_valid reset_root_height"
      "preserves params_valid (SetValidatorUnstakingIfBelowMinimum v p)"
      "preserves params_valid (trim_committees m v i)" for d c v p m i
    unfolding OverwriteCommitteeData_def SetCommitteesData_def DeleteCheckpointsForChain_def
      reset_root_height_def trim_committees_def Let_def
    by (rule params_valid_frame, intro frame_rules; simp)+
  have R: "preserves params_valid (reset_committee c)" if "ConsensusParams_Check c = Inr ()" for c
  proof -
    have chk: "ConsensusParams_Check (c\<lparr>ResetCommittee := 0\<rparr>) = Inr ()"
      using that by (simp add: ConsensusParams_Check_def ParseProtocolVersion_def split: if_split_asm)
    show ?thesis
      unfolding reset_committee_def by (rule F valid_setters(1) [OF chk] uphold_rules)+
  qed
  show ?thesis
    unfolding ConformStateToParamUpdate_def
    by (rule valid_GetParams F R uphold_rules | assumption)+
qed

lemma valid_UpdateParam: "preserves params_valid (UpdateParam sp k v)"
proof -
  have F: "preserves params_valid GetParamsVal" "preserves params_valid GetParamsFee"
      "preserves params_valid GetParamsGov" "preserves params_valid GetParamsCons"
    by (rule params_valid_frame, intro frame_rules; simp)+
  show ?thesis
    unfolding UpdateParam_def
    by (rule preserves_of [OF valid_GetParams] valid_ConformState F uphold_rules
        | rule valid_set_space valid_setters set_value_checked | assumption | (simp; fail))+
qed

end
