(* ===== verification/Automatic.thy ===== *)
theory Automatic
  imports Gov
begin

text \<open>
  The automatic state changes at the boundaries of a block (fsm/automatic.go): reward minting, the
  results of the last quorum certificate, the last proposers, reward distribution, forced and
  finished unstaking, and the same-block dex batch.  What the machine loads from its store at other
  heights is an argument, the \<open>archive\<close>.  The lemmas: each step keeps the invariant of the block
  and mints at most the block subsidy.  The optional plugin is absent.
\<close>

section \<open>The archive\<close>

text \<open>
  \<open>StateAt\<close> is the state machine on a read-only store of an earlier height, \<open>QCAt\<close> the indexed
  certificate, \<open>HashAt\<close> the hash of the indexed block, \<open>LastValidatorSets\<close> the sets that the
  controller keeps per root height and chain.
\<close>

record archive =
  StateAt :: "u64 \<Rightarrow> err + StateMachine"
  QCAt :: "u64 \<Rightarrow> err + QuorumCertificate"
  HashAt :: "u64 \<Rightarrow> bytes option"
  LastValidatorSets :: "u64 \<Rightarrow> u64 \<Rightarrow> ValidatorSet option"

definition TimeMachine :: "archive \<Rightarrow> u64 \<Rightarrow> StateMachine \<Rightarrow> err + StateMachine" where
  "TimeMachine arc height s =
     (let height' = (if height = 0 \<or> Height s < height then Height s else height) in
      if height' = 0 then Inr s else StateAt arc height')"

definition LoadCommittee :: "archive \<Rightarrow> u64 \<Rightarrow> u64 \<Rightarrow> StateMachine \<Rightarrow> err + ValidatorSet" where
  "LoadCommittee arc chainId height s =
     (case TimeMachine arc height s of
        Inl e \<Rightarrow> Inl e
      | Inr historicalFSM \<Rightarrow> snd (GetCommitteeMembers chainId historicalFSM))"

definition LoadRootChainId :: "archive \<Rightarrow> u64 \<Rightarrow> StateMachine \<Rightarrow> err + u64" where
  "LoadRootChainId arc height s =
     (case TimeMachine arc height s of
        Inl e \<Rightarrow> Inl e
      | Inr historicalFSM \<Rightarrow> snd (GetRootChainId historicalFSM))"

definition LoadCertificate :: "archive \<Rightarrow> u64 \<Rightarrow> err + QuorumCertificate" where
  "LoadCertificate arc height = QCAt arc (if height \<le> 1 then 1 else height)"

section \<open>Events\<close>

definition Refer :: "string \<Rightarrow> unit fsm" where
  "Refer r = writes (\<lambda>s. s\<lparr>event_reference := r\<rparr>)"

definition ResetEvents :: "Event list fsm" where
  "ResetEvents = (\<lambda>s. (s\<lparr>events := [], event_reference := []\<rparr>, Inr (events s)))"

section \<open>Protocol version\<close>

definition CheckProtocolVersion :: "StateMachine \<Rightarrow> err + unit" where
  "CheckProtocolVersion s =
     (case params_cons s of
        None \<Rightarrow> Inl ErrEmptyConsParams
      | Some params \<Rightarrow>
          (case ParseProtocolVersion params of
             Inl e \<Rightarrow> Inl e
           | Inr version \<Rightarrow>
               if pv_Height version \<le> Height s \<and> sm_ProtocolVersion s < pv_Version version
               then Inl ErrInvalidProtocolVersion else Inr ()))"

section \<open>Certificate results\<close>

text \<open>The store keeps the checkpoints of a chain in ascending order of height.\<close>

definition GetMostRecentCheckpoint :: "u64 \<Rightarrow> StateMachine \<Rightarrow> Checkpoint" where
  "GetMostRecentCheckpoint chainId s =
     (case rev (filter (\<lambda>e. fst (fst e) = chainId) (checkpoints s)) of
        [] \<Rightarrow> \<lparr>chk_Height = 0, chk_BlockHash = []\<rparr>
      | ((_, h), b) # _ \<Rightarrow> \<lparr>chk_Height = h, chk_BlockHash = b\<rparr>)"

definition IndexCheckpoint :: "u64 \<Rightarrow> Checkpoint \<Rightarrow> unit fsm" where
  "IndexCheckpoint chainId c =
     writes (\<lambda>s. s\<lparr>checkpoints := kv_set (chainId, chk_Height c) (chk_BlockHash c) (checkpoints s)\<rparr>)"

definition HandleCheckpoint :: "u64 \<Rightarrow> CertificateResult \<Rightarrow> unit fsm" where
  "HandleCheckpoint chainId results =
     (case cr_Checkpoint results of
        None \<Rightarrow> ok ()
      | Some c \<Rightarrow>
          if length (chk_BlockHash c) = 0 then ok ()
          else
            bindE (reads (GetMostRecentCheckpoint chainId)) (\<lambda>mostRecent.
              if chk_Height c \<le> chk_Height mostRecent then fail ErrInvalidCheckpoint
              else IndexCheckpoint chainId c))"

text \<open>The payment percents, reduced by the share of power that did not sign; \<open>None\<close> is a nil pointer.\<close>

fun reduce_percents :: "u64 \<Rightarrow> PaymentPercents option list \<Rightarrow> err + PaymentPercents list" where
  "reduce_percents nonSignerPercent [] = Inr []"
| "reduce_percents nonSignerPercent (None # ps) = Inl ErrInvalidPercentAllocation"
| "reduce_percents nonSignerPercent (Some p # ps) =
     (case reduce_percents nonSignerPercent ps of
        Inl e \<Rightarrow> Inl e
      | Inr qs \<Rightarrow> Inr (p\<lparr>pay_Percent := Uint64ReducePercentage (pay_Percent p) nonSignerPercent\<rparr> # qs))"

text \<open>\<open>None\<close> for the certificate or the committee is a nil pointer.\<close>

definition HandleCertificateResults ::
  "archive \<Rightarrow> QuorumCertificate option \<Rightarrow> ValidatorSet option \<Rightarrow> unit fsm" where
  "HandleCertificateResults arc qc committee =
     (case qc of
        None \<Rightarrow> fail ErrNilCertResults
      | Some qc \<Rightarrow>
     (case qc_Results qc of
        None \<Rightarrow> fail ErrNilCertResults
      | Some results \<Rightarrow>
     (case qc_Header qc of
        None \<Rightarrow> fail ErrEmptyView
      | Some header \<Rightarrow>
     (case RewardRecipients results of
        None \<Rightarrow> fail ErrNilRewardRecipients
      | Some recipients \<Rightarrow>
          let chainId = vw_ChainId header; isNested = (committee = None) in
          bindE (reads (CommitteeIsRetired chainId)) (\<lambda>retired.
          if retired then fail ErrNonSubsidizedCommittee
          else
            bindE (reads (GetCommitteeData chainId)) (\<lambda>data.
            if vw_RootHeight header < LastRootHeightUpdated data then fail ErrInvalidQCRootChainHeight
            else if vw_Height header \<le> LastChainHeightUpdated data then fail ErrInvalidQCCommitteeHeight
            else
              bindE (reads (\<lambda>s. cfg_ChainId (Cfg s))) (\<lambda>self.
              bindE (if chainId \<noteq> self \<or> isNested
                     then HandleDexBatch (HashAt arc) chainId results isNested else ok ()) (\<lambda>_.
              bindE (HandleCommitteeSwaps (cr_Orders results) chainId) (\<lambda>_.
              bindE (HandleCheckpoint chainId results) (\<lambda>_.
              bindE (HandleByzantine chainId results (qc_Signature qc) committee) (\<lambda>nonSignerPercent.
              case reduce_percents nonSignerPercent recipients of
                Inl e \<Rightarrow> fail e
              | Inr percents \<Rightarrow>
                  bindE (if cr_Retired results \<and> chainId \<noteq> self then RetireCommittee chainId else ok ()) (\<lambda>_.
                    UpsertCommitteeData \<lparr>cd_ChainId = chainId,
                      LastRootHeightUpdated = vw_RootHeight header,
                      LastChainHeightUpdated = vw_Height header,
                      cd_PaymentPercents = percents, NumberOfSamples = 0\<rparr>))))))))))))"

section \<open>Last proposers\<close>

definition UpdateLastProposers :: "address \<Rightarrow> unit fsm" where
  "UpdateLastProposers a =
     bindE (reads (\<lambda>s. (Height s, lastProposers s))) (\<lambda>(h, l).
       let l = (if length l = 0 then [[], [], [], [], []] else l); index = unat (h mod 5) in
       if index < length l then writes (\<lambda>s. s\<lparr>lastProposers := l[index := a]\<rparr>) else fail Panic)"

section \<open>Block boundaries\<close>

text \<open>The events are reset on the error path of the last call as well.\<close>

definition finish_begin :: "unit fsm \<Rightarrow> Event list fsm" where
  "finish_begin m =
     bindE (attempt m) (\<lambda>r.
     bindE ResetEvents (\<lambda>evs.
       case r of Inl e \<Rightarrow> fail e | Inr _ \<Rightarrow> ok evs))"

definition BeginBlock :: "archive \<Rightarrow> Event list fsm" where
  "BeginBlock arc =
     bindE (Refer ''begin_block'') (\<lambda>_.
     bindE (reads (\<lambda>s. (Height s, cfg_ChainId (Cfg s)))) (\<lambda>(h, self).
       if h \<le> 1 then ok []
       else
         bindE (gets CheckProtocolVersion) (\<lambda>_.
         bindE FundCommitteeRewardPools (\<lambda>_.
         bindE (gets (\<lambda>_. LoadCertificate arc (h - 1))) (\<lambda>lastCertificate.
         bindE (gets (LoadRootChainId arc (h - 1))) (\<lambda>rootChainId.
           if self \<noteq> rootChainId then
             finish_begin (HandleCertificateResults arc (Some lastCertificate) None)
           else
             bindE (gets (LoadCommittee arc self (h - 1))) (\<lambda>lastValidatorSet.
               finish_begin (HandleCertificateResults arc (Some lastCertificate) (Some lastValidatorSet)))))))))"

definition EndBlock :: "address \<Rightarrow> Event list fsm" where
  "EndBlock proposerAddress =
     bindE (Refer ''end_block'') (\<lambda>_.
     bindE (UpdateLastProposers proposerAddress) (\<lambda>_.
     bindE DistributeCommitteeRewards (\<lambda>_.
     bindE ForceUnstakeMaxPaused (\<lambda>_.
     bindE DeleteFinishedUnstaking (\<lambda>_.
     bindE IncludeSameBlockDex (\<lambda>_.
       ResetEvents))))))"

section \<open>What the steps keep\<close>

lemma world_writes:
  assumes "\<And>s. money (f s) = money s" and "\<And>s. rest_of (f s) = rest_of s"
    and "\<And>s. validators (f s) = validators s"
  shows "preserves (world E A n) (writes f)"
  by (rule world_moneyless [OF _ roster_frame]) (auto simp: writes_apply assms intro!: frame_rules)

lemma world_boundary [world_rules]:
  "preserves (world E A n) (Refer r)" "preserves (world E A n) (UpdateLastProposers a)"
  "preserves (world E A n) (RetireCommittee c)" "preserves (world E A n) (HandleCheckpoint c results)"
  "preserves (world E A n) ResetEvents"
proof -
  have W: "preserves (world E A n) (writes (\<lambda>s. s\<lparr>event_reference := r\<rparr>))"
    "preserves (world E A n) (writes (\<lambda>s. s\<lparr>lastProposers := l\<rparr>))"
    "preserves (world E A n) (writes (\<lambda>s. s\<lparr>retired := kv_set c () (retired s)\<rparr>))"
    "preserves (world E A n) (writes (\<lambda>s. s\<lparr>checkpoints := kv_set (c, h) b (checkpoints s)\<rparr>))"
    "preserves (world E A n) (writes (\<lambda>s. s\<lparr>events := [], event_reference := []\<rparr>))" for r l c h b
    by (rule world_writes; simp add: money_def others_def rest_of_def)+
  show "preserves (world E A n) (Refer r)" "preserves (world E A n) (UpdateLastProposers a)"
    "preserves (world E A n) (RetireCommittee c)" "preserves (world E A n) (HandleCheckpoint c results)"
    unfolding Refer_def UpdateLastProposers_def RetireCommittee_def HandleCheckpoint_def IndexCheckpoint_def Let_def
    by (rule W uphold_rules)+
  show "preserves (world E A n) ResetEvents"
    using W(5) by (auto simp: upholds_def ResetEvents_def writes_apply)
qed

subsection \<open>Payment percents\<close>

text \<open>The recipients stay within a set of addresses.\<close>

definition paid_in :: "address set \<Rightarrow> PaymentPercents list \<Rightarrow> bool" where
  "paid_in A ps \<longleftrightarrow> (\<forall>p \<in> set ps. pay_Address p \<in> A)"

lemma paid_in_simps [simp]:
  "paid_in A []" "paid_in A (p # ps) \<longleftrightarrow> pay_Address p \<in> A \<and> paid_in A ps"
  by (simp_all add: paid_in_def)

lemma addPercents_paid_in:
  "addPercents a n c ps = Inr qs \<Longrightarrow> a \<in> A \<Longrightarrow> paid_in A ps \<Longrightarrow> paid_in A qs"
  by (induction a n c ps arbitrary: qs rule: addPercents.induct) (auto split: if_splits sum.splits)

lemma combine_percents_paid_in:
  "combine_percents ps c acc = Inr qs \<Longrightarrow> paid_in A ps \<Longrightarrow> paid_in A acc \<Longrightarrow> paid_in A qs"
  by (induction ps c acc arbitrary: qs rule: combine_percents.induct)
    (auto split: if_splits sum.splits dest: addPercents_paid_in)

lemma reduce_percents_paid_in:
  "reduce_percents q ps = Inr qs \<Longrightarrow> paid_in A (List.map_filter id ps) \<Longrightarrow> paid_in A qs"
  by (induction q ps arbitrary: qs rule: reduce_percents.induct)
    (auto simp: map_filter_simps split: sum.splits)

lemma reduced_le:
  assumes "pay_Percent p \<le> 100"
  shows "unat (Uint64ReducePercentage (pay_Percent p) q) \<le> unat (pay_Percent p)"
proof -
  have "unat (pay_Percent p) * 100 < 18446744073709551616"
    using assms by (simp add: word_le_nat_alt)
  then have "unat (Uint64ReducePercentage (pay_Percent p) q) = unat (pay_Percent p) * (100 - unat q) div 100"
    by (rule unat_Uint64ReducePercentage)
  also have "\<dots> \<le> unat (pay_Percent p) * 100 div 100"
    by (intro div_le_mono mult_le_mono2) simp
  finally show ?thesis by simp
qed

lemma reduce_percents_le:
  "reduce_percents q ps = Inr qs \<Longrightarrow> \<forall>p. Some p \<in> set ps \<longrightarrow> pay_Percent p \<le> 100 \<Longrightarrow>
     own_percents c qs \<le> own_percents c (List.map_filter id ps)"
proof (induction q ps arbitrary: qs rule: reduce_percents.induct)
  case (3 q p ps)
  then obtain rs where rs: "reduce_percents q ps = Inr rs"
    "qs = p\<lparr>pay_Percent := Uint64ReducePercentage (pay_Percent p) q\<rparr> # rs"
    by (auto split: sum.splits)
  have "own_percents c rs \<le> own_percents c (List.map_filter id ps)"
    by (rule "3.IH" [OF rs(1)]) (use "3.prems"(2) in simp)
  moreover have "unat (Uint64ReducePercentage (pay_Percent p) q) \<le> unat (pay_Percent p)"
    by (rule reduced_le) (use "3.prems"(2) in simp)
  moreover have "own_percents c (List.map_filter id (Some p # ps)) =
      (if pay_ChainId p = c then unat (pay_Percent p) else 0) + own_percents c (List.map_filter id ps)"
    by (simp add: own_percents_def map_filter_simps)
  moreover have "own_percents c qs =
      (if pay_ChainId p = c then unat (Uint64ReducePercentage (pay_Percent p) q) else 0) + own_percents c rs"
    by (simp add: rs(2) own_percents_def)
  ultimately show ?case by (simp only: split: if_split) linarith
qed (simp_all add: own_percents_def map_filter_simps)

lemma payable_Combine:
  assumes "payable A x" and "paid_in A (cd_PaymentPercents d)"
    and "own_percents c (cd_PaymentPercents d) \<le> 100" and "Combine x d c = Inr y"
  shows "payable A y"
proof -
  obtain ps where "combine_percents (cd_PaymentPercents d) c (cd_PaymentPercents x) = Inr ps"
    and y: "cd_PaymentPercents y = ps"
    using assms(4) by (auto simp: Combine_def split: sum.splits if_splits)
  from combine_percents_paid_in [OF this(1) assms(2)] assms(1) have "paid_in A ps"
    by (simp add: payable_def paid_in_def)
  with Combine_well_sampled [OF _ assms(3,4)] assms(1) show ?thesis
    by (simp add: payable_def y paid_in_def)
qed

lemma world_UpsertCommitteeData:
  assumes a: "paid_in A (cd_PaymentPercents d)" and p: "\<And>c. own_percents c (cd_PaymentPercents d) \<le> 100"
  shows "preserves (world E A n) (UpsertCommitteeData d)"
proof -
  have look: "upholds (world E A n) (reads (getCommitteeDataAndList (cd_ChainId d)))
      (\<lambda>(l, x, _). (\<forall>x \<in> set l. payable A x) \<and> payable A x)"
    by (rule upholds_reads) (auto dest!: worldD(6) dest: payouts_list)
  have put: "preserves (world E A n) (SetCommitteesData (l[i := y]))"
    if "(\<forall>x \<in> set l. payable A x) \<and> payable A x" "Combine x d c = Inr y" for l i x y c
    using that payable_Combine [OF _ a p, of x c y] set_update_subset_insert [of l i y]
    by (intro world_SetCommitteesData) auto
  show ?thesis
    unfolding UpsertCommitteeData_def
    by (rule upholds_bindE [OF look]) (auto intro!: uphold_rules put)
qed

subsection \<open>Certificate results\<close>

text \<open>What is asked of the results of a certificate: the addresses in it are in use, and the
  reward recipients have passed their check.\<close>

definition cert_ok :: "address set \<Rightarrow> QuorumCertificate \<Rightarrow> bool" where
  "cert_ok A qc \<longleftrightarrow> (\<forall>r. qc_Results qc = Some r \<longrightarrow> results_ok A r \<and> orders_in A (cr_Orders r) \<and>
     (\<forall>ps. RewardRecipients r = Some ps \<longrightarrow>
        paid_in A (List.map_filter id ps) \<and> RewardRecipients_CheckBasic (Some ps) = Inr ()))"

lemma check_percents_each:
  "check_percents m ps = Inr () \<Longrightarrow> Some p \<in> set ps \<Longrightarrow> pay_Percent p \<le> 100"
proof (induction ps arbitrary: m)
  case (Cons x ps)
  show ?case
  proof (cases x)
    case None
    with Cons.prems show ?thesis by simp
  next
    case (Some y)
    let ?m = "m(pay_ChainId y := m (pay_ChainId y) + pay_Percent y)"
    have g: "unat (m (pay_ChainId y)) + unat (pay_Percent y) < 18446744073709551616"
        "m (pay_ChainId y) + pay_Percent y \<le> 100" "check_percents ?m ps = Inr ()"
      using Cons.prems(1) by (auto simp: Some u64_simps Let_def not_less split: if_splits)
    from g(1,2) have "pay_Percent y \<le> 100" by (simp add: word_le_nat_alt unat_add_u64)
    then show ?thesis using Cons.IH [OF g(3)] Cons.prems(2) Some by auto
  qed
qed simp

lemma cert_percents:
  assumes "cert_ok A qc" and "qc_Results qc = Some r" and "RewardRecipients r = Some ps"
    and "reduce_percents q ps = Inr qs"
  shows "paid_in A qs" and "own_percents c qs \<le> 100"
proof -
  have ps: "paid_in A (List.map_filter id ps)" "check_percents (\<lambda>_. 0) ps = Inr ()"
    using assms(1-3) by (auto simp: cert_ok_def RewardRecipients_CheckBasic_def split: if_splits)
  show "paid_in A qs" by (rule reduce_percents_paid_in [OF assms(4) ps(1)])
  have "own_percents c qs \<le> own_percents c (List.map_filter id ps)"
    by (rule reduce_percents_le [OF assms(4)]) (use check_percents_each [OF ps(2)] in blast)
  also have "\<dots> \<le> 100" using check_percents_bound [OF ps(2), of c] by simp
  finally show "own_percents c qs \<le> 100" .
qed

lemma world_HandleCertificateResults [world_rules]:
  assumes E: "E \<subseteq> joint_entries" and q: "\<And>c. qc = Some c \<Longrightarrow> cert_ok A c"
  shows "preserves (world E A n) (HandleCertificateResults arc qc committee)"
proof -
  have r: "results_ok A r" "orders_in A (cr_Orders r)"
    if "qc = Some c" "qc_Results c = Some r" for c r
    using q [OF that(1)] that(2) by (simp_all add: cert_ok_def)
  have up: "preserves (world E A n) (UpsertCommitteeData \<lparr>cd_ChainId = i, LastRootHeightUpdated = a,
      LastChainHeightUpdated = b, cd_PaymentPercents = qs, NumberOfSamples = 0\<rparr>)"
    if "qc = Some c" "qc_Results c = Some r" "RewardRecipients r = Some ps" "reduce_percents k ps = Inr qs"
    for c r ps k qs i a b
    using cert_percents [OF q [OF that(1)] that(2-4)] by (intro world_UpsertCommitteeData) simp_all
  show ?thesis
    unfolding HandleCertificateResults_def Let_def
    by (rule world_HandleDexBatch world_HandleCommitteeSwaps r world_byzantine [OF E] world_boundary
        uphold_rules | erule (3) up | erule (1) r | assumption)+
qed

subsection \<open>Minting\<close>

text \<open>Minting changes the total and nothing else in the supply tracker.\<close>

definition stake_records where
  "stake_records s = ((supplyTracker s)\<lparr>Total := 0\<rparr>, validators s)"

lemma frame_AddToTotalSupply: "frame stake_records (AddToTotalSupply n)"
  by (rule frameI) (auto simp: AddToTotalSupply_def SetSupply_def GetSupply_def op_simps stake_records_def)

lemma frame_minting:
  "frame stake_records (MintToPool i n)" "frame stake_records FundCommitteeRewardPools"
proof -
  show M: "frame stake_records (MintToPool i n)" for i n
    unfolding MintToPool_def by (intro frame_rules frame_AddToTotalSupply) (simp add: stake_records_def)
  have G: "frame stake_records GetBlockMintStats"
    unfolding GetBlockMintStats_def GetSubsidizedCommittees_def Let_def
    by (intro frame_rules) (simp add: stake_records_def)
  show "frame stake_records FundCommitteeRewardPools"
    unfolding FundCommitteeRewardPools_def by (rule M G | rule frame_rules)+
qed

lemma amount_of_records:
  assumes "(supplyTracker t)\<lparr>Total := 0\<rparr> = (supplyTracker s)\<lparr>Total := 0\<rparr>"
  shows "amount e t = amount e s"
proof (cases e)
  case (CommitteeEntry tt d)
  have "getSupplyPools tt ((supplyTracker t)\<lparr>Total := 0\<rparr>) = getSupplyPools tt ((supplyTracker s)\<lparr>Total := 0\<rparr>)"
    by (simp only: assms)
  then show ?thesis by (simp add: CommitteeEntry recorded_def)
next
  case StakedEntry
  have "Staked ((supplyTracker t)\<lparr>Total := 0\<rparr>) = Staked ((supplyTracker s)\<lparr>Total := 0\<rparr>)" by (simp only: assms)
  then show ?thesis by (simp add: StakedEntry)
next
  case DelegatedEntry
  have "DelegatedOnly ((supplyTracker t)\<lparr>Total := 0\<rparr>) = DelegatedOnly ((supplyTracker s)\<lparr>Total := 0\<rparr>)"
    by (simp only: assms)
  then show ?thesis by (simp add: DelegatedEntry)
qed

lemma ledger_of_records:
  assumes "stake_records t = stake_records s"
  shows "ledger_on E t = ledger_on E s"
proof -
  have "(supplyTracker t)\<lparr>Total := 0\<rparr> = (supplyTracker s)\<lparr>Total := 0\<rparr>" "validators t = validators s"
    using assms by (simp_all add: stake_records_def)
  with amount_of_records [OF this(1)] show ?thesis by (simp add: ledger_on_def)
qed

definition block_subsidy :: "StateMachine \<Rightarrow> nat" where
  "block_subsidy s =
     unat (drop_bit (unat (Height s div BlocksPerHalvening (Cfg s))) (InitialTokensPerBlock (Cfg s)))"

lemma world_FundCommitteeRewardPools:
  assumes s: "world E A n s" and room: "total_supply s + unat (InitialTokensPerBlock (Cfg s)) < 18446744073709551616"
    and small: "length (CommitteeStaked (supplyTracker s)) < 18446744073709551615"
    and t: "FundCommitteeRewardPools s = (t, Inr ())"
  shows "world E A (n + block_subsidy s) t"
proof -
  have s_ok: "funds_ok A s" "held s = total_supply s" "ledger_on E s"
    using worldD(2) [OF s] by (simp_all add: books_on_def)
  note st = FundCommitteeRewardPools_step [OF s_ok(1,2) room small t]
  have "ledger_on E t" using ledger_of_records [OF frameD [OF frame_minting(2) t]] s_ok(3) by simp
  then have books: "books_on E A t" using st(1,2) by (simp add: books_on_def)
  have G: "frame g GetBlockMintStats" if "\<And>s x. g (s\<lparr>cache_valParams := x\<rparr>) = g s" for g :: "StateMachine \<Rightarrow> 'z"
    unfolding GetBlockMintStats_def GetSubsidizedCommittees_def Let_def by (intro frame_rules that)
  have F: "frame rest_of FundCommitteeRewardPools" "frame validators FundCommitteeRewardPools"
    unfolding FundCommitteeRewardPools_def by (intro frame_rules G; simp)+
  have P: "preserves pools_fine FundCommitteeRewardPools"
    unfolding FundCommitteeRewardPools_def
    by (rule pools_rules uphold_rules | rule pools_frame, intro frame_rules G, simp)+
  show ?thesis
    by (rule world_money [OF F(1) P roster_frame [OF F(2)] s t books])
      (use st(4) worldD(9) [OF s] in \<open>simp add: block_subsidy_def\<close>)
qed

subsection \<open>The two boundaries\<close>

lemma world_EndBlock: "preserves (world E A n) (EndBlock p)"
  unfolding EndBlock_def by (rule world_rules uphold_rules)+


lemma world_finish_begin:
  "preserves (world E A n) m \<Longrightarrow> world E A n s \<Longrightarrow> finish_begin m s = (t, Inr evs) \<Longrightarrow> world E A n t"
proof -
  assume m: "preserves (world E A n) m" and s: "world E A n s" and t: "finish_begin m s = (t, Inr evs)"
  obtain u r where u: "m s = (u, r)" by fastforce
  have "ResetEvents u = (u\<lparr>events := [], event_reference := []\<rparr>, Inr (events u))" by (simp add: ResetEvents_def)
  with t u obtain a where "r = Inr a" "t = u\<lparr>events := [], event_reference := []\<rparr>"
    by (auto simp: finish_begin_def attempt_def bindE_def split: sum.splits)
  with u upholdsD [OF m s] upholdsD [OF world_boundary(5), of E A n u] show "world E A n t"
    by (auto simp: ResetEvents_def)
qed

lemma world_BeginBlock:
  assumes s: "world E A n s" and E: "E \<subseteq> joint_entries"
    and room: "total_supply s + unat (InitialTokensPerBlock (Cfg s)) < 18446744073709551616"
    and small: "length (CommitteeStaked (supplyTracker s)) < 18446744073709551615"
    and certs: "\<And>h qc. QCAt arc h = Inr qc \<Longrightarrow> cert_ok A qc"
    and t: "BeginBlock arc s = (t, Inr evs)"
  shows "world E A (n + block_subsidy s) t"
proof -
  let ?s = "s\<lparr>event_reference := ''begin_block''\<rparr>"
  have w: "world E A n ?s"
    using upholdsD [OF world_boundary(1) s, of "''begin_block''" ?s] by (simp add: Refer_def writes_apply)
  show ?thesis
  proof (cases "Height s \<le> 1")
    case True
    then have "t = ?s" using t by (simp add: BeginBlock_def Refer_def op_simps)
    then show ?thesis using world_mono [OF w] by simp
  next
    case False
    let ?load = "\<lambda>qc root. if cfg_ChainId (Cfg s) \<noteq> root
        then finish_begin (HandleCertificateResults arc (Some qc) None)
        else bindE (gets (LoadCommittee arc (cfg_ChainId (Cfg s)) (Height s - 1))) (\<lambda>vs.
          finish_begin (HandleCertificateResults arc (Some qc) (Some vs)))"
    have run: "bindE (gets CheckProtocolVersion) (\<lambda>_. bindE FundCommitteeRewardPools (\<lambda>_.
        bindE (gets (\<lambda>_. LoadCertificate arc (Height s - 1))) (\<lambda>qc.
        bindE (gets (LoadRootChainId arc (Height s - 1))) (?load qc)))) ?s = (t, Inr evs)"
      using t False by (simp add: BeginBlock_def Refer_def writes_apply bindE_def reads_def cong: if_cong)
    have fund: "bindE FundCommitteeRewardPools (\<lambda>_.
        bindE (gets (\<lambda>_. LoadCertificate arc (Height s - 1))) (\<lambda>qc.
        bindE (gets (LoadRootChainId arc (Height s - 1))) (?load qc))) ?s = (t, Inr evs)"
      by (rule bindE_okE [OF run]) (simp add: gets_def)
    obtain u where u: "FundCommitteeRewardPools ?s = (u, Inr ())"
      and rest: "bindE (gets (\<lambda>_. LoadCertificate arc (Height s - 1))) (\<lambda>qc.
        bindE (gets (LoadRootChainId arc (Height s - 1))) (?load qc)) u = (t, Inr evs)"
      by (rule bindE_okE [OF fund]) simp
    from world_FundCommitteeRewardPools [OF w _ _ u] room small
    have wu: "world E A (n + block_subsidy s) u" by (simp add: block_subsidy_def total_supply_def)
    obtain qc where qc: "QCAt arc (if Height s - 1 \<le> 1 then 1 else Height s - 1) = Inr qc"
      and more: "bindE (gets (LoadRootChainId arc (Height s - 1))) (?load qc) u = (t, Inr evs)"
      by (rule bindE_okE [OF rest]) (simp add: gets_def LoadCertificate_def)
    obtain root where last: "?load qc root u = (t, Inr evs)"
      by (rule bindE_okE [OF more]) (simp add: gets_def)
    have H: "preserves (world E A m) (HandleCertificateResults arc (Some qc) c)" for m c
      using certs [OF qc] by (intro world_HandleCertificateResults E) simp
    have "\<exists>c. finish_begin (HandleCertificateResults arc (Some qc) c) u = (t, Inr evs)"
    proof (cases "cfg_ChainId (Cfg s) = root")
      case True
      with last have "bindE (gets (LoadCommittee arc (cfg_ChainId (Cfg s)) (Height s - 1))) (\<lambda>vs.
          finish_begin (HandleCertificateResults arc (Some qc) (Some vs))) u = (t, Inr evs)" by simp
      then show ?thesis by (rule bindE_okE) (auto simp: gets_def)
    qed (use last in auto)
    then obtain c where "finish_begin (HandleCertificateResults arc (Some qc) c) u = (t, Inr evs)" ..
    from world_finish_begin [OF H wu this] show ?thesis .
  qed
qed

end
