(* ===== verification/Messages.thy ===== *)
theory Messages
  imports Automatic
begin

text \<open>
  The payloads of transactions (fsm/message.go): one datatype over the sixteen message types that
  implement \<open>MessageI\<close>, the handlers that no earlier theory holds, the dispatch to the handlers, the
  fee of a message and its authorized signers.  The lemmas: every handler keeps the invariant of
  the block, and only a minting DAO transfer adds to the supply.
\<close>

section \<open>The payloads\<close>

text \<open>The certificate of a \<open>MessageCertificateResults\<close> is \<open>None\<close> when nil.\<close>

datatype message =
    MsgSend MessageSend
  | MsgStake MessageStake
  | MsgEditStake MessageEditStake
  | MsgUnstake address
  | MsgPause address
  | MsgUnpause address
  | MsgChangeParameter MessageChangeParameter
  | MsgDAOTransfer MessageDAOTransfer
  | MsgCertificateResults "QuorumCertificate option"
  | MsgSubsidy MessageSubsidy
  | MsgCreateOrder MessageCreateOrder
  | MsgEditOrder MessageEditOrder
  | MsgDeleteOrder MessageDeleteOrder
  | MsgDexLimitOrder MessageDexLimitOrder
  | MsgDexLiquidityDeposit MessageDexLiquidityDeposit
  | MsgDexLiquidityWithdraw MessageDexLiquidityWithdraw

definition MessageStakeName :: string where "MessageStakeName = ''stake''"
definition MessageUnstakeName :: string where "MessageUnstakeName = ''unstake''"
definition MessageEditStakeName :: string where "MessageEditStakeName = ''editStake''"
definition MessagePauseName :: string where "MessagePauseName = ''pause''"
definition MessageUnpauseName :: string where "MessageUnpauseName = ''unpause''"
definition MessageChangeParameterName :: string where "MessageChangeParameterName = ''changeParameter''"
definition MessageDAOTransferName :: string where "MessageDAOTransferName = ''daoTransfer''"
definition MessageCertificateResultsName :: string where
  "MessageCertificateResultsName = ''certificateResults''"
definition MessageSubsidyName :: string where "MessageSubsidyName = ''subsidy''"
definition MessageCreateOrderName :: string where "MessageCreateOrderName = ''createOrder''"
definition MessageEditOrderName :: string where "MessageEditOrderName = ''editOrder''"
definition MessageDeleteOrderName :: string where "MessageDeleteOrderName = ''deleteOrder''"
definition MessageDexLimitOrderName :: string where "MessageDexLimitOrderName = ''dexLimitOrder''"
definition MessageDexLiquidityDepositName :: string where
  "MessageDexLiquidityDepositName = ''dexLiquidityDeposit''"
definition MessageDexLiquidityWithdrawName :: string where
  "MessageDexLiquidityWithdrawName = ''dexLiquidityWithdraw''"

lemmas message_names = MessageSendName_def MessageStakeName_def MessageUnstakeName_def
  MessageEditStakeName_def MessagePauseName_def MessageUnpauseName_def MessageChangeParameterName_def
  MessageDAOTransferName_def MessageCertificateResultsName_def MessageSubsidyName_def
  MessageCreateOrderName_def MessageEditOrderName_def MessageDeleteOrderName_def
  MessageDexLimitOrderName_def MessageDexLiquidityDepositName_def MessageDexLiquidityWithdrawName_def

fun Name :: "message \<Rightarrow> string" where
  "Name (MsgSend x) = MessageSendName"
| "Name (MsgStake x) = MessageStakeName"
| "Name (MsgEditStake x) = MessageEditStakeName"
| "Name (MsgUnstake x) = MessageUnstakeName"
| "Name (MsgPause x) = MessagePauseName"
| "Name (MsgUnpause x) = MessageUnpauseName"
| "Name (MsgChangeParameter x) = MessageChangeParameterName"
| "Name (MsgDAOTransfer x) = MessageDAOTransferName"
| "Name (MsgCertificateResults x) = MessageCertificateResultsName"
| "Name (MsgSubsidy x) = MessageSubsidyName"
| "Name (MsgCreateOrder x) = MessageCreateOrderName"
| "Name (MsgEditOrder x) = MessageEditOrderName"
| "Name (MsgDeleteOrder x) = MessageDeleteOrderName"
| "Name (MsgDexLimitOrder x) = MessageDexLimitOrderName"
| "Name (MsgDexLiquidityDeposit x) = MessageDexLiquidityDepositName"
| "Name (MsgDexLiquidityWithdraw x) = MessageDexLiquidityWithdrawName"

fun Recipient :: "message \<Rightarrow> bytes" where
  "Recipient (MsgSend x) = snd_ToAddress x"
| "Recipient _ = []"

definition MessageCertificateResults_Check :: "codec \<Rightarrow> QuorumCertificate option \<Rightarrow> err + unit" where
  "MessageCertificateResults_Check c qc =
     both (QuorumCertificate_CheckBasic c qc)
       (case qc of
          None \<Rightarrow> Inl Panic
        | Some x \<Rightarrow>
            (case qc_Results x of
               None \<Rightarrow> Inl ErrEmptyCertificateResults
             | Some results \<Rightarrow>
                 if qc_Block x \<noteq> [] then Inl ErrNilBlock
                 else (case qc_Header x of
                   None \<Rightarrow> Inl Panic
                 | Some header \<Rightarrow>
                     both (checkChainId (vw_ChainId header))
                     (both (RewardRecipients_CheckBasic (RewardRecipients results))
                     (if cr_NumberOfSamples results \<noteq> 0 then Inl ErrInvalidNumOfSamples
                      else both
                        (case cr_Checkpoint results of
                           None \<Rightarrow> Inr ()
                         | Some k \<Rightarrow>
                             if 100 < length (chk_BlockHash k) then Inl ErrInvalidBlockHash else Inr ())
                        (checkOrders (cr_Orders results)))))))"

fun Message_Check :: "codec \<Rightarrow> message \<Rightarrow> err + unit" where
  "Message_Check c (MsgSend x) = MessageSend_Check x"
| "Message_Check c (MsgStake x) = MessageStake_Check x"
| "Message_Check c (MsgEditStake x) = MessageEditStake_Check x"
| "Message_Check c (MsgUnstake x) = MessageUnstake_Check x"
| "Message_Check c (MsgPause x) = MessagePause_Check x"
| "Message_Check c (MsgUnpause x) = MessageUnpause_Check x"
| "Message_Check c (MsgChangeParameter x) = MessageChangeParameter_Check x"
| "Message_Check c (MsgDAOTransfer x) = MessageDAOTransfer_Check x"
| "Message_Check c (MsgCertificateResults x) = MessageCertificateResults_Check c x"
| "Message_Check c (MsgSubsidy x) = MessageSubsidy_Check x"
| "Message_Check c (MsgCreateOrder x) = MessageCreateOrder_Check x"
| "Message_Check c (MsgEditOrder x) = MessageEditOrder_Check x"
| "Message_Check c (MsgDeleteOrder x) = MessageDeleteOrder_Check x"
| "Message_Check c (MsgDexLimitOrder x) = MessageDexLimitOrder_Check x"
| "Message_Check c (MsgDexLiquidityDeposit x) = MessageDexLiquidityDeposit_Check x"
| "Message_Check c (MsgDexLiquidityWithdraw x) = MessageDexLiquidityWithdraw_Check x"

section \<open>Handlers\<close>

definition HandleMessageSend :: "MessageSend \<Rightarrow> unit fsm" where
  "HandleMessageSend msg =
     (let vesting = (snd_VestingStartHeight msg \<noteq> 0 \<or> snd_VestingEndHeight msg \<noteq> 0) in
      bindE (if vesting then ValidateAccountAddWithVesting msg else ok ()) (\<lambda>_.
      bindE (AccountSub (snd_FromAddress msg) (snd_Amount msg)) (\<lambda>_.
        if vesting then AccountAddWithVesting msg
        else AccountAdd (snd_ToAddress msg) (snd_Amount msg))))"

text \<open>Whatever the vote's error is, the proposal is rejected.\<close>

definition approve :: "u64 \<Rightarrow> u64 \<Rightarrow> string \<Rightarrow> unit fsm" where
  "approve startHeight endHeight proposalHash =
     bindE (reads (ApproveProposal startHeight endHeight proposalHash)) (\<lambda>r.
       case r of Inl _ \<Rightarrow> fail ErrRejectProposal | Inr _ \<Rightarrow> ok ())"

definition FromAny :: "param_value option option \<Rightarrow> err + param_value" where
  "FromAny v = (case v of Some (Some p) \<Rightarrow> Inr p | _ \<Rightarrow> Inl ErrFromAny)"

definition HandleMessageChangeParameter :: "MessageChangeParameter \<Rightarrow> unit fsm" where
  "HandleMessageChangeParameter msg =
     bindE (approve (chp_StartHeight msg) (chp_EndHeight msg) (chp_ProposalHash msg)) (\<lambda>_.
     bindE (gets (\<lambda>_. FromAny (chp_ParameterValue msg))) (\<lambda>protoMsg.
       UpdateParam (chp_ParameterSpace msg) (chp_ParameterKey msg) protoMsg))"

definition HandleMessageDAOTransfer :: "MessageDAOTransfer \<Rightarrow> unit fsm" where
  "HandleMessageDAOTransfer msg =
     bindE (approve (dao_StartHeight msg) (dao_EndHeight msg) (dao_ProposalHash msg)) (\<lambda>_.
     bindE (if dao_Mint msg then MintToPool DAOPoolID (dao_Amount msg) else ok ()) (\<lambda>_.
     bindE (PoolSub DAOPoolID (dao_Amount msg)) (\<lambda>_.
       AccountAdd (dao_Address msg) (dao_Amount msg))))"

text \<open>The committee that the controller kept for the next root height, or the one in the store.\<close>

definition committee_for :: "archive \<Rightarrow> u64 \<Rightarrow> u64 \<Rightarrow> StateMachine \<Rightarrow> err + ValidatorSet" where
  "committee_for arc chainId rootHeight s =
     (case LastValidatorSets arc (rootHeight + 1) chainId of
        Some committee \<Rightarrow> Inr committee
      | None \<Rightarrow> LoadCommittee arc chainId rootHeight s)"

definition HandleMessageCertificateResults :: "codec \<Rightarrow> archive \<Rightarrow> QuorumCertificate option \<Rightarrow> unit fsm" where
  "HandleMessageCertificateResults c arc qc =
     bindE GetRootChainId (\<lambda>rootChainId.
       case Option.bind qc qc_Header of
         None \<Rightarrow> fail Panic
       | Some header \<Rightarrow>
           let chainId = vw_ChainId header in
           bindE (reads Cfg) (\<lambda>cfg.
             if chainId = rootChainId \<or> chainId = cfg_ChainId cfg then fail ErrInvalidCertificateResults
             else
               bindE (gets (committee_for arc chainId (vw_RootHeight header))) (\<lambda>committee.
               bindE (gets (\<lambda>_. QuorumCertificate_Check cfg c qc committee 0
                   \<lparr>vw_NetworkId = NetworkID cfg, vw_ChainId = chainId, vw_Height = 0, vw_RootHeight = 0,
                     vw_Round = 0, vw_Phase = UNKNOWN\<rparr> False)) (\<lambda>isPartialQC.
                 if isPartialQC then fail ErrNoMaj23
                 else HandleCertificateResults arc qc (Some committee)))))"

definition HandleMessageSubsidy :: "MessageSubsidy \<Rightarrow> unit fsm" where
  "HandleMessageSubsidy msg =
     bindE (reads (CommitteeIsRetired (sub_ChainId msg))) (\<lambda>retired.
       if retired then fail ErrNonSubsidizedCommittee
       else
         bindE (AccountSub (sub_Address msg) (sub_Amount msg)) (\<lambda>_.
           PoolAdd (sub_ChainId msg) (sub_Amount msg)))"

fun HandleMessage :: "codec \<Rightarrow> archive \<Rightarrow> message \<Rightarrow> unit fsm" where
  "HandleMessage c arc (MsgSend x) = HandleMessageSend x"
| "HandleMessage c arc (MsgStake x) = HandleMessageStake x"
| "HandleMessage c arc (MsgEditStake x) = HandleMessageEditStake x"
| "HandleMessage c arc (MsgUnstake x) = HandleMessageUnstake x"
| "HandleMessage c arc (MsgPause x) = HandleMessagePause x"
| "HandleMessage c arc (MsgUnpause x) = HandleMessageUnpause x"
| "HandleMessage c arc (MsgChangeParameter x) = HandleMessageChangeParameter x"
| "HandleMessage c arc (MsgDAOTransfer x) = HandleMessageDAOTransfer x"
| "HandleMessage c arc (MsgCertificateResults x) = HandleMessageCertificateResults c arc x"
| "HandleMessage c arc (MsgSubsidy x) = HandleMessageSubsidy x"
| "HandleMessage c arc (MsgCreateOrder x) = HandleMessageCreateOrder x"
| "HandleMessage c arc (MsgEditOrder x) = HandleMessageEditOrder x"
| "HandleMessage c arc (MsgDeleteOrder x) = HandleMessageDeleteOrder x"
| "HandleMessage c arc (MsgDexLimitOrder x) = HandleMessageDexLimitOrder x"
| "HandleMessage c arc (MsgDexLiquidityDeposit x) = HandleMessageDexLiquidityDeposit x"
| "HandleMessage c arc (MsgDexLiquidityWithdraw x) = HandleMessageDexLiquidityWithdraw x"

section \<open>Fees and signers\<close>

definition fee_for :: "string \<Rightarrow> FeeParams \<Rightarrow> err + u64" where
  "fee_for name feeParams =
     (if name = MessageSendName then Inr (SendFee feeParams)
      else if name = MessageStakeName then Inr (StakeFee feeParams)
      else if name = MessageEditStakeName then Inr (EditStakeFee feeParams)
      else if name = MessageUnstakeName then Inr (UnstakeFee feeParams)
      else if name = MessagePauseName then Inr (PauseFee feeParams)
      else if name = MessageUnpauseName then Inr (UnpauseFee feeParams)
      else if name = MessageChangeParameterName then Inr (ChangeParameterFee feeParams)
      else if name = MessageDAOTransferName then Inr (DaoTransferFee feeParams)
      else if name = MessageCertificateResultsName then Inr (CertificateResultsFee feeParams)
      else if name = MessageSubsidyName then Inr (SubsidyFee feeParams)
      else if name = MessageCreateOrderName then Inr (CreateOrderFee feeParams)
      else if name = MessageEditOrderName then Inr (EditOrderFee feeParams)
      else if name = MessageDeleteOrderName then Inr (DeleteOrderFee feeParams)
      else if name = MessageDexLimitOrderName then Inr (DexLimitOrderFee feeParams)
      else if name = MessageDexLiquidityDepositName then Inr (DexLiquidityDepositFee feeParams)
      else if name = MessageDexLiquidityWithdrawName then Inr (DexLiquidityWithdrawFee feeParams)
      else Inl ErrUnknownMessageName)"

definition GetFeeForMessageName :: "string \<Rightarrow> u64 fsm" where
  "GetFeeForMessageName name =
     bindE GetParamsFee (\<lambda>feeParams. gets (\<lambda>_. fee_for name feeParams))"

definition pubKeyBytesToAddress :: "bytes \<Rightarrow> StateMachine \<Rightarrow> err + address" where
  "pubKeyBytesToAddress public s =
     (case AddressOf (Cfg s) public of None \<Rightarrow> Inl ErrInvalidPublicKey | Some a \<Rightarrow> Inr a)"

definition order_signer :: "bytes \<Rightarrow> u64 \<Rightarrow> StateMachine \<Rightarrow> err + address list" where
  "order_signer orderId chainId s =
     (case GetOrder orderId chainId s of Inl e \<Rightarrow> Inl e | Inr order \<Rightarrow> Inr [SellersSendAddress order])"

fun GetAuthorizedSignersFor :: "message \<Rightarrow> StateMachine \<Rightarrow> err + address list" where
  "GetAuthorizedSignersFor (MsgSend x) s = Inr [snd_FromAddress x]"
| "GetAuthorizedSignersFor (MsgStake x) s =
     (case pubKeyBytesToAddress (stk_PublicKey x) s of
        Inl e \<Rightarrow> Inl e | Inr a \<Rightarrow> Inr [a, stk_OutputAddress x])"
| "GetAuthorizedSignersFor (MsgEditStake x) s = GetAuthorizedSignersForValidator (eds_Address x) s"
| "GetAuthorizedSignersFor (MsgUnstake a) s = GetAuthorizedSignersForValidator a s"
| "GetAuthorizedSignersFor (MsgPause a) s = GetAuthorizedSignersForValidator a s"
| "GetAuthorizedSignersFor (MsgUnpause a) s = GetAuthorizedSignersForValidator a s"
| "GetAuthorizedSignersFor (MsgChangeParameter x) s = Inr [chp_Signer x]"
| "GetAuthorizedSignersFor (MsgDAOTransfer x) s = Inr [dao_Address x]"
| "GetAuthorizedSignersFor (MsgCertificateResults qc) s =
     (case qc of
        None \<Rightarrow> Inl Panic
      | Some x \<Rightarrow>
          (case pubKeyBytesToAddress (qc_ProposerKey x) s of Inl e \<Rightarrow> Inl e | Inr a \<Rightarrow> Inr [a]))"
| "GetAuthorizedSignersFor (MsgSubsidy x) s = Inr [sub_Address x]"
| "GetAuthorizedSignersFor (MsgCreateOrder x) s = Inr [co_SellersSendAddress x]"
| "GetAuthorizedSignersFor (MsgEditOrder x) s = order_signer (eo_OrderId x) (eo_ChainId x) s"
| "GetAuthorizedSignersFor (MsgDeleteOrder x) s = order_signer (do_OrderId x) (do_ChainId x) s"
| "GetAuthorizedSignersFor (MsgDexLimitOrder x) s = Inr [mdl_Address x]"
| "GetAuthorizedSignersFor (MsgDexLiquidityDeposit x) s = Inr [mdd_Address x]"
| "GetAuthorizedSignersFor (MsgDexLiquidityWithdraw x) s = Inr [mdw_Address x]"

text \<open>Every message has a fee, and no two message types share a name.\<close>

lemma fee_for_Name: "\<exists>fee. fee_for (Name m) p = Inr fee"
  by (cases m) (simp_all add: fee_for_def)

section \<open>Transfers\<close>

lemma AccountAddWithVesting_funds:
  assumes "funds_ok A s" and "snd_ToAddress msg \<in> A" and "snd_Amount msg \<noteq> 0"
    and t: "AccountAddWithVesting msg s = (t, Inr ())"
  shows "funds_ok A t" and "held t = held s + unat (snd_Amount msg)"
proof -
  have ok: "accounts_ok A s" using assms(1) by (simp add: funds_ok_def)
  have same: "pools t = pools s" "validators t = validators s"
    by (rule frameD [where m = "AccountAddWithVesting msg", OF _ t], intro frame_rules, simp)+
  show "funds_ok A t" "held t = held s + unat (snd_Amount msg)"
    using AccountAddWithVesting_ok(1,2) [OF ok assms(2,3) t] assms(1)
    by (simp_all add: funds_ok_def held_def pool_total_def stake_total_def same)
qed

text \<open>A frame gives the books once the money that changed hands adds up.\<close>

lemma world_transfer:
  assumes "frame rest_of m" "frame validators m" "frame supplyTracker m" "preserves pools_fine m"
    and s: "world E A n s" and t: "m s = (t, Inr r)" and f: "funds_ok A t" "held t = held s"
  shows "world E A n t"
proof -
  have s_ok: "ledger_on E s" "held s = total_supply s"
    using worldD(2) [OF s] by (simp_all add: books_on_def)
  have sup: "supplyTracker t = supplyTracker s" "validators t = validators s"
    by (rule frameD [OF assms(3) t], rule frameD [OF assms(2) t])
  then have "books_on E A t" "total_supply t = total_supply s"
    using f s_ok ledger_on_cong [OF sup(2,1), of E] total_supply_cong [OF sup(1)]
    by (simp_all add: books_on_def)
  then show ?thesis
    using world_money [OF assms(1,4) roster_frame [OF assms(2)] s t] worldD(9) [OF s] by simp
qed

lemma pools_vesting [pools_rules]: "preserves pools_fine (AccountAddWithVesting msg)"
  by (rule pools_frame, intro frame_rules, simp)

lemma world_acct_vesting:
  assumes a: "a \<in> A" and b: "snd_ToAddress msg \<in> A" and n: "snd_Amount msg \<noteq> 0"
  shows "preserves (world E A k) (bindE (AccountSub a (snd_Amount msg)) (\<lambda>_. AccountAddWithVesting msg))"
proof (rule upholdsI)
  let ?m = "bindE (AccountSub a (snd_Amount msg)) (\<lambda>_. AccountAddWithVesting msg)"
  fix s t and r :: unit
  assume s: "world E A k s" and t: "?m s = (t, Inr r)"
  have s_ok: "funds_ok A s" using worldD(2) [OF s] by (simp add: books_on_def)
  obtain u where u: "AccountSub a (snd_Amount msg) s = (u, Inr ())" "AccountAddWithVesting msg u = (t, Inr ())"
    by (rule bindE_okE [OF t]) simp
  note sub = AccountSub_funds [OF s_ok a u(1)]
  note add = AccountAddWithVesting_funds [OF sub(1) b n u(2)]
  have "world E A k t"
  proof (rule world_transfer [where m = ?m, OF _ _ _ _ s t])
    show "frame rest_of ?m" "frame validators ?m" "frame supplyTracker ?m" by (intro frame_rules; simp)+
    show "preserves pools_fine ?m" by (rule uphold_rules pools_rules)+
    show "funds_ok A t" "held t = held s" using sub add by simp_all
  qed
  then show "world E A k t \<and> True" by simp
qed

lemma world_send:
  assumes "snd_FromAddress msg \<in> A" and "snd_ToAddress msg \<in> A" and "snd_Amount msg \<noteq> 0"
  shows "preserves (world E A n) (HandleMessageSend msg)"
proof -
  have V: "preserves (world E A n) (ValidateAccountAddWithVesting msg)"
    by (rule world_moneyless) (auto simp: ValidateAccountAddWithVesting_def op_simps
        intro!: frame_rules roster_frame split: if_splits)
  show ?thesis
  proof (cases "snd_VestingStartHeight msg \<noteq> 0 \<or> snd_VestingEndHeight msg \<noteq> 0")
    case True
    then show ?thesis
      unfolding HandleMessageSend_def Let_def
      by (simp only: if_True) (rule upholds_bindE [OF V] world_acct_vesting assms)+
  next
    case False
    then show ?thesis
      unfolding HandleMessageSend_def Let_def
      by (simp only: if_False) (rule upholds_bindE [OF preserves_ok] world_acct_acct assms)+
  qed
qed

lemma world_MintToPool:
  assumes s: "world E A n s" and room: "n + unat k < 18446744073709551616"
    and t: "MintToPool i k s = (t, Inr r)"
  shows "world E A (n + unat k) t"
proof -
  have s_ok: "funds_ok A s" "held s = total_supply s" "ledger_on E s"
    using worldD(2) [OF s] by (simp_all add: books_on_def)
  have le: "total_supply s \<le> n" by (rule worldD(9) [OF s])
  note st = MintToPool_step [OF s_ok(1,2) _ t]
  have "ledger_on E t" using ledger_of_records [OF frameD [OF frame_minting(1) t]] s_ok(3) by simp
  then have books: "books_on E A t" using st(2,3) room le by (simp add: books_on_def)
  have F: "frame rest_of (MintToPool i k)" "frame validators (MintToPool i k)"
    by (intro frame_rules; simp)+
  show ?thesis
    by (rule world_money [OF F(1) pools_MintToPool roster_frame [OF F(2)] s t books])
      (use st(4) room le in simp)
qed

section \<open>Every handler keeps the invariant\<close>

text \<open>The addresses of a message are in use, and its amounts are those that pass its check.\<close>

fun msg_in :: "address set \<Rightarrow> message \<Rightarrow> bool" where
  "msg_in A (MsgSend x) \<longleftrightarrow> snd_FromAddress x \<in> A \<and> snd_ToAddress x \<in> A \<and> snd_Amount x \<noteq> 0"
| "msg_in A (MsgStake x) \<longleftrightarrow> stk_Signer x \<in> A \<and> stk_OutputAddress x \<in> A"
| "msg_in A (MsgEditStake x) \<longleftrightarrow> eds_Signer x \<in> A \<and> eds_OutputAddress x \<in> A"
| "msg_in A (MsgDAOTransfer x) \<longleftrightarrow> dao_Address x \<in> A"
| "msg_in A (MsgCertificateResults qc) \<longleftrightarrow> (\<forall>x. qc = Some x \<longrightarrow> cert_ok A x)"
| "msg_in A (MsgSubsidy x) \<longleftrightarrow> sub_Address x \<in> A"
| "msg_in A (MsgCreateOrder x) \<longleftrightarrow> co_SellersSendAddress x \<in> A"
| "msg_in A (MsgDexLimitOrder x) \<longleftrightarrow> mdl_Address x \<in> A"
| "msg_in A (MsgDexLiquidityDeposit x) \<longleftrightarrow> mdd_Address x \<in> A"
| "msg_in A (MsgDexLiquidityWithdraw x) \<longleftrightarrow> mdw_Address x \<in> A \<and> mdw_Percent x \<le> 100"
| "msg_in A _ \<longleftrightarrow> True"

text \<open>The tokens that a message mints.\<close>

fun msg_mint :: "message \<Rightarrow> nat" where
  "msg_mint (MsgDAOTransfer x) = (if dao_Mint x then unat (dao_Amount x) else 0)"
| "msg_mint _ = 0"

lemma world_approve: "preserves (world E A n) (approve h k p)"
  unfolding approve_def by (rule uphold_rules)+

lemma world_ChangeParameter: "preserves (world E A n) (HandleMessageChangeParameter msg)"
  unfolding HandleMessageChangeParameter_def by (rule world_approve world_UpdateParam uphold_rules)+

lemma world_Subsidy: "sub_Address msg \<in> A \<Longrightarrow> preserves (world E A n) (HandleMessageSubsidy msg)"
  unfolding HandleMessageSubsidy_def by (assumption | rule world_acct_pool uphold_rules)+

lemma world_MessageCertificateResults:
  assumes "E \<subseteq> joint_entries" and "\<And>x. qc = Some x \<Longrightarrow> cert_ok A x"
  shows "preserves (world E A n) (HandleMessageCertificateResults c arc qc)"
proof -
  have G: "preserves (world E A n) GetRootChainId"
  proof (rule world_moneyless)
    show "frame rest_of GetRootChainId" "preserves (vals_ok A) GetRootChainId"
      unfolding GetRootChainId_def by (intro frame_rules roster_frame)+
  qed (auto simp: GetRootChainId_def GetParamsCons_def op_simps split: option.splits)
  show ?thesis
    unfolding HandleMessageCertificateResults_def Let_def
    by (rule G world_HandleCertificateResults [OF assms(1)] assms(2) uphold_rules | assumption)+
qed

lemma world_DAOTransfer:
  assumes a: "dao_Address msg \<in> A" and s: "world E A n s"
    and room: "n + msg_mint (MsgDAOTransfer msg) < 18446744073709551616"
    and t: "HandleMessageDAOTransfer msg s = (t, Inr ())"
  shows "world E A (n + msg_mint (MsgDAOTransfer msg)) t"
proof -
  let ?pay = "bindE (PoolSub DAOPoolID (dao_Amount msg)) (\<lambda>_. AccountAdd (dao_Address msg) (dao_Amount msg))"
  let ?mint = "if dao_Mint msg then MintToPool DAOPoolID (dao_Amount msg) else ok ()"
  have run: "bindE (approve (dao_StartHeight msg) (dao_EndHeight msg) (dao_ProposalHash msg))
      (\<lambda>_. bindE ?mint (\<lambda>_. ?pay)) s = (t, Inr ())"
    using t by (simp only: HandleMessageDAOTransfer_def)
  obtain v where v: "approve (dao_StartHeight msg) (dao_EndHeight msg) (dao_ProposalHash msg) s = (v, Inr ())"
    "bindE ?mint (\<lambda>_. ?pay) v = (t, Inr ())" by (rule bindE_okE [OF run]) simp
  obtain u where u: "?mint v = (u, Inr ())" "?pay u = (t, Inr ())" by (rule bindE_okE [OF v(2)]) simp
  have "world E A n v" using upholdsD [OF world_approve s v(1)] by simp
  with u(1) room world_MintToPool [of E A n v "dao_Amount msg" DAOPoolID u "()"]
  have "world E A (n + msg_mint (MsgDAOTransfer msg)) u" by (auto split: if_splits)
  from upholdsD [OF world_pool_acct [OF a] this u(2)] show ?thesis by simp
qed

theorem world_HandleMessage:
  assumes s: "world E A n s" and E: "E \<subseteq> joint_entries" and m: "msg_in A m"
    and room: "n + msg_mint m < 18446744073709551616"
    and t: "HandleMessage c arc m s = (t, Inr ())"
  shows "world E A (n + msg_mint m) t"
proof -
  have P: "world E A n t" if "preserves (world E A n) (HandleMessage c arc m)"
    using upholdsD [OF that s t] by simp
  show ?thesis
  proof (cases m)
    case (MsgDAOTransfer x)
    with m room t show ?thesis using world_DAOTransfer [OF _ s, of x t] by simp
  next
    case (MsgCertificateResults qc)
    with m P world_MessageCertificateResults [OF E, of qc A n c arc] show ?thesis by simp
  qed (use m P in \<open>simp_all add: world_rules world_send world_ChangeParameter world_Subsidy\<close>)
qed

end
