(* ===== verification/Envelope.thy ===== *)
theory Envelope
  imports Messages
begin

text \<open>
  The transaction envelope of lib/tx.go: its fields, its stateless check, its hash and the bytes its
  sender signs.  Encoding and verification of bytes are arguments, collected in \<open>wire\<close>.
\<close>

section \<open>Data\<close>

record Any =
  any_TypeUrl :: string
  any_Value :: bytes

record Signature =
  sig_PublicKey :: bytes
  sig_Signature :: bytes

record Transaction =
  tx_MessageType :: string
  tx_Msg :: "Any option"
  tx_Signature :: "Signature option"
  tx_CreatedHeight :: u64
  tx_Time :: u64
  tx_Fee :: u64
  tx_Memo :: string
  tx_NetworkId :: u64
  tx_ChainId :: u64

text \<open>An Ethereum transaction as the RLP decoder returns it; a big integer is an \<open>int\<close>.\<close>

record EthTransaction =
  eth_To :: "bytes option"
  eth_Value :: int
  eth_Data :: bytes
  eth_Gas :: u64
  eth_GasPrice :: int
  eth_Nonce :: u64
  eth_ChainId :: "int option"

text \<open>
  The third-party code that reads and writes bytes: protobuf decoding and encoding of a transaction
  and of a packed message (\<open>UnmarshalAny\<close> gives \<open>None\<close> when the decoded object is no message,
  \<open>UnmarshalMsg\<close> decodes the message type of a name), the signature check \<open>VerifyBytes\<close> of a public
  key, go-ethereum's \<open>UnmarshalBinary\<close> and the recovery of the key that signed, and the lookup of a
  transaction hash in the indexer (the hash it is filed with, none when it is not there).
\<close>

record wire =
  Codec :: codec
  UnmarshalTx :: "bytes \<Rightarrow> err + Transaction"
  MarshalTx :: "Transaction \<Rightarrow> err + bytes"
  UnmarshalAny :: "Any \<Rightarrow> err + message option"
  NewAny :: "message \<Rightarrow> err + Any"
  UnmarshalMsg :: "string \<Rightarrow> bytes \<Rightarrow> err + message"
  VerifyBytes :: "bytes \<Rightarrow> bytes \<Rightarrow> bytes \<Rightarrow> bool"
  UnmarshalEth :: "bytes \<Rightarrow> EthTransaction option"
  RecoverPublicKey :: "EthTransaction \<Rightarrow> bytes option"
  GetTxByHash :: "bytes \<Rightarrow> err + string option"

section \<open>Operations\<close>

definition Transaction_CheckBasic :: "Transaction option \<Rightarrow> err + unit" where
  "Transaction_CheckBasic x =
     (case x of
        None \<Rightarrow> Inl ErrEmptyTransaction
      | Some x \<Rightarrow>
          if tx_Msg x = None then Inl ErrEmptyMessage
          else if tx_MessageType x = [] then Inl ErrUnknownMessageName
          else (case tx_Signature x of
            None \<Rightarrow> Inl ErrEmptySignature
          | Some sg \<Rightarrow>
              if sig_Signature sg = [] \<or> sig_PublicKey sg = [] then Inl ErrEmptySignature
              else if tx_CreatedHeight x = 0 then Inl ErrInvalidTxHeight
              else if tx_Time x = 0 then Inl ErrInvalidTxTime
              else if 200 < length (tx_Memo x) then Inl ErrInvalidMemo
              else if tx_NetworkId x = 0 then Inl ErrNilNetworkID
              else if tx_ChainId x = 0 then Inl ErrEmptyChainId
              else Inr ()))"

definition GetHash :: "wire \<Rightarrow> Config \<Rightarrow> Transaction \<Rightarrow> err + bytes" where
  "GetHash w cfg x =
     (case MarshalTx w x of Inl e \<Rightarrow> Inl e | Inr protoBytes \<Rightarrow> Inr (HashOf cfg protoBytes))"

definition GetSignBytes :: "wire \<Rightarrow> Transaction \<Rightarrow> err + bytes" where
  "GetSignBytes w x = MarshalTx w (x\<lparr>tx_Signature := None\<rparr>)"

section \<open>Hexadecimal strings\<close>

definition hex_digit :: "nat \<Rightarrow> char" where
  "hex_digit n = char_of (if n < 10 then n + 48 else n + 87)"

definition BytesToString :: "bytes \<Rightarrow> string" where
  "BytesToString b = concat (map (\<lambda>x. [hex_digit (unat x div 16), hex_digit (unat x mod 16)]) b)"

definition StringToBytes :: "string \<Rightarrow> err + bytes" where
  "StringToBytes x = (case DecodeString x of None \<Rightarrow> Inl ErrStringToBytes | Some b \<Rightarrow> Inr b)"

definition HashString :: "Config \<Rightarrow> bytes \<Rightarrow> string" where
  "HashString cfg b = BytesToString (HashOf cfg b)"

lemma hex_value_digit: "n < 16 \<Longrightarrow> hex_value (hex_digit n) = Some n"
  by (auto simp: hex_value_def hex_digit_def Let_def)

lemma DecodeString_BytesToString: "DecodeString (BytesToString b) = Some b"
proof (induction b)
  case (Cons x b)
  have lt: "unat x < 256" using unsigned_less [of x] by simp
  then have "unat x div 16 < 16" by simp
  moreover have "(of_nat (16 * (unat x div 16) + unat x mod 16) :: u8) = x"
    by (simp only: mult_div_mod_eq of_nat_unat ucast_id)
  ultimately show ?case
    using Cons by (simp add: BytesToString_def hex_value_digit)
qed (simp add: BytesToString_def)

lemma StringToBytes_BytesToString: "StringToBytes (BytesToString b) = Inr b"
  by (simp add: StringToBytes_def DecodeString_BytesToString)

text \<open>What a transaction that passes the check carries.\<close>

lemma Transaction_CheckBasic_ok:
  assumes "Transaction_CheckBasic (Some x) = Inr ()"
  obtains a sg where "tx_Msg x = Some a" "tx_Signature x = Some sg" "sig_Signature sg \<noteq> []"
    "sig_PublicKey sg \<noteq> []" "length (tx_Memo x) \<le> 200"
  using assms by (auto simp: Transaction_CheckBasic_def split: option.splits if_splits)

end
