(* ===== verification/Ethereum.thy ===== *)
theory Ethereum
  imports Envelope
begin

unbundle bit_operations_syntax

text \<open>
  The translation of Ethereum transactions into transactions of the chain (fsm/ethereum.go).  The
  RLP decoder and the recovery of the public key are arguments (\<open>wire\<close>).  The lemmas: the two
  translations of chain ids and of decimals undo each other, and a transaction that authenticates by
  RLP is one that the translation produced, up to a hash collision.
\<close>

section \<open>Chain ids and decimals\<close>

definition EvmChainIdToCanopyIds :: "u64 \<Rightarrow> u64 \<times> u64" where
  "EvmChainIdToCanopyIds evmChainId = (evmChainId AND 0xFFFFFFFF, drop_bit 32 evmChainId)"

definition CanopyIdsToEVMChainId :: "u64 \<Rightarrow> u64 \<Rightarrow> u64" where
  "CanopyIdsToEVMChainId chainId networkId = push_bit 32 networkId OR (chainId AND 0xFFFFFFFF)"

definition scaleFactor :: int where "scaleFactor = 1000000000000"

text \<open>\<open>int64(amount)\<close> reads the word as a signed number.\<close>

definition UpscaleTo18Decimals :: "u64 \<Rightarrow> int" where
  "UpscaleTo18Decimals amt = sint amt * scaleFactor"

text \<open>\<open>big.Int.Div\<close> is Euclidean; \<open>Uint64\<close> keeps the low bits of the absolute value.\<close>

definition DownscaleTo6Decimals :: "int \<Rightarrow> u64" where
  "DownscaleTo6Decimals amt = of_int \<bar>amt div scaleFactor\<bar>"

definition IsUint64 :: "int \<Rightarrow> bool" where
  "IsUint64 x \<longleftrightarrow> 0 \<le> x \<and> x < 18446744073709551616"

text \<open>A nil amount is \<open>None\<close>; the result is \<open>None\<close> for a false flag.\<close>

definition DownscaleTo6DecimalsChecked :: "int option \<Rightarrow> u64 option" where
  "DownscaleTo6DecimalsChecked amt =
     (case amt of
        None \<Rightarrow> None
      | Some x \<Rightarrow>
          if x < 0 then None
          else
            let downscaled = x div scaleFactor in
            if IsUint64 downscaled then Some (of_int downscaled) else None)"

text \<open>Seconds since 1970 of the first of January 2025, plus the gas as a duration in nanoseconds.\<close>

definition pseudoEthereumTimestamp :: "u64 \<Rightarrow> u64" where
  "pseudoEthereumTimestamp gasLimit = of_int (1735689600 + sint (gasLimit * 1000000000) div 1000000000)"

section \<open>Messages\<close>

definition SendSelector :: string where "SendSelector = ''a9059cbb''"
definition SubsidySelector :: string where "SubsidySelector = ''16d68b09''"
definition StakeSelector :: string where "StakeSelector = ''2d1e0c02''"
definition EditStakeSelector :: string where "EditStakeSelector = ''8c71a515''"
definition UnstakeSelector :: string where "UnstakeSelector = ''3c3653e2''"
definition CreateOrderSelector :: string where "CreateOrderSelector = ''bc2e8e5f''"
definition EditOrderSelector :: string where "EditOrderSelector = ''74e78d6f''"
definition DeleteOrderSelector :: string where "DeleteOrderSelector = ''6c4650e7''"
definition RLPIndicator :: string where "RLPIndicator = ''RLP''"

definition CNPYContractAddress :: bytes where "CNPYContractAddress = replicate 19 0 @ [1]"
definition StakedCNPYContractAddress :: bytes where "StakedCNPYContractAddress = replicate 19 0 @ [2]"
definition SwapCNPYContractAddress :: bytes where "SwapCNPYContractAddress = replicate 19 0 @ [3]"

text \<open>\<open>big.Int.SetBytes\<close>\<close>

definition SetBytes :: "bytes \<Rightarrow> int" where
  "SetBytes b = foldl (\<lambda>n x. n * 256 + uint x) 0 b"

definition ethDataToMsgSend :: "address \<Rightarrow> bytes \<Rightarrow> err + message" where
  "ethDataToMsgSend fromAddress data =
     (if length data < 4 + 32 + 32 then Inl ErrInvalidERC20Tx
      else
        let amt = SetBytes (take 32 (drop 36 data)) in
        if \<not> IsUint64 amt \<or> amt = 0 then Inl ErrInvalidAmount
        else Inr (MsgSend \<lparr>snd_FromAddress = fromAddress, snd_ToAddress = take 20 (drop 16 data),
          snd_Amount = of_int amt, snd_VestingStartHeight = 0, snd_VestingCliffHeight = 0,
          snd_VestingEndHeight = 0\<rparr>))"

text \<open>The translated message together with the message type of the transaction.\<close>

definition ethDataToMsg :: "wire \<Rightarrow> string \<Rightarrow> bytes \<Rightarrow> (message \<Rightarrow> message) \<Rightarrow> err + string \<times> message" where
  "ethDataToMsg w messageType data callback =
     (case UnmarshalMsg w messageType (drop 4 data) of
        Inl e \<Rightarrow> Inl e
      | Inr m \<Rightarrow>
          let msg = callback m in
          (case Message_Check (Codec w) msg of Inl e \<Rightarrow> Inl e | Inr _ \<Rightarrow> Inr (messageType, msg)))"

fun fill_public_key :: "bytes \<Rightarrow> message \<Rightarrow> message" where
  "fill_public_key publicKey (MsgStake m) =
     MsgStake (if length (stk_PublicKey m) = 0 then m\<lparr>stk_PublicKey := publicKey\<rparr> else m)"
| "fill_public_key publicKey m = m"

definition rlpToMessage :: "wire \<Rightarrow> Config \<Rightarrow> bytes \<Rightarrow> EthTransaction \<Rightarrow> err + string \<times> message" where
  "rlpToMessage w cfg publicKey tx =
     (case AddressOf cfg publicKey of
        None \<Rightarrow> Inl ErrInvalidPublicKey
      | Some from \<Rightarrow>
     (case eth_To tx of
        None \<Rightarrow> Inl ErrRecipientAddressEmpty
      | Some to \<Rightarrow>
          if to \<in> {CNPYContractAddress, StakedCNPYContractAddress, SwapCNPYContractAddress} then
            if length (eth_Data tx) < 4 then Inl ErrInvalidERC20Tx
            else
              let data = eth_Data tx; selector = BytesToString (take 4 data) in
              if selector = SendSelector then map_sum id (Pair MessageSendName) (ethDataToMsgSend from data)
              else if selector = StakeSelector
                then ethDataToMsg w MessageStakeName data (fill_public_key publicKey)
              else if selector = EditStakeSelector then ethDataToMsg w MessageEditStakeName data id
              else if selector = UnstakeSelector then ethDataToMsg w MessageUnstakeName data id
              else if selector = CreateOrderSelector then ethDataToMsg w MessageCreateOrderName data id
              else if selector = EditOrderSelector then ethDataToMsg w MessageEditOrderName data id
              else if selector = DeleteOrderSelector then ethDataToMsg w MessageDeleteOrderName data id
              else if selector = SubsidySelector then ethDataToMsg w MessageSubsidyName data id
              else Inl ErrInvalidERC20Tx
          else
            (case DownscaleTo6DecimalsChecked (Some (eth_Value tx)) of
               None \<Rightarrow> Inl ErrInvalidAmount
             | Some amt \<Rightarrow>
                 if amt = 0 then Inl ErrInvalidAmount
                 else Inr (MessageSendName, MsgSend \<lparr>snd_FromAddress = from, snd_ToAddress = to,
                   snd_Amount = amt, snd_VestingStartHeight = 0, snd_VestingCliffHeight = 0,
                   snd_VestingEndHeight = 0\<rparr>))))"

text \<open>\<open>units.KB\<close> is the metric kilobyte.  A recovered public key is a key, so it has an address.\<close>

definition RLPToCanopyTransaction :: "wire \<Rightarrow> Config \<Rightarrow> bytes \<Rightarrow> err + Transaction" where
  "RLPToCanopyTransaction w cfg txBytes =
     (if 2 * 1000 < length txBytes then Inl ErrInvalidRLPTx
      else case UnmarshalEth w txBytes of
        None \<Rightarrow> Inl ErrInvalidRLPTx
      | Some tx \<Rightarrow>
     (case RecoverPublicKey w tx of
        None \<Rightarrow> Inl ErrInvalidPublicKey
      | Some publicKey \<Rightarrow>
     (case eth_ChainId tx of
        None \<Rightarrow> Inl ErrInvalidRLPTx
      | Some evmChainId \<Rightarrow>
          if \<not> IsUint64 evmChainId then Inl ErrInvalidRLPTx
          else
            let (chainId, networkId) = EvmChainIdToCanopyIds (of_int evmChainId) in
            (case DownscaleTo6DecimalsChecked (Some (uint (eth_Gas tx) * eth_GasPrice tx)) of
               None \<Rightarrow> Inl ErrInvalidRLPTx
             | Some fee \<Rightarrow>
                 (case rlpToMessage w cfg publicKey tx of
                    Inl e \<Rightarrow> Inl e
                  | Inr (messageType, msg) \<Rightarrow>
                      (case NewAny w msg of
                         Inl e \<Rightarrow> Inl e
                       | Inr a \<Rightarrow>
                           Inr \<lparr>tx_MessageType = messageType, tx_Msg = Some a,
                             tx_Signature = Some \<lparr>sig_PublicKey = publicKey, sig_Signature = txBytes\<rparr>,
                             tx_CreatedHeight = eth_Nonce tx,
                             tx_Time = pseudoEthereumTimestamp (eth_Gas tx), tx_Fee = fee,
                             tx_Memo = RLPIndicator, tx_NetworkId = networkId, tx_ChainId = chainId\<rparr>))))))"

text \<open>A transaction without a signature never gets here; its field access would be a panic.\<close>

definition VerifyRLPBytes :: "wire \<Rightarrow> Config \<Rightarrow> Transaction \<Rightarrow> err + unit" where
  "VerifyRLPBytes w cfg tx =
     (case tx_Signature tx of
        None \<Rightarrow> Inl Panic
      | Some sg \<Rightarrow>
     (case RLPToCanopyTransaction w cfg (sig_Signature sg) of
        Inl e \<Rightarrow> Inl e
      | Inr compare \<Rightarrow>
     (case GetHash w cfg compare of
        Inl e \<Rightarrow> Inl e
      | Inr compareHash \<Rightarrow>
     (case GetHash w cfg tx of
        Inl e \<Rightarrow> Inl e
      | Inr originalHash \<Rightarrow>
          if compareHash \<noteq> originalHash then Inl ErrInvalidSignature else Inr ()))))"


section \<open>Translations undo each other\<close>

lemma chain_ids_roundtrip:
  assumes "chainId < 2 ^ 32" and "networkId < 2 ^ 32"
  shows "EvmChainIdToCanopyIds (CanopyIdsToEVMChainId chainId networkId) = (chainId, networkId)"
proof -
  have low: "bit x i \<Longrightarrow> i < 32" if "x < 2 ^ 32" for x :: u64 and i
  proof (rule ccontr)
    assume b: "bit x i" and "\<not> i < 32"
    then have "unat x div 2 ^ i = 0"
      using that power_increasing [of 32 i "2 :: nat"] by (simp add: word_less_nat_alt)
    moreover have "bit (unat x) i" using b by (simp add: bit_unsigned_iff bit_imp_possible_bit)
    ultimately show False by (simp add: bit_iff_odd)
  qed
  have m: "(0xFFFFFFFF :: u64) = mask 32" by (simp add: mask_eq_exp_minus_1)
  have "chainId AND mask 32 = chainId"
    by (rule bit_eqI) (auto simp: bit_and_iff bit_mask_iff dest: low [OF assms(1)] bit_imp_possible_bit)
  moreover have "push_bit 32 networkId AND mask 32 = 0"
    by (rule bit_eqI) (auto simp: bit_and_iff bit_mask_iff bit_push_bit_iff)
  moreover have "drop_bit 32 (push_bit 32 networkId) = networkId"
    by (rule bit_eqI)
      (auto simp: bit_drop_bit_eq bit_push_bit_iff possible_bit_word dest: low [OF assms(2)])
  moreover have "drop_bit 32 (chainId AND mask 32) = 0"
    by (rule bit_eqI) (auto simp: bit_drop_bit_eq bit_and_iff bit_mask_iff)
  ultimately show ?thesis
    by (simp add: EvmChainIdToCanopyIds_def CanopyIdsToEVMChainId_def m bit.conj_disj_distrib2)
qed

lemma decimals_roundtrip:
  assumes "unat a < 2 ^ 63"
  shows "DownscaleTo6DecimalsChecked (Some (UpscaleTo18Decimals a)) = Some a"
proof -
  have u: "uint a = int (unat a)" by simp
  have "sint a = signed_take_bit 63 (uint a)" by (simp add: sint_uint)
  also have "\<dots> = uint a"
  proof (rule signed_take_bit_int_eq_self)
    have "int (unat a) < int (2 ^ 63)" using assms by (simp only: of_nat_less_iff)
    then show "uint a < 2 ^ 63" by (simp only: u of_nat_power of_nat_numeral)
    show "- (2 ^ 63) \<le> uint a" by (rule order_trans [of _ 0]) simp_all
  qed
  finally have "sint a = int (unat a)" by (simp only: u)
  moreover have "(of_int (int (unat a)) :: u64) = a" by simp
  moreover have "int (unat a) < 18446744073709551616"
    using unat_u64_less [of a] by (simp only: of_nat_less_numeral_iff)
  ultimately show ?thesis
    by (simp add: DownscaleTo6DecimalsChecked_def UpscaleTo18Decimals_def scaleFactor_def IsUint64_def
        del: of_int_of_nat_eq)
qed

text \<open>What passes the check of an RLP transaction hashes like its translation.\<close>

lemma VerifyRLPBytes_ok:
  assumes "VerifyRLPBytes w cfg tx = Inr ()"
  obtains sg c where "tx_Signature tx = Some sg"
    "RLPToCanopyTransaction w cfg (sig_Signature sg) = Inr c" "GetHash w cfg c = GetHash w cfg tx"
    "length (sig_Signature sg) \<le> 2000"
  using assms by (auto simp: VerifyRLPBytes_def RLPToCanopyTransaction_def split: option.splits sum.splits if_splits)

end
