(* ===== verification/Transactions.thy ===== *)
theory Transactions
  imports Ethereum
begin

text \<open>
  The processing of one transaction (fsm/transaction.go): the checks (replay window, payload, fee,
  signature), the fee, and the handler of the message.  A signature is verified at once, skipped, or
  put on the batch verifier of lib/crypto/key_batch.go, which the operations here thread beside the
  state machine.  The lemmas: check_op changes nothing but caches and the batch, and a transaction
  that succeeds keeps the invariant of the block and mints no more than its message and the faucet
  allow.  The optional plugin is absent.
\<close>

section \<open>The batch verifier\<close>

text \<open>The tuples in the order they were added: public key, message, signature.\<close>

record BatchVerifier =
  tuples :: "(bytes \<times> bytes \<times> bytes) list"
  noOp :: bool

definition NewBatchVerifier :: "bool \<Rightarrow> BatchVerifier" where
  "NewBatchVerifier no_op = \<lparr>tuples = [], noOp = no_op\<rparr>"

definition BatchVerifier_Add :: "bytes \<times> bytes \<times> bytes \<Rightarrow> BatchVerifier \<Rightarrow> BatchVerifier" where
  "BatchVerifier_Add t b = (if noOp b then b else b\<lparr>tuples := tuples b @ [t]\<rparr>)"

definition BatchVerifier_Count :: "BatchVerifier \<Rightarrow> nat" where
  "BatchVerifier_Count b = length (tuples b)"

text \<open>The ascending indices of the bad signatures.\<close>

definition BatchVerifier_Verify :: "wire \<Rightarrow> BatchVerifier \<Rightarrow> nat list" where
  "BatchVerifier_Verify w b =
     (if noOp b then []
      else filter (\<lambda>i. case tuples b ! i of (pk, m, sg) \<Rightarrow> \<not> VerifyBytes w pk m sg) [0..<length (tuples b)])"

text \<open>The state machine beside an optional verifier; a nil verifier is \<open>None\<close>.\<close>

type_synonym 'a check_op = "(StateMachine \<times> BatchVerifier option, err, 'a) op"

definition machine :: "'a fsm \<Rightarrow> 'a check_op" where
  "machine m = (\<lambda>(s, b). case m s of (t, r) \<Rightarrow> ((t, b), r))"

definition add_tuple :: "bytes \<times> bytes \<times> bytes \<Rightarrow> unit check_op" where
  "add_tuple t = writes (\<lambda>(s, b). (s, map_option (BatchVerifier_Add t) b))"

section \<open>Checks\<close>

definition BlockAcceptanceRange :: u64 where "BlockAcceptanceRange = 4320"

definition CheckReplay :: "wire \<Rightarrow> Transaction \<Rightarrow> string \<Rightarrow> StateMachine \<Rightarrow> err + unit" where
  "CheckReplay w tx txHash s =
     (if NetworkID (Cfg s) \<noteq> tx_NetworkId tx then Inl ErrWrongNetworkID
      else if cfg_ChainId (Cfg s) \<noteq> tx_ChainId tx then Inl ErrWrongChainId
      else if Height s < 2 then Inr ()
      else both
        (if txHash = [] then Inr ()
         else case StringToBytes txHash of
           Inl e \<Rightarrow> Inl e
         | Inr hashBz \<Rightarrow>
             (case GetTxByHash w hashBz of
                Inl e \<Rightarrow> Inl e
              | Inr txResult \<Rightarrow> if txResult = Some txHash then Inl ErrDuplicateTx else Inr ()))
        (let maxHeight = Height s + BlockAcceptanceRange;
             minHeight = (if BlockAcceptanceRange < Height s then Height s - BlockAcceptanceRange else 0) in
         if maxHeight < tx_CreatedHeight tx \<or> tx_CreatedHeight tx < minHeight then Inl ErrInvalidTxHeight
         else Inr ()))"

definition CheckMessage :: "wire \<Rightarrow> Any option \<Rightarrow> err + message" where
  "CheckMessage w msg =
     (case msg of
        None \<Rightarrow> Inl ErrEmptyMessage
      | Some a \<Rightarrow>
          (case UnmarshalAny w a of
             Inl e \<Rightarrow> Inl e
           | Inr None \<Rightarrow> Inl ErrInvalidTxMessage
           | Inr (Some m) \<Rightarrow>
               (case Message_Check (Codec w) m of Inl e \<Rightarrow> Inl e | Inr _ \<Rightarrow> Inr m)))"

definition CheckFee :: "u64 \<Rightarrow> message \<Rightarrow> unit fsm" where
  "CheckFee fee msg =
     bindE (GetFeeForMessageName (Name msg)) (\<lambda>stateLimitFee.
       if fee < stateLimitFee then fail ErrTxFeeBelowStateLimit else ok ())"

text \<open>The key types of 64 bytes, with or without a prefix byte, are the Ethereum ones.\<close>

definition is_eth_key :: "bytes \<Rightarrow> bool" where
  "is_eth_key pk \<longleftrightarrow> length pk = 64 \<or> length pk = 64 + 1"

text \<open>Comparing with a nil address is a nil dereference.\<close>

fun find_signer :: "address \<Rightarrow> address list \<Rightarrow> err + address" where
  "find_signer a [] = Inl ErrUnauthorizedTx"
| "find_signer a (authorized # as) =
     (if authorized = [] then Inl Panic else if a = authorized then Inr a else find_signer a as)"

definition CheckSignature :: "wire \<Rightarrow> Transaction \<Rightarrow> address list \<Rightarrow> address check_op" where
  "CheckSignature w tx authorizedSigners =
     (case tx_Signature tx of
        None \<Rightarrow> fail ErrEmptySignature
      | Some sg \<Rightarrow>
          if length (sig_Signature sg) = 0 then fail ErrEmptySignature
          else case GetSignBytes w tx of
            Inl _ \<Rightarrow> fail ErrTxSignBytes
          | Inr signBytes \<Rightarrow>
              bindE (reads (\<lambda>(s, b). (Cfg s, b))) (\<lambda>(cfg, batchSigVerifier).
                case AddressOf cfg (sig_PublicKey sg) of
                  None \<Rightarrow> fail ErrInvalidPublicKey
                | Some a \<Rightarrow>
                    bindE
                      (if is_eth_key (sig_PublicKey sg) \<and> tx_Memo tx = RLPIndicator
                       then gets (\<lambda>_. VerifyRLPBytes w cfg tx)
                       else if batchSigVerifier \<noteq> None
                       then add_tuple (sig_PublicKey sg, signBytes, sig_Signature sg)
                       else if \<not> VerifyBytes w (sig_PublicKey sg) signBytes (sig_Signature sg)
                       then fail ErrInvalidSignature else ok ()) (\<lambda>_.
                      gets (\<lambda>_. find_signer a authorizedSigners))))"

text \<open>The error of the hash is dropped: it is nil then, and slicing nil is a panic.\<close>

definition hash_of :: "wire \<Rightarrow> Config \<Rightarrow> Transaction \<Rightarrow> bytes" where
  "hash_of w cfg tx = (case GetHash w cfg tx of Inl _ \<Rightarrow> [] | Inr h \<Rightarrow> h)"

definition order_id :: "wire \<Rightarrow> Config \<Rightarrow> Transaction \<Rightarrow> err + bytes" where
  "order_id w cfg tx =
     (let hash = hash_of w cfg tx in if length hash < 20 then Inl Panic else Inr (take 20 hash))"

definition PopulateSpecialMessageFields ::
  "wire \<Rightarrow> Config \<Rightarrow> Transaction \<Rightarrow> address \<Rightarrow> message \<Rightarrow> err + message" where
  "PopulateSpecialMessageFields w cfg tx signer msg =
     (case msg of
        MsgStake x \<Rightarrow> Inr (MsgStake (x\<lparr>stk_Signer := signer\<rparr>))
      | MsgEditStake x \<Rightarrow> Inr (MsgEditStake (x\<lparr>eds_Signer := signer\<rparr>))
      | MsgChangeParameter x \<Rightarrow>
          Inr (MsgChangeParameter (x\<lparr>chp_ProposalHash := BytesToString (hash_of w cfg tx)\<rparr>))
      | MsgDAOTransfer x \<Rightarrow> Inr (MsgDAOTransfer (x\<lparr>dao_ProposalHash := BytesToString (hash_of w cfg tx)\<rparr>))
      | MsgCreateOrder x \<Rightarrow> map_sum id (\<lambda>i. MsgCreateOrder (x\<lparr>co_OrderId := i\<rparr>)) (order_id w cfg tx)
      | MsgDexLimitOrder x \<Rightarrow> map_sum id (\<lambda>i. MsgDexLimitOrder (x\<lparr>mdl_OrderId := i\<rparr>)) (order_id w cfg tx)
      | MsgDexLiquidityDeposit x \<Rightarrow>
          map_sum id (\<lambda>i. MsgDexLiquidityDeposit (x\<lparr>mdd_OrderId := i\<rparr>)) (order_id w cfg tx)
      | MsgDexLiquidityWithdraw x \<Rightarrow>
          map_sum id (\<lambda>i. MsgDexLiquidityWithdraw (x\<lparr>mdw_OrderId := i\<rparr>)) (order_id w cfg tx)
      | _ \<Rightarrow> Inr msg)"

section \<open>Checking a transaction\<close>

record CheckTxResult =
  ctr_tx :: Transaction
  ctr_msg :: message
  ctr_sender :: address
  ctr_recipient :: bytes

definition CheckTx :: "wire \<Rightarrow> bytes \<Rightarrow> string \<Rightarrow> CheckTxResult check_op" where
  "CheckTx w transaction txHash =
     bindE (gets (\<lambda>_. UnmarshalTx w transaction)) (\<lambda>tx.
     bindE (gets (\<lambda>_. Transaction_CheckBasic (Some tx))) (\<lambda>_.
     bindE (machine (gets (CheckReplay w tx txHash))) (\<lambda>_.
     bindE (gets (\<lambda>_. CheckMessage w (tx_Msg tx))) (\<lambda>msg.
     bindE (machine (CheckFee (tx_Fee tx) msg)) (\<lambda>_.
     bindE (machine (gets (GetAuthorizedSignersFor msg))) (\<lambda>authorizedSigners.
     bindE (CheckSignature w tx authorizedSigners) (\<lambda>sender.
     bindE (machine (gets (\<lambda>s. PopulateSpecialMessageFields w (Cfg s) tx sender msg))) (\<lambda>msg'.
       ok \<lparr>ctr_tx = tx, ctr_msg = msg', ctr_sender = sender, ctr_recipient = Recipient msg\<rparr>))))))))"

section \<open>Applying a transaction\<close>

record TxResult =
  txr_Sender :: address
  txr_Recipient :: bytes
  txr_MessageType :: string
  txr_Height :: u64
  txr_Index :: u64
  txr_Transaction :: Transaction
  txr_TxHash :: string

text \<open>A send from the faucet is topped up first.\<close>

definition faucet :: "CheckTxResult \<Rightarrow> unit fsm" where
  "faucet result =
     (case ctr_msg result of
        MsgSend send \<Rightarrow>
          let required = snd_Amount send; fee = tx_Fee (ctr_tx result) in
          if MaxUint64 - fee < required then fail ErrInvalidAmount
          else maybeFaucetTopUpForSendTx (ctr_sender result) (required + fee)
      | _ \<Rightarrow> ok ())"

definition ApplyTransaction ::
  "wire \<Rightarrow> archive \<Rightarrow> u64 \<Rightarrow> bytes \<Rightarrow> string \<Rightarrow> (TxResult \<times> Event list) check_op" where
  "ApplyTransaction w arc index transaction txHash =
     bindE (machine (Refer txHash)) (\<lambda>_.
     bindE (CheckTx w transaction txHash) (\<lambda>result.
     bindE (machine (faucet result)) (\<lambda>_.
     bindE (machine (AccountDeductFees (ctr_sender result) (tx_Fee (ctr_tx result)))) (\<lambda>_.
     bindE (machine (HandleMessage (Codec w) arc (ctr_msg result))) (\<lambda>_.
     bindE (machine (reads Height)) (\<lambda>h.
     bindE (machine ResetEvents) (\<lambda>evs.
       ok (\<lparr>txr_Sender = ctr_sender result, txr_Recipient = ctr_recipient result,
         txr_MessageType = Name (ctr_msg result), txr_Height = h, txr_Index = index,
         txr_Transaction = ctr_tx result, txr_TxHash = txHash\<rparr>, evs))))))))"


section \<open>What checking does\<close>

lemma machine_apply: "machine m (s, b) = (case m s of (t, r) \<Rightarrow> ((t, b), r))"
  by (simp add: machine_def)

lemma machine_ok: "machine m (s, b) = (st, Inr r) \<longleftrightarrow> (\<exists>t. m s = (t, Inr r) \<and> st = (t, b))"
  by (auto simp: machine_apply split: prod.split)

lemma bindE_machine_gets:
  "bindE (machine (gets g)) f (s, b) = (case g s of Inl e \<Rightarrow> ((s, b), Inl e) | Inr a \<Rightarrow> f a (s, b))"
  by (simp add: bindE_apply machine_apply gets_apply split: sum.split)

lemma find_signer_ok: "find_signer a as = Inr b \<Longrightarrow> b = a \<and> a \<in> set as"
  by (induction a as rule: find_signer.induct) (auto split: if_splits)

text \<open>A checked signature belongs to an authorized signer; without a batch it was verified.\<close>

lemma CheckSignature_ok:
  assumes "CheckSignature w tx as (s, b) = (st, Inr a)"
  obtains sg where "tx_Signature tx = Some sg" "AddressOf (Cfg s) (sig_PublicKey sg) = Some a"
    "a \<in> set as" "fst st = s"
    "VerifyRLPBytes w (Cfg s) tx = Inr () \<or>
      (\<exists>signBytes. GetSignBytes w tx = Inr signBytes \<and>
        (case b of None \<Rightarrow> VerifyBytes w (sig_PublicKey sg) signBytes (sig_Signature sg)
         | Some v \<Rightarrow> snd st = Some (BatchVerifier_Add (sig_PublicKey sg, signBytes, sig_Signature sg) v)))"
proof -
  obtain sg where sg: "tx_Signature tx = Some sg" using assms by (cases "tx_Signature tx") (auto simp: CheckSignature_def)
  obtain bs where bs: "GetSignBytes w tx = Inr bs"
    using assms sg by (cases "GetSignBytes w tx") (auto simp: CheckSignature_def split: if_splits)
  obtain x where x: "AddressOf (Cfg s) (sig_PublicKey sg) = Some x"
    using assms sg bs by (cases "AddressOf (Cfg s) (sig_PublicKey sg)")
      (auto simp: CheckSignature_def op_simps split: if_splits)
  let ?v = "if is_eth_key (sig_PublicKey sg) \<and> tx_Memo tx = RLPIndicator
      then gets (\<lambda>_. VerifyRLPBytes w (Cfg s) tx)
      else if b \<noteq> None then add_tuple (sig_PublicKey sg, bs, sig_Signature sg)
      else if \<not> VerifyBytes w (sig_PublicKey sg) bs (sig_Signature sg) then fail ErrInvalidSignature else ok ()"
  have run: "bindE ?v (\<lambda>_. gets (\<lambda>_. find_signer x as)) (s, b) = (st, Inr a)"
    using assms sg bs x by (cases "sig_Signature sg = []") (simp_all add: CheckSignature_def bindE_reads)
  obtain su where su: "?v (s, b) = (su, Inr ())" and f: "gets (\<lambda>_. find_signer x as) su = (st, Inr a)"
    by (rule bindE_okE [OF run]) simp
  from f have "find_signer x as = Inr a" "st = su" by (simp_all add: gets_apply)
  then show thesis
    using that [OF sg] su x bs find_signer_ok [of x as a]
    by (auto simp: op_simps add_tuple_def split: if_splits option.splits)
qed

text \<open>Checking a transaction touches nothing but the cached fee parameters.\<close>

lemma CheckFee_cache: "CheckFee fee m s = (t, r) \<Longrightarrow> \<exists>c. t = s\<lparr>cache_feeParams := c\<rparr>"
  by (cases "GetParamsFee s")
    (auto simp: CheckFee_def GetFeeForMessageName_def bindE_apply gets_apply op_simps
      dest!: GetParamsFee_cache split: sum.splits if_splits)

lemma CheckTx_ok:
  assumes "CheckTx w bz h (s, b) = (st, Inr r)"
  obtains m where "UnmarshalTx w bz = Inr (ctr_tx r)"
    "CheckMessage w (tx_Msg (ctr_tx r)) = Inr m"
    "PopulateSpecialMessageFields w (Cfg s) (ctr_tx r) (ctr_sender r) m = Inr (ctr_msg r)"
    "\<exists>sg. tx_Signature (ctr_tx r) = Some sg \<and> AddressOf (Cfg s) (sig_PublicKey sg) = Some (ctr_sender r) \<and>
      (VerifyRLPBytes w (Cfg s) (ctr_tx r) = Inr () \<or> (\<exists>signBytes. GetSignBytes w (ctr_tx r) = Inr signBytes \<and>
        (case b of None \<Rightarrow> VerifyBytes w (sig_PublicKey sg) signBytes (sig_Signature sg)
         | Some v \<Rightarrow> snd st = Some (BatchVerifier_Add (sig_PublicKey sg, signBytes, sig_Signature sg) v))))"
    "\<exists>as. GetAuthorizedSignersFor m s = Inr as \<and> ctr_sender r \<in> set as"
    "CheckReplay w (ctr_tx r) h s = Inr ()" "\<exists>c. fst st = s\<lparr>cache_feeParams := c\<rparr>"
proof -
  let ?sign = "\<lambda>tx m as. bindE (CheckSignature w tx as) (\<lambda>sender.
      bindE (machine (gets (\<lambda>s. PopulateSpecialMessageFields w (Cfg s) tx sender m))) (\<lambda>m'.
        ok \<lparr>ctr_tx = tx, ctr_msg = m', ctr_sender = sender, ctr_recipient = Recipient m\<rparr>))"
  obtain tx m where tx: "UnmarshalTx w bz = Inr tx" "CheckReplay w tx h s = Inr ()"
      "CheckMessage w (tx_Msg tx) = Inr m"
    and run: "bindE (machine (CheckFee (tx_Fee tx) m)) (\<lambda>_. bindE (machine (gets (GetAuthorizedSignersFor m)))
      (?sign tx m)) (s, b) = (st, Inr r)"
    using assms by (auto simp: CheckTx_def bindE_gets bindE_machine_gets split: sum.splits)
  obtain u where fee: "CheckFee (tx_Fee tx) m s = (u, Inr ())"
    and run': "bindE (machine (gets (GetAuthorizedSignersFor m))) (?sign tx m) (u, b) = (st, Inr r)"
    by (rule bindE_okE [OF run]) (auto simp: machine_ok)
  obtain c where u: "u = s\<lparr>cache_feeParams := c\<rparr>" using CheckFee_cache [OF fee] by blast
  have cfg: "Cfg u = Cfg s" by (simp add: u)
  obtain as where as: "GetAuthorizedSignersFor m u = Inr as" and last: "?sign tx m as (u, b) = (st, Inr r)"
    using run' by (auto simp: bindE_machine_gets split: sum.splits)
  have as': "GetAuthorizedSignersFor m s = Inr as"
    using as by (cases m) (auto simp: u pubKeyBytesToAddress_def GetAuthorizedSignersForValidator_def
        GetValidator_def order_signer_def GetOrder_def split: option.splits)
  obtain v a where a: "CheckSignature w tx as (u, b) = (v, Inr a)"
    and rest: "bindE (machine (gets (\<lambda>s. PopulateSpecialMessageFields w (Cfg s) tx a m))) (\<lambda>m'.
        ok \<lparr>ctr_tx = tx, ctr_msg = m', ctr_sender = a, ctr_recipient = Recipient m\<rparr>) v = (st, Inr r)"
    by (rule bindE_okE [OF last]) simp
  note sg = CheckSignature_ok [OF a]
  have "fst v = u" by (rule sg)
  then obtain b' where v: "v = (u, b')" by (cases v) simp
  obtain m' where m': "PopulateSpecialMessageFields w (Cfg u) tx a m = Inr m'" "st = v"
    "r = \<lparr>ctr_tx = tx, ctr_msg = m', ctr_sender = a, ctr_recipient = Recipient m\<rparr>"
    using rest by (auto simp: v bindE_machine_gets split: sum.splits)
  show thesis
  proof (rule that [of m])
    show "\<exists>sg. tx_Signature (ctr_tx r) = Some sg \<and> AddressOf (Cfg s) (sig_PublicKey sg) = Some (ctr_sender r) \<and>
      (VerifyRLPBytes w (Cfg s) (ctr_tx r) = Inr () \<or> (\<exists>signBytes. GetSignBytes w (ctr_tx r) = Inr signBytes \<and>
        (case b of None \<Rightarrow> VerifyBytes w (sig_PublicKey sg) signBytes (sig_Signature sg)
         | Some v \<Rightarrow> snd st = Some (BatchVerifier_Add (sig_PublicKey sg, signBytes, sig_Signature sg) v))))"
      by (rule sg) (auto simp: m'(1,3) cfg m'(2) [symmetric] split: option.splits)
    show "\<exists>as. GetAuthorizedSignersFor m s = Inr as \<and> ctr_sender r \<in> set as"
      by (rule sg) (auto simp: m'(3) as')
    have "fst st = s\<lparr>cache_feeParams := c\<rparr>" using m'(2) v u by simp
    then show "\<exists>c. fst st = s\<lparr>cache_feeParams := c\<rparr>" ..
    show "PopulateSpecialMessageFields w (Cfg s) (ctr_tx r) (ctr_sender r) m = Inr (ctr_msg r)"
      using m'(1,3) cfg by simp
  qed (simp_all add: tx m'(3))
qed


text \<open>An applied transaction was checked, and its result names its hash and its sender.\<close>

lemma ApplyTransaction_checked:
  assumes t: "ApplyTransaction w arc i bz h (s, b) = ((t, b'), Inr (res, evs))"
  obtains st r where "CheckTx w bz h (s\<lparr>event_reference := h\<rparr>, b) = (st, Inr r)"
    "txr_TxHash res = h" "txr_Sender res = ctr_sender r"
proof -
  let ?s = "s\<lparr>event_reference := h\<rparr>"
  have ref: "machine (Refer h) (s, b) = ((?s, b), Inr ())"
    by (simp add: machine_def Refer_def writes_apply)
  obtain st r where c: "CheckTx w bz h (?s, b) = (st, Inr r)" and rest: "bindE (machine (faucet r)) (\<lambda>_.
      bindE (machine (AccountDeductFees (ctr_sender r) (tx_Fee (ctr_tx r)))) (\<lambda>_.
      bindE (machine (HandleMessage (Codec w) arc (ctr_msg r))) (\<lambda>_.
      bindE (machine (reads Height)) (\<lambda>h'. bindE (machine ResetEvents) (\<lambda>evs.
        ok (\<lparr>txr_Sender = ctr_sender r, txr_Recipient = ctr_recipient r, txr_MessageType = Name (ctr_msg r),
          txr_Height = h', txr_Index = i, txr_Transaction = ctr_tx r, txr_TxHash = h\<rparr>, evs)))))) st
      = ((t, b'), Inr (res, evs))"
    using t unfolding ApplyTransaction_def bindE_of_ok [where m = "machine (Refer h)", OF ref]
    by (rule bindE_okE) simp
  have "txr_TxHash res = h \<and> txr_Sender res = ctr_sender r"
    using rest by (elim bindE_okE) (auto simp: ok_def)
  with c show thesis using that by blast
qed

section \<open>A transaction keeps the invariant\<close>

text \<open>The addresses that a transaction brings are in use.\<close>

fun msg_addresses_in :: "address set \<Rightarrow> message \<Rightarrow> bool" where
  "msg_addresses_in A (MsgSend x) \<longleftrightarrow> snd_FromAddress x \<in> A \<and> snd_ToAddress x \<in> A"
| "msg_addresses_in A (MsgStake x) \<longleftrightarrow> stk_OutputAddress x \<in> A"
| "msg_addresses_in A (MsgEditStake x) \<longleftrightarrow> eds_OutputAddress x \<in> A"
| "msg_addresses_in A m \<longleftrightarrow> msg_in A m \<or> (\<exists>x. m = MsgDexLiquidityWithdraw x \<and> mdw_Address x \<in> A)"

definition tx_in :: "wire \<Rightarrow> Config \<Rightarrow> address set \<Rightarrow> bytes \<Rightarrow> bool" where
  "tx_in w cfg A bz \<longleftrightarrow> (\<forall>tx. UnmarshalTx w bz = Inr tx \<longrightarrow>
     (\<forall>m. CheckMessage w (tx_Msg tx) = Inr m \<longrightarrow> msg_addresses_in A m) \<and>
     (\<forall>sg a. tx_Signature tx = Some sg \<longrightarrow> AddressOf cfg (sig_PublicKey sg) = Some a \<longrightarrow> a \<in> A))"

text \<open>What a transaction may mint at most: a DAO transfer its amount, a send what the faucet adds.\<close>

definition send_mint :: "Config \<Rightarrow> u64 \<Rightarrow> message \<Rightarrow> nat" where
  "send_mint cfg fee m =
     (case m of
        MsgSend x \<Rightarrow> if TrimSpace (FaucetAddress cfg) = [] then 0 else unat (snd_Amount x) + unat fee
      | _ \<Rightarrow> 0)"

definition tx_mint :: "wire \<Rightarrow> Config \<Rightarrow> bytes \<Rightarrow> nat" where
  "tx_mint w cfg bz =
     (case UnmarshalTx w bz of
        Inl _ \<Rightarrow> 0
      | Inr tx \<Rightarrow>
          (case CheckMessage w (tx_Msg tx) of
             Inl _ \<Rightarrow> 0
           | Inr m \<Rightarrow> send_mint cfg (tx_Fee tx) m + msg_mint m))"

lemma Populate_keeps:
  assumes "PopulateSpecialMessageFields w cfg tx a m = Inr m'" and "msg_addresses_in A m" and "a \<in> A"
    and "Message_Check c m = Inr ()"
  shows "msg_in A m'" and "msg_mint m' = msg_mint m" and "send_mint cfg fee m' = send_mint cfg fee m"
proof -
  have chk: "\<And>x. m = MsgSend x \<Longrightarrow> snd_Amount x \<noteq> 0"
    "\<And>x. m = MsgDexLiquidityWithdraw x \<Longrightarrow> mdw_Percent x \<le> 100"
    using assms(4) by (auto simp: MessageSend_Check_def MessageDexLiquidityWithdraw_Check_def both_def
        checkAmount_def checkPercent_def split: sum.splits if_splits)
  show "msg_in A m'" "msg_mint m' = msg_mint m" "send_mint cfg fee m' = send_mint cfg fee m"
    using assms(1-3) chk
    by (cases m; auto simp: PopulateSpecialMessageFields_def send_mint_def order_id_def Let_def split: if_splits)+
qed

lemma world_MintToAccount:
  assumes s: "world E A n s" and a: "a \<in> A" and room: "n + unat k < 18446744073709551616"
    and t: "MintToAccount a k s = (t, Inr ())"
  shows "world E A (n + unat k) t"
proof (cases "k = 0")
  case False
  let ?u = "s\<lparr>supplyTracker := (supplyTracker s)\<lparr>Total := Total (supplyTracker s) + k\<rparr>\<rparr>"
  have add: "AccountAdd a k ?u = (t, Inr ())"
    using t False by (simp add: MintToAccount_def AddToTotalSupply_def SetSupply_def GetSupply_def op_simps)
  have s_ok: "funds_ok A s" "held s = total_supply s" "ledger_on E s"
    using worldD(2) [OF s] by (simp_all add: books_on_def)
  have le: "total_supply s \<le> n" by (rule worldD(9) [OF s])
  have u: "funds_ok A ?u" "held ?u = held s" "total_supply ?u = total_supply s + unat k"
    using s_ok(1) room le by (simp_all add: funds_ok_def accounts_ok_def stored_account_def held_def
        account_total_def pool_total_def stake_total_def total_supply_def unat_add_u64)
  note st = AccountAdd_funds [OF u(1) a add]
  have F: "frame supplyTracker (AccountAdd a k)" "frame validators (AccountAdd a k)"
    by (intro frame_rules; simp)+
  have same: "supplyTracker t = supplyTracker ?u" "validators t = validators ?u"
    by (rule frameD [OF F(1) add], rule frameD [OF F(2) add])
  have total: "total_supply t = total_supply s + unat k" using same(1) u(3) by (simp add: total_supply_def)
  have "stake_records t = stake_records s" using same by (simp add: stake_records_def)
  then have books: "books_on E A t"
    using ledger_of_records [of t s E] st u s_ok total by (simp add: books_on_def)
  have G: "frame rest_of (MintToAccount a k)" "frame validators (MintToAccount a k)" "frame pools (MintToAccount a k)"
    unfolding MintToAccount_def by (intro frame_rules; simp)+
  show ?thesis
    by (rule world_money [OF G(1) pools_frame [OF G(3)] roster_frame [OF G(2)] s t books])
      (use total le in simp)
qed (use s t in \<open>simp add: MintToAccount_def\<close>)

lemma world_faucet:
  assumes s: "world E A n s" and a: "ctr_sender r \<in> A"
    and room: "n + send_mint (Cfg s) (tx_Fee (ctr_tx r)) (ctr_msg r) < 18446744073709551616"
    and t: "faucet r s = (t, Inr ())"
  shows "world E A (n + send_mint (Cfg s) (tx_Fee (ctr_tx r)) (ctr_msg r)) t"
proof (cases "\<exists>x. ctr_msg r = MsgSend x \<and> t \<noteq> s")
  case False
  then show ?thesis using t world_mono [OF s] by (cases "ctr_msg r") (auto simp: faucet_def)
next
  case True
  then obtain x where x: "ctr_msg r = MsgSend x" "t \<noteq> s" by blast
  let ?fee = "tx_Fee (ctr_tx r)" and ?bal = "GetAccountSpendableBalance (ctr_sender r) s"
  let ?req = "snd_Amount x + ?fee"
  have no: "unat (snd_Amount x) + unat ?fee < 18446744073709551616"
    and f: "TrimSpace (FaucetAddress (Cfg s)) \<noteq> []" and lt: "\<not> ?req \<le> ?bal"
    and mint: "MintToAccount (ctr_sender r) (?req - ?bal) s = (t, Inr ())"
    using t x by (auto simp: faucet_def maybeFaucetTopUpForSendTx_def op_simps Let_def u64_simps
        split: if_splits option.splits)
  have "unat (?req - ?bal) \<le> unat ?req" using lt by (simp add: unat_sub_u64)
  also have "\<dots> = unat (snd_Amount x) + unat ?fee" by (rule unat_add_u64 [OF no])
  finally have le: "unat (?req - ?bal) \<le> send_mint (Cfg s) ?fee (ctr_msg r)" by (simp add: x send_mint_def f)
  have "world E A (n + unat (?req - ?bal)) t"
    by (rule world_MintToAccount [OF s a _ mint]) (use le room in simp)
  then show ?thesis by (rule world_mono) (use le in simp)
qed


lemma machine_step:
  assumes "bindE (machine m) f (s, b) = (st, Inr r)"
  obtains t a where "m s = (t, Inr a)" "f a (t, b) = (st, Inr r)"
  by (rule bindE_okE [OF assms]) (auto simp: machine_ok)

theorem world_ApplyTransaction:
  assumes s: "world E A n s" and E: "E \<subseteq> joint_entries" and A: "tx_in w (Cfg s) A bz"
    and room: "n + tx_mint w (Cfg s) bz < 18446744073709551616"
    and t: "ApplyTransaction w arc i bz h (s, b) = ((t, b'), Inr r)"
  shows "world E A (n + tx_mint w (Cfg s) bz) t"
proof -
  let ?pay = "\<lambda>r. AccountDeductFees (ctr_sender r) (tx_Fee (ctr_tx r))"
  let ?done = "\<lambda>r. bindE (machine (HandleMessage (Codec w) arc (ctr_msg r))) (\<lambda>_.
     bindE (machine (reads Height)) (\<lambda>h'. bindE (machine ResetEvents) (\<lambda>evs.
       ok (\<lparr>txr_Sender = ctr_sender r, txr_Recipient = ctr_recipient r, txr_MessageType = Name (ctr_msg r),
         txr_Height = h', txr_Index = i, txr_Transaction = ctr_tx r, txr_TxHash = h\<rparr>, evs))))"
  obtain u where u: "Refer h s = (u, Inr ())" and run: "bindE (CheckTx w bz h) (\<lambda>r.
      bindE (machine (faucet r)) (\<lambda>_. bindE (machine (?pay r)) (\<lambda>_. ?done r))) (u, b) = ((t, b'), Inr r)"
    using t unfolding ApplyTransaction_def by (rule machine_step) simp
  have wu: "world E A n u" using upholdsD [OF world_boundary(1) s u] by simp
  have cfg: "Cfg u = Cfg s" using u by (auto simp: Refer_def writes_apply)
  obtain st c where c: "CheckTx w bz h (u, b) = (st, Inr c)" and rest: "bindE (machine (faucet c)) (\<lambda>_.
      bindE (machine (?pay c)) (\<lambda>_. ?done c)) st = ((t, b'), Inr r)"
    by (rule bindE_okE [OF run]) simp
  obtain m where m: "UnmarshalTx w bz = Inr (ctr_tx c)" "CheckMessage w (tx_Msg (ctr_tx c)) = Inr m"
    "PopulateSpecialMessageFields w (Cfg u) (ctr_tx c) (ctr_sender c) m = Inr (ctr_msg c)"
    "\<exists>sg. tx_Signature (ctr_tx c) = Some sg \<and> AddressOf (Cfg u) (sig_PublicKey sg) = Some (ctr_sender c)"
    "\<exists>x. fst st = u\<lparr>cache_feeParams := x\<rparr>"
    by (rule CheckTx_ok [OF c]) blast
  obtain v b'' where st: "st = (v, b'')" by fastforce
  have wv: "world E A n v" "Cfg v = Cfg s" using m(5) wu cfg by (auto simp: st)
  have sender: "ctr_sender c \<in> A" and addr: "msg_addresses_in A m"
    using A m(1,2,4) by (auto simp: tx_in_def cfg)
  have chk: "Message_Check (Codec w) m = Inr ()"
    using m(2) by (auto simp: CheckMessage_def split: option.splits sum.splits)
  note pop = Populate_keeps [OF m(3) addr sender chk]
  have mint: "tx_mint w (Cfg s) bz = send_mint (Cfg s) (tx_Fee (ctr_tx c)) m + msg_mint m"
    using m(1,2) by (simp add: tx_mint_def)
  let ?n = "n + send_mint (Cfg s) (tx_Fee (ctr_tx c)) m"
  obtain x where x: "faucet c v = (x, Inr ())" and run1: "bindE (machine (?pay c)) (\<lambda>_. ?done c) (x, b'') = ((t, b'), Inr r)"
    using rest unfolding st by (rule machine_step) simp
  have wx: "world E A ?n x"
    using world_faucet [OF wv(1) sender _ x] room mint pop(3) by (simp add: wv(2) cfg)
  obtain y where y: "?pay c x = (y, Inr ())" and run2: "?done c (y, b'') = ((t, b'), Inr r)"
    using run1 by (rule machine_step) simp
  have wy: "world E A ?n y" using upholdsD [OF world_fees [OF sender] wx y] by simp
  obtain z where z: "HandleMessage (Codec w) arc (ctr_msg c) y = (z, Inr ())"
    and run3: "bindE (machine (reads Height)) (\<lambda>h'. bindE (machine ResetEvents) (\<lambda>evs.
       ok (\<lparr>txr_Sender = ctr_sender c, txr_Recipient = ctr_recipient c, txr_MessageType = Name (ctr_msg c),
         txr_Height = h', txr_Index = i, txr_Transaction = ctr_tx c, txr_TxHash = h\<rparr>, evs))) (z, b'') = ((t, b'), Inr r)"
    using run2 by (rule machine_step) simp
  have wz: "world E A (?n + msg_mint m) z"
    using world_HandleMessage [OF wy E pop(1) _ z] room mint pop(2) by simp
  obtain evs where "ResetEvents z = (t, Inr evs)"
    using run3 by (auto simp: bindE_apply machine_apply reads_apply ResetEvents_def)
  from upholdsD [OF world_boundary(5) wz this] show ?thesis by (simp add: mint add.assoc)
qed

end
