(* ===== verification/Merkle.thy ===== *)
theory Merkle
  imports Prelude
begin

unbundle bit_operations_syntax

text \<open>
  The Merkle tree of lib/crypto/hash.go, held in one array: the leaves, then each level above them.
  \<open>MerkleTree\<close> is the loop of the source; the lemmas show that the last cell of the array is the
  root of the binary tree over the padded leaves, that two lists of one length with one root are
  equal or two strings hashed on the way to the root have one hash, and that lists of
  different lengths can share a root.
\<close>

section \<open>The loop\<close>

definition nextPowerOfTwo :: "u64 \<Rightarrow> u64" where
  "nextPowerOfTwo v =
     (let v = v - 1;
          v = v OR drop_bit 1 v;
          v = v OR drop_bit 2 v;
          v = v OR drop_bit 4 v;
          v = v OR drop_bit 8 v;
          v = v OR drop_bit 16 v
      in v + 1)"

text \<open>A nil cell is \<open>None\<close>; \<open>H\<close> is the cryptographic hash.\<close>

definition parent :: "(bytes \<Rightarrow> bytes) \<Rightarrow> bytes option \<Rightarrow> bytes option \<Rightarrow> bytes option" where
  "parent H left right =
     (case left of
        None \<Rightarrow> None
      | Some l \<Rightarrow> (case right of None \<Rightarrow> Some (H (l @ l)) | Some r \<Rightarrow> Some (H (l @ r))))"

definition fill :: "(bytes \<Rightarrow> bytes) \<Rightarrow> nat \<Rightarrow> bytes option list \<Rightarrow> bytes option list" where
  "fill H offset store =
     foldl (\<lambda>st k. st[offset + k := parent H (st ! (2 * k)) (st ! (2 * k + 1))]) store [0..<offset - 1]"

definition MerkleTree :: "(bytes \<Rightarrow> bytes) \<Rightarrow> bytes list \<Rightarrow> bytes \<times> bytes option list" where
  "MerkleTree H items =
     (if items = [] then ([], [])
      else
        let offset = unat (nextPowerOfTwo (of_nat (length items)));
            size = offset * 2 - 1;
            store = fill H offset (map (\<lambda>i. Some (H i)) items @ replicate (size - length items) None)
        in (case store ! (size - 1) of None \<Rightarrow> [] | Some root \<Rightarrow> root, store))"

section \<open>The next power of two\<close>

text \<open>The bits of \<open>v\<close> smeared over \<open>k\<close> positions.\<close>

definition smeared :: "nat \<Rightarrow> u64 \<Rightarrow> u64 \<Rightarrow> bool" where
  "smeared k v w \<longleftrightarrow> (\<forall>i. bit w i \<longleftrightarrow> (\<exists>d < k. bit v (i + d)))"

lemma smeared_start: "smeared 1 v v"
  by (simp add: smeared_def)

lemma smeared_double:
  assumes "smeared k v w"
  shows "smeared (2 * k) v (w OR drop_bit k w)"
proof -
  have "(\<exists>d < k. bit v (i + d)) \<or> (\<exists>d < k. bit v (k + i + d)) \<longleftrightarrow> (\<exists>d < 2 * k. bit v (i + d))" for i
  proof
    assume "\<exists>d < 2 * k. bit v (i + d)"
    then obtain d where d: "d < 2 * k" "bit v (i + d)" by blast
    show "(\<exists>d < k. bit v (i + d)) \<or> (\<exists>d < k. bit v (k + i + d))"
    proof (cases "d < k")
      case False
      with d have "d - k < k" "bit v (k + i + (d - k))" by (auto simp: algebra_simps)
      then show ?thesis by blast
    qed (use d in blast)
  next
    assume "(\<exists>d < k. bit v (i + d)) \<or> (\<exists>d < k. bit v (k + i + d))"
    then show "\<exists>d < 2 * k. bit v (i + d)"
    proof
      assume "\<exists>d < k. bit v (k + i + d)"
      then obtain d where "d < k" "bit v (i + (k + d))" by (auto simp: ac_simps)
      then show ?thesis by (intro exI [of _ "k + d"]) simp
    qed (use le_less_trans in fastforce)
  qed
  with assms show ?thesis by (simp add: smeared_def bit_or_iff bit_drop_bit_eq)
qed

text \<open>Smearing the bits below position 32 far enough fills everything below the top bit.\<close>

lemma smeared_mask:
  assumes w: "smeared 32 v w" and v: "2 ^ h \<le> unat v" "unat v < 2 ^ Suc h" and h: "h < 32"
  shows "w = mask (Suc h)"
proof (rule bit_eqI)
  fix i assume "possible_bit TYPE(64 word) i"
  have bits: "bit v j \<longleftrightarrow> bit (unat v) j" for j
    by (auto simp: bit_unsigned_iff dest: bit_imp_possible_bit)
  have top: "bit (unat v) h"
  proof -
    have "unat v div 2 ^ h < 2" "0 < unat v div 2 ^ h"
      using v by (simp_all add: less_mult_imp_div_less div_greater_zero_iff)
    then have "unat v div 2 ^ h = 1" by linarith
    then show ?thesis by (simp add: bit_iff_odd)
  qed
  have above: "\<not> bit (unat v) j" if "h < j" for j
  proof -
    have "(2 :: nat) ^ Suc h \<le> 2 ^ j" using that by (intro power_increasing) simp_all
    with v(2) show ?thesis by (simp add: bit_iff_odd)
  qed
  have "(\<exists>d < 32. bit (unat v) (i + d)) \<longleftrightarrow> i < Suc h"
  proof
    assume "\<exists>d < 32. bit (unat v) (i + d)"
    then show "i < Suc h" using above by (metis less_Suc_eq_le not_less trans_le_add1)
  next
    assume "i < Suc h"
    then have "h - i < 32" "bit (unat v) (i + (h - i))" using h top by simp_all
    then show "\<exists>d < 32. bit (unat v) (i + d)" by blast
  qed
  then show "bit w i \<longleftrightarrow> bit (mask (Suc h) :: u64) i"
    using w h by (auto simp: smeared_def bits bit_mask_iff simp del: mask_Suc_exp)
qed

lemma nextPowerOfTwo_exact:
  assumes "2 ^ n < unat v * 2" and "unat v \<le> 2 ^ n" and "n \<le> 32"
  shows "unat (nextPowerOfTwo v) = 2 ^ n"
proof -
  let ?m = "v - 1"
  define w where "w = (let v = ?m OR drop_bit 1 ?m; v = v OR drop_bit 2 v; v = v OR drop_bit 4 v;
    v = v OR drop_bit 8 v in v OR drop_bit 16 v)"
  have res: "nextPowerOfTwo v = w + 1" by (simp add: nextPowerOfTwo_def w_def Let_def)
  have "0 < unat v" using assms(1) by (cases "unat v = 0") simp_all
  then have m: "unat ?m = unat v - 1" by (metis unat_minus_one unat_0 less_irrefl)
  have sm: "smeared 32 ?m w"
    unfolding w_def Let_def
    using smeared_double [OF smeared_double [OF smeared_double [OF smeared_double [OF smeared_double [OF smeared_start]]]], of ?m]
    by simp
  show ?thesis
  proof (cases n)
    case 0
    then have "?m = 0" using assms(2) \<open>0 < unat v\<close> m by (simp add: unat_eq_zero [symmetric] del: unat_eq_zero)
    then have "w = 0" using sm by (auto simp: smeared_def intro!: bit_eqI)
    then show ?thesis by (simp add: res 0)
  next
    case (Suc h)
    have "w = mask (Suc h)"
      by (rule smeared_mask [OF sm]) (use assms m Suc in simp_all)
    then have "w + 1 = 2 ^ n" by (simp add: Suc mask_eq_exp_minus_1)
    then have "nextPowerOfTwo v = of_nat (2 ^ n)" by (simp add: res)
    moreover have "(2 :: nat) ^ n \<le> 2 ^ 32" using assms(3) by (rule power_increasing) simp
    ultimately show ?thesis by (simp add: unat_of_nat_u64 del: of_nat_power of_nat_numeral)
  qed
qed


section \<open>The array is a tree\<close>

fun tree :: "(bytes \<Rightarrow> bytes) \<Rightarrow> nat \<Rightarrow> bytes option list \<Rightarrow> bytes option" where
  "tree H 0 xs = hd xs"
| "tree H (Suc j) xs = parent H (tree H j (take (2 ^ j) xs)) (tree H j (drop (2 ^ j) xs))"

lemma fill_steps:
  fixes H :: "bytes \<Rightarrow> bytes"
  assumes "m \<le> N - 1" and "2 * N - 1 \<le> length st"
  defines "r \<equiv> foldl (\<lambda>st k. st[N + k := parent H (st ! (2 * k)) (st ! (2 * k + 1))]) st [0..<m]"
  shows "length r = length st" and "i < N \<Longrightarrow> r ! i = st ! i"
    and "k < m \<Longrightarrow> r ! (N + k) = parent H (r ! (2 * k)) (r ! (2 * k + 1))"
proof -
  let ?step = "\<lambda>st k. st[N + k := parent H (st ! (2 * k)) (st ! (2 * k + 1))]"
  have "length (foldl ?step st [0..<m]) = length st \<and>
    (\<forall>i < N. foldl ?step st [0..<m] ! i = st ! i) \<and>
    (\<forall>k < m. foldl ?step st [0..<m] ! (N + k) =
       parent H (foldl ?step st [0..<m] ! (2 * k)) (foldl ?step st [0..<m] ! (2 * k + 1)))"
    using assms(1)
  proof (induction m)
    case (Suc m)
    let ?u = "foldl ?step st [0..<m]"
    have u: "length ?u = length st" "\<forall>i < N. ?u ! i = st ! i"
      "\<forall>k < m. ?u ! (N + k) = parent H (?u ! (2 * k)) (?u ! (2 * k + 1))"
      using Suc by simp_all
    have same: "\<And>i. i \<noteq> N + m \<Longrightarrow> ?step ?u m ! i = ?u ! i" by simp
    have "N + m < length ?u" using Suc.prems assms(2) u(1) by simp
    then have new: "?step ?u m ! (N + m) = parent H (?u ! (2 * m)) (?u ! (2 * m + 1))" by simp
    have "?step ?u m ! (N + k) = parent H (?step ?u m ! (2 * k)) (?step ?u m ! (2 * k + 1))" if "k < Suc m" for k
    proof -
      have "2 * k \<noteq> N + m" "2 * k + 1 \<noteq> N + m" using that Suc.prems by simp_all
      note keep = same [OF this(1)] same [OF this(2)]
      show ?thesis
      proof (cases "k = m")
        case True
        then show ?thesis using new keep by simp
      next
        case False
        with that have k: "k < m" "N + k \<noteq> N + m" by simp_all
        show ?thesis unfolding same [OF k(2)] keep using u(3) k(1) by blast
      qed
    qed
    moreover have "?step ?u m ! i = st ! i" if "i < N" for i using that u(2) by simp
    ultimately show ?case using u(1) by (simp only: upt_Suc_append foldl_append foldl.simps le0) simp
  qed simp
  then show "length r = length st" "i < N \<Longrightarrow> r ! i = st ! i"
    "k < m \<Longrightarrow> r ! (N + k) = parent H (r ! (2 * k)) (r ! (2 * k + 1))"
    by (simp_all add: r_def)
qed

lemma tree_cells:
  assumes up: "\<And>k. k < 2 ^ n - 1 \<Longrightarrow> r ! (2 ^ n + k) = parent H (r ! (2 * k)) (r ! (2 * k + 1))"
    and len: "2 ^ n \<le> length r"
  shows "j \<le> n \<Longrightarrow> q < 2 ^ (n - j) \<Longrightarrow>
     r ! (2 ^ Suc n - 2 ^ (Suc n - j) + q) = tree H j (take (2 ^ j) (drop (q * 2 ^ j) (take (2 ^ n) r)))"
proof (induction j arbitrary: q)
  case 0
  then have "q < length r" using len by simp
  then show ?case using 0 by (simp add: hd_drop_conv_nth take_Suc_conv_app_nth hd_conv_nth nth_append)
next
  case (Suc j)
  define M where "M = (2 :: nat) ^ (n - Suc j)"
  have M: "2 ^ (n - j) = 2 * M" "2 ^ (Suc n - j) = 4 * M" "2 ^ (Suc n - Suc j) = 2 * M" "1 \<le> M"
    using Suc.prems(1) by (auto simp: M_def dest!: le_Suc_ex)
  have le: "2 * M \<le> 2 ^ n" using power_increasing [of "n - j" n "2 :: nat"] M(1) by simp
  have q: "q < M" using Suc.prems(2) by (simp add: M_def)
  let ?k = "2 ^ n - 2 * M + q"
  have "?k < 2 ^ n - 1" using q le M(4) by linarith
  note node = up [OF this]
  have "2 ^ Suc n - 2 ^ (Suc n - Suc j) + q = 2 ^ n + ?k"
    using le by (simp add: M(1))
  moreover have "2 * ?k = 2 ^ Suc n - 2 ^ (Suc n - j) + 2 * q"
    "2 * ?k + 1 = 2 ^ Suc n - 2 ^ (Suc n - j) + (2 * q + 1)"
    using le by (simp_all add: M(2))
  moreover have "2 * q < 2 ^ (n - j)" "2 * q + 1 < 2 ^ (n - j)" using q by (simp_all add: M(1))
  moreover have "j \<le> n" using Suc.prems(1) by simp
  ultimately have "r ! (2 ^ Suc n - 2 ^ (Suc n - Suc j) + q) =
      parent H (tree H j (take (2 ^ j) (drop (2 * q * 2 ^ j) (take (2 ^ n) r))))
        (tree H j (take (2 ^ j) (drop ((2 * q + 1) * 2 ^ j) (take (2 ^ n) r))))"
    using node Suc.IH [of "2 * q"] Suc.IH [of "2 * q + 1"] by (simp only:)
  then show ?case by (simp add: min_def drop_take algebra_simps)
qed

text \<open>The leaves, padded with nil to a power of two.\<close>

definition padded :: "(bytes \<Rightarrow> bytes) \<Rightarrow> nat \<Rightarrow> bytes list \<Rightarrow> bytes option list" where
  "padded H n items = map (\<lambda>i. Some (H i)) items @ replicate (2 ^ n - length items) None"

theorem MerkleTree_root:
  assumes n: "2 ^ n < 2 * length items" "length items \<le> 2 ^ n" "n \<le> 32"
  shows "fst (MerkleTree H items) = (case tree H n (padded H n items) of None \<Rightarrow> [] | Some root \<Rightarrow> root)"
proof -
  let ?l = "length items"
  let ?st = "map (\<lambda>i. Some (H i)) items @ replicate (2 ^ n * 2 - 1 - ?l) None"
  have "(2 :: nat) ^ n \<le> 2 ^ 32" using n(3) by (rule power_increasing) simp
  then have "unat (of_nat ?l :: u64) = ?l" using n(2) by (intro unat_of_nat_u64) simp
  with n have off: "unat (nextPowerOfTwo (of_nat ?l)) = 2 ^ n"
    by (intro nextPowerOfTwo_exact) simp_all
  have ne: "items \<noteq> []" using n(1) by auto
  let ?r = "fill H (2 ^ n) ?st"
  have len: "2 * 2 ^ n - 1 \<le> length ?st" using n(2) by simp
  note steps = fill_steps [where m = "2 ^ n - 1" and H = H, OF order_refl len, folded fill_def]
  have pos: "(1 :: nat) \<le> 2 ^ n" by simp
  have "take (2 ^ n) ?r = take (2 ^ n) ?st"
    by (rule nth_take_lemma) (use steps(1,2) len pos in \<open>simp_all del: length_append\<close>)
  also have "\<dots> = padded H n items"
    using n(2) pos by (simp add: padded_def min_def)
  finally have leaves: "take (2 ^ n) ?r = padded H n items" .
  have "?r ! (2 ^ n * 2 - 1 - 1) = tree H n (padded H n items)"
    using tree_cells [of n ?r H n 0, OF steps(3)] steps(1) len pos leaves
    by (simp add: padded_def n(2) mult.commute numeral_2_eq_2)
  then show ?thesis using ne by (simp add: MerkleTree_def off Let_def)
qed

section \<open>What a root commits to\<close>

lemma padding_exponent:
  assumes "items \<noteq> []" and "length items \<le> 2 ^ 32"
  obtains n where "2 ^ n < 2 * length items" "length items \<le> 2 ^ n" "n \<le> 32"
proof -
  define n where "n = (LEAST n. length items \<le> 2 ^ n)"
  have le: "length items \<le> 2 ^ n" unfolding n_def by (rule LeastI [of _ 32]) (rule assms(2))
  have "n \<le> 32" unfolding n_def by (rule Least_le) (rule assms(2))
  moreover have "2 ^ n < 2 * length items"
  proof (cases n)
    case (Suc m)
    then have "\<not> length items \<le> 2 ^ m" unfolding n_def by (intro not_less_Least) simp
    then show ?thesis by (simp add: Suc)
  qed (use assms(1) in \<open>cases items; simp\<close>)
  ultimately show thesis using that le by blast
qed

text \<open>The strings hashed while a tree is built, and two different ones among them with one hash.\<close>

fun hashed :: "(bytes \<Rightarrow> bytes) \<Rightarrow> nat \<Rightarrow> bytes option list \<Rightarrow> bytes set" where
  "hashed H 0 xs = {}"
| "hashed H (Suc j) xs = hashed H j (take (2 ^ j) xs) \<union> hashed H j (drop (2 ^ j) xs) \<union>
     (case tree H j (take (2 ^ j) xs) of
        None \<Rightarrow> {}
      | Some l \<Rightarrow> {l @ (case tree H j (drop (2 ^ j) xs) of None \<Rightarrow> l | Some r \<Rightarrow> r)})"

definition hashed_by :: "(bytes \<Rightarrow> bytes) \<Rightarrow> nat \<Rightarrow> bytes list \<Rightarrow> bytes set" where
  "hashed_by H n items = set items \<union> hashed H n (padded H n items)"

definition clash :: "(bytes \<Rightarrow> bytes) \<Rightarrow> bytes set \<Rightarrow> bytes set \<Rightarrow> bool" where
  "clash H X Y \<longleftrightarrow> (\<exists>x \<in> X. \<exists>y \<in> Y. x \<noteq> y \<and> H x = H y)"

lemma clash_mono: "clash H X Y \<Longrightarrow> X \<subseteq> X' \<Longrightarrow> Y \<subseteq> Y' \<Longrightarrow> clash H X' Y'"
  by (auto simp: clash_def)

definition pad :: "nat \<Rightarrow> bytes list \<Rightarrow> bytes option list" where
  "pad j ls = map Some ls @ replicate (2 ^ j - length ls) None"

lemma pad_halves:
  assumes "length ls \<le> 2 ^ Suc j"
  shows "take (2 ^ j) (pad (Suc j) ls) = pad j (take (2 ^ j) ls)"
    and "drop (2 ^ j) (pad (Suc j) ls) = pad j (drop (2 ^ j) ls)"
  using assms by (auto simp: pad_def take_map drop_map min_def le_diff_conv)

lemma tree_pad_nil: "tree H j (pad j []) = None"
proof (induction j)
  case (Suc j)
  have "take (2 ^ j) (pad (Suc j) []) = pad j []" using pad_halves(1) [of "[]" j] by simp
  with Suc show ?case by (simp add: parent_def)
qed (simp add: pad_def)

lemma tree_pad_root:
  assumes "\<And>x. length (H x) = 32" and "\<forall>l \<in> set ls. length l = 32" and "length ls \<le> 2 ^ j" and "ls \<noteq> []"
  shows "\<exists>l. tree H j (pad j ls) = Some l \<and> length l = 32"
  using assms(2-4)
proof (induction j arbitrary: ls)
  case 0
  then show ?case by (cases ls) (auto simp: pad_def)
next
  case (Suc j)
  let ?l = "take (2 ^ j) ls"
  have "\<forall>l \<in> set ?l. length l = 32" "length ?l \<le> 2 ^ j" "?l \<noteq> []"
    using Suc.prems by (auto dest: in_set_takeD)
  from Suc.IH [OF this] show ?case
    by (auto simp: pad_halves [OF Suc.prems(2)] parent_def assms(1) split: option.splits)
qed

text \<open>Lists of one length with one root are equal, or two of the strings hashed on the way clash.\<close>

lemma tree_injective:
  assumes H: "\<And>x. length (H x) = 32"
    and "\<forall>l \<in> set ls \<union> set ms. length l = 32" and "length ls = length ms" and "length ls \<le> 2 ^ j"
    and "tree H j (pad j ls) = tree H j (pad j ms)"
  shows "ls = ms \<or> clash H (hashed H j (pad j ls)) (hashed H j (pad j ms))"
  using assms(2-5)
proof (induction j arbitrary: ls ms)
  case 0
  then show ?case by (cases ls; cases ms) (auto simp: pad_def)
next
  case (Suc j)
  let ?k = "2 ^ j :: nat" and ?X = "\<lambda>ls. hashed H j (pad j ls)"
  let ?Y = "\<lambda>ls. hashed H (Suc j) (pad (Suc j) ls)"
  have half: "length (take ?k ls) = length (take ?k ms)" "length (take ?k ls) \<le> ?k"
    "length (drop ?k ls) = length (drop ?k ms)" "length (drop ?k ls) \<le> ?k"
    "\<forall>l \<in> set (take ?k ls) \<union> set (take ?k ms). length l = 32"
    "\<forall>l \<in> set (drop ?k ls) \<union> set (drop ?k ms). length l = 32"
    using Suc.prems by (auto dest: in_set_takeD in_set_dropD)
  have both: "take ?k ls = take ?k ms \<Longrightarrow> drop ?k ls = drop ?k ms \<Longrightarrow> ls = ms"
    by (metis append_take_drop_id)
  have le: "length ms \<le> 2 ^ Suc j" using Suc.prems(2,3) by simp
  note halves = pad_halves [OF Suc.prems(3)] pad_halves [OF le]
  have up: "clash H (?X (take ?k ls)) (?X (take ?k ms)) \<Longrightarrow> clash H (?Y ls) (?Y ms)"
    "clash H (?X (drop ?k ls)) (?X (drop ?k ms)) \<Longrightarrow> clash H (?Y ls) (?Y ms)"
    by (erule clash_mono; simp add: halves; blast)+
  show ?case
  proof (cases "ls = []")
    case False
    have ne: "take ?k ls \<noteq> []" "take ?k ms \<noteq> []" using False Suc.prems(2) by auto
    obtain l l' where l: "tree H j (pad j (take ?k ls)) = Some l" "tree H j (pad j (take ?k ms)) = Some l'"
      "length l = 32" "length l' = 32"
      using tree_pad_root [where H = H, OF H _ half(2) ne(1)] tree_pad_root [where H = H, OF H _ _ ne(2), of j] half(1,2,5) by auto
    let ?r = "\<lambda>ls l. case tree H j (pad j (drop ?k ls)) of None \<Rightarrow> l | Some r \<Rightarrow> r"
    have top: "l @ ?r ls l \<in> ?Y ls" "l' @ ?r ms l' \<in> ?Y ms" by (simp_all add: halves l)
    have same: "H (l @ ?r ls l) = H (l' @ ?r ms l')"
      using Suc.prems(4) by (simp add: halves l parent_def split: option.splits)
    show ?thesis
    proof (cases "l @ ?r ls l = l' @ ?r ms l'")
      case True
      then have eq: "l = l'" "?r ls l = ?r ms l'" using l by simp_all
      have left: "take ?k ls = take ?k ms \<or> clash H (?Y ls) (?Y ms)"
        using Suc.IH [OF half(5,1,2)] l eq(1) up(1) by auto
      have "drop ?k ls = drop ?k ms \<or> clash H (?Y ls) (?Y ms)"
      proof (cases "drop ?k ls = []")
        case False
        then have ne: "drop ?k ls \<noteq> []" "drop ?k ms \<noteq> []" using half(3) by auto
        obtain r r' where "tree H j (pad j (drop ?k ls)) = Some r" "tree H j (pad j (drop ?k ms)) = Some r'"
          using tree_pad_root [where H = H, OF H _ half(4) ne(1)] tree_pad_root [where H = H, OF H _ _ ne(2), of j] half(3,4,6) by auto
        then show ?thesis using Suc.IH [OF half(6,3,4)] eq(2) up(2) by auto
      qed (use half(3) in simp)
      with left show ?thesis using both by blast
    next
      case False
      then show ?thesis using top same unfolding clash_def by blast
    qed
  qed (use Suc.prems(2) in simp)
qed

theorem MerkleTree_binding:
  assumes H: "\<And>x. length (H x) = 32"
    and n: "2 ^ n < 2 * length xs" "length xs \<le> 2 ^ n" "n \<le> 32" and len: "length xs = length ys"
    and root: "fst (MerkleTree H xs) = fst (MerkleTree H ys)"
  shows "xs = ys \<or> clash H (hashed_by H n xs) (hashed_by H n ys)"
proof -
  have pad: "padded H n zs = pad n (map H zs)" for zs by (simp add: padded_def pad_def)
  have ne: "map H xs \<noteq> []" "map H ys \<noteq> []" using n(1) len by auto
  have leaves: "\<forall>l \<in> set (map H zs). length l = 32" for zs using H by auto
  obtain r r' where r: "tree H n (pad n (map H xs)) = Some r" "tree H n (pad n (map H ys)) = Some r'"
    using tree_pad_root [where H = H, OF H leaves _ ne(1), of n] tree_pad_root [where H = H, OF H leaves _ ne(2), of n] n(2) len by auto
  then have "tree H n (pad n (map H xs)) = tree H n (pad n (map H ys))"
    using root MerkleTree_root [OF n] MerkleTree_root [of n ys] n len by (simp add: pad)
  then have "map H xs = map H ys \<or> clash H (hashed H n (padded H n xs)) (hashed H n (padded H n ys))"
    using tree_injective [where H = H, OF H, of "map H xs" "map H ys" n] H n(2) len by (auto simp: pad)
  then have "map H xs = map H ys \<or> clash H (hashed_by H n xs) (hashed_by H n ys)"
    unfolding hashed_by_def by (metis clash_mono sup_ge2)
  then show ?thesis
  proof
    assume eq: "map H xs = map H ys"
    show ?thesis
    proof (cases "xs = ys")
      case False
      then obtain i where i: "i < length xs" "xs ! i \<noteq> ys ! i" using len by (auto simp: list_eq_iff_nth_eq)
      then have "H (xs ! i) = H (ys ! i)" using arg_cong [OF eq, of "\<lambda>l. l ! i"] len by simp
      with i len have "clash H (set xs) (set ys)" unfolding clash_def by (metis nth_mem)
      then show ?thesis unfolding hashed_by_def by (metis clash_mono sup_ge1)
    qed simp
  qed simp
qed

text \<open>The padding repeats the last node of a level, so two lists can share a root without a collision.\<close>

lemma MerkleTree_repeats: "fst (MerkleTree H [a, b, c]) = fst (MerkleTree H [a, b, c, c])"
  by (simp add: MerkleTree_root [of 2] padded_def parent_def numeral_2_eq_2 numeral_3_eq_3)

end
