(* ===== verification/Blocks.thy ===== *)
theory Blocks
  imports Transactions Merkle
begin

text \<open>
  The application of a block (fsm/state.go, \<open>ApplyBlock\<close> and \<open>ApplyTransactions\<close>) and the block
  header (lib/block.go).  Every transaction is checked first, with the signatures put on one batch;
  those that passed are then applied one by one on a database transaction that is dropped when the
  transaction fails.  The lemmas show that the header of an applied block passes its own check;
  what a block keeps is in BlockWorld.
\<close>

section \<open>Data\<close>

record VDF =
  vdf_Proof :: bytes
  vdf_Output :: bytes
  vdf_Iterations :: u64

record BlockHeader =
  bh_Height :: u64
  bh_Hash :: bytes
  bh_NetworkId :: u64
  bh_Time :: u64
  bh_NumTxs :: u64
  bh_TotalTxs :: u64
  bh_TotalVdfIterations :: u64
  bh_LastBlockHash :: bytes
  bh_StateRoot :: bytes
  bh_TransactionRoot :: bytes
  bh_ValidatorRoot :: bytes
  bh_NextValidatorRoot :: bytes
  bh_ProposerAddress :: address
  bh_Vdf :: "VDF option"
  bh_LastQuorumCertificate :: "QuorumCertificate option"

record Block =
  bl_BlockHeader :: "BlockHeader option"
  bl_Transactions :: "bytes list"

text \<open>A failed transaction: its bytes and its error.\<close>

record ApplyBlockResults =
  abr_Txs :: "bytes list"
  abr_Results :: "TxResult list"
  abr_ResultsBz :: "bytes list"
  abr_Events :: "Event list"
  abr_Count :: nat
  abr_BlockSize :: u64
  abr_LargestTx :: u64
  abr_Oversized :: "TxResult list"
  abr_Failed :: "(bytes \<times> err) list"

definition new_ApplyBlockResults :: ApplyBlockResults where
  "new_ApplyBlockResults = \<lparr>abr_Txs = [], abr_Results = [], abr_ResultsBz = [], abr_Events = [],
     abr_Count = 0, abr_BlockSize = 0, abr_LargestTx = 0, abr_Oversized = [], abr_Failed = []\<rparr>"

text \<open>
  Encoders and reads of the store: \<open>StateRoot\<close> is the root of the state tree, \<open>BlockAt\<close> the header of
  an indexed block (none is a nil header), \<open>Interrupted\<close> whether the context is cancelled when a
  transaction's turn comes.
\<close>

record block_io =
  MarshalResult :: "TxResult \<Rightarrow> err + bytes"
  MarshalValidator :: "ConsensusValidator \<Rightarrow> err + bytes"
  MarshalHeader :: "BlockHeader \<Rightarrow> err + bytes"
  StateRoot :: "StateMachine \<Rightarrow> err + bytes"
  BlockAt :: "u64 \<Rightarrow> err + BlockHeader option"
  Interrupted :: "nat \<Rightarrow> bool"

section \<open>Block headers\<close>

definition SetHash :: "block_io \<Rightarrow> Config \<Rightarrow> BlockHeader \<Rightarrow> err + BlockHeader" where
  "SetHash io cfg x =
     (case MarshalHeader io (x\<lparr>bh_Hash := []\<rparr>) of
        Inl e \<Rightarrow> Inl e
      | Inr bz \<Rightarrow> Inr (x\<lparr>bh_Hash := HashOf cfg bz\<rparr>))"

definition BlockHeader_Check ::
  "block_io \<Rightarrow> codec \<Rightarrow> Config \<Rightarrow> BlockHeader option \<Rightarrow> u64 \<Rightarrow> u64 \<Rightarrow> err + unit" where
  "BlockHeader_Check io c cfg header networkID chainId =
     (case header of
        None \<Rightarrow> Inl ErrNilBlockHeader
      | Some x \<Rightarrow>
          if length (bh_ProposerAddress x) \<noteq> 20 then Inl ErrInvalidBlockProposerAddress
          else if length (bh_Hash x) \<noteq> 32 then Inl ErrWrongLengthBlockHash
          else if length (bh_StateRoot x) \<noteq> 32 then Inl ErrWrongLengthStateRoot
          else if length (bh_TransactionRoot x) \<noteq> 32 then Inl ErrWrongLengthTransactionRoot
          else if length (bh_ValidatorRoot x) \<noteq> 32 then Inl ErrWrongLengthValidatorRoot
          else if length (bh_NextValidatorRoot x) \<noteq> 32 then Inl ErrWrongLengthNextValidatorRoot
          else if length (bh_LastBlockHash x) \<noteq> 32 then Inl ErrWrongLengthLastBlockHash
          else both
            (if bh_Height x \<le> 1 then Inr ()
             else both (QuorumCertificate_CheckBasic c (bh_LastQuorumCertificate x))
               (case Option.bind (bh_LastQuorumCertificate x) qc_Header of
                  None \<Rightarrow> Inl Panic
                | Some h \<Rightarrow>
                    if vw_NetworkId h \<noteq> networkID then Inl ErrWrongNetworkID
                    else if vw_ChainId h \<noteq> chainId then Inl ErrWrongChainId
                    else Inr ()))
            (if bh_NetworkId x \<noteq> networkID then Inl ErrWrongNetworkID
             else if bh_Time x = 0 then Inl ErrNilBlockTime
             else if bh_NetworkId x = 0 then Inl ErrNilNetworkID
             else case MarshalHeader io (x\<lparr>bh_Hash := []\<rparr>) of
               Inl e \<Rightarrow> Inl e
             | Inr bz \<Rightarrow> if bh_Hash x \<noteq> HashOf cfg bz then Inl ErrMismatchHeaderBlockHash else Inr ()))"

definition Block_Check ::
  "block_io \<Rightarrow> codec \<Rightarrow> Config \<Rightarrow> Block option \<Rightarrow> u64 \<Rightarrow> u64 \<Rightarrow> err + unit" where
  "Block_Check io c cfg x networkID chainId =
     (case x of
        None \<Rightarrow> Inl ErrNilBlock
      | Some b \<Rightarrow> BlockHeader_Check io c cfg (bl_BlockHeader b) networkID chainId)"

section \<open>Results\<close>

definition AddFailed :: "bytes \<Rightarrow> err \<Rightarrow> ApplyBlockResults \<Rightarrow> ApplyBlockResults" where
  "AddFailed tx e a = a\<lparr>abr_Failed := abr_Failed a @ [(tx, e)]\<rparr>"

definition AddEvent :: "Event list \<Rightarrow> ApplyBlockResults \<Rightarrow> ApplyBlockResults" where
  "AddEvent evs a = a\<lparr>abr_Events := abr_Events a @ evs\<rparr>"

definition AddResult ::
  "bytes \<Rightarrow> bytes \<Rightarrow> TxResult \<Rightarrow> Event list \<Rightarrow> bool \<Rightarrow> ApplyBlockResults \<Rightarrow> ApplyBlockResults" where
  "AddResult tx txResult result evs oversized a =
     (if oversized then a\<lparr>abr_Oversized := abr_Oversized a @ [result]\<rparr>
      else
        let txSize = of_nat (length tx) in
        a\<lparr>abr_Results := abr_Results a @ [result], abr_Events := abr_Events a @ evs,
          abr_Txs := abr_Txs a @ [tx], abr_ResultsBz := abr_ResultsBz a @ [txResult],
          abr_Count := abr_Count a + 1, abr_BlockSize := abr_BlockSize a + txSize,
          abr_LargestTx := (if abr_LargestTx a < txSize then txSize else abr_LargestTx a)\<rparr>)"

definition TransactionRoot :: "Config \<Rightarrow> ApplyBlockResults \<Rightarrow> bytes" where
  "TransactionRoot cfg a = fst (MerkleTree (HashOf cfg) (abr_ResultsBz a))"

section \<open>Database transactions\<close>

text \<open>
  \<open>TxnWrap\<close> and \<open>SetStore\<close>: going back to the store of \<open>s0\<close> leaves the fields of the object itself
  (configuration, height, caches, trackers) as they are in \<open>s\<close>.
\<close>

definition with_store :: "StateMachine \<Rightarrow> StateMachine \<Rightarrow> StateMachine" where
  "with_store s0 s = s0\<lparr>Cfg := Cfg s, sm_ProtocolVersion := sm_ProtocolVersion s,
     ProposeVoteConfig := ProposeVoteConfig s, Height := Height s, cache_accounts := cache_accounts s,
     cache_valParams := cache_valParams s, cache_feeParams := cache_feeParams s,
     cache_rootDexBatch := cache_rootDexBatch s, slashTracker := slashTracker s, events := events s,
     event_reference := event_reference s\<rparr>"

text \<open>After a failed transaction: the caches and events are dropped, the slash tracker is put back.\<close>

definition rollback :: "StateMachine \<Rightarrow> StateMachine \<Rightarrow> StateMachine" where
  "rollback s0 s = with_store s0
     ((ResetCaches s)\<lparr>events := [], event_reference := [], slashTracker := slashTracker s0\<rparr>)"

section \<open>Applying the transactions of a block\<close>

type_synonym check_state = "BatchVerifier \<times> (nat \<rightharpoonup> err) \<times> nat list"

text \<open>The check of one transaction on a store that is discarded; the batch remembers whose tuple is whose.\<close>

definition check_one :: "wire \<Rightarrow> nat \<times> bytes \<Rightarrow> check_state \<Rightarrow> check_state fsm" where
  "check_one w tx = (\<lambda>(batchVerifier, failed, batchToTxIdx) s.
     case CheckTx w (snd tx) [] (s, Some batchVerifier) of
       ((t, b), r) \<Rightarrow>
         let batchVerifier' = (case b of None \<Rightarrow> batchVerifier | Some v \<Rightarrow> v);
             idx = batchToTxIdx @
               replicate (BatchVerifier_Count batchVerifier' - BatchVerifier_Count batchVerifier) (fst tx);
             t' = with_store s t in
         (case r of
            Inl e \<Rightarrow> if e = Panic then (t, Inl Panic) else (t', Inr (batchVerifier', failed(fst tx \<mapsto> e), idx))
          | Inr _ \<Rightarrow> (t', Inr (batchVerifier', failed, idx))))"

fun mark_bad :: "nat list \<Rightarrow> nat list \<Rightarrow> (nat \<rightharpoonup> err) \<Rightarrow> err + (nat \<rightharpoonup> err)" where
  "mark_bad batchToTxIdx [] failed = Inr failed"
| "mark_bad batchToTxIdx (failedIdx # bad) failed =
     (if length batchToTxIdx \<le> failedIdx then Inl ErrInvalidSignature
      else mark_bad batchToTxIdx bad (failed(batchToTxIdx ! failedIdx \<mapsto> ErrInvalidSignature)))"

text \<open>
  The turn of one transaction.  \<open>base\<close> is the state whose store is to be put back at the end, once the
  block is over size; an error that ends the loop puts the original store back, too.
\<close>

type_synonym apply_state = "ApplyBlockResults \<times> string set \<times> StateMachine option"

definition original_store :: "StateMachine option \<Rightarrow> StateMachine \<Rightarrow> StateMachine" where
  "original_store base s = (case base of None \<Rightarrow> s | Some s0 \<Rightarrow> with_store s0 s)"

definition apply_one ::
  "wire \<Rightarrow> archive \<Rightarrow> block_io \<Rightarrow> u64 \<Rightarrow> bool \<Rightarrow> (nat \<rightharpoonup> err) \<Rightarrow> nat \<times> bytes \<Rightarrow> apply_state \<Rightarrow>
     apply_state fsm" where
  "apply_one w arc io maxBlockSize allowOversize failed itx = (\<lambda>(r, seen, base) s.
     let tx = snd itx in
     if Interrupted io (fst itx) then (original_store base s, Inl ErrMempoolStopSignal)
     else case failed (fst itx) of
       Some e \<Rightarrow> (s, Inr (AddFailed tx e r, seen, base))
     | None \<Rightarrow>
         let hashString = HashString (Cfg s) tx; (found, seen') = Found hashString seen in
         if found then (original_store base s, Inl ErrDuplicateTx)
         else
           let exceeds = (maxBlockSize < of_nat (length tx) + abr_BlockSize r \<and> base = None) in
           if exceeds \<and> \<not> allowOversize then (s, Inl ErrMaxBlockSize)
           else
             let base' = (if exceeds then Some s else base) in
             case ApplyTransaction w arc (of_nat (abr_Count r)) tx hashString
                 (s, Some (NewBatchVerifier True)) of
               ((t, _), Inl e) \<Rightarrow>
                 if e = Panic then (original_store base' (with_store s t), Inl Panic)
                 else (rollback s t, Inr (AddFailed tx e r, seen', base'))
             | ((t, _), Inr (result, evs)) \<Rightarrow>
                 (case MarshalResult io result of
                    Inl e \<Rightarrow> (original_store base' t, Inl e)
                  | Inr txResultBz \<Rightarrow>
                      (t, Inr (AddResult tx txResultBz result evs (base' \<noteq> None) r, seen', base'))))"

definition ApplyTransactions ::
  "wire \<Rightarrow> archive \<Rightarrow> block_io \<Rightarrow> bytes list \<Rightarrow> ApplyBlockResults \<Rightarrow> bool \<Rightarrow> ApplyBlockResults fsm" where
  "ApplyTransactions w arc io txs r allowOversize =
     bindE GetMaxBlockSize (\<lambda>maxBlockSize.
     bindE (fold_op (check_one w) (enumerate 0 txs) (NewBatchVerifier False, Map.empty, []))
       (\<lambda>(batchVerifier, failed, batchToTxIdx).
     bindE (gets (\<lambda>_. mark_bad batchToTxIdx (BatchVerifier_Verify w batchVerifier) failed)) (\<lambda>failed.
     bindE (fold_op (apply_one w arc io maxBlockSize allowOversize failed) (enumerate 0 txs) (r, {}, None))
       (\<lambda>(r, _, base).
     bindE (writes (original_store base)) (\<lambda>_. ok r)))))"


section \<open>Applying a block\<close>

fun encode_all :: "('a \<Rightarrow> err + bytes) \<Rightarrow> 'a list \<Rightarrow> err + bytes list" where
  "encode_all f [] = Inr []"
| "encode_all f (x # xs) =
     (case f x of Inl e \<Rightarrow> Inl e | Inr b \<Rightarrow> map_sum id ((#) b) (encode_all f xs))"

definition ValidatorRoot :: "block_io \<Rightarrow> Config \<Rightarrow> ConsensusValidator list \<Rightarrow> err + bytes" where
  "ValidatorRoot io cfg vs =
     (if vs = [] then Inr []
      else case encode_all (MarshalValidator io) vs of
        Inl e \<Rightarrow> Inl e
      | Inr valBytesList \<Rightarrow> Inr (fst (MerkleTree (HashOf cfg) valBytesList)))"

text \<open>\<open>crypto.HashSize\<close> letters F stand for an empty hash.\<close>

definition nonEmptyHash :: "bytes \<Rightarrow> bytes" where
  "nonEmptyHash h = (if length h = 0 then replicate 32 0x46 else h)"

text \<open>The error of loading a committee is dropped: the empty set is used.\<close>

definition committee_or_empty :: "archive \<Rightarrow> u64 \<Rightarrow> StateMachine \<Rightarrow> ConsensusValidator list" where
  "committee_or_empty arc height s =
     (case LoadCommittee arc (cfg_ChainId (Cfg s)) height s of Inl _ \<Rightarrow> [] | Inr vs \<Rightarrow> vs_Members vs)"

definition LoadBlock :: "block_io \<Rightarrow> u64 \<Rightarrow> err + BlockHeader option" where
  "LoadBlock io height = BlockAt io (if height \<le> 1 then 1 else height)"

definition GetIterations :: "VDF option \<Rightarrow> u64" where
  "GetIterations v = (case v of None \<Rightarrow> 0 | Some x \<Rightarrow> vdf_Iterations x)"

definition make_header ::
  "archive \<Rightarrow> block_io \<Rightarrow> BlockHeader \<Rightarrow> ApplyBlockResults \<Rightarrow> StateMachine \<Rightarrow> err + BlockHeader" where
  "make_header arc io b r s =
     (let cfg = Cfg s in
      case ValidatorRoot io cfg (committee_or_empty arc (Height s - 1) s) of
        Inl e \<Rightarrow> Inl e
      | Inr lastValidatorRoot \<Rightarrow>
     (case ValidatorRoot io cfg (committee_or_empty arc (Height s) s) of
        Inl e \<Rightarrow> Inl e
      | Inr nextValidatorRoot \<Rightarrow>
     (case StateRoot io s of
        Inl e \<Rightarrow> Inl e
      | Inr stateRoot \<Rightarrow>
     (case LoadBlock io (Height s - 1) of
        Inl e \<Rightarrow> Inl e
      | Inr None \<Rightarrow> Inl Panic
      | Inr (Some lastBlock) \<Rightarrow>
          SetHash io cfg \<lparr>bh_Height = Height s, bh_Hash = [], bh_NetworkId = NetworkID cfg,
            bh_Time = bh_Time b, bh_NumTxs = of_nat (abr_Count r),
            bh_TotalTxs = bh_TotalTxs lastBlock + of_nat (abr_Count r),
            bh_TotalVdfIterations = bh_TotalVdfIterations lastBlock + GetIterations (bh_Vdf b),
            bh_LastBlockHash = nonEmptyHash (bh_Hash lastBlock), bh_StateRoot = stateRoot,
            bh_TransactionRoot = nonEmptyHash (TransactionRoot cfg r),
            bh_ValidatorRoot = nonEmptyHash lastValidatorRoot,
            bh_NextValidatorRoot = nonEmptyHash nextValidatorRoot,
            bh_ProposerAddress = bh_ProposerAddress b, bh_Vdf = bh_Vdf b,
            bh_LastQuorumCertificate = bh_LastQuorumCertificate b\<rparr>))))"

text \<open>The deferred \<open>recover\<close>.\<close>

definition recover :: "'a fsm \<Rightarrow> 'a fsm" where
  "recover m = (\<lambda>s. case m s of (t, Inl e) \<Rightarrow> (t, Inl (if e = Panic then ErrPanic else e)) | (t, Inr a) \<Rightarrow> (t, Inr a))"

text \<open>The transactions of the block are replaced by those that succeeded: \<open>abr_Txs\<close> of the results.\<close>

definition ApplyBlock ::
  "wire \<Rightarrow> archive \<Rightarrow> block_io \<Rightarrow> Block \<Rightarrow> bool \<Rightarrow> (BlockHeader \<times> ApplyBlockResults) fsm" where
  "ApplyBlock w arc io b allowOversize =
     recover (
       bindE (BeginBlock arc) (\<lambda>evs.
       bindE (ApplyTransactions w arc io (bl_Transactions b) (AddEvent evs new_ApplyBlockResults) allowOversize) (\<lambda>r.
         case bl_BlockHeader b of
           None \<Rightarrow> fail Panic
         | Some header \<Rightarrow>
             bindE (EndBlock (bh_ProposerAddress header)) (\<lambda>evs.
             bindE (gets (make_header arc io header (AddEvent evs r))) (\<lambda>header'.
               ok (header', AddEvent evs r))))))"

section \<open>Headers pass their check\<close>

lemma MerkleTree_length:
  assumes "\<And>x. length (H x) = 32" and "items \<noteq> []" and "length items \<le> 2 ^ 32"
  shows "length (fst (MerkleTree H items)) = 32"
proof -
  obtain n where n: "2 ^ n < 2 * length items" "length items \<le> 2 ^ n" "n \<le> 32"
    using padding_exponent [OF assms(2,3)] .
  have node: "\<exists>r. parent H (Some l) x = Some r \<and> length r = 32" for l x
    by (cases x) (simp_all add: parent_def assms(1))
  have "\<exists>r. tree H j xs = Some r \<and> length r = 32"
    if "xs \<noteq> []" "\<exists>l. hd xs = Some l \<and> length l = 32" for j xs
    using that
  proof (induction j arbitrary: xs)
    case (Suc j)
    have "take (2 ^ j) xs \<noteq> []" "hd (take (2 ^ j) xs) = hd xs" using Suc.prems(1) by (cases xs; simp)+
    then obtain l where "tree H j (take (2 ^ j) xs) = Some l" using Suc.IH Suc.prems(2) by metis
    then show ?case using node by simp
  qed simp
  moreover have "padded H n items \<noteq> []" "\<exists>l. hd (padded H n items) = Some l \<and> length l = 32"
    using assms(1,2) by (cases items; simp add: padded_def)+
  ultimately obtain r where "tree H n (padded H n items) = Some r" "length r = 32" by blast
  then show ?thesis by (simp add: MerkleTree_root [OF n])
qed

lemma length_encode_all: "encode_all f xs = Inr ys \<Longrightarrow> length ys = length xs"
  by (induction xs arbitrary: ys) (auto split: sum.splits simp: map_sum_def)

lemma nonEmpty_root:
  assumes "\<And>x. length (H x) = 32" and "length items \<le> 2 ^ 32"
  shows "length (nonEmptyHash (fst (MerkleTree H items))) = 32"
  using MerkleTree_length [OF assms(1) _ assms(2)] by (cases "items = []") (auto simp: nonEmptyHash_def MerkleTree_def)

lemma ValidatorRoot_length:
  assumes "\<And>x. length (HashOf cfg x) = 32" and "ValidatorRoot io cfg vs = Inr r" and "length vs \<le> 2 ^ 32"
  shows "length (nonEmptyHash r) = 32"
proof (cases "vs = []")
  case False
  with assms(2) obtain ys where ys: "encode_all (MarshalValidator io) vs = Inr ys"
    "r = fst (MerkleTree (HashOf cfg) ys)" by (auto simp: ValidatorRoot_def split: sum.splits)
  have "length ys \<le> 2 ^ 32" using assms(3) length_encode_all [OF ys(1)] by simp
  from nonEmpty_root [OF assms(1) this] show ?thesis by (simp add: ys(2))
qed (use assms(2) in \<open>simp add: ValidatorRoot_def nonEmptyHash_def\<close>)

text \<open>The header of an applied block passes \<open>Check\<close> when the fields copied from the proposal do.\<close>

theorem make_header_Check:
  assumes h: "make_header arc io b r s = Inr header"
    and hash: "\<And>x. length (HashOf (Cfg s) x) = 32"
    and root: "\<And>x. StateRoot io s = Inr x \<Longrightarrow> length x = 32"
    and last: "\<And>x. LoadBlock io (Height s - 1) = Inr (Some x) \<Longrightarrow> length (bh_Hash x) \<in> {0, 32}"
    and small: "length (abr_ResultsBz r) \<le> 2 ^ 32"
      "\<And>h. length (committee_or_empty arc h s) \<le> 2 ^ 32"
    and given: "length (bh_ProposerAddress b) = 20" "bh_Time b \<noteq> 0" "NetworkID (Cfg s) \<noteq> 0"
    and qc: "1 < Height s \<Longrightarrow> \<exists>q v. bh_LastQuorumCertificate b = Some q \<and> qc_Header q = Some v \<and>
      QuorumCertificate_CheckBasic c (Some q) = Inr () \<and> vw_NetworkId v = NetworkID (Cfg s) \<and> vw_ChainId v = chainId"
  shows "BlockHeader_Check io c (Cfg s) (Some header) (NetworkID (Cfg s)) chainId = Inr ()"
proof -
  obtain lr nr sr lb where
    parts: "ValidatorRoot io (Cfg s) (committee_or_empty arc (Height s - 1) s) = Inr lr"
    "ValidatorRoot io (Cfg s) (committee_or_empty arc (Height s) s) = Inr nr"
    "StateRoot io s = Inr sr" "LoadBlock io (Height s - 1) = Inr (Some lb)"
    and set: "SetHash io (Cfg s) \<lparr>bh_Height = Height s, bh_Hash = [], bh_NetworkId = NetworkID (Cfg s),
      bh_Time = bh_Time b, bh_NumTxs = of_nat (abr_Count r), bh_TotalTxs = bh_TotalTxs lb + of_nat (abr_Count r),
      bh_TotalVdfIterations = bh_TotalVdfIterations lb + GetIterations (bh_Vdf b),
      bh_LastBlockHash = nonEmptyHash (bh_Hash lb), bh_StateRoot = sr,
      bh_TransactionRoot = nonEmptyHash (TransactionRoot (Cfg s) r), bh_ValidatorRoot = nonEmptyHash lr,
      bh_NextValidatorRoot = nonEmptyHash nr, bh_ProposerAddress = bh_ProposerAddress b, bh_Vdf = bh_Vdf b,
      bh_LastQuorumCertificate = bh_LastQuorumCertificate b\<rparr> = Inr header"
    using h by (auto simp: make_header_def Let_def split: sum.splits option.splits)
  have roots: "length (nonEmptyHash lr) = 32" "length (nonEmptyHash nr) = 32"
    "length (nonEmptyHash (TransactionRoot (Cfg s) r)) = 32"
    using ValidatorRoot_length [OF hash parts(1) small(2)] ValidatorRoot_length [OF hash parts(2) small(2)]
      nonEmpty_root [OF hash small(1)] by (simp_all add: TransactionRoot_def)
  have "length (nonEmptyHash (bh_Hash lb)) = 32" using last [OF parts(4)] by (auto simp: nonEmptyHash_def)
  with roots set hash root [OF parts(3)] given qc show ?thesis
    by (auto simp: SetHash_def BlockHeader_Check_def both_def not_le split: sum.splits)
qed

end
