(* ===== verification/BlockWorld.thy ===== *)
theory BlockWorld
  imports Blocks "HOL-Library.Sublist" "HOL-Library.Multiset"
begin

text \<open>
  What a whole block keeps: no operation changes the configuration, a failed transaction is rolled
  back, and an applied block keeps the invariant of the state machine while its supply grows by at
  most the block subsidy and what its transactions may mint.  The results of a block partition its
  transactions.
\<close>

section \<open>The configuration and the height never change\<close>

definition fixed :: "StateMachine \<Rightarrow> Config \<times> u64" where
  "fixed s = (Cfg s, Height s)"

lemma cfg_of_rest: "frame rest_of m \<Longrightarrow> frame fixed m"
  by (rule frameI) (auto dest: frameD simp: rest_of_def fixed_def)

lemma cfg_handlers:
  "frame fixed (HandleMessageSend m1)" "frame fixed (HandleMessageSubsidy m2)"
  "frame fixed (HandleMessageDAOTransfer m3)" "frame fixed (HandleMessageCreateOrder m4)"
  "frame fixed (HandleMessageEditOrder m5)" "frame fixed (HandleMessageDeleteOrder m6)"
  unfolding HandleMessageSend_def HandleMessageSubsidy_def HandleMessageDAOTransfer_def approve_def
    HandleMessageCreateOrder_def HandleMessageEditOrder_def HandleMessageDeleteOrder_def Let_def
    SetOrder_def DeleteOrder_def addEvent_def
  by (intro frame_rules; simp add: fixed_def)+

lemma cfg_dex:
  "frame fixed (HandleMessageDexLimitOrder m1)" "frame fixed (HandleMessageDexLiquidityDeposit m2)"
  "frame fixed (HandleMessageDexLiquidityWithdraw m3)" "frame fixed (HandleDexBatch hashAt c results nested)"
  by (intro frame_rules frame_dex_messages; simp add: fixed_def)+

lemma cfg_params: "frame fixed (HandleMessageChangeParameter m)"
  unfolding HandleMessageChangeParameter_def approve_def UpdateParam_def ConformStateToParamUpdate_def
    set_space_def reset_committee_def reset_root_height_def trim_committees_def
    OverwriteCommitteeData_def SetCommitteesData_def DeleteLockedBatch_def DeleteCheckpointsForChain_def
    SetParamsCons_def SetParamsVal_def SetParamsFee_def SetParamsGov_def GetParams_def Let_def
  by (intro frame_rules; simp add: fixed_def)

lemma cfg_boundary:
  "frame fixed (UpsertCommitteeData d)" "frame fixed (HandleCheckpoint c results)"
  "frame fixed (RetireCommittee c)" "frame fixed (UpdateLastProposers a)" "frame fixed (Refer x)"
  "frame fixed (HandleCommitteeSwaps os c)" "frame fixed GetRootChainId" "frame fixed GetMaxBlockSize"
  "frame fixed (AccountDeductFees a fee)" "frame fixed (maybeFaucetTopUpForSendTx a k)" "frame fixed FundCommitteeRewardPools"
  "frame fixed IncludeSameBlockDex"
  unfolding UpsertCommitteeData_def SetCommitteesData_def HandleCheckpoint_def IndexCheckpoint_def
    RetireCommittee_def UpdateLastProposers_def Refer_def HandleCommitteeSwaps_def lenient_def LockSellOrder_def
    ResetOrder_def CloseOrder_def SetOrder_def DeleteOrder_def addEvent_def Let_def GetRootChainId_def
    GetMaxBlockSize_def AccountDeductFees_def maybeFaucetTopUpForSendTx_def MintToAccount_def
    FundCommitteeRewardPools_def IncludeSameBlockDex_def include_batch_def
  by (intro frame_rules; simp add: fixed_def)+

lemma cfg_faucet: "frame fixed (faucet r)"
  by (cases "ctr_msg r") (simp_all add: faucet_def Let_def frame_rules cfg_boundary)

lemma cfg_events: "frame fixed ResetEvents"
  by (rule frameI) (auto simp: ResetEvents_def fixed_def)

lemma cfg_HandleCertificateResults: "frame fixed (HandleCertificateResults arc qc committee)"
  unfolding HandleCertificateResults_def Let_def
  by (intro frame_rules cfg_boundary cfg_dex cfg_of_rest [OF rest_of_HandleByzantine(1)])

lemma cfg_HandleMessage: "frame fixed (HandleMessage c arc m)"
proof (cases m)
  case (MsgCertificateResults qc)
  then show ?thesis
    unfolding HandleMessage.simps HandleMessageCertificateResults_def Let_def
    by (simp only: HandleMessage.simps HandleMessageCertificateResults_def Let_def)
      (intro frame_rules cfg_boundary cfg_HandleCertificateResults)
qed (simp_all add: cfg_handlers cfg_dex cfg_params cfg_of_rest rest_of_staking)

lemma cfg_rewards: "frame fixed DistributeCommitteeRewards"
  by (rule frameI) (use frameD [OF rest_but_DistributeCommitteeRewards] in \<open>fastforce simp: rest_but_data_def fixed_def\<close>)

lemma cfg_BeginBlock: "frame fixed (BeginBlock arc)"
  unfolding BeginBlock_def finish_begin_def
  by (intro frame_rules cfg_boundary cfg_events cfg_HandleCertificateResults)

lemma cfg_EndBlock: "frame fixed (EndBlock p)"
  unfolding EndBlock_def
  by (intro frame_rules cfg_boundary cfg_events cfg_rewards cfg_of_rest [OF rest_of_staking(1)]
      cfg_of_rest [OF rest_of_staking(5)]; simp add: fixed_def)

lemma frame_machine [frame_rules]: "frame g m \<Longrightarrow> frame (\<lambda>(s, b). g s) (machine m)"
  by (rule frameI) (auto simp: machine_def dest: frameD split: prod.splits)

text \<open>Checking touches nothing but the cached fee parameters, whatever its outcome.\<close>

lemma frame_CheckTx:
  assumes "\<And>s x. g (s\<lparr>cache_feeParams := x\<rparr>) = g s"
  shows "frame (\<lambda>(s, b). g s) (CheckTx w bz h)"
proof -
  have "frame (\<lambda>(s, b). g s) (add_tuple x)" for x :: "bytes \<times> bytes \<times> bytes"
    by (rule frameI) (auto simp: add_tuple_def writes_apply)
  moreover have "frame g (CheckFee fee m)" for fee m
    unfolding CheckFee_def GetFeeForMessageName_def by (intro frame_rules assms)
  ultimately show ?thesis
    unfolding CheckTx_def CheckSignature_def by (intro frame_rules)
qed

lemma cfg_ApplyTransaction: "frame (\<lambda>(s, b). fixed s) (ApplyTransaction w arc i bz h)"
  unfolding ApplyTransaction_def
  by (intro frame_rules cfg_boundary cfg_faucet cfg_events cfg_HandleMessage frame_CheckTx) (simp add: fixed_def)


section \<open>Rolling back\<close>

lemma with_store_cache: "with_store s (s\<lparr>cache_feeParams := c\<rparr>) = s\<lparr>cache_feeParams := c\<rparr>"
  by (simp add: with_store_def)

text \<open>A rolled back transaction leaves the store and the slash tracker as they were.\<close>

lemma rollback_fields:
  "accounts (rollback s t) = accounts s" "pools (rollback s t) = pools s"
  "validators (rollback s t) = validators s" "supplyTracker (rollback s t) = supplyTracker s"
  "lockedBatches (rollback s t) = lockedBatches s" "nextBatches (rollback s t) = nextBatches s"
  "committeesData (rollback s t) = committeesData s" "orders (rollback s t) = orders s"
  "slashTracker (rollback s t) = slashTracker s" "Cfg (rollback s t) = Cfg t"
  "cache_accounts (rollback s t) = Map.empty" "cache_rootDexBatch (rollback s t) = None"
  "cache_valParams (rollback s t) = None" "cache_feeParams (rollback s t) = None"
  by (simp_all add: rollback_def with_store_def ResetCaches_def)

text \<open>A state with the store of another one and empty caches.\<close>

lemma world_fresh:
  assumes s: "world E A n s" and cfg: "Cfg r = Cfg s"
    and f: "accounts r = accounts s" "pools r = pools s" "validators r = validators s"
      "supplyTracker r = supplyTracker s" "lockedBatches r = lockedBatches s" "nextBatches r = nextBatches s"
      "committeesData r = committeesData s" "orders r = orders s"
      "cache_accounts r = Map.empty"
    and b: "\<And>b. cache_rootDexBatch r = Some b \<Longrightarrow> remote_ok A b"
  shows "world E A n r"
proof -
  have "funds_ok A r" "held r = held s"
    using worldD(2) [OF s] by (auto simp: books_on_def funds_ok_def accounts_ok_def held_def account_total_def
        pool_total_def stake_total_def f cfg)
  moreover have "total_supply r = total_supply s" "ledger_on E r = ledger_on E s"
    using ledger_on_cong [of r s E] by (simp_all add: total_supply_def f)
  ultimately have books: "books_on E A r" "total_supply r \<le> n"
    using worldD(2,9) [OF s] by (simp_all add: books_on_def)
  have "liquid r" using worldD(3) [OF s] liquid_cong [of r s] by (simp add: f)
  moreover have "vals_ok A r" using worldD(5) [OF s] by (simp add: vals_ok_def f)
  ultimately show ?thesis
    using books worldD(4,6-8) [OF s]
    by (simp add: world_def dex_ok_def batches_ok_def payouts_ok_def parties_ok_def remote_cache_ok_def f cfg b)
qed

lemma world_rollback:
  assumes "world E A n s" and "Cfg t = Cfg s"
  shows "world E A n (rollback s t)"
  by (rule world_fresh [OF assms(1)]) (simp_all add: rollback_fields assms(2))

section \<open>The transactions of a block\<close>

lemma CheckTx_cache:
  assumes "CheckTx w bz h (s, b) = ((t, b'), r)"
  shows "t = s\<lparr>cache_feeParams := cache_feeParams t\<rparr>"
proof -
  have "t\<lparr>cache_feeParams := None\<rparr> = s\<lparr>cache_feeParams := None\<rparr>"
    using frameD [OF frame_CheckTx [where g = "\<lambda>s. s\<lparr>cache_feeParams := None\<rparr>"] assms] by simp
  then have "t\<lparr>cache_feeParams := None\<rparr>\<lparr>cache_feeParams := cache_feeParams t\<rparr> =
      s\<lparr>cache_feeParams := None\<rparr>\<lparr>cache_feeParams := cache_feeParams t\<rparr>" by (simp only:)
  then show ?thesis by simp
qed

text \<open>The first pass keeps the state up to the cached fee parameters.\<close>

lemma check_one_cache:
  assumes "check_one w tx acc s = (t, Inr acc')"
  shows "t = s\<lparr>cache_feeParams := cache_feeParams t\<rparr>"
proof -
  obtain v failed idx where acc: "acc = (v, failed, idx)" by (cases acc)
  obtain u b r where u: "CheckTx w (snd tx) [] (s, Some v) = ((u, b), r)" by (metis surj_pair)
  note c = CheckTx_cache [OF u]
  have "t = with_store s u"
    using assms u by (auto simp: check_one_def acc Let_def split: sum.splits if_splits option.splits)
  also have "\<dots> = u" by (subst (2) c, subst c, rule with_store_cache)
  finally show ?thesis using c by simp
qed

lemma check_pass_cache:
  assumes "fold_op (check_one w) xs acc s = (t, Inr acc')"
  shows "t = s\<lparr>cache_feeParams := cache_feeParams t\<rparr>"
proof -
  have "\<exists>c. t = s\<lparr>cache_feeParams := c\<rparr>"
  proof (rule fold_op_inv [OF assms, of "\<lambda>_ u. \<exists>c. u = s\<lparr>cache_feeParams := c\<rparr>"])
    fix x a u b v
    assume "\<exists>c. u = s\<lparr>cache_feeParams := c\<rparr>" and "check_one w x a u = (v, Inr b)"
    then obtain c where "v = s\<lparr>cache_feeParams := c\<rparr>\<lparr>cache_feeParams := cache_feeParams v\<rparr>"
      using check_one_cache by blast
    then show "\<exists>c. v = s\<lparr>cache_feeParams := c\<rparr>" by (intro exI) simp
  qed (intro exI [of _ "cache_feeParams s"], simp)
  then show ?thesis by auto
qed

definition mints :: "wire \<Rightarrow> Config \<Rightarrow> bytes list \<Rightarrow> nat" where
  "mints w cfg txs = sum_list (map (tx_mint w cfg) txs)"

text \<open>One turn, as long as the block is not over size.\<close>

lemma apply_one_world:
  assumes s: "world E A n s" and E: "E \<subseteq> joint_entries" and A: "tx_in w (Cfg s) A (snd tx)"
    and room: "n + tx_mint w (Cfg s) (snd tx) < 18446744073709551616"
    and t: "apply_one w arc io m False failed tx (r, seen, None) s = (t, Inr acc)"
  shows "world E A (n + tx_mint w (Cfg s) (snd tx)) t" and "Cfg t = Cfg s" and "snd (snd acc) = None"
proof -
  obtain u b x where u: "ApplyTransaction w arc (of_nat (abr_Count r)) (snd tx) (HashString (Cfg s) (snd tx))
      (s, Some (NewBatchVerifier True)) = ((u, b), x)" by (metis surj_pair)
  have cu: "Cfg u = Cfg s" using frameD [OF cfg_ApplyTransaction u] by (simp add: fixed_def)
  have "(t = s \<or> t = rollback s u \<or> (\<exists>y. x = Inr y \<and> t = u)) \<and> snd (snd acc) = None"
    using t u by (auto simp: apply_one_def Let_def Found_def split: if_splits option.splits sum.splits prod.splits)
  then consider "t = s" | "t = rollback s u" | y where "x = Inr y" "t = u" by blast
  note cases = this
  show "world E A (n + tx_mint w (Cfg s) (snd tx)) t"
  proof (cases rule: cases)
    case 3
    with world_ApplyTransaction [OF s E A room] u show ?thesis by simp
  qed (use world_mono [OF s] world_mono [OF world_rollback [OF s cu]] in simp_all)
  show "Cfg t = Cfg s" by (cases rule: cases) (simp_all add: cu rollback_fields)
  show "snd (snd acc) = None"
    using t by (auto simp: apply_one_def Let_def Found_def split: if_splits option.splits sum.splits prod.splits)
qed

lemma apply_all_world:
  assumes s: "world E A n s" and E: "E \<subseteq> joint_entries"
    and A: "\<And>tx. tx \<in> set txs \<Longrightarrow> tx_in w (Cfg s) A (snd tx)"
    and room: "n + mints w (Cfg s) (map snd txs) < 18446744073709551616"
    and t: "fold_op (apply_one w arc io m False failed) txs (r, seen, None) s = (t, Inr (r', seen', base))"
  shows "world E A (n + mints w (Cfg s) (map snd txs)) t" and "Cfg t = Cfg s" and "base = None"
proof -
  let ?N = "n + mints w (Cfg s) (map snd txs)"
  define J where "J = (\<lambda>(xs :: (nat \<times> bytes) list) (acc :: apply_state) u. snd (snd acc) = None \<and> Cfg u = Cfg s \<and>
    (\<forall>tx \<in> set xs. tx_in w (Cfg s) A (snd tx)) \<and>
    (\<exists>k. k + mints w (Cfg s) (map snd xs) \<le> ?N \<and> world E A k u))"
  have "J txs (r, seen, None) s" using s A by (auto simp: J_def)
  then have "J [] (r', seen', base) t"
  proof (rule fold_op_rule [OF _ t])
    fix tx xs acc u acc' v
    assume J: "J (tx # xs) acc u" and v: "apply_one w arc io m False failed tx acc u = (v, Inr acc')"
    obtain ra sa where acc: "acc = (ra, sa, None)" using J by (cases acc) (auto simp: J_def)
    from J obtain k where k: "k + mints w (Cfg s) (map snd (tx # xs)) \<le> ?N" "world E A k u" by (auto simp: J_def)
    have le: "k + tx_mint w (Cfg s) (snd tx) + mints w (Cfg s) (map snd xs) \<le> ?N"
      using k(1) by (simp add: mints_def)
    have cfg: "Cfg u = Cfg s" and tx: "tx_in w (Cfg u) A (snd tx)" using J by (auto simp: J_def)
    have k_room: "k + tx_mint w (Cfg u) (snd tx) < 18446744073709551616" using le room by (simp add: cfg)
    note step = apply_one_world [OF k(2) E tx k_room v [unfolded acc]]
    show "J xs acc' v" using step J le by (auto simp: cfg J_def)
  qed
  then show "base = None" "Cfg t = Cfg s" "world E A ?N t"
    using world_mono by (auto simp: mints_def J_def)
qed

lemma world_cache_feeParams: "world E A n s \<Longrightarrow> world E A n (s\<lparr>cache_feeParams := c\<rparr>)"
  by simp

text \<open>The two passes of a block and the verdict between them.\<close>

lemma ApplyTransactions_passes:
  assumes t: "ApplyTransactions w arc io txs r0 ao s = (t, Inr r)"
  obtains m v b f i bad x seen base where "GetMaxBlockSize s = (s, Inr m)"
    "fold_op (check_one w) (enumerate 0 txs) (NewBatchVerifier False, Map.empty, []) s = (v, Inr (b, f, i))"
    "mark_bad i (BatchVerifier_Verify w b) f = Inr bad"
    "fold_op (apply_one w arc io m ao bad) (enumerate 0 txs) (r0, {}, None) v = (x, Inr (r, seen, base))"
    "t = original_store base x"
proof -
  obtain m where m: "GetMaxBlockSize s = (s, Inr m)"
    using t by (auto simp: ApplyTransactions_def GetMaxBlockSize_def GetParamsCons_def op_simps
        split: option.splits if_splits)
  obtain v b f i where v: "fold_op (check_one w) (enumerate 0 txs) (NewBatchVerifier False, Map.empty, []) s
      = (v, Inr (b, f, i))" and
    t2: "(bindE (gets (\<lambda>_. mark_bad i (BatchVerifier_Verify w b) f)) (\<lambda>failed.
     bindE (fold_op (apply_one w arc io m ao failed) (enumerate 0 txs) (r0, {}, None))
       (\<lambda>(r, _, base).
     bindE (writes (original_store base)) (\<lambda>_. ok r)))) v = (t, Inr r :: err + ApplyBlockResults)"
    using t unfolding ApplyTransactions_def
    by (simp add: bindE_def [of GetMaxBlockSize] m)
      (erule bindE_okE, auto)
  then show thesis
    using that [OF m v] by (auto simp: op_simps gets_def bindE_def split: prod.splits sum.splits)
qed

theorem world_ApplyTransactions:
  assumes s: "world E A n s" and E: "E \<subseteq> joint_entries"
    and A: "\<And>tx. tx \<in> set txs \<Longrightarrow> tx_in w (Cfg s) A tx"
    and room: "n + mints w (Cfg s) txs < 18446744073709551616"
    and t: "ApplyTransactions w arc io txs r False s = (t, Inr r')"
  shows "world E A (n + mints w (Cfg s) txs) t" and "Cfg t = Cfg s"
proof -
  have snds: "map snd (enumerate 0 txs) = txs" by (simp add: enumerate_eq_zip)
  obtain m v b f i bad x seen base where
    v: "fold_op (check_one w) (enumerate 0 txs) (NewBatchVerifier False, Map.empty, []) s = (v, Inr (b, f, i))"
    and x: "fold_op (apply_one w arc io m False bad) (enumerate 0 txs) (r, {}, None) v = (x, Inr (r', seen, base))"
    and tx: "t = original_store base x"
    by (rule ApplyTransactions_passes [OF t])
  have wv: "world E A n v" using s by (subst check_pass_cache [OF v]) (rule world_cache_feeParams)
  have cfg: "Cfg v = Cfg s" by (subst check_pass_cache [OF v]) simp
  have txs: "tx_in w (Cfg v) A (snd tx)" if "tx \<in> set (enumerate 0 txs)" for tx
    using that A snds by (metis cfg image_eqI image_set)
  have "n + mints w (Cfg v) (map snd (enumerate 0 txs)) < 18446744073709551616" using room by (simp add: cfg snds)
  note all = apply_all_world [OF wv E txs this x]
  have "t = x" using tx all(3) by (simp add: original_store_def)
  with all(1,2) show "world E A (n + mints w (Cfg s) txs) t" "Cfg t = Cfg s" by (simp_all add: cfg snds)
qed

section \<open>The whole block\<close>

lemma recover_ok: "recover m s = (t, Inr a) \<longleftrightarrow> m s = (t, Inr a)"
  by (auto simp: recover_def split: prod.splits sum.splits if_splits)

text \<open>A panic never leaves \<open>ApplyBlock\<close>.\<close>

lemma recover_no_panic: "recover m s = (t, Inl e) \<Longrightarrow> e \<noteq> Panic"
  by (auto simp: recover_def split: prod.splits sum.splits if_splits)

text \<open>A block: its begin, its transactions and its end.\<close>

lemma ApplyBlock_steps:
  assumes t: "ApplyBlock w arc io b ao s = (t, Inr (header, r))"
  obtains u v evs evs' r0 h where "BeginBlock arc s = (u, Inr evs)"
    "ApplyTransactions w arc io (bl_Transactions b) (AddEvent evs new_ApplyBlockResults) ao u = (v, Inr r0)"
    "bl_BlockHeader b = Some h" "EndBlock (bh_ProposerAddress h) v = (t, Inr evs')" "r = AddEvent evs' r0"
    "make_header arc io h r t = Inr header"
proof -
  note t = t [unfolded ApplyBlock_def recover_ok]
  obtain u evs where u: "BeginBlock arc s = (u, Inr evs)" and
    t1: "bindE (ApplyTransactions w arc io (bl_Transactions b) (AddEvent evs new_ApplyBlockResults) ao) (\<lambda>r.
         case bl_BlockHeader b of
           None \<Rightarrow> fail Panic
         | Some header \<Rightarrow>
             bindE (EndBlock (bh_ProposerAddress header)) (\<lambda>evs.
             bindE (gets (make_header arc io header (AddEvent evs r))) (\<lambda>header'.
               ok (header', AddEvent evs r)))) u = (t, Inr (header, r))"
    by (rule bindE_okE [OF t]) simp
  obtain v r1 where v: "ApplyTransactions w arc io (bl_Transactions b) (AddEvent evs new_ApplyBlockResults) ao u
      = (v, Inr r1)" and
    t2: "(case bl_BlockHeader b of
           None \<Rightarrow> fail Panic
         | Some header \<Rightarrow>
             bindE (EndBlock (bh_ProposerAddress header)) (\<lambda>evs.
             bindE (gets (make_header arc io header (AddEvent evs r1))) (\<lambda>header'.
               ok (header', AddEvent evs r1)))) v = (t, Inr (header, r))"
    by (rule bindE_okE [OF t1]) simp
  then show thesis
    using that [OF u v] by (auto simp: op_simps gets_def bindE_def split: option.splits sum.splits prod.splits)
qed

lemma apply_one_fixed:
  assumes "apply_one w arc io m ao failed tx (r, seen, base) s = (t, Inr acc)"
  shows "fixed t = fixed s"
proof -
  obtain u b x where u: "ApplyTransaction w arc (of_nat (abr_Count r)) (snd tx) (HashString (Cfg s) (snd tx))
      (s, Some (NewBatchVerifier True)) = ((u, b), x)" by (metis surj_pair)
  have "fixed u = fixed s" using frameD [OF cfg_ApplyTransaction u] by simp
  then show ?thesis
    using assms u by (auto simp: apply_one_def Let_def Found_def rollback_def with_store_def ResetCaches_def fixed_def
        split: if_splits option.splits sum.splits prod.splits)
qed

lemma fixed_ApplyTransactions:
  assumes "ApplyTransactions w arc io txs r0 ao s = (t, Inr r)"
  shows "fixed t = fixed s"
proof -
  obtain m v b f i bad x seen base where
    v: "fold_op (check_one w) (enumerate 0 txs) (NewBatchVerifier False, Map.empty, []) s = (v, Inr (b, f, i))"
    and x: "fold_op (apply_one w arc io m ao bad) (enumerate 0 txs) (r0, {}, None) v = (x, Inr (r, seen, base))"
    and t: "t = original_store base x"
    by (rule ApplyTransactions_passes [OF assms]) blast
  have "fixed v = fixed s" by (subst check_pass_cache [OF v]) (simp add: fixed_def)
  moreover have "fixed x = fixed v"
  proof (rule fold_op_inv [OF x, where I = "\<lambda>_ u. fixed u = fixed v"])
    fix tx a s1 b1 t1
    assume s1: "fixed s1 = fixed v" and run: "apply_one w arc io m ao bad tx a s1 = (t1, Inr b1)"
    obtain r1 seen1 base1 where "a = (r1, seen1, base1)" by (cases a)
    from apply_one_fixed [OF run [unfolded this]] show "fixed t1 = fixed v" by (simp add: s1)
  qed simp
  ultimately show ?thesis
    by (simp add: t original_store_def with_store_def fixed_def split: option.split)
qed

lemma fixed_ApplyBlock:
  assumes "ApplyBlock w arc io b ao s = (t, Inr x)"
  shows "fixed t = fixed s"
proof -
  obtain header r where x: "x = (header, r)" by fastforce
  obtain u v evs evs' r0 h where steps: "BeginBlock arc s = (u, Inr evs)"
    "ApplyTransactions w arc io (bl_Transactions b) (AddEvent evs new_ApplyBlockResults) ao u = (v, Inr r0)"
    "bl_BlockHeader b = Some h" "EndBlock (bh_ProposerAddress h) v = (t, Inr evs')"
    by (rule ApplyBlock_steps [OF assms [unfolded x]])
  show ?thesis
    using frameD [OF cfg_BeginBlock steps(1)] fixed_ApplyTransactions [OF steps(2)] frameD [OF cfg_EndBlock steps(4)]
    by simp
qed

theorem world_ApplyBlock:
  assumes s: "world E A n s" and E: "E \<subseteq> joint_entries"
    and begin_room: "total_supply s + unat (InitialTokensPerBlock (Cfg s)) < 18446744073709551616"
    and small: "length (CommitteeStaked (supplyTracker s)) < 18446744073709551615"
    and certs: "\<And>h qc. QCAt arc h = Inr qc \<Longrightarrow> cert_ok A qc"
    and A: "\<And>tx. tx \<in> set (bl_Transactions b) \<Longrightarrow> tx_in w (Cfg s) A tx"
    and room: "n + block_subsidy s + mints w (Cfg s) (bl_Transactions b) < 18446744073709551616"
    and t: "ApplyBlock w arc io b False s = (t, Inr (header, r))"
  shows "world E A (n + block_subsidy s + mints w (Cfg s) (bl_Transactions b)) t"
proof -
  obtain u v evs evs' r0 h where u: "BeginBlock arc s = (u, Inr evs)"
    and v: "ApplyTransactions w arc io (bl_Transactions b) (AddEvent evs new_ApplyBlockResults) False u = (v, Inr r0)"
    and h: "bl_BlockHeader b = Some h" "EndBlock (bh_ProposerAddress h) v = (t, Inr evs')"
    by (rule ApplyBlock_steps [OF t])
  have cfg: "Cfg u = Cfg s" using frameD [OF cfg_BeginBlock u] by (simp add: fixed_def)
  have wu: "world E A (n + block_subsidy s) u" by (rule world_BeginBlock [OF s E begin_room small certs u])
  note all = world_ApplyTransactions [OF wu E _ _ v, unfolded cfg, OF A room]
  show ?thesis using upholdsD [OF world_EndBlock all(1) h(2)] by simp
qed

section \<open>The results of a block\<close>

text \<open>
  \<open>tally cfg m (r, seen, base) xs\<close>: what the results hold once the transactions \<open>xs\<close> had their turn
  under the size limit \<open>m\<close>.
\<close>

definition tally :: "Config \<Rightarrow> u64 \<Rightarrow> apply_state \<Rightarrow> bytes list \<Rightarrow> bool" where
  "tally cfg m acc xs \<longleftrightarrow> (case acc of (r, seen, base) \<Rightarrow>
     length (abr_Txs r) + length (abr_Oversized r) + length (abr_Failed r) = length xs \<and>
     (base = None \<longrightarrow> abr_Oversized r = [] \<and> mset (abr_Txs r) + mset (map fst (abr_Failed r)) = mset xs) \<and>
     subseq (abr_Txs r) xs \<and>
     abr_Count r = length (abr_Txs r) \<and>
     map txr_TxHash (abr_Results r) = map (HashString cfg) (abr_Txs r) \<and>
     length (abr_ResultsBz r) = length (abr_Txs r) \<and>
     abr_BlockSize r = of_nat (length (concat (abr_Txs r))) \<and> abr_BlockSize r \<le> m \<and>
     (\<forall>x \<in> set (abr_Txs r). of_nat (length x) \<le> abr_LargestTx r) \<and>
     HashString cfg ` set (abr_Txs r) \<subseteq> seen \<and> distinct (map (HashString cfg) (abr_Txs r)))"

lemma tally_failed:
  "tally cfg m (r, seen, base) xs \<Longrightarrow> seen \<subseteq> seen' \<Longrightarrow> base' = None \<longrightarrow> base = None \<Longrightarrow>
     tally cfg m (AddFailed tx e r, seen', base') (xs @ [tx])"
  by (auto simp: tally_def AddFailed_def)

lemma tally_oversize:
  "tally cfg m (r, seen, base) xs \<Longrightarrow> seen \<subseteq> seen' \<Longrightarrow>
     tally cfg m (AddResult tx bz result evs True r, seen', Some s) (xs @ [tx])"
  by (auto simp: tally_def AddResult_def)

lemma tally_result:
  assumes "tally cfg m (r, seen, None) xs" and "HashString cfg tx \<notin> seen"
    and "of_nat (length tx) + abr_BlockSize r \<le> m" and "txr_TxHash result = HashString cfg tx"
  shows "tally cfg m (AddResult tx bz result evs False r, insert (HashString cfg tx) seen, None) (xs @ [tx])"
proof -
  have "subseq (abr_Txs r @ [tx]) (xs @ [tx])" using assms(1) by (simp add: tally_def)
  then show ?thesis using assms by (auto simp: tally_def AddResult_def Let_def add.commute)
qed

lemma apply_one_tally:
  assumes acc: "tally (Cfg s) m acc xs"
    and t: "apply_one w arc io m ao failed tx acc s = (t, Inr acc')"
  shows "tally (Cfg s) m acc' (xs @ [snd tx])" and "Cfg t = Cfg s"
proof -
  obtain r seen base where a: "acc = (r, seen, base)" by (cases acc)
  obtain u b x where u: "ApplyTransaction w arc (of_nat (abr_Count r)) (snd tx) (HashString (Cfg s) (snd tx))
      (s, Some (NewBatchVerifier True)) = ((u, b), x)" by (metis surj_pair)
  have cu: "Cfg u = Cfg s" using frameD [OF cfg_ApplyTransaction u] by (simp add: fixed_def)
  then show "Cfg t = Cfg s"
    using t u by (auto simp: a apply_one_def Let_def Found_def rollback_fields
        split: if_splits option.splits sum.splits prod.splits)
  show "tally (Cfg s) m acc' (xs @ [snd tx])"
    using acc t u by (cases base) (auto simp: a apply_one_def Let_def Found_def not_less
        split: if_splits option.splits sum.splits prod.splits
        intro!: tally_failed tally_oversize tally_result elim: ApplyTransaction_checked)
qed

text \<open>
  The transactions of the block are those that were applied, those that failed and those over the
  size: the applied ones in their order, none of them twice, within the size limit.
\<close>

lemma apply_all_tally:
  assumes "tally (Cfg s) m acc [] \<and> (\<not> ao \<longrightarrow> snd (snd acc) = None)"
    and t: "fold_op (apply_one w arc io m ao failed) txs acc s = (t, Inr acc')"
  shows "tally (Cfg s) m acc' (map snd txs) \<and> (\<not> ao \<longrightarrow> snd (snd acc') = None)"
proof -
  define J where "J = (\<lambda>(xs :: (nat \<times> bytes) list) acc (u :: StateMachine). Cfg u = Cfg s \<and> (\<not> ao \<longrightarrow> snd (snd acc) = None) \<and>
    (\<exists>ys. txs = ys @ xs \<and> tally (Cfg s) m acc (map snd ys)))"
  have "J txs acc s" using assms(1) by (simp add: J_def)
  then have "J [] acc' t"
  proof (rule fold_op_rule [OF _ t])
    fix tx xs a u b v
    assume J: "J (tx # xs) a u" and v: "apply_one w arc io m ao failed tx a u = (v, Inr b)"
    obtain ys where ys: "txs = ys @ tx # xs" "tally (Cfg u) m a (map snd ys)" "Cfg u = Cfg s"
      using J by (auto simp: J_def)
    note step = apply_one_tally [OF ys(2) v]
    have "\<not> ao \<longrightarrow> snd (snd b) = None"
      using J v by (cases a) (auto simp: J_def apply_one_def Let_def Found_def
          split: if_splits option.splits sum.splits prod.splits)
    moreover have "txs = (ys @ [tx]) @ xs \<and> tally (Cfg s) m b (map snd (ys @ [tx]))"
      using step(1) ys by simp
    ultimately show "J xs b v"
      using step(2) ys(3) unfolding J_def by (intro conjI exI [of _ "ys @ [tx]"]) simp_all
  qed
  then show ?thesis by (auto simp: J_def)
qed

theorem ApplyTransactions_tally:
  assumes t: "ApplyTransactions w arc io txs (AddEvent evs new_ApplyBlockResults) ao s = (t, Inr r)"
  shows "\<exists>p seen base. params_cons s = Some p \<and>
    tally (Cfg s) (BlockSize p - MaxBlockHeaderSize) (r, seen, base) txs \<and> (\<not> ao \<longrightarrow> base = None)"
proof -
  let ?r0 = "AddEvent evs new_ApplyBlockResults"
  obtain m v b f i bad x seen base where m: "GetMaxBlockSize s = (s, Inr m)"
    and v: "fold_op (check_one w) (enumerate 0 txs) (NewBatchVerifier False, Map.empty, []) s = (v, Inr (b, f, i))"
    and x: "fold_op (apply_one w arc io m ao bad) (enumerate 0 txs) (?r0, {}, None) v = (x, Inr (r, seen, base))"
    by (rule ApplyTransactions_passes [OF t])
  have cfg: "Cfg v = Cfg s" by (subst check_pass_cache [OF v]) simp
  have "tally (Cfg v) m (?r0, {}, None) [] \<and> (\<not> ao \<longrightarrow> snd (snd (?r0, {}, None :: StateMachine option)) = None)"
    by (simp add: tally_def AddEvent_def new_ApplyBlockResults_def)
  from apply_all_tally [OF this x] m show ?thesis
    by (auto simp: cfg enumerate_eq_zip GetMaxBlockSize_def GetParamsCons_def op_simps
        split: option.splits if_splits)
qed

end
