(* ===== verification/Signed.thy ===== *)
theory Signed
  imports BlockWorld
begin

text \<open>
  No transaction enters a block without a valid signature.  The first pass over the block only collects
  the signatures; the second pass skips the check.  The lemmas follow each signature through the batch:
  the batch only grows, its tuples are filed under the transaction they came from, and a bad one
  takes its transaction out.
\<close>

section \<open>The batch only grows\<close>

definition grows :: "'a check_op \<Rightarrow> bool" where
  "grows m \<longleftrightarrow> (\<forall>s v t b r. m (s, Some v) = ((t, b), r) \<longrightarrow> (\<exists>ext. b = Some (v\<lparr>tuples := tuples v @ ext\<rparr>)))"

lemma growsD: "grows m \<Longrightarrow> m (s, Some v) = ((t, b), r) \<Longrightarrow> \<exists>ext. b = Some (v\<lparr>tuples := tuples v @ ext\<rparr>)"
  unfolding grows_def by blast

lemma growsI: "(\<And>s v t b r. m (s, Some v) = ((t, b), r) \<Longrightarrow> b = Some v) \<Longrightarrow> grows m"
  unfolding grows_def by (metis BatchVerifier.surjective BatchVerifier.update_convs(1) append_Nil2)

lemma grows_bind:
  assumes m: "grows m" and k: "\<And>a. grows (k a)"
  shows "grows (bindE m k)"
  unfolding grows_def
proof (intro allI impI)
  fix s v t b r
  assume run: "bindE m k (s, Some v) = ((t, b), r)"
  obtain u c x where u: "m (s, Some v) = ((u, c), x)" by (metis surj_pair)
  then obtain ext where c: "c = Some (v\<lparr>tuples := tuples v @ ext\<rparr>)" using growsD [OF m] by blast
  show "\<exists>ext. b = Some (v\<lparr>tuples := tuples v @ ext\<rparr>)"
  proof (cases x)
    case (Inl e)
    then show ?thesis using run u c by (auto simp: bindE_def)
  next
    case (Inr a)
    then have "k a (u, Some (v\<lparr>tuples := tuples v @ ext\<rparr>)) = ((t, b), r)" using run u c by (simp add: bindE_def)
    from growsD [OF k this] show ?thesis by fastforce
  qed
qed

lemma grows_basic:
  "grows (machine m)" "grows (gets f)" "grows (reads g)" "grows (ok a)" "grows (fail e)"
  by (rule growsI, simp add: machine_def gets_def reads_def ok_def fail_def split: prod.splits)+

lemma grows_cases:
  "grows a \<Longrightarrow> (\<And>y. grows (f y)) \<Longrightarrow> grows (case x of None \<Rightarrow> a | Some y \<Rightarrow> f y)"
  "(\<And>e. grows (g e)) \<Longrightarrow> (\<And>y. grows (f y)) \<Longrightarrow> grows (case z of Inl e \<Rightarrow> g e | Inr y \<Rightarrow> f y)"
  "(\<And>x y. grows (h x y)) \<Longrightarrow> grows (case p of (x, y) \<Rightarrow> h x y)"
  "grows a \<Longrightarrow> grows b \<Longrightarrow> grows (if c then a else b)"
  by ((cases x; simp), (cases z; simp), (cases p; simp), simp)

lemma grows_add: "grows (add_tuple x)"
  unfolding grows_def add_tuple_def writes_apply
  by (auto simp: BatchVerifier_Add_def intro: exI [of _ "[]"])

lemma grows_CheckTx: "grows (CheckTx w bz h)"
  unfolding CheckTx_def CheckSignature_def
  by (intro grows_bind grows_basic grows_add grows_cases)

section \<open>The first pass\<close>

text \<open>A signature that is checked through its Ethereum form, or waits in the batch for transaction \<open>i\<close>.\<close>

definition awaits :: "wire \<Rightarrow> Config \<Rightarrow> BatchVerifier \<Rightarrow> nat list \<Rightarrow> nat \<Rightarrow> bytes \<Rightarrow> bool" where
  "awaits w cfg v idx i bz \<longleftrightarrow> (\<exists>tx sg a. UnmarshalTx w bz = Inr tx \<and> tx_Signature tx = Some sg \<and>
     AddressOf cfg (sig_PublicKey sg) = Some a \<and>
     (VerifyRLPBytes w cfg tx = Inr () \<or>
      (\<exists>sb k. GetSignBytes w tx = Inr sb \<and> k < length (tuples v) \<and>
         tuples v ! k = (sig_PublicKey sg, sb, sig_Signature sg) \<and> idx ! k = i)))"

text \<open>What it is for a transaction to be signed.\<close>

definition signed :: "wire \<Rightarrow> Config \<Rightarrow> bytes \<Rightarrow> bool" where
  "signed w cfg bz \<longleftrightarrow> (\<exists>tx sg a. UnmarshalTx w bz = Inr tx \<and> tx_Signature tx = Some sg \<and>
     AddressOf cfg (sig_PublicKey sg) = Some a \<and>
     (VerifyRLPBytes w cfg tx = Inr () \<or>
      (\<exists>sb. GetSignBytes w tx = Inr sb \<and> VerifyBytes w (sig_PublicKey sg) sb (sig_Signature sg))))"

lemma awaits_more:
  assumes "awaits w cfg v idx i bz" and "length idx = length (tuples v)"
  shows "awaits w cfg (v\<lparr>tuples := tuples v @ ext\<rparr>) (idx @ ids) i bz"
proof -
  from assms(1) consider tx sg a where "UnmarshalTx w bz = Inr tx" "tx_Signature tx = Some sg"
      "AddressOf cfg (sig_PublicKey sg) = Some a" "VerifyRLPBytes w cfg tx = Inr ()"
    | tx sg a sb k where "UnmarshalTx w bz = Inr tx" "tx_Signature tx = Some sg"
      "AddressOf cfg (sig_PublicKey sg) = Some a" "GetSignBytes w tx = Inr sb" "k < length (tuples v)"
      "tuples v ! k = (sig_PublicKey sg, sb, sig_Signature sg)" "idx ! k = i"
    unfolding awaits_def by blast
  then show ?thesis
  proof cases
    case 1
    then show ?thesis unfolding awaits_def by blast
  next
    case (2 tx sg a sb k)
    then have "k < length (tuples v @ ext)" "(tuples v @ ext) ! k = (sig_PublicKey sg, sb, sig_Signature sg)"
      "(idx @ ids) ! k = i"
      using assms(2) by (simp_all add: nth_append)
    moreover have "tuples (v\<lparr>tuples := tuples v @ ext\<rparr>) = tuples v @ ext" by simp
    ultimately show ?thesis using 2(1-4) unfolding awaits_def by (simp only:) blast
  qed
qed

lemma check_one_awaits:
  assumes t: "check_one w (i, bz) (v, failed, idx) s = (t, Inr (v', failed', idx'))"
    and len: "length idx = length (tuples v)" and op: "\<not> noOp v"
  obtains ext more where "v' = v\<lparr>tuples := tuples v @ ext\<rparr>" "idx' = idx @ more"
    "length idx' = length (tuples v')" "\<And>j. failed' j = None \<Longrightarrow> failed j = None"
    "failed' i = None \<Longrightarrow> awaits w (Cfg s) v' idx' i bz"
proof -
  obtain u b r where u: "CheckTx w bz [] (s, Some v) = ((u, b), r)" by (metis surj_pair)
  obtain ext where b: "b = Some (v\<lparr>tuples := tuples v @ ext\<rparr>)" using growsD [OF grows_CheckTx u] by blast
  have v': "v' = v\<lparr>tuples := tuples v @ ext\<rparr>" "idx' = idx @ replicate (length ext) i"
    and failed: "failed' = (case r of Inl e \<Rightarrow> failed(i \<mapsto> e) | Inr _ \<Rightarrow> failed)"
    using t u b by (auto simp: check_one_def Let_def BatchVerifier_Count_def split: sum.splits if_splits)
  have "awaits w (Cfg s) v' idx' i bz" if ok: "failed' i = None"
  proof -
    obtain x where r: "r = Inr x" using ok failed by (cases r) auto
    obtain sg where tx: "UnmarshalTx w bz = Inr (ctr_tx x)" and sg: "tx_Signature (ctr_tx x) = Some sg"
      "AddressOf (Cfg s) (sig_PublicKey sg) = Some (ctr_sender x)"
      "VerifyRLPBytes w (Cfg s) (ctr_tx x) = Inr () \<or> (\<exists>sb. GetSignBytes w (ctr_tx x) = Inr sb \<and>
        b = Some (BatchVerifier_Add (sig_PublicKey sg, sb, sig_Signature sg) v))"
      by (rule CheckTx_ok [OF u [unfolded r]]) auto
    have "\<exists>sb k. GetSignBytes w (ctr_tx x) = Inr sb \<and> k < length (tuples v') \<and>
        tuples v' ! k = (sig_PublicKey sg, sb, sig_Signature sg) \<and> idx' ! k = i"
      if "GetSignBytes w (ctr_tx x) = Inr sb" "b = Some (BatchVerifier_Add (sig_PublicKey sg, sb, sig_Signature sg) v)" for sb
    proof -
      have "ext = [(sig_PublicKey sg, sb, sig_Signature sg)]"
        using that(2) b op by (cases v) (simp add: BatchVerifier_Add_def)
      with that(1) show ?thesis
        by (intro exI [of _ sb] exI [of _ "length (tuples v)"]) (simp add: v' nth_append len)
    qed
    with tx sg show ?thesis unfolding awaits_def by blast
  qed
  moreover have "failed' j = None \<Longrightarrow> failed j = None" for j
    using failed by (auto split: sum.splits if_splits)
  moreover have "length idx' = length (tuples v')" using v' len by simp
  ultimately show thesis by (intro that [OF v']) assumption+
qed

definition filed :: "wire \<Rightarrow> Config \<Rightarrow> check_state \<Rightarrow> (nat \<times> bytes) list \<Rightarrow> bool" where
  "filed w cfg acc xs \<longleftrightarrow> (case acc of (v, failed, idx) \<Rightarrow> \<not> noOp v \<and> length idx = length (tuples v) \<and>
     (\<forall>(i, bz) \<in> set xs. failed i = None \<longrightarrow> awaits w cfg v idx i bz))"

lemma check_one_filed:
  assumes "filed w (Cfg s) acc xs" and "check_one w x acc s = (t, Inr acc')"
  shows "filed w (Cfg s) acc' (xs @ [x])"
proof -
  obtain v failed idx where acc: "acc = (v, failed, idx)" by (cases acc)
  obtain v' failed' idx' where acc': "acc' = (v', failed', idx')" by (cases acc')
  obtain i bz where x: "x = (i, bz)" by (cases x)
  have ok: "\<not> noOp v" "length idx = length (tuples v)"
    "\<And>j b. (j, b) \<in> set xs \<Longrightarrow> failed j = None \<Longrightarrow> awaits w (Cfg s) v idx j b"
    using assms(1) by (auto simp: filed_def acc)
  obtain ext more where e: "v' = v\<lparr>tuples := tuples v @ ext\<rparr>" "idx' = idx @ more"
    "length idx' = length (tuples v')" "\<And>j. failed' j = None \<Longrightarrow> failed j = None"
    "failed' i = None \<Longrightarrow> awaits w (Cfg s) v' idx' i bz"
    using check_one_awaits [OF assms(2) [unfolded acc acc' x] ok(2,1)] by blast
  have "awaits w (Cfg s) v' idx' j b" if "(j, b) \<in> set xs" "failed' j = None" for j b
    unfolding e(1,2) by (rule awaits_more [OF ok(3) ok(2)]) (use that e(4) in auto)
  then show ?thesis using e(1,3,5) ok(1) by (auto simp: filed_def acc' x)
qed

lemma check_pass_filed:
  assumes t: "fold_op (check_one w) xs (NewBatchVerifier False, f, []) s = (t, Inr acc)"
  shows "filed w (Cfg s) acc xs"
proof -
  define J where "J = (\<lambda>(zs :: (nat \<times> bytes) list) acc (u :: StateMachine). Cfg u = Cfg s \<and>
    (\<exists>ys. xs = ys @ zs \<and> filed w (Cfg s) acc ys))"
  have "J xs (NewBatchVerifier False, f, []) s" by (simp add: J_def filed_def NewBatchVerifier_def)
  then have "J [] acc t"
  proof (rule fold_op_rule [OF _ t])
    fix z zs a u b v
    assume J: "J (z # zs) a u" and v: "check_one w z a u = (v, Inr b)"
    obtain ys where ys: "xs = ys @ z # zs" "filed w (Cfg u) a ys" "Cfg u = Cfg s" using J by (auto simp: J_def)
    have "Cfg v = Cfg s" by (subst check_one_cache [OF v]) (simp add: ys(3))
    then show "J zs b v"
      using ys check_one_filed [OF ys(2) v] unfolding J_def by (intro conjI exI [of _ "ys @ [z]"]) simp_all
  qed
  then show ?thesis by (auto simp: J_def)
qed

section \<open>The verdict of the batch\<close>

lemma mark_bad_none:
  "mark_bad idx bad failed = Inr failed' \<Longrightarrow> failed' i = None \<Longrightarrow>
     failed i = None \<and> (\<forall>k \<in> set bad. idx ! k \<noteq> i)"
  by (induction idx bad failed rule: mark_bad.induct) (auto split: if_splits)

lemma awaits_signed:
  assumes "awaits w cfg v idx i bz" and "\<not> noOp v"
    and "\<forall>k \<in> set (BatchVerifier_Verify w v). idx ! k \<noteq> i"
  shows "signed w cfg bz"
  using assms unfolding awaits_def signed_def BatchVerifier_Verify_def by fastforce

section \<open>The second pass\<close>

lemma apply_one_unmarked:
  assumes t: "apply_one w arc io m ao failed (i, bz) (r, seen, base) s = (t, Inr (r', seen', base'))"
    and x: "x \<in> set (abr_Txs r')"
  shows "x \<in> set (abr_Txs r) \<or> x = bz \<and> failed i = None"
  using t x by (auto simp: apply_one_def Let_def Found_def AddFailed_def AddResult_def
      split: option.splits if_splits sum.splits prod.splits)

lemma apply_all_unmarked:
  assumes t: "fold_op (apply_one w arc io m ao failed) xs (r, seen, base) s = (t, Inr (r', seen', base'))"
    and x: "x \<in> set (abr_Txs r')"
  shows "x \<in> set (abr_Txs r) \<or> (\<exists>i. (i, x) \<in> set xs \<and> failed i = None)"
proof -
  have "\<forall>x \<in> set (abr_Txs (fst (r', seen', base'))). x \<in> set (abr_Txs r) \<or> (\<exists>i. (i, x) \<in> set xs \<and> failed i = None)"
  proof (rule fold_op_inv [OF t, where I = "\<lambda>acc _. \<forall>x \<in> set (abr_Txs (fst acc)). x \<in> set (abr_Txs r) \<or>
      (\<exists>i. (i, x) \<in> set xs \<and> failed i = None)"])
    fix z a u b v
    assume z: "z \<in> set xs" and I: "\<forall>x \<in> set (abr_Txs (fst a)). x \<in> set (abr_Txs r) \<or> (\<exists>i. (i, x) \<in> set xs \<and> failed i = None)"
      and v: "apply_one w arc io m ao failed z a u = (v, Inr b)"
    obtain i bz r1 s1 b1 r2 s2 b2 where "z = (i, bz)" "a = (r1, s1, b1)" "b = (r2, s2, b2)" by (metis surj_pair)
    with apply_one_unmarked [of w arc io m ao failed i bz r1 s1 b1 u v r2 s2 b2] v z I
    show "\<forall>x \<in> set (abr_Txs (fst b)). x \<in> set (abr_Txs r) \<or> (\<exists>i. (i, x) \<in> set xs \<and> failed i = None)" by fastforce
  qed simp
  with x show ?thesis by simp
qed

theorem block_signed:
  assumes t: "ApplyTransactions w arc io txs (AddEvent evs new_ApplyBlockResults) ao s = (t, Inr r)"
    and x: "x \<in> set (abr_Txs r)"
  shows "signed w (Cfg s) x"
proof -
  obtain m v b f i u bad base seen r1 where "GetMaxBlockSize s = (s, Inr m)"
    and v: "fold_op (check_one w) (enumerate 0 txs) (NewBatchVerifier False, Map.empty, []) s = (v, Inr (b, f, i))"
    and bad: "mark_bad i (BatchVerifier_Verify w b) f = Inr bad"
    and u: "fold_op (apply_one w arc io m ao bad) (enumerate 0 txs) (AddEvent evs new_ApplyBlockResults, {}, None) v
      = (u, Inr (r, seen, base))"
    by (rule ApplyTransactions_passes [OF t])
  obtain j where j: "(j, x) \<in> set (enumerate 0 txs)" "bad j = None"
    using apply_all_unmarked [OF u x] by (auto simp: AddEvent_def new_ApplyBlockResults_def)
  have ok: "\<not> noOp b" "awaits w (Cfg s) b i j x"
    using check_pass_filed [OF v] j(1) mark_bad_none [OF bad j(2)] by (auto simp: filed_def)
  then show ?thesis using awaits_signed mark_bad_none [OF bad j(2)] by blast
qed

end
