(* ===== verification/Chain.thy ===== *)
theory Chain
  imports Signed
begin

text \<open>
  The chain as a node keeps it (controller/block.go and controller/controller.go): the state machine,
  the store behind it, and the index of certificates, blocks and transactions.  A certificate is
  checked, its block is applied and compared with its header, and the result is committed, which makes
  a new state machine for the next height.  The lemmas: every chain that grows by commits keeps the
  invariant of the state machine with a supply bounded by what its blocks may mint, and
  no transaction is committed twice.
\<close>

abbreviation ErrInvalidLastQuorumCertificate :: err where
  "ErrInvalidLastQuorumCertificate \<equiv> NewError 47 ConsensusModule"
abbreviation ErrFailedTransactions :: err where "ErrFailedTransactions \<equiv> NewError 51 StateMachineModule"
abbreviation ErrUnequalBlockHash :: err where "ErrUnequalBlockHash \<equiv> NewError 22 MainModule"
abbreviation ErrInvalidVDF :: err where "ErrInvalidVDF \<equiv> NewError 50 ConsensusModule"
abbreviation ErrMismatchCertBlockHeight :: err where "ErrMismatchCertBlockHeight \<equiv> NewError 63 ConsensusModule"
abbreviation ErrIndexBlock :: err where "ErrIndexBlock \<equiv> NewError 15 StorageModule"
abbreviation ErrNewHeight :: err where "ErrNewHeight \<equiv> NewError 64 ConsensusModule"

section \<open>Data\<close>

record BlockResult =
  br_BlockHeader :: "BlockHeader option"
  br_Transactions :: "TxResult list"

text \<open>
  A node.  \<open>store\<close> is the content of the store at the last commit; the index keeps a certificate without
  its block, as nothing here reads it back.
\<close>

record node =
  FSM :: StateMachine
  store :: StateMachine
  indexQC :: "u64 \<Rightarrow> err + QuorumCertificate"
  indexState :: "u64 \<Rightarrow> err + StateMachine"
  indexBlock :: "u64 \<Rightarrow> err + BlockHeader option"
  indexTx :: "TxResult list"

text \<open>
  What a node learns from other chains, files and third-party code: committees and checkpoints through
  the root chain manager, the checkpoint file, the decoding of a block, the check of a VDF proof, the
  random draw whether to check it, and whether the node is syncing.
\<close>

record network =
  GetValidatorSet :: "u64 \<Rightarrow> u64 \<Rightarrow> err + ValidatorSet"
  GetCheckpoint :: "u64 \<Rightarrow> u64 \<Rightarrow> u64 \<Rightarrow> err + bytes"
  checkpointFromFile :: "u64 \<Rightarrow> u64 \<Rightarrow> bytes option"
  UnmarshalBlock :: "bytes \<Rightarrow> err + Block"
  VerifyVDF :: "bytes \<Rightarrow> VDF \<Rightarrow> bool"
  DrawVDF :: bool
  Syncing :: bool
  LastSets :: "u64 \<Rightarrow> u64 \<Rightarrow> ValidatorSet option"

section \<open>What the state machine reads from the node\<close>

definition node_archive :: "network \<Rightarrow> node \<Rightarrow> archive" where
  "node_archive net nd = \<lparr>StateAt = indexState nd, QCAt = indexQC nd,
     HashAt = (\<lambda>h. case indexBlock nd h of Inr (Some b) \<Rightarrow> Some (bh_Hash b) | _ \<Rightarrow> None),
     LastValidatorSets = LastSets net\<rparr>"

definition node_io :: "block_io \<Rightarrow> node \<Rightarrow> block_io" where
  "node_io io nd = io\<lparr>BlockAt := indexBlock nd\<rparr>"

text \<open>\<open>IndexTx\<close> files a transaction result under the bytes of its hash.\<close>

definition node_wire :: "wire \<Rightarrow> node \<Rightarrow> wire" where
  "node_wire w nd = w\<lparr>GetTxByHash := (\<lambda>h. Inr (map_option txr_TxHash
     (find (\<lambda>r. StringToBytes (txr_TxHash r) = Inr h) (rev (indexTx nd)))))\<rparr>"

section \<open>The state machine of the next height\<close>

definition CurrentProtocolVersion :: u64 where "CurrentProtocolVersion = 1"

text \<open>\<open>New\<close> on the committed store, whose version is the next height.\<close>

definition New :: "StateMachine \<Rightarrow> StateMachine" where
  "New s = s\<lparr>sm_ProtocolVersion := CurrentProtocolVersion, ProposeVoteConfig := ACCEPT_ALL,
     Height := Height s + 1, cache_accounts := Map.empty, cache_valParams := None, cache_feeParams := None,
     cache_rootDexBatch := None, slashTracker := (\<lambda>_. 0), events := [], event_reference := []\<rparr>"

text \<open>\<open>Reset\<close> drops what was written since the last commit.\<close>

definition FSM_Reset :: "StateMachine \<Rightarrow> StateMachine \<Rightarrow> StateMachine" where
  "FSM_Reset st s = (ResetCaches (with_store st s))\<lparr>slashTracker := (\<lambda>_. 0)\<rparr>"

definition SetRootDexCache :: "DexBatch option \<Rightarrow> StateMachine \<Rightarrow> StateMachine" where
  "SetRootDexCache b s = s\<lparr>cache_rootDexBatch := b\<rparr>"

section \<open>The last certificate of a block\<close>

definition LoadCertificateHashesOnly :: "archive \<Rightarrow> u64 \<Rightarrow> err + QuorumCertificate" where
  "LoadCertificateHashesOnly arc height =
     (case LoadCertificate arc (if height \<le> 1 then 1 else height) of
        Inl e \<Rightarrow> Inl e | Inr qc \<Rightarrow> Inr (qc\<lparr>qc_Block := []\<rparr>))"

definition EqualPayloads :: "QuorumCertificate option \<Rightarrow> QuorumCertificate \<Rightarrow> err + bool" where
  "EqualPayloads x compare =
     (case x of
        None \<Rightarrow> Inr False
      | Some x \<Rightarrow>
          (case qc_Header x of
             None \<Rightarrow> Inr False
           | Some h \<Rightarrow>
               if qc_ProposerKey x \<noteq> qc_ProposerKey compare then Inr False
               else (case qc_Header compare of
                 None \<Rightarrow> Inl Panic
               | Some h' \<Rightarrow> Inr (vw_Height h = vw_Height h' \<and> qc_BlockHash x = qc_BlockHash compare \<and>
                   qc_ResultsHash x = qc_ResultsHash compare))))"

text \<open>The controller logs an error of the lookup and goes on with 0.\<close>

definition root_chain_id :: "network \<Rightarrow> node \<Rightarrow> u64 \<Rightarrow> u64" where
  "root_chain_id net nd height =
     (case LoadRootChainId (node_archive net nd) height (FSM nd) of Inl _ \<Rightarrow> 0 | Inr i \<Rightarrow> i)"

definition last_view :: "Config \<Rightarrow> BlockHeader \<Rightarrow> u64 \<Rightarrow> View" where
  "last_view cfg candidate rHeight =
     \<lparr>vw_NetworkId = NetworkID cfg, vw_ChainId = cfg_ChainId cfg, vw_Height = bh_Height candidate - 1,
      vw_RootHeight = rHeight, vw_Round = 0, vw_Phase = UNKNOWN\<rparr>"

definition IndexQC :: "QuorumCertificate \<Rightarrow> node \<Rightarrow> err + node" where
  "IndexQC qc nd =
     (case qc_Header qc of
        None \<Rightarrow> Inl Panic
      | Some h \<Rightarrow> Inr (nd\<lparr>indexQC := (indexQC nd)(vw_Height h := Inr (qc\<lparr>qc_Block := []\<rparr>))\<rparr>))"

definition CheckAndSetLastCertificate :: "network \<Rightarrow> wire \<Rightarrow> BlockHeader \<Rightarrow> node \<Rightarrow> err + node" where
  "CheckAndSetLastCertificate net w candidate nd =
     (if bh_Height candidate \<le> 1 then Inr nd
      else case LoadCertificateHashesOnly (node_archive net nd) (bh_Height candidate - 1) of
        Inl e \<Rightarrow> Inl e
      | Inr lastCertificate \<Rightarrow>
     (case EqualPayloads (bh_LastQuorumCertificate candidate) lastCertificate of
        Inl e \<Rightarrow> Inl e
      | Inr same \<Rightarrow>
          if \<not> same then Inl ErrInvalidLastQuorumCertificate
          else case bh_LastQuorumCertificate candidate of
            None \<Rightarrow> Inl Panic
          | Some lqc \<Rightarrow>
         (case qc_Header lqc of
            None \<Rightarrow> Inl Panic
          | Some h \<Rightarrow>
         (case (if Syncing net then Inr ()
                else case GetValidatorSet net (root_chain_id net nd (vw_Height h)) (vw_RootHeight h) of
                  Inl e \<Rightarrow> Inl e
                | Inr vs \<Rightarrow>
                   (case QuorumCertificate_Check (Cfg (FSM nd)) (Codec w) (Some lqc) vs 0
                       (last_view (Cfg (FSM nd)) candidate (vw_RootHeight h)) True of
                      Inl e \<Rightarrow> Inl e
                    | Inr isPartialQC \<Rightarrow> if isPartialQC then Inl ErrNoMaj23 else Inr ())) of
            Inl e \<Rightarrow> Inl e
          | Inr _ \<Rightarrow> IndexQC lqc nd))))"

section \<open>Applying and validating a block\<close>

text \<open>The log line slices the hexadecimal hash: a hash of less than ten bytes is a panic.\<close>

definition ApplyAndValidateBlock ::
  "network \<Rightarrow> wire \<Rightarrow> block_io \<Rightarrow> Block \<Rightarrow> bool \<Rightarrow> node \<Rightarrow> node \<times> (err + BlockResult)" where
  "ApplyAndValidateBlock net w io block commit nd =
     (case bl_BlockHeader block of
        None \<Rightarrow> (nd, Inl Panic)
      | Some candidate \<Rightarrow>
     (case CheckAndSetLastCertificate net w candidate nd of
        Inl e \<Rightarrow> (nd, Inl e)
      | Inr nd \<Rightarrow>
          if length (bh_Hash candidate) < 10 then (nd, Inl Panic)
          else case ApplyBlock (node_wire w nd) (node_archive net nd) (node_io io nd) block False (FSM nd) of
            (t, Inl e) \<Rightarrow> (nd\<lparr>FSM := t\<rparr>, Inl e)
          | (t, Inr (compare, results)) \<Rightarrow>
              (nd\<lparr>FSM := t\<rparr>,
               if abr_Failed results \<noteq> [] then Inl ErrFailedTransactions
               else case SetHash io (Cfg t) compare of
                 Inl e \<Rightarrow> Inl e
               | Inr compare \<Rightarrow>
                   if bh_Hash compare \<noteq> bh_Hash candidate then Inl ErrUnequalBlockHash
                   else if commit \<and> 1 < bh_Height compare \<and> DrawVDF net \<and>
                     (case bh_Vdf candidate of None \<Rightarrow> False
                      | Some vdf \<Rightarrow> \<not> VerifyVDF net (bh_LastBlockHash candidate) vdf)
                   then Inl ErrInvalidVDF
                   else Inr \<lparr>br_BlockHeader = Some candidate, br_Transactions = abr_Results results\<rparr>)))"

section \<open>Commits\<close>

definition IndexBlock :: "BlockResult \<Rightarrow> node \<Rightarrow> err + node" where
  "IndexBlock r nd =
     (case br_BlockHeader r of
        None \<Rightarrow> Inl Panic
      | Some b \<Rightarrow>
          if list_ex (\<lambda>x. StringToBytes (txr_TxHash x) = Inl ErrStringToBytes) (br_Transactions r)
          then Inl ErrIndexBlock
          else Inr (nd\<lparr>indexBlock := (indexBlock nd)(bh_Height b := Inr (Some b)),
            indexTx := indexTx nd @ br_Transactions r\<rparr>))"

text \<open>The store is committed under the next version, and a state machine is made on it.\<close>

definition Commit :: "block_io \<Rightarrow> node \<Rightarrow> node \<times> (err + unit)" where
  "Commit io nd =
     (let s = New (FSM nd); nd = nd\<lparr>FSM := s, store := s, indexState := (indexState nd)(Height s := Inr s)\<rparr> in
      (nd, case LoadBlock (node_io io nd) (Height s - 1) of
         Inl e \<Rightarrow> Inl e | Inr None \<Rightarrow> Inl Panic | Inr (Some _) \<Rightarrow> Inr ()))"

text \<open>An error drops everything written since the last commit.\<close>

definition discard :: "node \<Rightarrow> node \<Rightarrow> node" where
  "discard nd0 nd = nd0\<lparr>FSM := FSM_Reset (store nd0) (FSM nd)\<rparr>"

definition replay_cache :: "QuorumCertificate \<Rightarrow> StateMachine \<Rightarrow> StateMachine" where
  "replay_cache qc s =
     (case qc_Results qc of
        None \<Rightarrow> s
      | Some r \<Rightarrow> (case cr_RootDexBatch r of None \<Rightarrow> s | Some b \<Rightarrow> SetRootDexCache (Some b) s))"

definition CommitCertificate ::
  "network \<Rightarrow> wire \<Rightarrow> block_io \<Rightarrow> QuorumCertificate \<Rightarrow> Block \<Rightarrow> BlockResult option \<Rightarrow> node \<Rightarrow>
     node \<times> (err + unit)" where
  "CommitCertificate net w io qc block blockResult nd =
     (case (case blockResult of
          Some r \<Rightarrow> (nd, Inr r)
        | None \<Rightarrow> ApplyAndValidateBlock net w io block True
            (nd\<lparr>FSM := replay_cache qc (FSM_Reset (store nd) (FSM nd))\<rparr>)) of
        (nd1, Inl e) \<Rightarrow> (discard nd nd1, Inl e)
      | (nd1, Inr r) \<Rightarrow>
     (case IndexQC qc nd1 of
        Inl e \<Rightarrow> (discard nd nd1, Inl e)
      | Inr nd2 \<Rightarrow>
     (case IndexBlock r nd2 of
        Inl e \<Rightarrow> (discard nd nd2, Inl e)
      | Inr nd3 \<Rightarrow> Commit io nd3)))"

section \<open>Blocks from peers\<close>

definition CheckProposalBasic ::
  "network \<Rightarrow> wire \<Rightarrow> block_io \<Rightarrow> Config \<Rightarrow> QuorumCertificate \<Rightarrow> u64 \<Rightarrow> u64 \<Rightarrow> u64 \<Rightarrow> err + Block" where
  "CheckProposalBasic net w io cfg x height networkId chainId =
     (if qc_Block x = [] then Inl ErrNilBlock
      else case UnmarshalBlock net (qc_Block x) of
        Inl e \<Rightarrow> Inl e
      | Inr block \<Rightarrow>
     (case Block_Check io (Codec w) cfg (Some block) networkId chainId of
        Inl e \<Rightarrow> Inl e
      | Inr _ \<Rightarrow>
     (case (qc_Header x, bl_BlockHeader block) of
        (Some h, Some b) \<Rightarrow>
          if vw_Height h \<noteq> bh_Height b then Inl ErrMismatchCertBlockHeight
          else if bh_Height b < height then Inl ErrWrongBlockHeight
          else if height < bh_Height b then Inl ErrNewHeight
          else (case SetHash io cfg b of
            Inl e \<Rightarrow> Inl e
          | Inr b \<Rightarrow>
              if qc_BlockHash x \<noteq> bh_Hash b then Inl ErrMismatchHeaderBlockHash
              else if qc_Results x = None then Inl ErrNilCertResults
              else Inr (block\<lparr>bl_BlockHeader := Some b\<rparr>))
      | _ \<Rightarrow> Inl Panic)))"

definition CheckpointFrequency :: u64 where "CheckpointFrequency = 100"

definition LoadMaxBlockSize :: "StateMachine \<Rightarrow> nat" where
  "LoadMaxBlockSize s =
     (case snd (GetParamsCons s) of Inl _ \<Rightarrow> 0 | Inr params \<Rightarrow> unat (BlockSize params))"

definition check_checkpoint :: "network \<Rightarrow> View \<Rightarrow> QuorumCertificate \<Rightarrow> node \<Rightarrow> err + unit" where
  "check_checkpoint net h qc nd =
     (if vw_Height h mod CheckpointFrequency \<noteq> 0 then Inr ()
      else case (case checkpointFromFile net (vw_Height h) (vw_ChainId h) of
          Some c \<Rightarrow> Inr c
        | None \<Rightarrow> GetCheckpoint net (root_chain_id net nd (vw_Height h)) (vw_Height h) (cfg_ChainId (Cfg (FSM nd)))) of
        Inl e \<Rightarrow> Inl e
      | Inr checkpoint \<Rightarrow>
          if checkpoint \<noteq> [] \<and> qc_BlockHash qc \<noteq> checkpoint then Inl ErrInvalidCheckpoint else Inr ())"

definition check_majority :: "network \<Rightarrow> wire \<Rightarrow> View \<Rightarrow> QuorumCertificate \<Rightarrow> node \<Rightarrow> err + unit" where
  "check_majority net w h qc nd =
     (case GetValidatorSet net (root_chain_id net nd (vw_Height h)) (vw_RootHeight h) of
        Inl e \<Rightarrow> Inl e
      | Inr v \<Rightarrow>
          (case QuorumCertificate_Check (Cfg (FSM nd)) (Codec w) (Some qc) v (LoadMaxBlockSize (FSM nd))
              \<lparr>vw_NetworkId = NetworkID (Cfg (FSM nd)), vw_ChainId = cfg_ChainId (Cfg (FSM nd)),
               vw_Height = 0, vw_RootHeight = 0, vw_Round = 0, vw_Phase = UNKNOWN\<rparr> False of
             Inl e \<Rightarrow> Inl e
           | Inr isPartialQC \<Rightarrow> if isPartialQC then Inl ErrNoMaj23 else Inr ()))"

text \<open>\<open>cached\<close> is the block result that the consensus engine kept from its own validation.\<close>

definition HandlePeerBlock ::
  "network \<Rightarrow> wire \<Rightarrow> block_io \<Rightarrow> QuorumCertificate option \<Rightarrow> BlockResult option \<Rightarrow> bool \<Rightarrow> node \<Rightarrow>
     node \<times> (err + QuorumCertificate)" where
  "HandlePeerBlock net w io qc cached syncing nd =
     (case both (QuorumCertificate_CheckBasic (Codec w) qc)
         (case Option.bind qc qc_Header of
            None \<Rightarrow> Inl Panic
          | Some h \<Rightarrow>
              if syncing then check_checkpoint net h (the qc) nd else check_majority net w h (the qc) nd) of
        Inl e \<Rightarrow> (nd, Inl e)
      | Inr _ \<Rightarrow>
          let qc = the qc; cfg = Cfg (FSM nd) in
     (case CheckProposalBasic net w io cfg qc (Height (FSM nd)) (NetworkID cfg) (cfg_ChainId cfg) of
        Inl e \<Rightarrow> (nd, Inl e)
      | Inr block \<Rightarrow>
          if vw_Phase (the (qc_Header qc)) \<noteq> PRECOMMIT_VOTE then (nd, Inl ErrWrongPhase)
          else
            let hash = map_option bh_Hash (bl_BlockHeader block);
                result = (case cached of
                    None \<Rightarrow> None
                  | Some r \<Rightarrow> (case br_BlockHeader r of
                      None \<Rightarrow> None
                    | Some b \<Rightarrow> if Some (bh_Hash b) = hash then Some r else None)) in
            (case CommitCertificate net w io qc block result nd of
               (nd', Inl e) \<Rightarrow> (nd', Inl e)
             | (nd', Inr _) \<Rightarrow> (nd', Inr qc))))"

section \<open>Fresh state machines\<close>

lemma world_New: "world E A n s \<Longrightarrow> world E A n (New s)"
  by (rule world_fresh) (simp_all add: New_def)

lemma Cfg_New [simp]: "Cfg (New s) = Cfg s" and Height_New [simp]: "Height (New s) = Height s + 1"
  by (simp_all add: New_def)

lemma FSM_Reset_fields:
  "Cfg (FSM_Reset st s) = Cfg s" "Height (FSM_Reset st s) = Height s"
  "supplyTracker (FSM_Reset st s) = supplyTracker st"
  by (simp_all add: FSM_Reset_def with_store_def ResetCaches_def)

lemma replay_cache_fields:
  "Cfg (replay_cache qc s) = Cfg s" "Height (replay_cache qc s) = Height s"
  "supplyTracker (replay_cache qc s) = supplyTracker s"
  by (simp_all add: replay_cache_def SetRootDexCache_def split: option.splits)

lemma world_restart:
  assumes "world E A n st" and "Cfg s = Cfg st" and qc: "cert_ok A qc"
  shows "world E A n (replay_cache qc (FSM_Reset st s))"
  by (rule world_fresh [OF assms(1)])
    (use qc in \<open>auto simp: replay_cache_def SetRootDexCache_def FSM_Reset_def with_store_def ResetCaches_def assms(2)
      cert_ok_def results_ok_def split: option.splits\<close>)

section \<open>Growing chains\<close>

text \<open>What a certified block may bring: the addresses of its certificates and transactions are in use.\<close>

definition block_ok :: "wire \<Rightarrow> address set \<Rightarrow> Config \<Rightarrow> QuorumCertificate \<Rightarrow> Block \<Rightarrow> bool" where
  "block_ok w A cfg qc block \<longleftrightarrow> cert_ok A qc \<and>
     (\<forall>h q. bl_BlockHeader block = Some h \<longrightarrow> bh_LastQuorumCertificate h = Some q \<longrightarrow> cert_ok A q) \<and>
     (\<forall>tx \<in> set (bl_Transactions block). tx_in w cfg A tx)"

text \<open>
  A chain that grows by commits from a state that satisfies the invariant; \<open>n\<close> counts the tokens that
  may exist, which every block raises by its subsidy and by what its transactions may mint.
\<close>

inductive chain :: "network \<Rightarrow> wire \<Rightarrow> block_io \<Rightarrow> entry set \<Rightarrow> address set \<Rightarrow> node \<Rightarrow> nat \<Rightarrow> bool"
  for net w io E A where
  start: "chain net w io E A nd n"
    if "world E A n (FSM nd)" and "store nd = FSM nd"
      and "\<And>h q. indexQC nd h = Inr q \<Longrightarrow> cert_ok A q"
      and "1 \<le> Height (FSM nd)" and "indexTx nd = []"
| commit: "chain net w io E A nd' (n + block_subsidy (FSM nd) + mints w (Cfg (FSM nd)) (bl_Transactions block))"
    if "chain net w io E A nd n"
      and "CommitCertificate net w io qc block None nd = (nd', Inr ())"
      and "block_ok w A (Cfg (FSM nd)) qc block"
      and "n + unat (InitialTokensPerBlock (Cfg (FSM nd))) + mints w (Cfg (FSM nd)) (bl_Transactions block)
        < 18446744073709551616"
      and "length (CommitteeStaked (supplyTracker (FSM nd))) < 18446744073709551615"
      and "Height (FSM nd) < MaxUint64"

lemma ApplyAndValidateBlock_ok:
  assumes "ApplyAndValidateBlock net w io block commit nd = (nd', Inr x)"
  obtains h nd1 t header r where "bl_BlockHeader block = Some h"
    "CheckAndSetLastCertificate net w h nd = Inr nd1"
    "ApplyBlock (node_wire w nd1) (node_archive net nd1) (node_io io nd1) block False (FSM nd1) = (t, Inr (header, r))"
    "nd' = nd1\<lparr>FSM := t\<rparr>" "abr_Failed r = []" "br_Transactions x = abr_Results r" "br_BlockHeader x = Some h"
proof -
  obtain h where h: "bl_BlockHeader block = Some h" using assms by (auto simp: ApplyAndValidateBlock_def split: option.splits)
  obtain nd1 where nd1: "CheckAndSetLastCertificate net w h nd = Inr nd1"
    using assms h by (auto simp: ApplyAndValidateBlock_def split: sum.splits)
  obtain t y where run: "ApplyBlock (node_wire w nd1) (node_archive net nd1) (node_io io nd1) block False (FSM nd1) = (t, y)"
    by fastforce
  obtain header r where y: "y = Inr (header, r)"
    using assms h nd1 run by (cases y) (auto simp: ApplyAndValidateBlock_def split: if_splits)
  have "nd' = nd1\<lparr>FSM := t\<rparr> \<and> abr_Failed r = [] \<and> br_Transactions x = abr_Results r \<and> br_BlockHeader x = Some h"
    using assms h nd1 run y
    by (auto simp: ApplyAndValidateBlock_def split: if_splits sum.splits)
  then show thesis using that h nd1 run y by blast
qed

lemma CommitCertificate_ok:
  assumes "CommitCertificate net w io qc block None nd = (nd', Inr ())"
  obtains h nd1 t header r v where "bl_BlockHeader block = Some h"
    "CheckAndSetLastCertificate net w h (nd\<lparr>FSM := replay_cache qc (FSM_Reset (store nd) (FSM nd))\<rparr>) = Inr nd1"
    "ApplyBlock (node_wire w nd1) (node_archive net nd1) (node_io io nd1) block False (FSM nd1) = (t, Inr (header, r))"
    "FSM nd' = New t" "store nd' = New t" "abr_Failed r = []" "indexTx nd' = indexTx nd1 @ abr_Results r"
    "indexQC nd' = (indexQC nd1)(vw_Height v := Inr (qc\<lparr>qc_Block := []\<rparr>))" "qc_Header qc = Some v"
proof -
  let ?nd = "nd\<lparr>FSM := replay_cache qc (FSM_Reset (store nd) (FSM nd))\<rparr>"
  obtain nd2 y where run: "ApplyAndValidateBlock net w io block True ?nd = (nd2, y)" by fastforce
  obtain x where y: "y = Inr x" using assms run by (cases y) (auto simp: CommitCertificate_def)
  from run y have apply_ok: "ApplyAndValidateBlock net w io block True ?nd = (nd2, Inr x)" by simp
  obtain v where v: "qc_Header qc = Some v" using assms apply_ok by (auto simp: CommitCertificate_def IndexQC_def split: option.splits)
  obtain h nd1 t header r where a: "bl_BlockHeader block = Some h"
    "CheckAndSetLastCertificate net w h ?nd = Inr nd1"
    "ApplyBlock (node_wire w nd1) (node_archive net nd1) (node_io io nd1) block False (FSM nd1) = (t, Inr (header, r))"
    "nd2 = nd1\<lparr>FSM := t\<rparr>" "abr_Failed r = []" "br_Transactions x = abr_Results r" "br_BlockHeader x = Some h"
    by (rule ApplyAndValidateBlock_ok [OF apply_ok])
  have "FSM nd' = New t \<and> store nd' = New t \<and> indexTx nd' = indexTx nd1 @ abr_Results r \<and>
      indexQC nd' = (indexQC nd1)(vw_Height v := Inr (qc\<lparr>qc_Block := []\<rparr>))"
    using assms apply_ok v a(4,6,7)
    by (auto simp: CommitCertificate_def IndexQC_def IndexBlock_def Commit_def Let_def split: if_splits)
  then show thesis using that a(1-3,5) v by blast
qed

lemma CheckAndSet_keeps:
  assumes "CheckAndSetLastCertificate net w h nd = Inr nd1"
  shows "FSM nd1 = FSM nd" "store nd1 = store nd" "indexTx nd1 = indexTx nd"
    "indexQC nd1 = indexQC nd \<or> (\<exists>q v. bh_LastQuorumCertificate h = Some q \<and>
       indexQC nd1 = (indexQC nd)(v := Inr (q\<lparr>qc_Block := []\<rparr>)))"
  using assms by (auto simp: CheckAndSetLastCertificate_def IndexQC_def
      split: if_splits sum.splits option.splits)

lemma cert_ok_block [simp]: "cert_ok A (q\<lparr>qc_Block := b\<rparr>) = cert_ok A q"
  by (simp add: cert_ok_def)

lemma node_wire_fields [simp]:
  "Codec (node_wire w nd) = Codec w" "UnmarshalTx (node_wire w nd) = UnmarshalTx w"
  "UnmarshalAny (node_wire w nd) = UnmarshalAny w" "MarshalTx (node_wire w nd) = MarshalTx w"
  by (simp_all add: node_wire_def)

lemma node_wire_message [simp]: "CheckMessage (node_wire w nd) = CheckMessage w"
  by (rule ext) (simp only: CheckMessage_def node_wire_fields)

lemma node_wire_same:
  "mints (node_wire w nd) cfg txs = mints w cfg txs" "tx_in (node_wire w nd) cfg A tx = tx_in w cfg A tx"
proof -
  have "tx_mint (node_wire w nd) cfg = tx_mint w cfg"
    by (rule ext) (simp only: tx_mint_def node_wire_fields node_wire_message)
  then show "mints (node_wire w nd) cfg txs = mints w cfg txs" by (simp add: mints_def)
qed (simp add: tx_in_def)

lemma block_subsidy_le: "block_subsidy s \<le> unat (InitialTokensPerBlock (Cfg s))"
proof -
  have "drop_bit k n \<le> n" for k and n :: nat by (simp add: drop_bit_eq_div)
  then show ?thesis by (simp add: block_subsidy_def unat_drop_bit_eq)
qed

theorem chain_world:
  "chain net w io E A nd n \<Longrightarrow> E \<subseteq> joint_entries \<Longrightarrow>
     world E A n (FSM nd) \<and> store nd = FSM nd \<and> (\<forall>h q. indexQC nd h = Inr q \<longrightarrow> cert_ok A q)"
proof (induction rule: chain.induct)
  case (start n nd)
  then show ?case by simp
next
  case (commit nd n qc block nd')
  let ?s0 = "replay_cache qc (FSM_Reset (store nd) (FSM nd))" and ?m = "mints w (Cfg (FSM nd)) (bl_Transactions block)"
  have w: "world E A n (FSM nd)" "store nd = FSM nd" and certs: "\<And>h q. indexQC nd h = Inr q \<Longrightarrow> cert_ok A q"
    using commit.IH commit.prems by blast+
  obtain h nd1 t header r v where c: "bl_BlockHeader block = Some h"
    "CheckAndSetLastCertificate net w h (nd\<lparr>FSM := ?s0\<rparr>) = Inr nd1"
    "ApplyBlock (node_wire w nd1) (node_archive net nd1) (node_io io nd1) block False (FSM nd1) = (t, Inr (header, r))"
    "FSM nd' = New t" "store nd' = New t"
    "indexQC nd' = (indexQC nd1)(vw_Height v := Inr (qc\<lparr>qc_Block := []\<rparr>))" "qc_Header qc = Some v"
    by (rule CommitCertificate_ok [OF commit.hyps(2)]) blast
  note k = CheckAndSet_keeps [OF c(2)]
  have s0: "world E A n (FSM nd1)" "Cfg (FSM nd1) = Cfg (FSM nd)" "Height (FSM nd1) = Height (FSM nd)"
    "supplyTracker (FSM nd1) = supplyTracker (FSM nd)"
    using world_restart [OF w(1) refl] commit.hyps(3)
    by (simp_all add: k(1) w(2) block_ok_def replay_cache_fields FSM_Reset_fields)
  have certs1: "cert_ok A q" if "indexQC nd1 i = Inr q" for i q
    using k(4) that certs commit.hyps(3) c(1) by (fastforce simp: block_ok_def split: if_splits)
  have total: "total_supply (FSM nd1) \<le> n" using worldD(9) [OF s0(1)] .
  have sub: "block_subsidy (FSM nd1) = block_subsidy (FSM nd)" "block_subsidy (FSM nd) \<le> unat (InitialTokensPerBlock (Cfg (FSM nd)))"
    using s0(2,3) block_subsidy_le by (simp_all add: block_subsidy_def)
  have "world E A (n + block_subsidy (FSM nd) + ?m) t"
    using world_ApplyBlock [OF s0(1) commit.prems _ _ _ _ _ c(3)] certs1 commit.hyps(3-5) total sub s0(2,4)
    by (simp add: node_archive_def node_wire_same block_ok_def)
  then have "world E A (n + block_subsidy (FSM nd) + ?m) (FSM nd')" by (simp add: c(4) world_New)
  moreover have "cert_ok A q" if "indexQC nd' i = Inr q" for i q
    using that certs1 commit.hyps(3) by (auto simp: c(6) block_ok_def split: if_splits)
  ultimately show ?case using c(4,5) by auto
qed

section \<open>No transaction twice\<close>

definition unseen :: "wire \<Rightarrow> string \<Rightarrow> bool" where
  "unseen w h \<longleftrightarrow> (\<forall>b. StringToBytes h = Inr b \<longrightarrow> GetTxByHash w b \<noteq> Inr (Some h))"

lemma CheckReplay_unseen: "CheckReplay w tx h s = Inr () \<Longrightarrow> 2 \<le> Height s \<Longrightarrow> h \<noteq> [] \<Longrightarrow> unseen w h"
  by (auto simp: CheckReplay_def unseen_def not_less [symmetric] split: if_splits sum.splits)

lemma apply_one_unseen:
  assumes I: "\<forall>x \<in> set (abr_Results r). txr_TxHash x \<noteq> [] \<longrightarrow> unseen w (txr_TxHash x)"
    and h: "2 \<le> Height s"
    and t: "apply_one w arc io m ao failed tx (r, seen, base) s = (t, Inr (r', seen', base'))"
  shows "\<forall>x \<in> set (abr_Results r'). txr_TxHash x \<noteq> [] \<longrightarrow> unseen w (txr_TxHash x)" and "Height t = Height s"
proof -
  let ?h = "HashString (Cfg s) (snd tx)"
  obtain u b x where u: "ApplyTransaction w arc (of_nat (abr_Count r)) (snd tx) ?h
      (s, Some (NewBatchVerifier True)) = ((u, b), x)" by (metis surj_pair)
  show "Height t = Height s" using apply_one_fixed [OF t] by (simp add: fixed_def)
  have new: "txr_TxHash res \<noteq> [] \<longrightarrow> unseen w (txr_TxHash res)" if "x = Inr (res, evs)" for res evs
  proof -
    have ok: "ApplyTransaction w arc (of_nat (abr_Count r)) (snd tx) ?h (s, Some (NewBatchVerifier True)) =
        ((u, b), Inr (res, evs))" using u that by simp
    obtain st c where c: "CheckTx w (snd tx) ?h (s\<lparr>event_reference := ?h\<rparr>, Some (NewBatchVerifier True)) = (st, Inr c)"
      "txr_TxHash res = ?h"
      by (rule ApplyTransaction_checked [OF ok]) blast
    have "CheckReplay w (ctr_tx c) ?h (s\<lparr>event_reference := ?h\<rparr>) = Inr ()" by (rule CheckTx_ok [OF c(1)])
    from CheckReplay_unseen [OF this] h c(2) show ?thesis by simp
  qed
  show "\<forall>x \<in> set (abr_Results r'). txr_TxHash x \<noteq> [] \<longrightarrow> unseen w (txr_TxHash x)"
    using I t u new by (auto simp: apply_one_def Let_def Found_def AddFailed_def AddResult_def
        split: if_splits option.splits sum.splits prod.splits)
qed

lemma ApplyTransactions_unseen:
  assumes t: "ApplyTransactions w arc io txs (AddEvent evs new_ApplyBlockResults) ao s = (t, Inr r)" and h: "2 \<le> Height s"
  shows "\<forall>x \<in> set (abr_Results r). txr_TxHash x \<noteq> [] \<longrightarrow> unseen w (txr_TxHash x)"
proof -
  obtain m v b f i bad u seen base where
    v: "fold_op (check_one w) (enumerate 0 txs) (NewBatchVerifier False, Map.empty, []) s = (v, Inr (b, f, i))"
    and u: "fold_op (apply_one w arc io m ao bad) (enumerate 0 txs) (AddEvent evs new_ApplyBlockResults, {}, None) v
      = (u, Inr (r, seen, base))"
    by (rule ApplyTransactions_passes [OF t]) blast
  let ?I = "\<lambda>(acc :: apply_state) (s :: StateMachine). 2 \<le> Height s \<and>
      (\<forall>x \<in> set (abr_Results (fst acc)). txr_TxHash x \<noteq> [] \<longrightarrow> unseen w (txr_TxHash x))"
  have "?I (r, seen, base) u"
  proof (rule fold_op_inv [OF u])
    have "2 \<le> Height v" using h by (subst check_pass_cache [OF v]) simp
    then show "?I (AddEvent evs new_ApplyBlockResults, {}, None) v" by (simp add: AddEvent_def new_ApplyBlockResults_def)
  next
    fix x a s' b' t'
    assume I: "?I a s'" and run: "apply_one w arc io m ao bad x a s' = (t', Inr b')"
    obtain r1 s1 b1 r2 s2 b2 where ab: "a = (r1, s1, b1)" "b' = (r2, s2, b2)" by (metis surj_pair)
    show "?I b' t'"
      using apply_one_unseen [OF _ _ run [unfolded ab]] I by (simp add: ab)
  qed
  then show ?thesis by simp
qed

definition filed_hash :: "TxResult \<Rightarrow> bool" where
  "filed_hash x \<longleftrightarrow> (\<exists>b. txr_TxHash x = BytesToString b)"

lemma unseen_not_filed:
  assumes u: "unseen (node_wire w nd) (BytesToString b)" and f: "\<forall>x \<in> set (indexTx nd). filed_hash x"
  shows "BytesToString b \<notin> txr_TxHash ` set (indexTx nd)"
proof
  assume "BytesToString b \<in> txr_TxHash ` set (indexTx nd)"
  then obtain x where x: "x \<in> set (indexTx nd)" "txr_TxHash x = BytesToString b" by auto
  let ?P = "\<lambda>x. StringToBytes (txr_TxHash x) = Inr b"
  have "?P x" by (simp add: x(2) StringToBytes_BytesToString)
  then have "find ?P (rev (indexTx nd)) \<noteq> None" using x(1) by (auto simp: find_None_iff)
  then obtain z where z: "find ?P (rev (indexTx nd)) = Some z" by blast
  then obtain i where "i < length (indexTx nd)" "?P z" "z = rev (indexTx nd) ! i" by (auto simp: find_Some_iff)
  then have "z \<in> set (indexTx nd)" "?P z" using nth_mem [of i "rev (indexTx nd)"] by simp_all
  with f have "txr_TxHash z = BytesToString b" by (fastforce simp: filed_hash_def StringToBytes_BytesToString)
  then have "GetTxByHash (node_wire w nd) b = Inr (Some (BytesToString b))" by (simp add: node_wire_def z)
  with u show False by (simp add: unseen_def StringToBytes_BytesToString)
qed

lemma BytesToString_empty: "BytesToString b = [] \<longleftrightarrow> b = []"
  by (cases b) (simp_all add: BytesToString_def)

lemma block_hashes:
  assumes t: "ApplyBlock w arc io b ao s = (t, Inr (header, r))"
    and H: "\<And>x. HashOf (Cfg s) x \<noteq> []"
  shows "distinct (map txr_TxHash (abr_Results r))" and "\<forall>x \<in> set (abr_Results r). filed_hash x"
    and "2 \<le> Height s \<Longrightarrow> x \<in> set (abr_Results r) \<Longrightarrow> unseen w (txr_TxHash x)"
proof -
  obtain u v evs evs' r0 h where steps: "BeginBlock arc s = (u, Inr evs)"
    "ApplyTransactions w arc io (bl_Transactions b) (AddEvent evs new_ApplyBlockResults) ao u = (v, Inr r0)"
    "bl_BlockHeader b = Some h" "EndBlock (bh_ProposerAddress h) v = (t, Inr evs')" and r: "r = AddEvent evs' r0"
    by (rule ApplyBlock_steps [OF t])
  have u: "Cfg u = Cfg s" "Height u = Height s" using frameD [OF cfg_BeginBlock steps(1)] by (simp_all add: fixed_def)
  have hashes: "map txr_TxHash (abr_Results r) = map (HashString (Cfg s)) (abr_Txs r0)"
    "distinct (map (HashString (Cfg s)) (abr_Txs r0))"
    using ApplyTransactions_tally [OF steps(2)] by (auto simp: tally_def u r AddEvent_def)
  then show "distinct (map txr_TxHash (abr_Results r))" by simp
  have each: "\<exists>z. txr_TxHash x = HashString (Cfg s) z" if "x \<in> set (abr_Results r)" for x
  proof -
    have "txr_TxHash x \<in> set (map txr_TxHash (abr_Results r))" using that by simp
    then show ?thesis unfolding hashes(1) by auto
  qed
  then show "\<forall>x \<in> set (abr_Results r). filed_hash x" by (auto simp: filed_hash_def HashString_def)
  show "unseen w (txr_TxHash x)" if h2: "2 \<le> Height s" and x: "x \<in> set (abr_Results r)"
  proof -
    obtain z where "txr_TxHash x = HashString (Cfg s) z" using each [OF x] by blast
    then have "txr_TxHash x \<noteq> []" using H [of z] by (simp add: HashString_def BytesToString_empty)
    moreover have "x \<in> set (abr_Results r0)" using x by (simp add: r AddEvent_def)
    ultimately show ?thesis using ApplyTransactions_unseen [OF steps(2)] h2 by (simp add: u)
  qed
qed

theorem chain_distinct:
  "chain net w io E A nd n \<Longrightarrow> (\<And>x. HashOf (Cfg (FSM nd)) x \<noteq> []) \<Longrightarrow>
     distinct (map txr_TxHash (indexTx nd)) \<and> (\<forall>x \<in> set (indexTx nd). filed_hash x) \<and>
     1 \<le> Height (FSM nd) \<and> (Height (FSM nd) < 2 \<longrightarrow> indexTx nd = [])"
proof (induction rule: chain.induct)
  case (start n nd)
  then show ?case by simp
next
  case (commit nd n qc block nd')
  obtain h nd1 t header r v where c: "bl_BlockHeader block = Some h"
    "CheckAndSetLastCertificate net w h (nd\<lparr>FSM := replay_cache qc (FSM_Reset (store nd) (FSM nd))\<rparr>) = Inr nd1"
    "ApplyBlock (node_wire w nd1) (node_archive net nd1) (node_io io nd1) block False (FSM nd1) = (t, Inr (header, r))"
    "FSM nd' = New t" "indexTx nd' = indexTx nd1 @ abr_Results r" "qc_Header qc = Some v"
    by (rule CommitCertificate_ok [OF commit.hyps(2)]) blast
  note k = CheckAndSet_keeps [OF c(2)]
  have s: "Cfg (FSM nd1) = Cfg (FSM nd)" "Height (FSM nd1) = Height (FSM nd)"
    by (simp_all add: k(1) replay_cache_fields FSM_Reset_fields)
  have t: "Cfg t = Cfg (FSM nd)" "Height t = Height (FSM nd)"
    using fixed_ApplyBlock [OF c(3)] s by (simp_all add: fixed_def)
  have H: "HashOf (Cfg (FSM nd1)) x \<noteq> []" for x using commit.prems by (simp add: c(4) t s)
  have old: "distinct (map txr_TxHash (indexTx nd))" "\<forall>x \<in> set (indexTx nd). filed_hash x"
    "1 \<le> Height (FSM nd)" "Height (FSM nd) < 2 \<longrightarrow> indexTx nd = []"
    using commit.IH commit.prems by (simp_all add: c(4) t)
  note new = block_hashes [OF c(3) H]
  have index: "indexTx nd1 = indexTx nd" using k(3) by simp
  have "txr_TxHash x \<notin> txr_TxHash ` set (indexTx nd)" if x: "x \<in> set (abr_Results r)" for x
  proof (cases "Height (FSM nd) < 2")
    case False
    then have "unseen (node_wire w nd1) (txr_TxHash x)" using new(3) [OF _ x] s by simp
    moreover obtain b where "txr_TxHash x = BytesToString b" using new(2) x by (auto simp: filed_hash_def)
    ultimately show ?thesis using unseen_not_filed [of w nd1 b] old(2) index by simp
  qed (use old(4) in simp)
  then have "set (map txr_TxHash (indexTx nd)) \<inter> set (map txr_TxHash (abr_Results r)) = {}"
    unfolding set_map by (intro equals0I) (elim IntE imageE, metis image_eqI)
  moreover have "2 \<le> Height (FSM nd) + 1" "1 \<le> Height (FSM nd) + 1"
  proof -
    have "unat (Height (FSM nd)) < 18446744073709551615" using commit.hyps(6) by (simp add: word_less_nat_alt unat_Max_u64)
    then have "unat (Height (FSM nd) + 1) = unat (Height (FSM nd)) + 1" by (simp add: unat_add_u64)
    then show "2 \<le> Height (FSM nd) + 1" "1 \<le> Height (FSM nd) + 1"
      using old(3) by (simp_all add: word_le_nat_alt)
  qed
  ultimately show ?case using old new(1,2) by (auto simp: c(4,5) index t not_less)
qed

section \<open>Commits are all or nothing\<close>

text \<open>A commit that fails falls back to the node before it: once the block is indexed under the height of the
  state machine, the state machine of the next height can be made.\<close>

lemma refused_commit:
  assumes run: "CommitCertificate net w io qc block None nd = (nd', Inl e)"
    and h: "\<exists>h. bl_BlockHeader block = Some h \<and> bh_Height h = Height (FSM nd)" and pos: "1 \<le> Height (FSM nd)"
  shows "\<exists>u. nd' = discard nd u"
proof -
  let ?nd = "nd\<lparr>FSM := replay_cache qc (FSM_Reset (store nd) (FSM nd))\<rparr>"
  obtain nd1 y where apply_block: "ApplyAndValidateBlock net w io block True ?nd = (nd1, y)" by fastforce
  show ?thesis
  proof (cases y)
    case (Inr r)
    have ok: "ApplyAndValidateBlock net w io block True ?nd = (nd1, Inr r)" using apply_block Inr by simp
    obtain b nd0 t header res where a: "bl_BlockHeader block = Some b" "CheckAndSetLastCertificate net w b ?nd = Inr nd0"
      "ApplyBlock (node_wire w nd0) (node_archive net nd0) (node_io io nd0) block False (FSM nd0) = (t, Inr (header, res))"
      "nd1 = nd0\<lparr>FSM := t\<rparr>" "br_BlockHeader r = Some b"
      by (rule ApplyAndValidateBlock_ok [OF ok])
    have "Height t = Height (FSM nd)"
      using fixed_ApplyBlock [OF a(3)] CheckAndSet_keeps(1) [OF a(2)]
      by (simp add: fixed_def replay_cache_fields FSM_Reset_fields)
    then have t: "Height (FSM nd1) = bh_Height b" "1 \<le> bh_Height b" using a(1,4) h pos by auto
    have "False" if "IndexBlock r nd2 = Inr nd3" "IndexQC qc nd1 = Inr nd2" "Commit io nd3 = (nd', Inl e)" for nd2 nd3
      using that t a(5) by (auto simp: Commit_def IndexBlock_def IndexQC_def Let_def LoadBlock_def node_io_def
          antisym split: option.splits if_splits)
    then show ?thesis
      using run ok by (auto simp: CommitCertificate_def split: sum.splits)
  qed (use run apply_block in \<open>auto simp: CommitCertificate_def\<close>)
qed

end
