(* ===== verification/Samples.thy ===== *)
theory Samples
  imports Validators "HOL-Library.Code_Target_Nat"
begin

text \<open>
  A small concrete state on which the properties are exercised: two accounts, one validator, one
  delegate, one pool, the default parameters, and a configuration whose hash, keys and addresses
  are simple executable functions.
\<close>

definition sample_cfg :: Config where
  "sample_cfg = \<lparr>cfg_ChainId = 1, NetworkID = 1, InitialTokensPerBlock = 80, BlocksPerHalvening = 100,
     FaucetAddress = '''', MemHash = (\<lambda>a. case a of [] \<Rightarrow> 0 | x # _ \<Rightarrow> ucast x),
     AddressOf = (\<lambda>k. if k = [] then None else Some k), KeyBytes = (\<lambda>k. k), IsBLS = (\<lambda>k. k \<noteq> []),
     SetMask = (\<lambda>n b. if length b = (n + 7) div 8 then Some b else None),
     VerifyMulti = (\<lambda>_ _ _ _. True), HashOf = (\<lambda>b. b),
     OrderBytes = (\<lambda>x. dlo_Address x), BatchBytes = (\<lambda>x. db_ReceiptHash x), ApproveList = Inr Map.empty\<rparr>"

definition sample_account :: "address \<Rightarrow> u64 \<Rightarrow> Account" where
  "sample_account a n = (new_Account a)\<lparr>acc_Amount := n\<rparr>"

definition sample_pool :: "u64 \<Rightarrow> u64 \<Rightarrow> Pool" where
  "sample_pool i n = (new_Pool i)\<lparr>pool_Amount := n\<rparr>"

definition sample_validator :: "address \<Rightarrow> u64 \<Rightarrow> u64 list \<Rightarrow> address \<Rightarrow> bool \<Rightarrow> Validator" where
  "sample_validator a stake cs out d =
     \<lparr>val_Address = a, val_PublicKey = a, val_NetAddress = ''tcp://foo.com'', val_StakedAmount = stake,
      val_Committees = cs, val_MaxPausedHeight = 0, val_UnstakingHeight = 0, val_Output = out,
      val_Delegate = d, val_Compound = True\<rparr>"

definition sample_addresses :: "address set" where
  "sample_addresses = {[1], [2], [3], [4]}"

definition sample :: StateMachine where
  "sample = \<lparr>Cfg = sample_cfg, sm_ProtocolVersion = 1, ProposeVoteConfig = ACCEPT_ALL, Height = 10,
     accounts = [([1], sample_account [1] 100), ([2], sample_account [2] 50)],
     pools = [(1, sample_pool 1 20)],
     validators = [([3], sample_validator [3] 40 [1] [1] False),
       ([4], sample_validator [4] 10 [1, 2] [2] True)],
     committees = [], delegates = [], unstaking = [], paused = [],
     params_cons = Some (Consensus (DefaultParams 1000000)), params_val = Some (Params.Validator (DefaultParams 1000000)),
     params_fee = Some (Fee (DefaultParams 1000000)), params_gov = Some (Governance (DefaultParams 1000000)),
     nonSigners = [], lastProposers = [],
     supplyTracker = \<lparr>Total = 220, Staked = 50, DelegatedOnly = 10,
       CommitteeStaked = [sample_pool 1 50, sample_pool 2 10],
       CommitteeDelegatedOnly = [sample_pool 1 10, sample_pool 2 10]\<rparr>,
     committeesData = [], orders = [], retired = [], lockedBatches = [], nextBatches = [],
     doubleSigners = [], checkpoints = [], cache_accounts = Map.empty, cache_valParams = None,
     cache_feeParams = None, cache_rootDexBatch = None, slashTracker = (\<lambda>_. 0), events = [],
     event_reference = ''''\<rparr>"

lemmas sample_defs = sample_def sample_cfg_def sample_account_def sample_pool_def sample_validator_def
  sample_addresses_def new_Account_def new_Pool_def

lemma all_SupplyPoolType: "(\<forall>tt. P tt) \<longleftrightarrow> P CommitteesWithDelegations \<and> P DelegationsOnly"
  by (metis SupplyPoolType.exhaust)

lemma sample_books: "books_ok sample_addresses sample"
  by (auto simp: sample_defs books_on_def funds_ok_def accounts_ok_def stored_account_def ledger_on_def
      all_entry recorded_def pool_sum_def held_def account_total_def pool_total_def stake_total_def
      total_supply_def share_def kv_sum_def
      vest_ok_def all_SupplyPoolType)

text \<open>The result of a run, split into its error or value and the state it leaves.\<close>

lemma run_ok: "snd p = Inr a \<Longrightarrow> p = (fst p, Inr a)"
  by (metis prod.collapse)


section \<open>Variations of the sample\<close>

text \<open>A locked and an open sell order on chain 1, with their tokens in the escrow pool.\<close>

definition sample_order :: "bytes \<Rightarrow> u64 \<Rightarrow> bytes \<Rightarrow> SellOrder" where
  "sample_order i n buyer = \<lparr>so_Id = i, so_Committee = 1, so_Data = [], AmountForSale = n,
     RequestedAmount = 7, SellerReceiveAddress = [9], BuyerSendAddress = [8], BuyerReceiveAddress = buyer,
     BuyerChainDeadline = 50, SellersSendAddress = [1]\<rparr>"

definition market_sample :: StateMachine where
  "market_sample = sample\<lparr>orders := [((1, [5]), sample_order [5] 30 [2]), ((1, [6]), sample_order [6] 12 [])],
     pools := [(1, sample_pool 1 20), (1 + EscrowPoolAddend, sample_pool (1 + EscrowPoolAddend) 42)],
     supplyTracker := (supplyTracker sample)\<lparr>Total := 262\<rparr>\<rparr>"

text \<open>The validator is unstaking and due at the current height.\<close>

definition due_sample :: StateMachine where
  "due_sample = sample\<lparr>validators := [([3], (sample_validator [3] 40 [1] [1] False)\<lparr>val_UnstakingHeight := 10\<rparr>),
     ([4], sample_validator [4] 10 [1, 2] [2] True)], unstaking := [((10, [3]), ())]\<rparr>"

text \<open>The committee of chain 1 has two samples of rewards to pay.\<close>

definition reward_sample :: StateMachine where
  "reward_sample = sample\<lparr>committeesData := [\<lparr>cd_ChainId = 1, LastRootHeightUpdated = 3,
     LastChainHeightUpdated = 4, cd_PaymentPercents = [\<lparr>pay_Address = [3], pay_Percent = 90, pay_ChainId = 1\<rparr>,
       \<lparr>pay_Address = [1], pay_Percent = 60, pay_ChainId = 1\<rparr>], NumberOfSamples = 2\<rparr>]\<rparr>"

lemmas variations = market_sample_def due_sample_def reward_sample_def sample_order_def

lemma due_sample_books: "books_ok sample_addresses due_sample"
  by (auto simp: sample_defs variations books_on_def funds_ok_def accounts_ok_def stored_account_def ledger_on_def
      all_entry recorded_def pool_sum_def held_def account_total_def pool_total_def stake_total_def
      total_supply_def share_def kv_sum_def vest_ok_def all_SupplyPoolType)

lemma market_sample_books: "books_ok sample_addresses market_sample"
  by (auto simp: sample_defs variations books_on_def funds_ok_def accounts_ok_def stored_account_def ledger_on_def
      all_entry recorded_def pool_sum_def held_def account_total_def pool_total_def stake_total_def
      total_supply_def share_def kv_sum_def vest_ok_def all_SupplyPoolType EscrowPoolAddend_def)

lemma reward_sample_books: "books_ok sample_addresses reward_sample"
  using sample_books by (simp add: reward_sample_def books_on_def funds_ok_def accounts_ok_def
      stored_account_def ledger_on_def all_entry recorded_def held_def account_total_def pool_total_def
      stake_total_def total_supply_def)

lemma sample_outputs:
  "outputs_in sample_addresses sample" "outputs_in sample_addresses due_sample"
  "outputs_in sample_addresses reward_sample"
  by (auto simp: outputs_in_def sample_defs variations)

end
