(* ===== verification/BlockSamples.thy ===== *)
theory BlockSamples
  imports Chain Samples
begin

text \<open>
  A concrete chain on which the properties of whole blocks are exercised: the state of Samples with
  two accounts of twenty-byte addresses, a codec and a signature scheme that are simple executable
  functions, an archive with one certificate, and a block of two transactions, one of them garbage.
  The hash has thirty-two bytes and keeps the keys of dex orders apart.
\<close>

definition addr :: "8 word \<Rightarrow> address" where
  "addr n = n # replicate 19 0"

definition block_hash32 :: "bytes \<Rightarrow> bytes" where
  "block_hash32 b = take 32 (rev b @ replicate 32 0)"

definition block_cfg :: Config where
  "block_cfg = sample_cfg\<lparr>HashOf := block_hash32, OrderBytes := (\<lambda>_. [])\<rparr>"

definition block_addresses :: "address set" where
  "block_addresses = {[1], [2], [3], [4], addr 5, addr 6}"

definition block_state :: StateMachine where
  "block_state = sample\<lparr>Cfg := block_cfg, Height := 1,
     accounts := [([2], sample_account [2] 50), (addr 5, sample_account (addr 5) 50000)],
     supplyTracker := (supplyTracker sample)\<lparr>Total := 50120\<rparr>\<rparr>"

definition block_send :: MessageSend where
  "block_send = \<lparr>snd_FromAddress = addr 5, snd_ToAddress = addr 6, snd_Amount = 7000,
     snd_VestingStartHeight = 0, snd_VestingCliffHeight = 0, snd_VestingEndHeight = 0\<rparr>"

definition block_tx :: Transaction where
  "block_tx = \<lparr>tx_MessageType = ''send'', tx_Msg = Some \<lparr>any_TypeUrl = ''send'', any_Value = [1]\<rparr>,
     tx_Signature = Some \<lparr>sig_PublicKey = addr 5, sig_Signature = addr 5 @ [8]\<rparr>, tx_CreatedHeight = 1,
     tx_Time = 1, tx_Fee = 10000, tx_Memo = '''', tx_NetworkId = 1, tx_ChainId = 1\<rparr>"

text \<open>The hash of the block with the first transaction, and the root of its results.\<close>

definition first_hash :: bytes where
  "first_hash = replicate 12 0 @ [5] @ replicate 19 0"

definition first_root :: bytes where
  "first_root = replicate 19 0 @ [5] @ replicate 12 0"

text \<open>A signature is the key followed by what is signed.\<close>

definition block_wire :: wire where
  "block_wire = \<lparr>Codec = \<lparr>hash_results = (\<lambda>_. replicate 32 2), block_hash = (\<lambda>_. Inr first_hash),
       block_txs = (\<lambda>_. Inr []), sign_bytes = (\<lambda>_. [9])\<rparr>,
     UnmarshalTx = (\<lambda>b. if b = [1] then Inr block_tx else Inl ErrUnmarshal),
     MarshalTx = (\<lambda>x. Inr (if tx_Signature x = None then [8] else [1])),
     UnmarshalAny = (\<lambda>_. Inr (Some (MsgSend block_send))),
     NewAny = (\<lambda>_. Inl ErrUnmarshal), UnmarshalMsg = (\<lambda>_ _. Inl ErrUnmarshal),
     VerifyBytes = (\<lambda>pk m sg. sg = pk @ m), UnmarshalEth = (\<lambda>_. None), RecoverPublicKey = (\<lambda>_. None),
     GetTxByHash = (\<lambda>_. Inr None)\<rparr>"

definition block_qc :: QuorumCertificate where
  "block_qc = \<lparr>qc_Header = Some \<lparr>vw_NetworkId = 1, vw_ChainId = 1, vw_Height = 9, vw_RootHeight = 9,
       vw_Round = 0, vw_Phase = PRECOMMIT_VOTE\<rparr>,
     qc_Results = Some \<lparr>RewardRecipients = Some [Some \<lparr>pay_Address = addr 6, pay_Percent = 40, pay_ChainId = 1\<rparr>],
       cr_NumberOfSamples = 0, SlashRecipients = None, cr_Orders = None, cr_Checkpoint = None,
       cr_Retired = False, cr_DexBatch = None, cr_RootDexBatch = None\<rparr>,
     qc_ResultsHash = replicate 32 2, qc_Block = [], qc_BlockHash = replicate 32 1, qc_ProposerKey = [3],
     qc_Signature = Some \<lparr>as_Signature = [1], as_Bitmap = [1]\<rparr>\<rparr>"

definition block_header :: BlockHeader where
  "block_header = \<lparr>bh_Height = 10, bh_Hash = replicate 32 4, bh_NetworkId = 1, bh_Time = 77, bh_NumTxs = 0,
     bh_TotalTxs = 3, bh_TotalVdfIterations = 0, bh_LastBlockHash = replicate 32 4,
     bh_StateRoot = replicate 32 4, bh_TransactionRoot = replicate 32 4, bh_ValidatorRoot = replicate 32 4,
     bh_NextValidatorRoot = replicate 32 4, bh_ProposerAddress = addr 5, bh_Vdf = None,
     bh_LastQuorumCertificate = Some block_qc\<rparr>"

definition block_archive :: archive where
  "block_archive = \<lparr>StateAt = (\<lambda>_. Inr block_state), QCAt = (\<lambda>_. Inr block_qc), HashAt = (\<lambda>_. Some (replicate 32 4)),
     LastValidatorSets = (\<lambda>_ _. None)\<rparr>"

definition block_encoders :: block_io where
  "block_encoders = \<lparr>MarshalResult = (\<lambda>x. Inr (txr_Sender x)), MarshalValidator = (\<lambda>x. Inr (cv_PublicKey x)),
     MarshalHeader = (\<lambda>x. Inr (bh_StateRoot x @ bh_TransactionRoot x)), StateRoot = (\<lambda>_. Inr (replicate 32 6)),
     BlockAt = (\<lambda>_. Inr (Some block_header)), Interrupted = (\<lambda>_. False)\<rparr>"

definition block :: Block where
  "block = \<lparr>bl_BlockHeader = Some block_header, bl_Transactions = [[1], [2]]\<rparr>"

text \<open>The first transaction, one step after another: the simplifier evaluates each step on the state before it.\<close>

definition begun :: StateMachine where
  "begun = block_state\<lparr>event_reference := ''begin_block''\<rparr>"

definition block_check :: "StateMachine \<times> (err + check_state)" where
  "block_check = check_one block_wire (0, [1]) (NewBatchVerifier False, Map.empty, []) begun"

definition block_turn :: "StateMachine \<times> (err + apply_state)" where
  "block_turn = (case block_check of (t, Inl e) \<Rightarrow> (t, Inl e) | (t, Inr (v, f, i)) \<Rightarrow>
     apply_one block_wire block_archive block_encoders 998348 False Map.empty (0, [1])
       (AddEvent [] new_ApplyBlockResults, {}, None) t)"

definition block_ended :: bool where
  "block_ended = ((case block_check of (t, Inl e) \<Rightarrow> False
       | (t, Inr (v, f, i)) \<Rightarrow> BatchVerifier_Verify block_wire v = [] \<and> Option.is_none (f 0)) \<and>
     (case block_turn of (t, Inl e) \<Rightarrow> False
     | (t, Inr (r, _, base)) \<Rightarrow> abr_Txs r = [[1]] \<and> abr_Failed r = [] \<and> abr_ResultsBz r = [addr 5] \<and>
         length (abr_Results r) = 1 \<and> Option.is_none base \<and> (case snd (EndBlock (addr 5) t) of Inl _ \<Rightarrow> False | Inr _ \<Rightarrow> True)))"

lemma block_ended: "block_ended"
  by code_simp

text \<open>Of the errors found by the checks a turn reads only its own.\<close>

lemma apply_one_cong: "f i = g i \<Longrightarrow> apply_one w arc io m ao f (i, tx) = apply_one w arc io m ao g (i, tx)"
  by (simp only: apply_one_def fst_conv snd_conv)

definition applied :: "(bytes \<times> err) list \<Rightarrow> ApplyBlockResults \<Rightarrow> bool" where
  "applied bad r \<longleftrightarrow> abr_Txs r = [[1]] \<and> abr_Failed r = bad \<and> abr_ResultsBz r = [addr 5] \<and>
     length (abr_Results r) = 1"

lemma block_steps:
  obtains t1 v f i t2 r seen t3 evs where
    "check_one block_wire (0, [1]) (NewBatchVerifier False, Map.empty, []) begun = (t1, Inr (v, f, i))"
    "BatchVerifier_Verify block_wire v = []" "f 0 = None"
    "\<And>f. f 0 = None \<Longrightarrow> apply_one block_wire block_archive block_encoders 998348 False f (0, [1])
       (AddEvent [] new_ApplyBlockResults, {}, None) t1 = (t2, Inr (r, seen, None))"
    "applied [] r" "EndBlock (addr 5) t2 = (t3, Inr evs)"
proof -
  obtain t1 v f i where c: "block_check = (t1, Inr (v, f, i))" "BatchVerifier_Verify block_wire v = []" "f 0 = None"
    using block_ended unfolding block_ended_def by (auto split: prod.splits sum.splits simp: Option.is_none_def)
  obtain t2 r seen evs where u: "block_turn = (t2, Inr (r, seen, None))" "applied [] r"
    and evs: "snd (EndBlock (addr 5) t2) = Inr evs"
    using block_ended unfolding block_ended_def applied_def
    by (auto split: prod.splits sum.splits option.splits simp: Option.is_none_def)
  have "apply_one block_wire block_archive block_encoders 998348 False f (0, [1])
       (AddEvent [] new_ApplyBlockResults, {}, None) t1 = (t2, Inr (r, seen, None))" if "f 0 = None" for f
    using u(1) apply_one_cong [of f 0 Map.empty] that by (simp add: block_turn_def c(1))
  then show thesis using that c [unfolded block_check_def] u(2) run_ok [OF evs] by blast
qed

text \<open>The encoders never fail, so a header can always be made.\<close>

lemma make_header_total:
  obtains h where "make_header arc block_encoders b r s = Inr h" "bh_StateRoot h = replicate 32 6"
    "bh_TransactionRoot h = nonEmptyHash (TransactionRoot (Cfg s) r)"
proof -
  have "\<exists>ys. encode_all (MarshalValidator block_encoders) vs = Inr ys" for vs
    by (induction vs) (auto simp: block_encoders_def)
  then have "\<exists>root. ValidatorRoot block_encoders cfg vs = Inr root" for cfg vs
    unfolding ValidatorRoot_def by (metis (lifting) sum.case(2))
  then obtain f where f: "\<And>cfg vs. ValidatorRoot block_encoders cfg vs = Inr (f cfg vs)" by metis
  have "\<exists>h. make_header arc block_encoders b r s = Inr h \<and> bh_StateRoot h = replicate 32 6 \<and>
      bh_TransactionRoot h = nonEmptyHash (TransactionRoot (Cfg s) r)"
    by (simp add: make_header_def f Let_def) (simp add: block_encoders_def LoadBlock_def SetHash_def)
  then show thesis using that by blast
qed

lemma block_begins: "BeginBlock block_archive block_state = (begun, Inr [])"
  by (simp add: BeginBlock_def Refer_def op_simps block_state_def begun_def)

lemma block_size: "GetMaxBlockSize begun = (begun, Inr 998348)"
  by (simp add: GetMaxBlockSize_def GetParamsCons_def op_simps block_state_def begun_def sample_defs DefaultParams_def
      MaxBlockHeaderSize_def)

text \<open>The garbage fails its check and leaves no trace but its error.\<close>

lemma garbage_check: "check_one block_wire (1, [2]) (v, f, i) s = (s, Inr (v, f(1 \<mapsto> ErrUnmarshal), i))"
proof -
  have "UnmarshalTx block_wire [2] = Inl ErrUnmarshal" by (simp add: block_wire_def)
  then show ?thesis by (simp add: check_one_def CheckTx_def bindE_def gets_apply with_store_def)
qed

lemma garbage_turn:
  "f 1 = Some e \<Longrightarrow> apply_one block_wire arc block_encoders m ao f (1, [2]) (r, seen, base) s =
     (s, Inr (AddFailed [2] e r, seen, base))"
  by (simp add: apply_one_def block_encoders_def)

lemma block_runs:
  "\<exists>t h r. ApplyBlock block_wire block_archive block_encoders block False block_state = (t, Inr (h, r)) \<and>
     applied [([2], ErrUnmarshal)] r"
proof -
  obtain t1 v f i t2 r seen t3 evs where
    c: "check_one block_wire (0, [1]) (NewBatchVerifier False, Map.empty, []) begun = (t1, Inr (v, f, i))"
      "BatchVerifier_Verify block_wire v = []" "f 0 = None"
    and u: "\<And>f. f 0 = None \<Longrightarrow> apply_one block_wire block_archive block_encoders 998348 False f (0, [1])
       (AddEvent [] new_ApplyBlockResults, {}, None) t1 = (t2, Inr (r, seen, None))"
    and e: "applied [] r" "EndBlock (addr 5) t2 = (t3, Inr evs)"
    by (rule block_steps) blast
  let ?r = "AddFailed [2] ErrUnmarshal r"
  have txs: "ApplyTransactions block_wire block_archive block_encoders [[1], [2]]
      (AddEvent [] new_ApplyBlockResults) False begun = (t2, Inr ?r)"
    by (simp add: ApplyTransactions_def bindE_def block_size c u
        garbage_check [unfolded One_nat_def] garbage_turn [unfolded One_nat_def] gets_apply writes_apply
        original_store_def op_simps)
  obtain h where h: "make_header block_archive block_encoders block_header (AddEvent evs ?r) t3 = Inr h"
    by (rule make_header_total)
  have "applied [([2], ErrUnmarshal)] (AddEvent evs ?r)" using e(1) by (simp add: applied_def AddEvent_def AddFailed_def)
  moreover have "ApplyBlock block_wire block_archive block_encoders block False block_state =
      (t3, Inr (h, AddEvent evs ?r))"
    using e(2) h by (simp add: ApplyBlock_def recover_ok block_def bindE_def block_begins txs gets_apply op_simps block_header_def)
  ultimately show ?thesis by blast
qed

section \<open>The hypotheses of the block theorem\<close>

lemma block_keys_apart: "keys_apart block_cfg"
proof -
  have len: "length (BigEndian z) = 8" for z by (simp add: BigEndian_def)
  have "BigEndian (of_nat i) = BigEndian (of_nat j)"
    if "HashKey block_cfg i h a = HashKey block_cfg j h b" for i j h a b
  proof -
    have "take 8 (HashKey block_cfg k h c) = rev (BigEndian (of_nat k))" for k c
      by (simp add: HashKey_def block_cfg_def block_hash32_def len)
    with that show ?thesis by (metis rev_rev_ident)
  qed
  moreover have "(of_nat i :: u64) \<noteq> of_nat j" if "i < 18446744073709551616" "j < 18446744073709551616" "i \<noteq> j" for i j
    using that by (metis unat_of_nat_u64)
  ultimately show ?thesis unfolding keys_apart_def using BigEndian_inj by blast
qed

lemma block_world: "world joint_entries block_addresses 50120 block_state"
proof -
  have "books_ok block_addresses block_state"
    by (auto simp: sample_defs block_state_def block_cfg_def block_addresses_def addr_def books_on_def funds_ok_def
        accounts_ok_def stored_account_def ledger_on_def recorded_def pool_sum_def held_def account_total_def
        pool_total_def stake_total_def total_supply_def share_def kv_sum_def vest_ok_def all_SupplyPoolType
        all_entry)
  then have "books_on joint_entries block_addresses block_state"
    by (simp add: books_on_def ledger_on_def)
  moreover have "remote_cache_ok block_addresses block_state"
    using block_keys_apart by (simp add: remote_cache_ok_def block_state_def sample_defs)
  moreover have "liquid block_state"
    by (auto simp: liquid_def points_ok_def GetPool_def block_state_def sample_defs)
  ultimately show ?thesis
    by (auto simp: world_def dex_ok_def batches_ok_def vals_ok_def payouts_ok_def parties_ok_def total_supply_def
        block_state_def sample_defs block_addresses_def)
qed

lemma block_cert: "cert_ok block_addresses block_qc"
  by (auto simp: cert_ok_def block_qc_def results_ok_def orders_in_def paid_in_def block_addresses_def
      RewardRecipients_CheckBasic_def List.map_filter_def addr_def)

lemma block_tx_in: "tx_in block_wire (Cfg block_state) block_addresses bz"
  by (auto simp: tx_in_def block_wire_def CheckMessage_def block_tx_def block_send_def block_addresses_def
      block_state_def block_cfg_def sample_defs split: if_splits sum.splits)

section \<open>A chain of one commit\<close>

text \<open>
  A node whose state machine and store are the state above commits a block with the first transaction;
  the hash in the header is the one that the application of the block gives.  The certificate is signed
  by the only member of the committee.
\<close>

definition first_header :: BlockHeader where
  "first_header = block_header\<lparr>bh_Height := 1, bh_LastQuorumCertificate := None, bh_Hash := first_hash,
     bh_StateRoot := replicate 32 6, bh_TransactionRoot := first_root\<rparr>"

definition first_block :: Block where
  "first_block = \<lparr>bl_BlockHeader = Some first_header, bl_Transactions = [[1]]\<rparr>"

definition block_set :: ValidatorSet where
  "block_set = \<lparr>vs_Members = [\<lparr>cv_PublicKey = [3], cv_VotingPower = 40, cv_NetAddress = ''''\<rparr>],
     vs_TotalPower = 40, vs_MinimumMaj23 = 27, vs_NumValidators = 1\<rparr>"

definition peer_qc :: QuorumCertificate where
  "peer_qc = block_qc\<lparr>qc_Header := Some \<lparr>vw_NetworkId = 1, vw_ChainId = 1, vw_Height = 1, vw_RootHeight = 1,
       vw_Round = 0, vw_Phase = PRECOMMIT_VOTE\<rparr>,
     qc_Block := [1], qc_BlockHash := first_hash,
     qc_Signature := Some \<lparr>as_Signature = replicate 96 0, as_Bitmap = [1]\<rparr>\<rparr>"

definition block_net :: network where
  "block_net = \<lparr>GetValidatorSet = (\<lambda>_ _. Inr block_set), GetCheckpoint = (\<lambda>_ _ _. Inl ErrUnmarshal),
     checkpointFromFile = (\<lambda>_ _. None), UnmarshalBlock = (\<lambda>_. Inr first_block), VerifyVDF = (\<lambda>_ _. False),
     DrawVDF = True, Syncing = False, LastSets = (\<lambda>_ _. None)\<rparr>"

definition block_node :: node where
  "block_node = \<lparr>FSM = block_state, store = block_state, indexQC = (\<lambda>_. Inr block_qc),
     indexState = (\<lambda>_. Inr block_state), indexBlock = (\<lambda>_. Inr (Some block_header)), indexTx = []\<rparr>"

lemma block_node_reads:
  "node_archive block_net block_node = block_archive" "node_io block_encoders block_node = block_encoders"
  "node_wire block_wire block_node = block_wire"
  "replay_cache peer_qc (FSM_Reset (store block_node) (FSM block_node)) = block_state"
  by (simp_all add: node_archive_def node_io_def node_wire_def block_net_def block_node_def block_archive_def
      block_encoders_def block_wire_def block_header_def replay_cache_def peer_qc_def block_qc_def FSM_Reset_def with_store_def
      ResetCaches_def block_state_def sample_defs)

lemma length_block_hash32 [simp]: "length (block_hash32 b) = 32"
  by (simp add: block_hash32_def)

lemma first_hashes:
  "nonEmptyHash (fst (MerkleTree block_hash32 [addr 5])) = first_root"
  "block_hash32 (replicate 32 6 @ first_root) = first_hash"
proof -
  have "fst (MerkleTree block_hash32 [addr 5]) = block_hash32 (addr 5)"
    using MerkleTree_root [of 0 "[addr 5]" block_hash32] by (simp add: padded_def)
  moreover have "block_hash32 (addr 5) = first_root" by code_simp
  ultimately show "nonEmptyHash (fst (MerkleTree block_hash32 [addr 5])) = first_root"
    by (simp add: nonEmptyHash_def first_root_def)
  show "block_hash32 (replicate 32 6 @ first_root) = first_hash" by code_simp
qed

lemma first_block_runs:
  obtains t h r where
    "ApplyBlock block_wire block_archive block_encoders first_block False block_state = (t, Inr (h, r))"
    "abr_Failed r = []" "length (abr_Results r) = 1" "bh_StateRoot h = replicate 32 6"
    "bh_TransactionRoot h = first_root"
proof -
  obtain t1 v f i t2 r seen t3 evs where
    c: "check_one block_wire (0, [1]) (NewBatchVerifier False, Map.empty, []) begun = (t1, Inr (v, f, i))"
      "BatchVerifier_Verify block_wire v = []" "f 0 = None"
    and u: "\<And>f. f 0 = None \<Longrightarrow> apply_one block_wire block_archive block_encoders 998348 False f (0, [1])
       (AddEvent [] new_ApplyBlockResults, {}, None) t1 = (t2, Inr (r, seen, None))"
    and e: "applied [] r" "EndBlock (addr 5) t2 = (t3, Inr evs)"
    by (rule block_steps) blast
  have txs: "ApplyTransactions block_wire block_archive block_encoders [[1]]
      (AddEvent [] new_ApplyBlockResults) False begun = (t2, Inr r)"
    by (simp add: ApplyTransactions_def bindE_def block_size c u gets_apply writes_apply original_store_def op_simps)
  obtain h where h: "make_header block_archive block_encoders first_header (AddEvent evs r) t3 = Inr h"
    "bh_StateRoot h = replicate 32 6" "bh_TransactionRoot h = nonEmptyHash (TransactionRoot (Cfg t3) (AddEvent evs r))"
    by (rule make_header_total)
  have "ApplyBlock block_wire block_archive block_encoders first_block False block_state = (t3, Inr (h, AddEvent evs r))"
    using e(2) h(1) by (simp add: ApplyBlock_def recover_ok first_block_def bindE_def block_begins txs gets_apply
        op_simps first_header_def block_header_def)
  moreover from fixed_ApplyBlock [OF this] have "Cfg t3 = block_cfg" by (simp add: fixed_def block_state_def)
  ultimately show thesis
    using that e(1) h(2,3) by (simp add: applied_def AddEvent_def TransactionRoot_def block_cfg_def first_hashes(1))
qed

lemma first_commit:
  obtains nd where
    "CommitCertificate block_net block_wire block_encoders peer_qc first_block None block_node = (nd, Inr ())"
    "length (indexTx nd) = 1" "Height (FSM nd) = 2" "Cfg (FSM nd) = block_cfg"
proof -
  obtain t h r where
    run: "ApplyBlock block_wire block_archive block_encoders first_block False block_state = (t, Inr (h, r))"
    and r: "abr_Failed r = []" "length (abr_Results r) = 1"
    and h: "bh_StateRoot h = replicate 32 6" "bh_TransactionRoot h = first_root"
    by (rule first_block_runs)
  have t: "Cfg t = block_cfg" "Height t = 1" using fixed_ApplyBlock [OF run] by (simp_all add: fixed_def block_state_def)
  have "HashOf (Cfg block_state) x \<noteq> []" for x
    by (simp add: block_state_def block_cfg_def flip: length_0_conv)
  then have "\<forall>x \<in> set (abr_Results r). filed_hash x" by (rule block_hashes(2) [OF run])
  then have filed: "\<not> list_ex (\<lambda>x. StringToBytes (txr_TxHash x) = Inl ErrStringToBytes) (abr_Results r)"
    by (auto simp: list_ex_iff filed_hash_def StringToBytes_BytesToString)
  have node: "block_node\<lparr>FSM := block_state\<rparr> = block_node" "FSM block_node = block_state"
    by (simp_all add: block_node_def)
  have reset: "block_node\<lparr>FSM := replay_cache peer_qc (FSM_Reset (store block_node) (FSM block_node))\<rparr> = block_node"
    by (simp only: block_node_reads node(1))
  have hash: "SetHash block_encoders block_cfg h = Inr (h\<lparr>bh_Hash := bh_Hash first_header\<rparr>)"
    by (simp add: SetHash_def block_encoders_def h first_header_def block_cfg_def first_hashes(2))
  have first: "bl_BlockHeader first_block = Some first_header" "bh_Height first_header = 1"
      "bh_Vdf first_header = None" "length (bh_Hash first_header) = 32"
    by (simp_all add: first_block_def first_header_def block_header_def first_hash_def)
  have qc: "IndexQC peer_qc nd = Inr (nd\<lparr>indexQC := (indexQC nd)(1 := Inr (peer_qc\<lparr>qc_Block := []\<rparr>))\<rparr>)" for nd
    by (simp add: IndexQC_def peer_qc_def)
  have stored: "Commit block_encoders nd = (nd\<lparr>FSM := New t, store := New t,
      indexState := (indexState nd)(2 := Inr (New t))\<rparr>, Inr ())"
    if "FSM nd = t" "indexBlock nd 1 = Inr (Some first_header)" for nd
    using that t by (simp add: Commit_def Let_def LoadBlock_def node_io_def)
  have valid: "ApplyAndValidateBlock block_net block_wire block_encoders first_block True block_node =
      (block_node\<lparr>FSM := t\<rparr>, Inr \<lparr>br_BlockHeader = Some first_header, br_Transactions = abr_Results r\<rparr>)"
    by (simp add: ApplyAndValidateBlock_def CheckAndSetLastCertificate_def block_node_reads node run r t hash
        first)
  let ?nd = "block_node\<lparr>FSM := New t, store := New t, indexQC := (indexQC block_node)(1 := Inr (peer_qc\<lparr>qc_Block := []\<rparr>)),
    indexBlock := (indexBlock block_node)(1 := Inr (Some first_header)), indexTx := abr_Results r,
    indexState := (indexState block_node)(2 := Inr (New t))\<rparr>"
  have "CommitCertificate block_net block_wire block_encoders peer_qc first_block None block_node = (?nd, Inr ())"
    unfolding CommitCertificate_def reset
    using filed by (simp add: valid qc stored IndexBlock_def first) (simp add: block_node_def)
  then show thesis using that r(2) t by simp
qed

lemma first_chain:
  assumes run: "CommitCertificate block_net block_wire block_encoders peer_qc first_block None block_node = (nd, Inr ())"
  shows "chain block_net block_wire block_encoders joint_entries block_addresses nd
    (50120 + block_subsidy block_state + mints block_wire (Cfg block_state) [[1]])"
proof -
  have node: "FSM block_node = block_state" "store block_node = block_state" "indexQC block_node h = Inr block_qc"
    "indexTx block_node = []" for h by (simp_all add: block_node_def)
  have start: "chain block_net block_wire block_encoders joint_entries block_addresses block_node 50120"
    by (rule chain.start) (use block_world in \<open>auto simp: node block_cert\<close>, simp add: block_state_def)
  have "cert_ok block_addresses peer_qc"
    using block_cert by (simp add: cert_ok_def peer_qc_def block_qc_def)
  then have ok: "block_ok block_wire block_addresses (Cfg (FSM block_node)) peer_qc first_block"
    using block_tx_in by (auto simp: block_ok_def first_block_def first_header_def node)
  have "mints block_wire (Cfg block_state) [[1]] = 0"
    by (simp add: mints_def tx_mint_def block_wire_def CheckMessage_def block_tx_def send_mint_def block_state_def
        block_cfg_def sample_cfg_def TrimSpace_def split: sum.splits)
  then have "50120 + unat (InitialTokensPerBlock (Cfg (FSM block_node))) +
      mints block_wire (Cfg (FSM block_node)) (bl_Transactions first_block) < 18446744073709551616"
    by (simp add: node first_block_def) (simp add: block_state_def block_cfg_def sample_cfg_def)
  moreover have small: "length (CommitteeStaked (supplyTracker block_state)) = 2" "Height block_state = 1" "(1 :: u64) < MaxUint64"
    by (simp_all add: block_state_def sample_def word_less_nat_alt unat_Max_u64)
  ultimately show ?thesis
    using chain.commit [OF start run ok] by (simp add: node first_block_def small)
qed

section \<open>The block from a peer\<close>

lemma peer_signed: "AggregateSignature_Check block_cfg (qc_Signature peer_qc) sb block_set = Inr False"
  by (simp add: AggregateSignature_Check_def AggregateSignature_CheckBasic_def peer_qc_def block_cfg_def sample_cfg_def
      block_set_def GetSigners_def getSigners_def SignerEnabledAt_def)

lemma signed_basic:
  "QuorumCertificate_CheckBasic (Codec block_wire)
     (Some (peer_qc\<lparr>qc_Signature := Some \<lparr>as_Signature = replicate 96 0, as_Bitmap = [b]\<rparr>\<rparr>)) = Inr ()"
  by (simp add: QuorumCertificate_CheckBasic_def check_with_results_def peer_qc_def block_qc_def block_wire_def both_def
      first_hash_def CertificateResult_CheckBasic_def RewardRecipients_CheckBasic_def SlashRecipients_CheckBasic_def
      Orders_CheckBasic_def DexBatch_CheckBasic_def Checkpoint_CheckBasic_def AggregateSignature_CheckBasic_def
      GlobalMaxBlockSize_def addr_def)

lemma peer_basic: "QuorumCertificate_CheckBasic (Codec block_wire) (Some peer_qc) = Inr ()"
  using signed_basic [of 1] by (simp add: peer_qc_def)

lemma peer_proposal:
  "CheckProposalBasic block_net block_wire block_encoders block_cfg peer_qc 1 1 1 = Inr first_block"
  by (simp add: CheckProposalBasic_def peer_qc_def block_net_def first_block_def Block_Check_def BlockHeader_Check_def
      first_header_def block_header_def block_qc_def both_def addr_def SetHash_def block_encoders_def block_cfg_def
      first_hashes(2)) (simp add: first_hash_def first_root_def)

lemma first_peer_block:
  "\<exists>nd. HandlePeerBlock block_net block_wire block_encoders (Some peer_qc) None False block_node = (nd, Inr peer_qc)"
proof -
  obtain nd where nd: "CommitCertificate block_net block_wire block_encoders peer_qc first_block None block_node = (nd, Inr ())"
    by (rule first_commit)
  have header: "qc_Header peer_qc = Some \<lparr>vw_NetworkId = 1, vw_ChainId = 1, vw_Height = 1, vw_RootHeight = 1,
       vw_Round = 0, vw_Phase = PRECOMMIT_VOTE\<rparr>" by (simp add: peer_qc_def)
  have cfg: "Cfg (FSM block_node) = block_cfg" "NetworkID block_cfg = 1" "cfg_ChainId block_cfg = 1" "Height (FSM block_node) = 1"
    by (simp_all add: block_node_def block_state_def block_cfg_def sample_cfg_def)
  have "check_majority block_net block_wire (the (qc_Header peer_qc)) peer_qc block_node = Inr ()"
    by (simp add: check_majority_def cfg block_net_def QuorumCertificate_Check_def peer_basic header View_Check_def peer_signed)
      (simp add: block_wire_def peer_signed)
  then show ?thesis
    by (simp add: HandlePeerBlock_def both_def peer_basic header cfg peer_proposal nd Let_def)
qed

end
