(* ===== verification/Economy.thy ===== *)
theory Economy
  imports Dex Byzantine Messages Samples
begin

text \<open>
  What the state machine promises about tokens: transfers, stakes, rewards, slashes, orders and
  swaps.  Each statement is followed by a run on the states of Samples, which discharges its
  hypotheses there.
\<close>

section \<open>Rewards and sell orders\<close>

text \<open>C11: Paying out the committee rewards at the end of a block keeps the books: every token is in
  an account, a pool or a stake, the stake ledger matches the validators, and what is not paid is
  burned, so the total supply never grows.\<close>

theorem rewards_keep_books:
  assumes "books_on E A s" and "outputs_in A s" and "\<forall>d \<in> set (committeesData s). payable A d"
    and "DistributeCommitteeRewards s = (t, Inr ())"
  shows "books_on E A t \<and> total_supply t \<le> total_supply s"
  using DistributeCommitteeRewards_books [OF assms] by simp

lemma reward_run: "snd (DistributeCommitteeRewards reward_sample) = Inr ()"
  by code_simp

theorem rewards_keep_books_witness:
  "books_ok sample_addresses (fst (DistributeCommitteeRewards reward_sample))
   \<and> total_supply (fst (DistributeCommitteeRewards reward_sample)) \<le> total_supply reward_sample"
proof (rule rewards_keep_books [OF reward_sample_books sample_outputs(3) _ run_ok [OF reward_run]])
  show "\<forall>d \<in> set (committeesData reward_sample). payable sample_addresses d"
    by (simp add: reward_sample_def payable_def well_sampled_def sample_addresses_def)
qed

text \<open>C12: Whatever lock, reset and close orders a committee submits, the market invariant holds
  afterwards: the books balance, every order is filed under its own chain and id, and the escrow pool
  of a chain holds at least the tokens of its orders.  No order can make the handler fail.\<close>

theorem swaps_keep_market:
  assumes "market_ok E A s"
    and "\<And>lock. Some lock \<in> set (LockOrders x) \<Longrightarrow> lo_BuyerReceiveAddress lock \<in> A"
  shows "\<exists>t. HandleCommitteeSwaps (Some x) c s = (t, Inr ()) \<and> market_ok E A t \<and>
    total_supply t = total_supply s"
  using HandleCommitteeSwaps_market [OF assms(1) _ assms(2), of x c]
  by (cases "HandleCommitteeSwaps (Some x) c s") auto

lemma market_sample_ok: "market_ok UNIV sample_addresses market_sample"
  using market_sample_books
  by (auto simp: market_ok_def orders_ok_def variations sample_defs escrowed_def escrow_of_def kv_sum_def
      parties_in_def pool_balance_def GetPool_def EscrowPool_def EscrowPoolAddend_def split: if_splits)

theorem swaps_keep_market_witness:
  "\<exists>t. HandleCommitteeSwaps (Some \<lparr>LockOrders = [Some \<lparr>lo_OrderId = [6], lo_ChainId = 1,
      lo_BuyerReceiveAddress = [3], lo_BuyerSendAddress = [8], lo_BuyerChainDeadline = 90\<rparr>],
      ResetOrders = [], CloseOrders = [[5], [7]]\<rparr>) 1 market_sample = (t, Inr ()) \<and>
    market_ok UNIV sample_addresses t \<and> total_supply t = total_supply market_sample"
  by (rule swaps_keep_market [OF market_sample_ok]) (simp add: sample_addresses_def)

text \<open>C13: Closing a locked order always succeeds: the escrow covers it, the credit cannot overflow,
  the buyer receives exactly the amount for sale, and the order is gone.\<close>

theorem close_pays_buyer:
  assumes "market_ok E A s" and "GetOrder i c s = Inr x" and "BuyerReceiveAddress x \<noteq> []"
  shows "\<exists>t. CloseOrder i c s = (t, Inr ()) \<and> market_ok E A t \<and> total_supply t = total_supply s \<and>
    balance (BuyerReceiveAddress x) t = balance (BuyerReceiveAddress x) s + unat (AmountForSale x) \<and>
    GetOrder i c t = Inl ErrOrderNotFound"
  by (rule CloseOrder_pays [OF assms])

theorem close_pays_buyer_witness:
  "\<exists>t. CloseOrder [5] 1 market_sample = (t, Inr ()) \<and> balance [2] t = 80"
proof -
  have o5: "GetOrder [5] 1 market_sample = Inr (sample_order [5] 30 [2])"
    by (simp add: GetOrder_def market_sample_def)
  have "balance [2] market_sample = 50"
    by (simp add: balance_def stored_account_def variations sample_defs)
  with close_pays_buyer [OF market_sample_ok o5] show ?thesis
    by (auto simp: sample_order_def)
qed

text \<open>C14: The seller of an order that is not locked can always withdraw it: deleting the order
  succeeds, returns exactly its tokens and removes it.\<close>

theorem delete_refunds_seller:
  assumes "market_ok E A s" and "GetOrder (do_OrderId msg) (do_ChainId msg) s = Inr x"
    and "BuyerReceiveAddress x = []"
  shows "\<exists>t. HandleMessageDeleteOrder msg s = (t, Inr ()) \<and> market_ok E A t \<and>
    total_supply t = total_supply s \<and>
    balance (SellersSendAddress x) t = balance (SellersSendAddress x) s + unat (AmountForSale x) \<and>
    GetOrder (do_OrderId msg) (do_ChainId msg) t = Inl ErrOrderNotFound"
  by (rule HandleMessageDeleteOrder_market [OF assms])

theorem delete_refunds_seller_witness:
  "\<exists>t. HandleMessageDeleteOrder \<lparr>do_OrderId = [6], do_ChainId = 1\<rparr> market_sample = (t, Inr ()) \<and>
    balance [1] t = 112"
proof -
  let ?m = "\<lparr>do_OrderId = [6], do_ChainId = 1\<rparr> :: MessageDeleteOrder"
  have o6: "GetOrder (do_OrderId ?m) (do_ChainId ?m) market_sample = Inr (sample_order [6] 12 [])"
    by (simp add: GetOrder_def market_sample_def)
  have "balance [1] market_sample = 100"
    by (simp add: balance_def stored_account_def variations sample_defs)
  with delete_refunds_seller [OF market_sample_ok o6] show ?thesis
    by (auto simp: sample_order_def)
qed

section \<open>Accounts\<close>

text \<open>The abstract ledger is a function from addresses to amounts.\<close>

definition ledger_transfer :: "address \<Rightarrow> address \<Rightarrow> nat \<Rightarrow> (address \<Rightarrow> nat) \<Rightarrow> address \<Rightarrow> nat" where
  "ledger_transfer sender recipient n ledger =
     (let paid = ledger(sender := ledger sender - n) in paid(recipient := paid recipient + n))"

lemma Validate_vesting_reads: "ValidateAccountAddWithVesting msg s = (t, r) \<Longrightarrow> t = s"
  by (auto simp: ValidateAccountAddWithVesting_def bindE_def op_simps split: if_splits)

text \<open>C15: A send implements the transfer of the abstract ledger, with and without vesting: whatever the
  caches and vesting schedules of the accounts, the balances after it are those of the ledger, even
  when sender and recipient are the same, and the sender could spend what it sent.\<close>

theorem send_refines_transfer:
  assumes ok: "accounts_ok A s" and A: "snd_FromAddress msg \<in> A" "snd_ToAddress msg \<in> A"
    and n: "snd_Amount msg \<noteq> 0" and run: "HandleMessageSend msg s = (t, Inr ())"
  shows "accounts_ok A t \<and> unat (snd_Amount msg) \<le> spendable (snd_FromAddress msg) s \<and>
    (\<lambda>a. balance a t) = ledger_transfer (snd_FromAddress msg) (snd_ToAddress msg) (unat (snd_Amount msg)) (\<lambda>a. balance a s)"
proof -
  let ?vesting = "snd_VestingStartHeight msg \<noteq> 0 \<or> snd_VestingEndHeight msg \<noteq> 0"
  obtain s1 where "(if ?vesting then ValidateAccountAddWithVesting msg else ok ()) s = (s1, Inr ())"
    and rest: "bindE (AccountSub (snd_FromAddress msg) (snd_Amount msg)) (\<lambda>_.
        if ?vesting then AccountAddWithVesting msg else AccountAdd (snd_ToAddress msg) (snd_Amount msg)) s1 = (t, Inr ())"
    by (rule bindE_okE [OF run [unfolded HandleMessageSend_def Let_def]]) simp
  then have s1: "s1 = s" by (auto simp: op_simps split: if_splits dest: Validate_vesting_reads)
  obtain u where u: "AccountSub (snd_FromAddress msg) (snd_Amount msg) s = (u, Inr ())"
    and paid: "(if ?vesting then AccountAddWithVesting msg else AccountAdd (snd_ToAddress msg) (snd_Amount msg)) u = (t, Inr ())"
    by (rule bindE_okE [OF rest [unfolded s1]]) simp
  note sub = AccountSub_ok [OF ok A(1) u]
  have add: "accounts_ok A t \<and> balance b t = balance b u + (if b = snd_ToAddress msg then unat (snd_Amount msg) else 0)" for b
    using paid AccountAddWithVesting_ok(1,3) [OF sub(1) A(2) n] AccountAdd_ok(1,3) [OF sub(1) A(2)]
    by (auto split: if_splits)
  have left: "balance b u = (if b = snd_FromAddress msg then balance b s - unat (snd_Amount msg) else balance b s)" for b
    using sub(3) [of b] by (auto split: if_splits)
  show ?thesis using add sub(4) by (auto simp: ledger_transfer_def Let_def left fun_eq_iff)
qed

definition sample_send :: MessageSend where
  "sample_send = \<lparr>snd_FromAddress = [1], snd_ToAddress = [2], snd_Amount = 30,
     snd_VestingStartHeight = 5, snd_VestingCliffHeight = 5, snd_VestingEndHeight = 100\<rparr>"

lemma send_run: "snd (HandleMessageSend sample_send sample) = Inr ()"
  by code_simp

theorem send_refines_transfer_witness:
  "\<exists>t. HandleMessageSend sample_send sample = (t, Inr ()) \<and> balance [1] t = 70 \<and> balance [2] t = 80"
proof -
  have "balance [1] sample = 100" "balance [2] sample = 50"
    by (simp_all add: balance_def stored_account_def sample_defs)
  moreover have "accounts_ok sample_addresses sample" using sample_books by (simp add: books_on_def funds_ok_def)
  note r = send_refines_transfer [OF this _ _ _ run_ok [OF send_run]]
  have "(\<lambda>a. balance a (fst (HandleMessageSend sample_send sample))) = ledger_transfer [1] [2] 30 (\<lambda>a. balance a sample)"
    using r by (simp add: sample_send_def sample_addresses_def)
  then have "balance [1] (fst (HandleMessageSend sample_send sample)) = ledger_transfer [1] [2] 30 (\<lambda>a. balance a sample) [1]"
    "balance [2] (fst (HandleMessageSend sample_send sample)) = ledger_transfer [1] [2] 30 (\<lambda>a. balance a sample) [2]"
    by (simp_all add: fun_eq_iff)
  ultimately show ?thesis using run_ok [OF send_run] by (auto simp: ledger_transfer_def Let_def)
qed

text \<open>C16: A debit fails only because the account cannot spend the amount (vested tokens included), with
  the error that says so, and it then changes nothing.\<close>

theorem debit_fails_cleanly:
  assumes "accounts_ok A s" and "a \<in> A" and "AccountSub a n s = (t, Inl e)"
  shows "t = s \<and> e = ErrInsufficientFunds \<and> spendable a s < unat n"
  using AccountSub_err [OF assms] by simp

theorem debit_fails_cleanly_witness:
  "AccountSub [1] 101 sample = (sample, Inl ErrInsufficientFunds)"
proof -
  have "snd (AccountSub [1] 101 sample) = Inl ErrInsufficientFunds" by code_simp
  moreover have "accounts_ok sample_addresses sample" using sample_books by (simp add: books_on_def funds_ok_def)
  ultimately show ?thesis
    using debit_fails_cleanly [of sample_addresses sample "[1]" 101 "fst (AccountSub [1] 101 sample)" ErrInsufficientFunds]
    by (simp add: sample_addresses_def prod_eq_iff)
qed

text \<open>C17: The vested part of an account never shrinks as the chain grows, as long as the product in the
  formula fits 64 bits.\<close>

theorem vesting_grows:
  assumes "vesting_fits acc" and "h1 \<le> h2"
  shows "AccountVestedAmount h1 acc \<le> AccountVestedAmount h2 acc"
  by (rule vested_mono [OF assms])

theorem vesting_grows_witness:
  "AccountVestedAmount 20 \<lparr>acc_Address = [1], acc_Amount = 30, VestingAmount = 30, VestingStartHeight = 5,
      VestingCliffHeight = 5, VestingEndHeight = 100\<rparr> \<le>
   AccountVestedAmount 80 \<lparr>acc_Address = [1], acc_Amount = 30, VestingAmount = 30, VestingStartHeight = 5,
      VestingCliffHeight = 5, VestingEndHeight = 100\<rparr>"
  by (rule vesting_grows) (simp_all add: vesting_fits_def)

section \<open>Stakes and slashes\<close>










definition sample_set :: ValidatorSet where
  "sample_set = \<lparr>vs_Members = [\<lparr>cv_PublicKey = [3], cv_VotingPower = 40, cv_NetAddress = ''''\<rparr>],
     vs_TotalPower = 40, vs_MinimumMaj23 = 27, vs_NumValidators = 1\<rparr>"

definition sample_results :: CertificateResult where
  "sample_results = \<lparr>RewardRecipients = None, cr_NumberOfSamples = 0, SlashRecipients = None, cr_Orders = None,
     cr_Checkpoint = None, cr_Retired = False, cr_DexBatch = None, cr_RootDexBatch = None\<rparr>"

text \<open>Validator 3 signed twice at height 8, and does not sign this block.\<close>

definition sample_evidence :: CertificateResult where
  "sample_evidence = sample_results\<lparr>SlashRecipients := Some [Some \<lparr>ds_Id = [3], ds_Heights = [8]\<rparr>]\<rparr>"

text \<open>The punishment, one step after another.\<close>

definition sample_signature :: AggregateSignature where
  "sample_signature = \<lparr>as_Signature = [], as_Bitmap = [0]\<rparr>"

definition sample_params :: ValidatorParams where
  "sample_params = Params.Validator (DefaultParams 1000000)"

definition absence_counted :: StateMachine where
  "absence_counted = fst (IncrementNonSigners 1 [[3]] (sample\<lparr>cache_valParams := Some sample_params\<rparr>))"

lemma no_absences: "nonSigners s = [] \<Longrightarrow> SlashAndResetNonSigners c p s = (s, Inr ())"
  by (simp add: SlashAndResetNonSigners_def SetValidatorsPaused_def SlashNonSigners_def SlashValidators_def
      bindE_def op_simps)

lemma absence_found: "GetNonSigners sample_cfg (Some sample_signature) (vs_Members sample_set) = Inr ([[3]], 100)"
  by code_simp

lemma absence_run: "snd (IncrementNonSigners 1 [[3]] (sample\<lparr>cache_valParams := Some sample_params\<rparr>)) = Inr ()"
  by code_simp

lemma double_sign_run:
  "snd (HandleDoubleSigners 1 sample_params [Some \<lparr>ds_Id = [3], ds_Heights = [8]\<rparr>] absence_counted) = Inr ()"
  by code_simp

lemma byzantine_run:
  "snd (HandleByzantine 1 sample_evidence (Some sample_signature) (Some sample_set) sample) = Inr 100"
proof -
  let ?s = "sample\<lparr>cache_valParams := Some sample_params\<rparr>"
  have p: "GetParamsVal sample = (?s, Inr sample_params)"
    by (simp add: GetParamsVal_def sample_params_def sample_def)
  have h: "Height sample = 10" "NonSignWindow sample_params = 5" "Cfg sample = sample_cfg" "nonSigners sample = []"
    by (simp_all add: sample_def sample_params_def DefaultParams_def)
  have d: "SlashRecipients sample_evidence = Some [Some \<lparr>ds_Id = [3], ds_Heights = [8]\<rparr>]"
    by (simp add: sample_evidence_def)
  obtain t where t: "HandleDoubleSigners 1 sample_params [Some \<lparr>ds_Id = [3], ds_Heights = [8]\<rparr>] absence_counted = (t, Inr ())"
    using run_ok [OF double_sign_run] by blast
  have u: "IncrementNonSigners 1 [[3]] ?s = (absence_counted, Inr ())"
    using run_ok [OF absence_run] by (simp add: absence_counted_def)
  show ?thesis
    by (simp add: HandleByzantine_def bindE_def op_simps p h d no_absences absence_found u t)
qed

text \<open>C21: Punishing byzantine validators (non-signers at the end of their window and double signers) keeps
  the books: slashed tokens are burned, so the supply never grows, and stakes still match the tracker of
  every committee.\<close>

theorem slashing_keeps_books:
  assumes "books_on E A s" and "E \<subseteq> joint_entries"
    and "HandleByzantine chainId results sg vs s = (t, Inr pct)"
  shows "books_on E A t \<and> total_supply t \<le> total_supply s"
  using HandleByzantine_books [OF assms] by simp

theorem slashing_keeps_books_witness:
  "books_on joint_entries sample_addresses (fst (HandleByzantine 1 sample_evidence
     (Some sample_signature) (Some sample_set) sample))"
proof -
  have "books_on joint_entries sample_addresses sample" using sample_books by (simp add: books_on_def ledger_on_def)
  from slashing_keeps_books [OF this _ run_ok [OF byzantine_run]] show ?thesis by simp
qed

text \<open>Protocol version 2 counts slashes per committee.\<close>

definition scoped_sample :: StateMachine where
  "scoped_sample = sample\<lparr>params_cons := Some ((Consensus (DefaultParams 1000000))\<lparr>ProtocolVersion := NewProtocolVersion 0 2\<rparr>)\<rparr>"

lemma slash_run: "snd (SlashValidators [[3]] 1 20 sample_params scoped_sample) = Inr () \<and>
    slashTracker (fst (SlashValidators [[3]] 1 20 sample_params scoped_sample)) ([3], 1) = 15"
  by code_simp

text \<open>C22: However often a validator is slashed for one committee within a block, the percentages counted
  for it never pass the governed maximum.\<close>

theorem slashes_bounded:
  assumes "SlashValidators as chainId pct p s = (t, Inr ())" and "slashes_within p s"
  shows "slashes_within p t"
  by (rule SlashValidators_within [OF assms])

theorem slashes_bounded_witness:
  "slashes_within sample_params (fst (SlashValidators [[3]] 1 20 sample_params scoped_sample)) \<and>
   slashTracker (fst (SlashValidators [[3]] 1 20 sample_params scoped_sample)) ([3], 1) = 15"
proof -
  have "slashes_within sample_params scoped_sample"
    by (simp add: slashes_within_def scoped_sample_def sample_def)
  from slashes_bounded [OF run_ok [OF slash_run [THEN conjunct1]] this] show ?thesis using slash_run by simp
qed

section \<open>Minting\<close>






section \<open>Swaps\<close>



















section \<open>Buyers of sell orders\<close>

definition sample_memos :: memo_codec where
  "sample_memos = \<lparr>json_valid = (\<lambda>_. True), json_lock = (\<lambda>_. None),
     json_close = (\<lambda>_. Some \<lparr>com_OrderId = [5], com_ChainId = 1, com_CloseOrder = True\<rparr>)\<rparr>"

definition sample_payment :: MemoTx where
  "sample_payment = \<lparr>mt_MessageType = MessageSendName, mt_Memo = ''close'', mt_Fee = 20000,
     mt_Send = Some \<lparr>snd_FromAddress = [8], snd_ToAddress = [9], snd_Amount = 7, snd_VestingStartHeight = 0,
       snd_VestingCliffHeight = 0, snd_VestingEndHeight = 0\<rparr>\<rparr>"

lemma buyer_run:
  "snd (ProcessRootChainOrderBook sample_memos (\<lambda>_. None) (Some [sample_order [5] 30 [2], sample_order [6] 12 []])
     12 [sample_payment] sample) = Inr ([], [[5]], [])"
  by code_simp

text \<open>C27: The committee of the buyer's chain closes an order only when it was paid: the order is locked, its
  deadline has not passed, and one of the scanned transactions sends exactly the requested amount from the
  buyer to the seller.\<close>

theorem closed_orders_were_paid:
  assumes "ProcessRootChainOrderBook j load (Some os) bh proposal s = (t, Inr (locks, closes, resets))"
    and "i \<in> set closes"
  shows "\<exists>order \<in> set os. so_Id order = i \<and> BuyerReceiveAddress order \<noteq> [] \<and>
    Height s \<le> BuyerChainDeadline order \<and>
    (\<exists>tx \<in> set (concat (scanned_blocks load bh proposal)). \<exists>send. mt_Send tx = Some send \<and> pays_order order send)"
  by (rule closed_orders_paid [OF assms])

theorem closed_orders_were_paid_witness:
  "\<exists>tx \<in> set (concat (scanned_blocks (\<lambda>_. None) 12 [sample_payment])). mt_Send tx \<noteq> None"
  using closed_orders_were_paid [OF run_ok [OF buyer_run], of "[5]"] by auto

end
