(* ===== verification/Rules.thy ===== *)
theory Rules
  imports Gov Certificates Merkle Ethereum Samples
begin

text \<open>
  What the program promises about committees, quorum certificates, Merkle roots, encodings and
  governed parameters.  Each statement is followed by a concrete instance.
\<close>

section \<open>Committees\<close>









section \<open>Quorum certificates\<close>











text \<open>C32: The order of views by which the engine locks and unlocks is the lexicographic order of height,
  root height, round and phase, hence a strict total order on what it compares; a missing view is
  below every view and nothing is below a missing one.\<close>

theorem view_order_is_lexicographic:
  "View_Less (Some x) (Some v) = (view_rank x < view_rank v) \<and> View_Less None (Some v) \<and> \<not> View_Less y None"
  by (simp add: View_Less_rank) (cases y; simp add: View_Less_def)

section \<open>Merkle roots\<close>

text \<open>C33: The loop over one array computes the root of the binary tree over the padded leaves, where a node
  without a right child is paired with itself.\<close>

theorem merkle_loop_is_tree:
  assumes "2 ^ n < 2 * length items" and "length items \<le> 2 ^ n" and "n \<le> 32"
  shows "fst (MerkleTree H items) = (case tree H n (padded H n items) of None \<Rightarrow> [] | Some root \<Rightarrow> root)"
  by (rule MerkleTree_root [OF assms])

theorem merkle_loop_is_tree_witness: "fst (MerkleTree (\<lambda>x. x) [[1], [2], [3]]) = [1, 2, 3, 3]"
  using merkle_loop_is_tree [of 2 "[[1], [2], [3]]" "\<lambda>x. x"]
  by (simp add: padded_def parent_def numeral_2_eq_2)

text \<open>C34: A root commits to the list under it: for a hash of 32 bytes, two lists of the same length with one
  root are equal, or among the finitely many strings hashed for one and for the other there are two
  different ones with the same hash.\<close>

theorem merkle_root_commits:
  assumes "\<And>x. length (H x) = 32" and "2 ^ n < 2 * length xs" and "length xs \<le> 2 ^ n" and "n \<le> 32"
    and "length xs = length ys" and "fst (MerkleTree H xs) = fst (MerkleTree H ys)"
  shows "xs = ys \<or> (\<exists>x \<in> hashed_by H n xs. \<exists>y \<in> hashed_by H n ys. x \<noteq> y \<and> H x = H y)"
  using MerkleTree_binding [of H n xs ys] assms unfolding clash_def by blast

definition padding_hash :: "bytes \<Rightarrow> bytes" where
  "padding_hash b = take 32 (b @ replicate 32 0)"

theorem merkle_root_commits_witness:
  "\<exists>x \<in> hashed_by padding_hash 1 [[1], [2]]. \<exists>y \<in> hashed_by padding_hash 1 [[1], [2, 0]].
     x \<noteq> y \<and> padding_hash x = padding_hash y"
proof -
  have len: "length (padding_hash x) = 32" for x by (simp add: padding_hash_def)
  have same: "padding_hash [2, 0] = padding_hash [2]" by (simp add: padding_hash_def numeral_eq_Suc)
  have "fst (MerkleTree padding_hash [[1], [2]]) = fst (MerkleTree padding_hash [[1], [2, 0]])"
    using MerkleTree_root [of 1 "[[1], [2]]" padding_hash] MerkleTree_root [of 1 "[[1], [2, 0]]" padding_hash]
    by (simp add: padded_def same)
  from merkle_root_commits [OF len _ _ _ _ this, of 1] show ?thesis by simp
qed

section \<open>Encodings\<close>

text \<open>C35: Splitting a database key into its segments gives back the segments it was joined from, as long as each
  has less than 256 bytes, the most that its length byte can say.\<close>

theorem key_segments_roundtrip:
  assumes "\<forall>item \<in> set (segments items). length item < 256"
  shows "DecodeLengthPrefixed (JoinLenPrefix items) = Some (segments items)"
  using decode_from_Join [OF assms, of "[]"] by (simp add: DecodeLengthPrefixed_def)

theorem key_segments_roundtrip_witness:
  "DecodeLengthPrefixed (JoinLenPrefix [Some [1, 2], None, Some [], Some [3]]) = Some [[1, 2], [], [3]]"
  using key_segments_roundtrip [of "[Some [1, 2], None, Some [], Some [3]]"] by (simp add: List.map_filter_def)

text \<open>C36: The chain and network id that an Ethereum wallet sees as one number come back from it, when both fit
  32 bits.\<close>

theorem evm_chain_id_roundtrip:
  assumes "chainId < 2 ^ 32" and "networkId < 2 ^ 32"
  shows "EvmChainIdToCanopyIds (CanopyIdsToEVMChainId chainId networkId) = (chainId, networkId)"
  by (rule chain_ids_roundtrip [OF assms])

theorem evm_chain_id_roundtrip_witness: "EvmChainIdToCanopyIds (CanopyIdsToEVMChainId 7 1) = (7, 1)"
  by (rule evm_chain_id_roundtrip) simp_all

text \<open>C37: An amount shown to an Ethereum wallet with eighteen decimals comes back unchanged, below two to the
  power 63; from there on the conversion through a signed integer turns it negative and it is refused.\<close>

theorem wallet_amount_roundtrip:
  "DownscaleTo6DecimalsChecked (Some (UpscaleTo18Decimals a)) = (if unat a < 2 ^ 63 then Some a else None)"
proof (cases "unat a < 2 ^ 63")
  case False
  have range: "9223372036854775808 \<le> uint a" "uint a < 18446744073709551616"
    using False unsigned_less [of a, where 'a = nat] by (simp_all add: uint_nat del: of_nat_unat)
  then have "uint a div 9223372036854775808 = 1"
    by (intro int_div_pos_eq [where r = "uint a - 9223372036854775808"]) linarith+
  then have "sint a < 0" using range
    by (simp add: sint_uint signed_take_bit_eq_take_bit_minus bit_iff_odd take_bit_int_eq_self)
  then show ?thesis using False by (simp add: UpscaleTo18Decimals_def DownscaleTo6DecimalsChecked_def scaleFactor_def)
qed (simp add: decimals_roundtrip)

section \<open>Arithmetic\<close>

text \<open>C38: The integer square root, a Newton iteration in 64 bits, ends for every argument but the largest
  with the exact floor of the root.\<close>

theorem square_root_ends:
  assumes "n \<noteq> MaxUint64"
  shows "\<exists>r. IntSqrt n = Some r \<and> unat r * unat r \<le> unat n \<and> unat n < (unat r + 1) * (unat r + 1)"
  by (rule IntSqrt_some [OF assms])

theorem square_root_ends_witness: "\<exists>r. IntSqrt (2 ^ 64 - 2) = Some r \<and> unat r * unat r \<le> 18446744073709551614"
  using square_root_ends [of "2 ^ 64 - 2"] by auto

section \<open>Governed parameters\<close>

text \<open>C39: Whatever parameter a passed proposal sets, and whatever it sets it to, the parameters in the state
  still pass their checks afterwards.\<close>

theorem updates_keep_params_valid:
  assumes "params_valid s" and "UpdateParam sp k v s = (t, Inr ())"
  shows "params_valid t"
  using upholdsD [OF valid_UpdateParam assms] by simp

lemma update_run: "snd (UpdateParam ''gov'' ''daoRewardPercentage'' (UInt64Wrapper 10) sample) = Inr ()"
  by code_simp

theorem updates_keep_params_valid_witness:
  "params_valid (fst (UpdateParam ''gov'' ''daoRewardPercentage'' (UInt64Wrapper 10) sample))"
proof -
  have "Params_Check (Some (DefaultParams 1000000)) = Inr ()" by (rule DefaultParams_Check) (simp add: MaxBlockHeaderSize_def)
  then have "params_valid sample" by (simp add: params_valid_def sample_def Params_Check_def both_def split: sum.splits)
  from updates_keep_params_valid [OF this run_ok [OF update_run]] show ?thesis by simp
qed

text \<open>C40: When governance lowers the number of committees a validator may serve, every validator is cut down to
  the new maximum, and the books and every other invariant of the state survive the cut.\<close>

theorem lower_maximum_is_enforced:
  assumes "world E A n s" and "ConformStateToParamUpdate previousParams s = (t, Inr ())"
    and "GetParams s = (u, Inr params)"
    and "MaxCommittees (Validator params) < MaxCommittees (Validator previousParams)"
  shows "world E A n t \<and> committees_within (unat (MaxCommittees (Validator params))) t"
  using ConformState_trims [OF assms] upholdsD [OF world_ConformStateToParamUpdate assms(1,2)] by simp

definition trim_sample :: StateMachine where
  "trim_sample = sample\<lparr>params_val := Some ((Params.Validator (DefaultParams 1000000))\<lparr>MaxCommittees := 1\<rparr>)\<rparr>"

lemma trim_run: "snd (ConformStateToParamUpdate (DefaultParams 1000000) trim_sample) = Inr ()"
  by code_simp

lemma trim_world: "world UNIV sample_addresses 220 trim_sample"
proof -
  have books: "books_ok sample_addresses trim_sample"
    using sample_books by (simp add: trim_sample_def books_on_def funds_ok_def accounts_ok_def stored_account_def
        ledger_on_def all_entry recorded_def held_def account_total_def pool_total_def stake_total_def total_supply_def)
  have "keys_apart (Cfg trim_sample)"
    by (rule inj_keys_apart) (simp add: trim_sample_def sample_def sample_cfg_def inj_on_def)
  then have "remote_cache_ok sample_addresses trim_sample"
    by (simp add: remote_cache_ok_def trim_sample_def sample_def)
  moreover have "liquid trim_sample"
    by (auto simp: liquid_def points_ok_def GetPool_def trim_sample_def sample_defs points_total_def)
  ultimately show ?thesis
    using books by (auto simp: world_def dex_ok_def batches_ok_def vals_ok_def payouts_ok_def parties_ok_def
        total_supply_def trim_sample_def sample_defs)
qed

theorem lower_maximum_is_enforced_witness:
  "committees_within 1 (fst (ConformStateToParamUpdate (DefaultParams 1000000) trim_sample))"
proof -
  let ?p = "(DefaultParams 1000000)\<lparr>Validator := (Params.Validator (DefaultParams 1000000))\<lparr>MaxCommittees := 1\<rparr>\<rparr>"
  obtain u where "GetParams trim_sample = (u, Inr ?p)"
    by (simp add: GetParams_def GetParamsCons_def GetParamsVal_def GetParamsFee_def GetParamsGov_def bindE_def
        op_simps trim_sample_def sample_def)
  from lower_maximum_is_enforced [OF trim_world run_ok [OF trim_run] this] show ?thesis
    by (simp add: DefaultParams_def)
qed

end
