(* ===== verification/Consensus.thy ===== *)
theory Consensus
  imports Chain
begin

text \<open>
  The messages of the consensus engine and the checks a node makes before it stores one (bft/msg.go,
  lib/.proto/bft.proto, lib/consensus.go).  A replica votes with the certificate \<open>msg_Qc\<close> alone, so that its
  signature can be aggregated; a leader sends a header and justifies it with a certificate.  The part of
  the node behind the engine is the interface \<open>Controller\<close> of bft/bft.go, a record of functions here.
\<close>

abbreviation ErrUnknownConsensusMsg :: err where "ErrUnknownConsensusMsg \<equiv> NewError 9 ConsensusModule"
abbreviation ErrDuplicateVote :: err where "ErrDuplicateVote \<equiv> NewError 5 ConsensusModule"
abbreviation ErrUnableToAddSigner :: err where "ErrUnableToAddSigner \<equiv> NewError 32 ConsensusModule"
abbreviation ErrPartialSignatureEmpty :: err where "ErrPartialSignatureEmpty \<equiv> NewError 14 ConsensusModule"
abbreviation ErrInvalidBLSPublicKey :: err where "ErrInvalidBLSPublicKey \<equiv> NewError 7 ConsensusModule"
abbreviation ErrInvalidSignatureLength :: err where "ErrInvalidSignatureLength \<equiv> NewError 6 ConsensusModule"
abbreviation ErrInvalidPartialSignature :: err where "ErrInvalidPartialSignature \<equiv> NewError 15 ConsensusModule"
abbreviation ErrEmptyConsensusMessage :: err where "ErrEmptyConsensusMessage \<equiv> NewError 33 ConsensusModule"
abbreviation ErrNoSafeNodeJustification :: err where "ErrNoSafeNodeJustification \<equiv> NewError 51 ConsensusModule"
abbreviation ErrMismatchPublicKeys :: err where "ErrMismatchPublicKeys \<equiv> NewError 24 ConsensusModule"
abbreviation ErrMismatchedProposals :: err where "ErrMismatchedProposals \<equiv> NewError 29 ConsensusModule"
abbreviation ErrFailedSafeNodePredicate :: err where "ErrFailedSafeNodePredicate \<equiv> NewError 30 ConsensusModule"
abbreviation ErrAggregateSignature :: err where "ErrAggregateSignature \<equiv> NewError 26 ConsensusModule"
abbreviation ErrInvalidValidatorIndex :: err where "ErrInvalidValidatorIndex \<equiv> NewError 31 ConsensusModule"
abbreviation ErrValidatorNotInSet :: err where "ErrValidatorNotInSet \<equiv> NewError 10 ConsensusModule"
abbreviation ErrWrongCertHeight :: err where "ErrWrongCertHeight \<equiv> NewError 11 ConsensusModule"
abbreviation ErrNoSavedBlockOrResults :: err where "ErrNoSavedBlockOrResults \<equiv> NewError 52 StateMachineModule"
abbreviation ErrMismatchConsBlockHash :: err where "ErrMismatchConsBlockHash \<equiv> NewError 16 ConsensusModule"
abbreviation ErrInvalidRCBuildHeight :: err where "ErrInvalidRCBuildHeight \<equiv> NewError 38 ConsensusModule"
abbreviation ErrEmptyEvidence :: err where "ErrEmptyEvidence \<equiv> NewError 25 ConsensusModule"
abbreviation ErrInvalidEvidence :: err where "ErrInvalidEvidence \<equiv> NewError 35 ConsensusModule"
abbreviation ErrInvalidEvidenceHeights :: err where "ErrInvalidEvidenceHeights \<equiv> NewError 59 ConsensusModule"
abbreviation ErrNonEquivocatingVote :: err where "ErrNonEquivocatingVote \<equiv> NewError 58 ConsensusModule"
abbreviation ErrEvidenceTooOld :: err where "ErrEvidenceTooOld \<equiv> NewError 28 ConsensusModule"
abbreviation ErrMismatchEvidenceAndHeader :: err where "ErrMismatchEvidenceAndHeader \<equiv> NewError 36 ConsensusModule"
abbreviation ErrNonNilCertResults :: err where "ErrNonNilCertResults \<equiv> NewError 40 MainModule"

section \<open>Data\<close>

record DoubleSignEvidence =
  VoteA :: "QuorumCertificate option"
  VoteB :: "QuorumCertificate option"

record Message =
  msg_Header :: "View option"
  msg_Vrf :: "Signature option"
  msg_Qc :: "QuorumCertificate option"
  msg_HighQc :: "QuorumCertificate option"
  msg_LastDoubleSignEvidence :: "DoubleSignEvidence option list"
  msg_Vdf :: "VDF option"
  msg_Signature :: "Signature option"
  msg_Timestamp :: u64
  msg_RcBuildHeight :: u64

definition new_Message :: Message where
  "new_Message = \<lparr>msg_Header = None, msg_Vrf = None, msg_Qc = None, msg_HighQc = None,
     msg_LastDoubleSignEvidence = [], msg_Vdf = None, msg_Signature = None, msg_Timestamp = 0,
     msg_RcBuildHeight = 0\<rparr>"

definition new_QC :: QuorumCertificate where
  "new_QC = \<lparr>qc_Header = None, qc_Results = None, qc_ResultsHash = [], qc_Block = [], qc_BlockHash = [],
     qc_ProposerKey = [], qc_Signature = None\<rparr>"

text \<open>What \<open>HandleMessage\<close> is called with: a consensus message, possibly nil, or another protobuf message.\<close>

datatype proto = ConsensusMsg "Message option" | OtherMsg

text \<open>
  Third-party encodings and the BLS multi-signature: \<open>MarshalQC\<close> and its like are protobuf, \<open>NewMask\<close> is the
  empty signer mask of \<open>n\<close> keys, \<open>SetBit\<close> enables a signer, \<open>Aggregate\<close> combines the signatures collected
  for the keys of a mask.  \<open>VerifyProof\<close> checks a delay function, \<open>UnderCutoff\<close> compares a hash with a fraction
  of the stake in floating point, and \<open>SignVRF\<close> signs with the own key.
\<close>

record bft_codec =
  MarshalMessage :: "Message \<Rightarrow> bytes"
  MarshalQC :: "QuorumCertificate \<Rightarrow> bytes"
  MarshalDSE :: "DoubleSignEvidence \<Rightarrow> bytes"
  NewMask :: "nat \<Rightarrow> bytes"
  SetBit :: "nat \<Rightarrow> bytes \<Rightarrow> nat \<Rightarrow> bytes option"
  Aggregate :: "bytes list \<Rightarrow> (nat \<rightharpoonup> bytes) \<Rightarrow> bytes \<Rightarrow> bytes option"
  VerifyProof :: "bytes \<Rightarrow> VDF \<Rightarrow> bool"
  UnderCutoff :: "u64 \<Rightarrow> u64 \<Rightarrow> u64 \<Rightarrow> bytes \<Rightarrow> bool"
  SignVRF :: "bytes \<Rightarrow> Signature"

record Controller =
  ChainHeight :: u64
  RootChainHeight :: u64
  ProduceProposal ::
    "DoubleSignEvidence option list \<Rightarrow> VDF option \<Rightarrow> (u64 \<times> bytes \<times> CertificateResult option) \<times> (err + unit)"
  ValidateProposal :: "u64 \<Rightarrow> QuorumCertificate \<Rightarrow> DoubleSignEvidence option list \<Rightarrow> err + BlockResult"
  con_LoadCertificate :: "u64 \<Rightarrow> err + QuorumCertificate option"
  con_LoadRootChainId :: "u64 \<Rightarrow> u64"
  con_LoadCommittee :: "u64 \<Rightarrow> u64 \<Rightarrow> err + ValidatorSet"
  LoadCommitteeData :: "err + CommitteeData"
  LoadLastProposers :: "u64 \<Rightarrow> err + address list"
  LoadMinimumEvidenceHeight :: "u64 \<Rightarrow> u64 \<Rightarrow> err + u64"
  IsValidDoubleSigner :: "u64 \<Rightarrow> u64 \<Rightarrow> address \<Rightarrow> bool"
  con_LoadMaxBlockSize :: nat
  con_Syncing :: bool

section \<open>Validators\<close>

text \<open>The zero set that a failed \<open>LoadCommittee\<close> returns has no members; \<open>NewValidatorSet\<close> never gives one.\<close>

definition no_validators :: ValidatorSet where
  "no_validators = \<lparr>vs_Members = [], vs_TotalPower = 0, vs_MinimumMaj23 = 0, vs_NumValidators = 0\<rparr>"

definition GetValidatorAndIdx :: "ValidatorSet \<Rightarrow> bytes \<Rightarrow> err + ConsensusValidator \<times> nat" where
  "GetValidatorAndIdx vs targetPublicKey =
     (if vs_Members vs = [] then Inl ErrInvalidValidatorIndex
      else case find (\<lambda>(i, v). cv_PublicKey v = targetPublicKey) (enumerate 0 (vs_Members vs)) of
             Some (i, v) \<Rightarrow> Inr (v, i)
           | None \<Rightarrow> Inl ErrValidatorNotInSet)"

definition vs_GetValidator :: "ValidatorSet \<Rightarrow> bytes \<Rightarrow> err + ConsensusValidator" where
  "vs_GetValidator vs publicKey =
     (case GetValidatorAndIdx vs publicKey of Inl e \<Rightarrow> Inl e | Inr (val, _) \<Rightarrow> Inr val)"

section \<open>Kinds of messages\<close>

definition IsReplicaMessage :: "Message \<Rightarrow> bool" where
  "IsReplicaMessage x =
     (case (msg_Qc x, msg_Header x) of
        (Some q, None) \<Rightarrow>
          (case qc_Header q of
             None \<Rightarrow> False
           | Some h \<Rightarrow> vw_Phase h = ELECTION_VOTE \<or> vw_Phase h = PROPOSE_VOTE \<or> vw_Phase h = PRECOMMIT_VOTE)
      | _ \<Rightarrow> False)"

definition IsProposerMessage :: "Message \<Rightarrow> bool" where
  "IsProposerMessage x =
     (case msg_Header x of
        None \<Rightarrow> False
      | Some h \<Rightarrow> vw_Phase h = ELECTION \<or> vw_Phase h = PROPOSE \<or> vw_Phase h = PRECOMMIT \<or> vw_Phase h = COMMIT)"

definition IsPacemakerMessage :: "Message \<Rightarrow> bool" where
  "IsPacemakerMessage x =
     (case msg_Qc x of
        None \<Rightarrow> False
      | Some q \<Rightarrow> (case qc_Header q of None \<Rightarrow> False | Some h \<Rightarrow> vw_Phase h = ROUND_INTERRUPT))"

section \<open>Signatures\<close>

definition QuorumCertificate_SignBytes :: "bft_codec \<Rightarrow> QuorumCertificate \<Rightarrow> bytes" where
  "QuorumCertificate_SignBytes bc x =
     (if (case qc_Header x of Some h \<Rightarrow> vw_Phase h = ELECTION_VOTE | None \<Rightarrow> False) then
        MarshalQC bc (new_QC\<lparr>qc_Header := qc_Header x, qc_ProposerKey := qc_ProposerKey x\<rparr>)
      else MarshalQC bc (x\<lparr>qc_Results := None, qc_Block := [], qc_Signature := None\<rparr>))"

definition Message_SignBytes :: "bft_codec \<Rightarrow> Message \<Rightarrow> bytes" where
  "Message_SignBytes bc x =
     (if IsProposerMessage x then
        let msg = new_Message\<lparr>msg_Header := msg_Header x, msg_Vrf := msg_Vrf x, msg_HighQc := msg_HighQc x,
              msg_LastDoubleSignEvidence := msg_LastDoubleSignEvidence x\<rparr> in
        MarshalMessage bc
          (case msg_Qc x of
             None \<Rightarrow> msg
           | Some q \<Rightarrow> msg\<lparr>msg_Qc := Some (new_QC\<lparr>qc_Header := qc_Header q, qc_BlockHash := qc_BlockHash q,
               qc_ResultsHash := qc_ResultsHash q, qc_ProposerKey := qc_ProposerKey q,
               qc_Signature := qc_Signature q\<rparr>)\<rparr>)
      else if IsReplicaMessage x then
        (case msg_Qc x of
           None \<Rightarrow> []
         | Some q \<Rightarrow> QuorumCertificate_SignBytes bc
             (new_QC\<lparr>qc_Header := qc_Header q, qc_BlockHash := qc_BlockHash q,
               qc_ResultsHash := qc_ResultsHash q, qc_ProposerKey := qc_ProposerKey q\<rparr>))
      else if IsPacemakerMessage x then MarshalMessage bc (new_Message\<lparr>msg_Header := msg_Header x\<rparr>)
      else [])"

definition checkSignatureBasic :: "Signature option \<Rightarrow> err + unit" where
  "checkSignatureBasic signature =
     (case signature of
        None \<Rightarrow> Inl ErrPartialSignatureEmpty
      | Some sg \<Rightarrow>
          if length (sig_PublicKey sg) = 0 \<or> length (sig_Signature sg) = 0 then Inl ErrPartialSignatureEmpty
          else if length (sig_PublicKey sg) \<noteq> 48 then Inl ErrInvalidBLSPublicKey
          else if length (sig_Signature sg) \<noteq> 96 then Inl ErrInvalidSignatureLength
          else Inr ())"

definition checkSignature :: "Config \<Rightarrow> wire \<Rightarrow> Signature option \<Rightarrow> bytes \<Rightarrow> err + unit" where
  "checkSignature cfg w signature signBytes =
     (case checkSignatureBasic signature of
        Inl e \<Rightarrow> Inl e
      | Inr _ \<Rightarrow>
          let sg = the signature in
          if AddressOf cfg (sig_PublicKey sg) = None then Inl ErrPubKeyFromBytes
          else if \<not> VerifyBytes w (sig_PublicKey sg) signBytes (sig_Signature sg)
            then Inl ErrInvalidPartialSignature
          else Inr ())"

section \<open>Checks of a message\<close>

text \<open>An empty hash stands for nil, as a failed \<open>BytesToBlockHash\<close> leaves it.\<close>

record validateMessageParams =
  vp_view :: View
  vp_vals :: ValidatorSet
  vp_rootHeight :: u64
  vp_height :: u64
  vp_cHeightUpdated :: u64
  vp_blockHash :: bytes
  vp_resultsHash :: bytes

definition BlockToHash :: "wire \<Rightarrow> bytes \<Rightarrow> bytes" where
  "BlockToHash w blk = (case block_hash (Codec w) blk of Inl _ \<Rightarrow> [] | Inr hash \<Rightarrow> hash)"

text \<open>\<open>Results.Hash()\<close>, which nil results have too.\<close>

definition Results_Hash :: "Config \<Rightarrow> wire \<Rightarrow> CertificateResult option \<Rightarrow> bytes" where
  "Results_Hash cfg w x = (case x of None \<Rightarrow> HashOf cfg [] | Some r \<Rightarrow> hash_results (Codec w) r)"

definition Message_checkBasic :: "Config \<Rightarrow> wire \<Rightarrow> bft_codec \<Rightarrow> Message \<Rightarrow> View \<Rightarrow> err + unit" where
  "Message_checkBasic cfg w bc x view =
     (case View_Check (msg_Header x) view False of
        Inl e \<Rightarrow> Inl e
      | Inr _ \<Rightarrow> checkSignature cfg w (msg_Signature x) (Message_SignBytes bc x))"

definition check_election_message :: "Message \<Rightarrow> validateMessageParams \<Rightarrow> err + unit" where
  "check_election_message x p =
     (if vw_Height (the (msg_Header x)) \<noteq> vp_height p then Inl ErrWrongCertHeight
      else case checkSignatureBasic (msg_Vrf x) of
        Inl e \<Rightarrow> Inl e
      | Inr _ \<Rightarrow>
          if sig_PublicKey (the (msg_Signature x)) \<noteq> sig_PublicKey (the (msg_Vrf x)) then Inl ErrMismatchPublicKeys
          else Inr ())"

text \<open>The checks of a justified leader message once its certificate has a two-thirds majority.\<close>

definition check_justified :: "Message \<Rightarrow> QuorumCertificate \<Rightarrow> validateMessageParams \<Rightarrow> err + unit" where
  "check_justified x q p =
     (if vw_Height (the (msg_Header x)) \<noteq> vp_height p then Inl ErrWrongCertHeight
      else if vw_Height (the (qc_Header q)) < vp_cHeightUpdated p then Inl ErrInvalidQCCommitteeHeight
      else if vw_Phase (the (msg_Header x)) = PROPOSE then
        (if qc_ProposerKey q \<noteq> sig_PublicKey (the (msg_Signature x)) then Inl ErrInvalidSigner
         else if qc_Block q = [] then Inl ErrNilBlock
         else if qc_Results q = None then Inl ErrNilCertResults
         else Inr ())
      else if vp_blockHash p = [] \<or> vp_resultsHash p = [] then Inl ErrNoSavedBlockOrResults
      else if qc_BlockHash q \<noteq> vp_blockHash p then Inl ErrMismatchConsBlockHash
      else if qc_ResultsHash q \<noteq> vp_resultsHash p then Inl ErrMismatchResultsHash
      else Inr ())"

definition committee_of_qc :: "Controller \<Rightarrow> QuorumCertificate \<Rightarrow> validateMessageParams \<Rightarrow> err + ValidatorSet" where
  "committee_of_qc con q p =
     (let h = the (qc_Header q) in
      if vw_RootHeight h \<noteq> vp_rootHeight p
      then con_LoadCommittee con (con_LoadRootChainId con (vw_Height h)) (vw_RootHeight h)
      else Inr (vp_vals p))"

text \<open>\<open>Inr True\<close>: the message carries a partial certificate, which is kept as possible evidence.\<close>

definition CheckProposerMessage ::
  "Config \<Rightarrow> wire \<Rightarrow> bft_codec \<Rightarrow> Controller \<Rightarrow> Message \<Rightarrow> validateMessageParams \<Rightarrow> err + bool" where
  "CheckProposerMessage cfg w bc con x p =
     (case Message_checkBasic cfg w bc x (vp_view p) of
        Inl e \<Rightarrow> Inl e
      | Inr _ \<Rightarrow>
          if vw_Phase (the (msg_Header x)) = ELECTION then
            (case check_election_message x p of Inl e \<Rightarrow> Inl e | Inr _ \<Rightarrow> Inr False)
          else case QuorumCertificate_CheckBasic (Codec w) (msg_Qc x) of
            Inl e \<Rightarrow> Inl e
          | Inr _ \<Rightarrow>
              let q = the (msg_Qc x) in
              (case committee_of_qc con q p of
                 Inl e \<Rightarrow> Inl e
               | Inr vals \<Rightarrow>
                   (case QuorumCertificate_Check cfg (Codec w) (Some q) vals (con_LoadMaxBlockSize con) (vp_view p) False of
                      Inl e \<Rightarrow> Inl e
                    | Inr isPartialQC \<Rightarrow>
                        if vw_RootHeight (the (qc_Header q)) \<noteq> vp_rootHeight p then
                          (if isPartialQC then Inr True else Inl ErrWrongRootHeight)
                        else if isPartialQC then Inr True
                        else case check_justified x q p of Inl e \<Rightarrow> Inl e | Inr _ \<Rightarrow> Inr False)))"

definition CheckReplicaMessage ::
  "Config \<Rightarrow> wire \<Rightarrow> bft_codec \<Rightarrow> Message option \<Rightarrow> validateMessageParams \<Rightarrow> err + unit" where
  "CheckReplicaMessage cfg w bc x p =
     (case x of
        None \<Rightarrow> Inl ErrEmptyConsensusMessage
      | Some x \<Rightarrow>
     (case msg_Qc x of
        None \<Rightarrow> Inl ErrEmptyQuorumCertificate
      | Some q \<Rightarrow>
     (case checkSignature cfg w (msg_Signature x) (Message_SignBytes bc x) of
        Inl e \<Rightarrow> Inl e
      | Inr _ \<Rightarrow>
     (case View_Check (qc_Header q) (vp_view p) True of
        Inl e \<Rightarrow> Inl e
      | Inr _ \<Rightarrow>
          if IsPacemakerMessage x then Inr ()
          else if vw_Phase (the (qc_Header q)) = ELECTION_VOTE then
            (if length (qc_ProposerKey q) \<noteq> 48 then Inl ErrInvalidSigner else Inr ())
          else if vp_blockHash p = [] \<and> qc_BlockHash q \<noteq> BlockToHash w (qc_Block q) then Inl ErrMismatchQCBlockHash
          else if vp_blockHash p \<noteq> [] \<and> qc_BlockHash q \<noteq> vp_blockHash p then Inl ErrMismatchConsBlockHash
          else if qc_ResultsHash q \<noteq> vp_resultsHash p then Inl ErrMismatchResultsHash
          else Inr ()))))"

section \<open>What the checks let through\<close>

lemma checkSignature_accepts:
  "checkSignature cfg w sg sb = Inr () \<longleftrightarrow> (\<exists>s. sg = Some s \<and> length (sig_PublicKey s) = 48 \<and>
     length (sig_Signature s) = 96 \<and> AddressOf cfg (sig_PublicKey s) \<noteq> None \<and>
     VerifyBytes w (sig_PublicKey s) sb (sig_Signature s))"
  by (cases sg) (auto simp: checkSignature_def checkSignatureBasic_def Let_def)

text \<open>A leader message that is not partial carries a certificate of the own committee with two thirds.\<close>

lemma CheckProposerMessage_justified:
  assumes "CheckProposerMessage cfg w bc con x p = Inr False" and "vw_Phase (the (msg_Header x)) \<noteq> ELECTION"
  obtains q h v where "msg_Qc x = Some q" and "qc_Header q = Some h" and "msg_Header x = Some v"
    and "vw_RootHeight h = vp_rootHeight p" and "vw_Height v = vp_height p" and "vp_cHeightUpdated p \<le> vw_Height h"
    and "QuorumCertificate_Check cfg (Codec w) (Some q) (vp_vals p) (con_LoadMaxBlockSize con) (vp_view p) False = Inr False"
    and "check_justified x q p = Inr ()"
proof -
  obtain q where q: "msg_Qc x = Some q"
    using assms by (cases "msg_Qc x")
      (auto simp: CheckProposerMessage_def QuorumCertificate_CheckBasic_def split: sum.splits)
  obtain vals where c: "committee_of_qc con q p = Inr vals"
    "QuorumCertificate_Check cfg (Codec w) (Some q) vals (con_LoadMaxBlockSize con) (vp_view p) False = Inr False"
    "vw_RootHeight (the (qc_Header q)) = vp_rootHeight p" "check_justified x q p = Inr ()"
    using assms q by (auto simp: CheckProposerMessage_def Let_def split: sum.splits if_splits)
  have v: "View_Check (msg_Header x) (vp_view p) False = Inr ()"
    using assms(1) by (auto simp: CheckProposerMessage_def Message_checkBasic_def split: sum.splits)
  then obtain v where "msg_Header x = Some v" by (cases "msg_Header x") (auto simp: View_Check_def)
  moreover obtain h where "qc_Header q = Some h"
    using c(2) by (cases "qc_Header q") (auto simp: QuorumCertificate_Check_def Let_def View_Check_def split: sum.splits)
  ultimately show thesis
    using c q by (intro that [of q h v]) (auto simp: committee_of_qc_def check_justified_def Let_def not_less split: if_splits)
qed

lemma CheckReplicaMessage_accepts:
  assumes "CheckReplicaMessage cfg w bc (Some x) p = Inr ()"
  obtains q h s where "msg_Qc x = Some q" and "qc_Header q = Some h" and "msg_Signature x = Some s"
    and "VerifyBytes w (sig_PublicKey s) (Message_SignBytes bc x) (sig_Signature s)"
    and "vw_Height h = vw_Height (vp_view p)" and "vw_RootHeight h = vw_RootHeight (vp_view p)"
    and "vw_ChainId h = vw_ChainId (vp_view p)" and "vw_NetworkId h = vw_NetworkId (vp_view p)"
proof -
  obtain q where q: "msg_Qc x = Some q" using assms by (cases "msg_Qc x") (auto simp: CheckReplicaMessage_def)
  have c: "checkSignature cfg w (msg_Signature x) (Message_SignBytes bc x) = Inr ()"
    "View_Check (qc_Header q) (vp_view p) True = Inr ()"
    using assms q by (auto simp: CheckReplicaMessage_def split: sum.splits)
  from c(1) obtain s where "msg_Signature x = Some s"
    "VerifyBytes w (sig_PublicKey s) (Message_SignBytes bc x) (sig_Signature s)"
    by (auto simp: checkSignature_accepts)
  moreover obtain h where "qc_Header q = Some h" using c(2) by (cases "qc_Header q") (auto simp: View_Check_def)
  ultimately show thesis using q c(2) by (intro that [of q h s]) (auto simp: View_Check_def split: if_splits)
qed

text \<open>
  The signature of a pacemaker message does not cover its view: \<open>SignBytes\<close> takes the header of the
  message, which a pacemaker message leaves empty, and not the header of its certificate.
\<close>

lemma pacemaker_sign_bytes:
  assumes "IsPacemakerMessage x" and "msg_Header x = None"
  shows "Message_SignBytes bc x = MarshalMessage bc new_Message"
proof -
  have "\<not> IsProposerMessage x" "\<not> IsReplicaMessage x"
    using assms by (auto simp: IsPacemakerMessage_def IsProposerMessage_def IsReplicaMessage_def split: option.splits)
  with assms show ?thesis by (simp add: Message_SignBytes_def new_Message_def)
qed

lemma pacemaker_round_forgeable:
  assumes "CheckReplicaMessage cfg w bc (Some x) p = Inr ()"
    and "IsPacemakerMessage x" and "msg_Header x = None" and "msg_Qc x = Some q" and "qc_Header q = Some h"
  shows "CheckReplicaMessage cfg w bc
    (Some (x\<lparr>msg_Qc := Some (q\<lparr>qc_Header := Some (h\<lparr>vw_Round := r\<rparr>)\<rparr>)\<rparr>)) p = Inr ()"
proof -
  let ?x = "x\<lparr>msg_Qc := Some (q\<lparr>qc_Header := Some (h\<lparr>vw_Round := r\<rparr>)\<rparr>)\<rparr>"
  have p: "IsPacemakerMessage ?x" "msg_Header ?x = None"
    using assms by (simp_all add: IsPacemakerMessage_def)
  have "Message_SignBytes bc ?x = Message_SignBytes bc x"
    using pacemaker_sign_bytes [OF p] pacemaker_sign_bytes [OF assms(2,3)] by simp
  with assms p show ?thesis
    by (auto simp: CheckReplicaMessage_def View_Check_def split: sum.splits option.splits if_splits)
qed

end
