(* ===== verification/Evidence.thy ===== *)
theory Evidence
  imports Consensus
begin

text \<open>
  Evidence of double signing (bft/evidence.go): two certificates of the same view with different payloads.
  Evidence is checked against the committee of its view, its common signers become double signers, and a
  proposal may slash only what the evidence sent with it justifies.  \<open>AddDSE\<close> strips block and results
  of the two certificates in place, so it returns the evidence as it leaves it.
\<close>

section \<open>Data\<close>

record DoubleSignEvidences =
  dse_Evidence :: "DoubleSignEvidence option list"
  dse_DeDuplicator :: "bytes list"

text \<open>What the engine is run with: configuration, encodings and the third-party code behind them.\<close>

record engine_env =
  ee_Cfg :: Config
  ee_Wire :: wire
  ee_Codec :: bft_codec

definition NewDSE :: "DoubleSignEvidence option list \<Rightarrow> DoubleSignEvidences" where
  "NewDSE dse = \<lparr>dse_Evidence = dse, dse_DeDuplicator = []\<rparr>"

section \<open>Checks\<close>

definition DoubleSignEvidence_CheckBasic :: "DoubleSignEvidence option \<Rightarrow> err + unit" where
  "DoubleSignEvidence_CheckBasic x =
     (case x of
        None \<Rightarrow> Inl ErrEmptyEvidence
      | Some x \<Rightarrow>
          (case (VoteA x, VoteB x) of
             (Some a, Some b) \<Rightarrow>
               if qc_Header a = None \<or> qc_Header b = None then Inl ErrEmptyQuorumCertificate
               else if \<not> View_Equals (qc_Header a) (qc_Header b) then Inl ErrMismatchEvidenceAndHeader
               else Inr ()
           | _ \<Rightarrow> Inl ErrEmptyQuorumCertificate))"

definition DoubleSignEvidence_Check ::
  "engine_env \<Rightarrow> DoubleSignEvidence \<Rightarrow> ValidatorSet \<Rightarrow> View \<Rightarrow> u64 \<Rightarrow> err + unit" where
  "DoubleSignEvidence_Check E x vs view minimumEvidenceHeight =
     (let a = the (VoteA x); b = the (VoteB x); cfg = ee_Cfg E; c = Codec (ee_Wire E) in
      if vw_RootHeight (the (qc_Header a)) < minimumEvidenceHeight then Inl ErrEvidenceTooOld
      else if qc_Block a \<noteq> [] \<or> qc_Block b \<noteq> [] then Inl ErrNonNilBlock
      else if qc_Results a \<noteq> None \<or> qc_Results b \<noteq> None then Inl ErrNonNilCertResults
      else case QuorumCertificate_Check cfg c (Some a) vs 0 view False of
        Inl e \<Rightarrow> Inl e
      | Inr _ \<Rightarrow>
          (case QuorumCertificate_Check cfg c (Some b) vs 0 view False of
             Inl e \<Rightarrow> Inl e
           | Inr _ \<Rightarrow>
               if \<not> View_Equals (qc_Header a) (qc_Header b) then Inl ErrInvalidEvidenceHeights
               else if QuorumCertificate_SignBytes (ee_Codec E) b = QuorumCertificate_SignBytes (ee_Codec E) a
                 then Inl ErrNonEquivocatingVote
               else if phase_number (vw_Phase (the (qc_Header a))) \<le> phase_number PROPOSE then Inl ErrWrongPhase
               else Inr ()))"

section \<open>Double signers\<close>

definition AddHeight :: "u64 \<Rightarrow> DoubleSigner \<Rightarrow> DoubleSigner" where
  "AddHeight height x = (if height \<in> set (ds_Heights x) then x else x\<lparr>ds_Heights := ds_Heights x @ [height]\<rparr>)"

text \<open>A double signer is added to the results, or its height to the entry that is there already.\<close>

fun add_signer :: "bytes \<Rightarrow> u64 \<Rightarrow> DoubleSigner list \<Rightarrow> DoubleSigner list" where
  "add_signer pubKey height [] = [\<lparr>ds_Id = pubKey, ds_Heights = [height]\<rparr>]"
| "add_signer pubKey height (d # ds) =
     (if ds_Id d = pubKey then AddHeight height d # ds else d # add_signer pubKey height ds)"

fun collect_valid ::
  "engine_env \<Rightarrow> Controller \<Rightarrow> u64 \<Rightarrow> u64 \<Rightarrow> bytes list \<Rightarrow> DoubleSigner list \<Rightarrow> err + DoubleSigner list" where
  "collect_valid E con rootChainId committeeHeight [] results = Inr results"
| "collect_valid E con rootChainId committeeHeight (pubKey # ds) results =
     (case AddressOf (ee_Cfg E) pubKey of
        None \<Rightarrow> Inl ErrPubKeyFromBytes
      | Some a \<Rightarrow>
          collect_valid E con rootChainId committeeHeight ds
            (if IsValidDoubleSigner con rootChainId committeeHeight a
             then add_signer pubKey committeeHeight results else results))"

definition process_one ::
  "engine_env \<Rightarrow> Controller \<Rightarrow> View \<Rightarrow> DoubleSignEvidence option \<Rightarrow> DoubleSigner list \<Rightarrow> err + DoubleSigner list" where
  "process_one E con view x results =
     (case DoubleSignEvidence_CheckBasic x of
        Inl e \<Rightarrow> Inl e
      | Inr _ \<Rightarrow>
          let x = the x; a = the (VoteA x); b = the (VoteB x);
              committeeHeight = vw_RootHeight (the (qc_Header a));
              rootChainId = con_LoadRootChainId con (committeeHeight - 1) in
          (case con_LoadCommittee con rootChainId committeeHeight of
             Inl e \<Rightarrow> Inl e
           | Inr vs \<Rightarrow>
          (case LoadMinimumEvidenceHeight con rootChainId committeeHeight of
             Inl e \<Rightarrow> Inl e
           | Inr minEvidenceHeight \<Rightarrow>
          (case DoubleSignEvidence_Check E x vs view minEvidenceHeight of
             Inl e \<Rightarrow> Inl e
           | Inr _ \<Rightarrow>
               if QuorumCertificate_SignBytes (ee_Codec E) b = QuorumCertificate_SignBytes (ee_Codec E) a
               then Inl ErrNonEquivocatingVote
               else case GetDoubleSigners (ee_Cfg E) (the (qc_Signature a)) (the (qc_Signature b)) vs of
                 Inl e \<Rightarrow> Inl e
               | Inr signers2 \<Rightarrow> collect_valid E con rootChainId committeeHeight signers2 results))))"

fun process_all ::
  "engine_env \<Rightarrow> Controller \<Rightarrow> View \<Rightarrow> DoubleSignEvidence option list \<Rightarrow> DoubleSigner list \<Rightarrow> err + DoubleSigner list" where
  "process_all E con view [] results = Inr results"
| "process_all E con view (x # xs) results =
     (case process_one E con view x results of Inl e \<Rightarrow> Inl e | Inr rs \<Rightarrow> process_all E con view xs rs)"

definition ProcessDSE ::
  "engine_env \<Rightarrow> Controller \<Rightarrow> View \<Rightarrow> DoubleSignEvidence option list \<Rightarrow> err + DoubleSigner list" where
  "ProcessDSE E con view dse = process_all E con view dse []"

definition strip_qc :: "QuorumCertificate \<Rightarrow> QuorumCertificate" where
  "strip_qc q = q\<lparr>qc_Block := [], qc_Results := None\<rparr>"

definition strip_evidence :: "DoubleSignEvidence \<Rightarrow> DoubleSignEvidence" where
  "strip_evidence x = x\<lparr>VoteA := map_option strip_qc (VoteA x), VoteB := map_option strip_qc (VoteB x)\<rparr>"

text \<open>The collection, the evidence as it is left behind, and the error.\<close>

definition AddDSE ::
  "engine_env \<Rightarrow> Controller \<Rightarrow> View \<Rightarrow> DoubleSignEvidences \<Rightarrow> DoubleSignEvidence option \<Rightarrow>
     DoubleSignEvidences \<times> DoubleSignEvidence option \<times> (err + unit)" where
  "AddDSE E con view e ev =
     (case DoubleSignEvidence_CheckBasic ev of
        Inl er \<Rightarrow> (e, ev, Inl er)
      | Inr _ \<Rightarrow>
          let ev = strip_evidence (the ev) in
          (case ProcessDSE E con view [Some ev] of
             Inl er \<Rightarrow> (e, Some ev, Inl er)
           | Inr badSigners \<Rightarrow>
               if badSigners = [] then (e, Some ev, Inl ErrInvalidEvidence)
               else let key1 = MarshalDSE (ee_Codec E) ev in
                 if key1 \<in> set (dse_DeDuplicator e) then (e, Some ev, Inr ())
                 else (e\<lparr>dse_Evidence := dse_Evidence e @ [Some ev],
                     dse_DeDuplicator := key1 # dse_DeDuplicator e\<rparr>, Some ev, Inr ())))"

text \<open>A slash of a proposal is justified by a double signer with its key and all its heights.\<close>

definition justified_slash :: "DoubleSigner list \<Rightarrow> DoubleSigner \<Rightarrow> bool" where
  "justified_slash signers2 ds \<longleftrightarrow>
     list_ex (\<lambda>signer. ds_Id ds = ds_Id signer \<and> list_all (\<lambda>h. h \<in> set (ds_Heights signer)) (ds_Heights ds)) signers2"

fun check_slashes :: "DoubleSigner list \<Rightarrow> DoubleSigner option list \<Rightarrow> err + unit" where
  "check_slashes signers2 [] = Inr ()"
| "check_slashes signers2 (None # dss) = Inl ErrEmptyDoubleSigner"
| "check_slashes signers2 (Some ds # dss) =
     (if justified_slash signers2 ds then check_slashes signers2 dss else Inl ErrMismatchEvidenceAndHeader)"

definition ValidateByzantineEvidence ::
  "engine_env \<Rightarrow> Controller \<Rightarrow> View \<Rightarrow> DoubleSigner option list option \<Rightarrow> DoubleSignEvidence option list \<Rightarrow> err + unit" where
  "ValidateByzantineEvidence E con view slashRecipients be =
     (case slashRecipients of
        None \<Rightarrow> Inr ()
      | Some dss \<Rightarrow>
          if dss = [] then Inr ()
          else case ProcessDSE E con view be of
            Inl e \<Rightarrow> Inl e
          | Inr signers2 \<Rightarrow> check_slashes signers2 dss)"

section \<open>What evidence proves\<close>

text \<open>
  Member \<open>k\<close> of the committee of the view is enabled in the signer masks of two valid certificates of that
  view, after its proposal phase, with different payloads.
\<close>

definition signed_twice :: "engine_env \<Rightarrow> Controller \<Rightarrow> View \<Rightarrow> DoubleSignEvidence \<Rightarrow> u64 \<Rightarrow> bytes \<Rightarrow> bool" where
  "signed_twice E con view x rootHeight pubKey \<longleftrightarrow>
     (\<exists>a b h vs sa sb bma bmb pa pb k. VoteA x = Some a \<and> VoteB x = Some b \<and> qc_Header a = Some h \<and>
        View_Equals (Some h) (qc_Header b) \<and> vw_RootHeight h = rootHeight \<and>
        phase_number PROPOSE < phase_number (vw_Phase h) \<and>
        QuorumCertificate_SignBytes (ee_Codec E) a \<noteq> QuorumCertificate_SignBytes (ee_Codec E) b \<and>
        con_LoadCommittee con (con_LoadRootChainId con (rootHeight - 1)) rootHeight = Inr vs \<and>
        qc_Signature a = Some sa \<and> qc_Signature b = Some sb \<and>
        AggregateSignature_Check (ee_Cfg E) (Some sa) (sign_bytes (Codec (ee_Wire E)) a) vs = Inr pa \<and>
        AggregateSignature_Check (ee_Cfg E) (Some sb) (sign_bytes (Codec (ee_Wire E)) b) vs = Inr pb \<and>
        SetMask (ee_Cfg E) (length (vs_Members vs)) (as_Bitmap sa) = Some bma \<and>
        SetMask (ee_Cfg E) (length (vs_Members vs)) (as_Bitmap sb) = Some bmb \<and>
        k < length (vs_Members vs) \<and> cv_PublicKey (vs_Members vs ! k) = pubKey \<and> enabled bma k \<and> enabled bmb k)"

lemma collect_double_members:
  assumes "collect_double n bm bm2 i ms ds = Inr es" and "pk \<in> set es"
  shows "pk \<in> set ds \<or> (\<exists>j < length ms. cv_PublicKey (ms ! j) = pk \<and> enabled bm (i + j) \<and> enabled bm2 (i + j))"
  using assms
proof (induction ms arbitrary: i ds)
  case (Cons v ms)
  obtain x where x: "SignerEnabledAt n bm i = Inr x" using Cons.prems(1) by (cases "SignerEnabledAt n bm i") auto
  have "\<exists>ds'. collect_double n bm bm2 (Suc i) ms ds' = Inr es \<and>
      (set ds' \<subseteq> set ds \<or> (set ds' = insert (cv_PublicKey v) (set ds) \<and> enabled bm i \<and> enabled bm2 i))"
    using Cons.prems(1) x SignerEnabledAt_Inr [OF x] SignerEnabledAt_Inr [of n bm2 i]
    by (cases x) (auto split: sum.splits if_splits)
  then obtain ds' where d: "collect_double n bm bm2 (Suc i) ms ds' = Inr es"
    "set ds' \<subseteq> set ds \<or> (set ds' = insert (cv_PublicKey v) (set ds) \<and> enabled bm i \<and> enabled bm2 i)" by blast
  from Cons.IH [OF d(1) Cons.prems(2)] show ?case
  proof
    assume "pk \<in> set ds'"
    with d(2) show ?thesis by (auto intro: exI [of _ 0])
  next
    assume "\<exists>j < length ms. cv_PublicKey (ms ! j) = pk \<and> enabled bm (Suc i + j) \<and> enabled bm2 (Suc i + j)"
    then obtain j where "j < length ms" "cv_PublicKey (ms ! j) = pk" "enabled bm (Suc i + j)" "enabled bm2 (Suc i + j)" by blast
    then show ?thesis by (intro disjI2 exI [of _ "Suc j"]) simp
  qed
qed simp

lemma QuorumCertificate_Check_signature:
  "QuorumCertificate_Check cfg c (Some q) vs mx view eh = Inr p \<Longrightarrow>
     AggregateSignature_Check cfg (qc_Signature q) (sign_bytes c q) vs = Inr p"
  by (auto simp: QuorumCertificate_Check_def Let_def split: sum.splits if_splits)

lemma AggregateSignature_Check_Some: "AggregateSignature_Check cfg sg sb vs = Inr p \<Longrightarrow> \<exists>s. sg = Some s"
  by (cases sg) (auto simp: AggregateSignature_Check_def AggregateSignature_CheckBasic_def)

lemma double_signers_signed:
  assumes b: "DoubleSignEvidence_CheckBasic (Some x) = Inr ()"
    and vs: "con_LoadCommittee con (con_LoadRootChainId con (vw_RootHeight (the (qc_Header (the (VoteA x)))) - 1))
      (vw_RootHeight (the (qc_Header (the (VoteA x))))) = Inr vs"
    and c: "DoubleSignEvidence_Check E x vs view m = Inr ()"
    and d: "GetDoubleSigners (ee_Cfg E) (the (qc_Signature (the (VoteA x)))) (the (qc_Signature (the (VoteB x)))) vs = Inr es"
    and pk: "pk \<in> set es"
  shows "signed_twice E con view x (vw_RootHeight (the (qc_Header (the (VoteA x))))) pk"
proof -
  obtain va vb h where x: "VoteA x = Some va" "VoteB x = Some vb" "qc_Header va = Some h" "View_Equals (Some h) (qc_Header vb)"
    using b by (auto simp: DoubleSignEvidence_CheckBasic_def split: option.splits if_splits)
  obtain pa pb where q: "QuorumCertificate_Check (ee_Cfg E) (Codec (ee_Wire E)) (Some va) vs 0 view False = Inr pa"
    "QuorumCertificate_Check (ee_Cfg E) (Codec (ee_Wire E)) (Some vb) vs 0 view False = Inr pb"
    and n: "QuorumCertificate_SignBytes (ee_Codec E) vb \<noteq> QuorumCertificate_SignBytes (ee_Codec E) va"
      "phase_number PROPOSE < phase_number (vw_Phase h)"
    using c x by (auto simp: DoubleSignEvidence_Check_def Let_def not_le simp del: phase_number.simps split: sum.splits if_splits)
  note a = q [THEN QuorumCertificate_Check_signature]
  from a [THEN AggregateSignature_Check_Some] obtain sa sb where s: "qc_Signature va = Some sa" "qc_Signature vb = Some sb" by blast
  obtain bma bmb where m: "SetMask (ee_Cfg E) (length (vs_Members vs)) (as_Bitmap sa) = Some bma"
    "SetMask (ee_Cfg E) (length (vs_Members vs)) (as_Bitmap sb) = Some bmb"
    "collect_double (length (vs_Members vs)) bma bmb 0 (vs_Members vs) [] = Inr es"
    using d by (auto simp: GetDoubleSigners_def x s Let_def split: option.splits)
  from collect_double_members [OF m(3) pk] obtain k where "k < length (vs_Members vs)"
    "cv_PublicKey (vs_Members vs ! k) = pk" "enabled bma k" "enabled bmb k" by auto
  with x n s m a vs show ?thesis unfolding signed_twice_def by auto
qed

text \<open>Adding a signer keeps what is justified: every height of every entry has its proof.\<close>

definition all_proved :: "(u64 \<Rightarrow> bytes \<Rightarrow> bool) \<Rightarrow> DoubleSigner list \<Rightarrow> bool" where
  "all_proved P ds \<longleftrightarrow> (\<forall>d \<in> set ds. \<forall>h \<in> set (ds_Heights d). P h (ds_Id d))"

lemma all_proved_add: "all_proved P ds \<Longrightarrow> P h pk \<Longrightarrow> all_proved P (add_signer pk h ds)"
  by (induction ds) (auto simp: all_proved_def AddHeight_def)

lemma all_proved_collect:
  "collect_valid E con r h pks ds = Inr es \<Longrightarrow> all_proved P ds \<Longrightarrow> (\<And>pk. pk \<in> set pks \<Longrightarrow> P h pk) \<Longrightarrow> all_proved P es"
proof (induction pks arbitrary: ds)
  case (Cons pk pks)
  then show ?case by (auto intro: all_proved_add split: option.splits if_splits)
qed simp

lemma process_one_proved:
  assumes "process_one E con view x ds = Inr es" and "all_proved P ds"
    and "\<And>y h pk. x = Some y \<Longrightarrow> signed_twice E con view y h pk \<Longrightarrow> P h pk"
  shows "all_proved P es"
proof -
  obtain y where y: "x = Some y" "DoubleSignEvidence_CheckBasic (Some y) = Inr ()"
    using assms(1) by (cases x) (auto simp: process_one_def DoubleSignEvidence_CheckBasic_def split: sum.splits)
  let ?h = "vw_RootHeight (the (qc_Header (the (VoteA y))))"
  obtain vs m pks where s: "con_LoadCommittee con (con_LoadRootChainId con (?h - 1)) ?h = Inr vs"
    "DoubleSignEvidence_Check E y vs view m = Inr ()"
    "GetDoubleSigners (ee_Cfg E) (the (qc_Signature (the (VoteA y)))) (the (qc_Signature (the (VoteB y)))) vs = Inr pks"
    "collect_valid E con (con_LoadRootChainId con (?h - 1)) ?h pks ds = Inr es"
    using assms(1) by (auto simp: process_one_def y Let_def split: sum.splits if_splits)
  show ?thesis
    by (rule all_proved_collect [OF s(4) assms(2)])
      (rule assms(3) [OF y(1)], rule double_signers_signed [OF y(2) s(1-3)])
qed

lemma process_all_proved:
  assumes "process_all E con view xs ds = Inr es" and "all_proved P ds"
    and "\<And>y h pk. Some y \<in> set xs \<Longrightarrow> signed_twice E con view y h pk \<Longrightarrow> P h pk"
  shows "all_proved P es"
  using assms
proof (induction xs arbitrary: ds)
  case (Cons x xs)
  then obtain rs where rs: "process_one E con view x ds = Inr rs" "process_all E con view xs rs = Inr es"
    by (auto split: sum.splits)
  have "all_proved P rs"
    by (rule process_one_proved [OF rs(1) Cons.prems(2)]) (rule Cons.prems(3), auto)
  then show ?case
    by (rule Cons.IH [OF rs(2)]) (rule Cons.prems(3), auto)
qed simp

lemma check_slashes_justified:
  "check_slashes signers2 dss = Inr () \<Longrightarrow> Some ds \<in> set dss \<Longrightarrow> justified_slash signers2 ds"
  by (induction signers2 dss rule: check_slashes.induct) (auto split: if_splits)

lemma accepted_slashes_proved:
  assumes "ValidateByzantineEvidence E con view (Some dss) be = Inr ()" and "Some ds \<in> set dss" and "h \<in> set (ds_Heights ds)"
  shows "\<exists>x. Some x \<in> set be \<and> signed_twice E con view x h (ds_Id ds)"
proof -
  have ne: "dss \<noteq> []" using assms(2) by auto
  then obtain es where p: "process_all E con view be [] = Inr es" "check_slashes es dss = Inr ()"
    using assms(1) by (auto simp: ValidateByzantineEvidence_def ProcessDSE_def split: sum.splits)
  have "all_proved (\<lambda>h pk. \<exists>x. Some x \<in> set be \<and> signed_twice E con view x h pk) es"
    by (rule process_all_proved [OF p(1)]) (auto simp: all_proved_def)
  with check_slashes_justified [OF p(2) assms(2)] assms(3) show ?thesis
    by (fastforce simp: justified_slash_def list_ex_iff list_all_iff all_proved_def)
qed

text \<open>Evidence that is added stays added, and nothing is added twice under one encoding.\<close>

lemma AddDSE_strips:
  "DoubleSignEvidence_CheckBasic (Some ev) = Inr () \<Longrightarrow>
     fst (snd (AddDSE E con view e (Some ev))) = Some (strip_evidence ev)"
  by (auto simp: AddDSE_def Let_def split: sum.splits)

end
