(* ===== verification/Election.thy ===== *)
theory Election
  imports Consensus
begin

text \<open>
  Leader election (bft/election.go, lib/consensus.go): the seed, the candidacy of a validator, the choice
  among candidates by the smallest hash, and the stake-weighted fallback without candidates.  The
  comparison of a hash with the cutoff is floating point and the parameter \<open>UnderCutoff\<close>.
\<close>

section \<open>Data\<close>

record SortitionData =
  sd_LastProposerAddresses :: "address list"
  sd_RootHeight :: u64
  sd_Height :: u64
  sd_Round :: u64
  sd_TotalValidators :: u64
  sd_TotalPower :: u64
  sd_VotingPower :: u64

record VRFCandidate =
  vrf_PublicKey :: bytes
  vrf_Out :: bytes

definition maxCandidates :: u64 where "maxCandidates = 10"
definition minCandidates :: u64 where "minCandidates = 1"
definition percentOfValidatorsAsCandidates :: u64 where "percentOfValidatorsAsCandidates = 10"

section \<open>Sortition\<close>

definition string_bytes :: "string \<Rightarrow> bytes" where
  "string_bytes = map (\<lambda>c. of_nat (of_char c))"

definition FormatInputIntoSeed :: "Config \<Rightarrow> address list \<Rightarrow> u64 \<Rightarrow> u64 \<Rightarrow> u64 \<Rightarrow> bytes" where
  "FormatInputIntoSeed cfg lastProposerAddresses rootHeight height rnd =
     HashOf cfg (string_bytes (concat (map (\<lambda>a. BytesToString a @ ''/'') lastProposerAddresses) @
       digits (unat rootHeight) @ ''/'' @ digits (unat height) @ ''/'' @ digits (unat rnd)))"

definition sortition_seed :: "Config \<Rightarrow> SortitionData \<Rightarrow> bytes" where
  "sortition_seed cfg p =
     FormatInputIntoSeed cfg (sd_LastProposerAddresses p) (sd_RootHeight p) (sd_Height p) (sd_Round p)"

definition expectedCandidates :: "u64 \<Rightarrow> u64" where
  "expectedCandidates totalValidators =
     (let candidates = Uint64Percentage totalValidators percentOfValidatorsAsCandidates in
      if candidates < minCandidates then minCandidates
      else if maxCandidates < candidates then maxCandidates
      else candidates)"

definition IsCandidate :: "bft_codec \<Rightarrow> u64 \<Rightarrow> u64 \<Rightarrow> u64 \<Rightarrow> bytes \<Rightarrow> bool" where
  "IsCandidate bc votingPower totalVotingPower expected vrfOut =
     (if totalVotingPower = 0 \<or> expected = 0 then False
      else UnderCutoff bc votingPower totalVotingPower expected vrfOut)"

definition sortition :: "Config \<Rightarrow> bft_codec \<Rightarrow> u64 \<Rightarrow> u64 \<Rightarrow> u64 \<Rightarrow> bytes \<Rightarrow> bytes \<times> bool" where
  "sortition cfg bc votingPower totalPower totalValidators signature =
     (let out = HashOf cfg signature in
      (out, IsCandidate bc votingPower totalPower (expectedCandidates totalValidators) out))"

definition VRF :: "Config \<Rightarrow> bft_codec \<Rightarrow> SortitionData \<Rightarrow> Signature" where
  "VRF cfg bc p = SignVRF bc (sortition_seed cfg p)"

definition Sortition :: "Config \<Rightarrow> bft_codec \<Rightarrow> SortitionData \<Rightarrow> bytes \<times> Signature \<times> bool" where
  "Sortition cfg bc p =
     (let vrf = VRF cfg bc p;
          (out, isCandidate) = sortition cfg bc (sd_VotingPower p) (sd_TotalPower p) (sd_TotalValidators p) (sig_Signature vrf)
      in (out, vrf, isCandidate))"

definition VerifyCandidate :: "Config \<Rightarrow> wire \<Rightarrow> bft_codec \<Rightarrow> SortitionData \<Rightarrow> bytes \<Rightarrow> bytes \<Rightarrow> bytes \<times> bool" where
  "VerifyCandidate cfg w bc p signature publicKey =
     (if \<not> VerifyBytes w publicKey (sortition_seed cfg p) signature then ([], False)
      else sortition cfg bc (sd_VotingPower p) (sd_TotalPower p) (sd_TotalValidators p) signature)"

section \<open>The stake-weighted fallback\<close>

definition Uint64_of_bytes :: "bytes \<Rightarrow> u64" where
  "Uint64_of_bytes b = foldl (\<lambda>n x. 256 * n + ucast x) 0 (take 8 b)"

text \<open>The member on whose tokens the index falls, counted from \<open>powerCount\<close>; the last one as a failsafe.\<close>

fun token_owner :: "u64 \<Rightarrow> u64 \<Rightarrow> ConsensusValidator list \<Rightarrow> ConsensusValidator option" where
  "token_owner powerIndex powerCount [] = None"
| "token_owner powerIndex powerCount (v # vs) =
     (let powerCount = powerCount + cv_VotingPower v in
      if powerIndex < powerCount then Some v else token_owner powerIndex powerCount vs)"

definition WeightedPseudorandom :: "Config \<Rightarrow> SortitionData \<Rightarrow> ConsensusValidator list \<Rightarrow> err + bytes" where
  "WeightedPseudorandom cfg p vs =
     (let seedUint64 = Uint64_of_bytes (take 16 (sortition_seed cfg p)) in
      if sd_TotalPower p = 0 then Inl Panic
      else case token_owner (seedUint64 mod sd_TotalPower p) 0 vs of
             Some v \<Rightarrow> Inr (KeyBytes cfg (cv_PublicKey v))
           | None \<Rightarrow> if vs = [] then Inl Panic else Inr (KeyBytes cfg (cv_PublicKey (List.last vs))))"

section \<open>The choice among candidates\<close>

text \<open>\<open>big.Int.SetBytes\<close>, big-endian.\<close>

definition big_of_bytes :: "bytes \<Rightarrow> nat" where
  "big_of_bytes = foldl (\<lambda>n x. 256 * n + unat x) 0"

definition candidate_number :: "Config \<Rightarrow> VRFCandidate \<Rightarrow> nat" where
  "candidate_number cfg c = big_of_bytes (HashOf cfg (vrf_Out c))"

fun smallest_candidate :: "Config \<Rightarrow> VRFCandidate list \<Rightarrow> (nat \<times> bytes) option \<Rightarrow> (nat \<times> bytes) option" where
  "smallest_candidate cfg [] smallest = smallest"
| "smallest_candidate cfg (c # cs) smallest =
     smallest_candidate cfg cs
       (case smallest of
          None \<Rightarrow> Some (candidate_number cfg c, vrf_PublicKey c)
        | Some (n, k) \<Rightarrow>
            if candidate_number cfg c < n then Some (candidate_number cfg c, vrf_PublicKey c) else Some (n, k))"

definition SelectProposerFromCandidates ::
  "Config \<Rightarrow> VRFCandidate list \<Rightarrow> SortitionData option \<Rightarrow> ConsensusValidator list \<Rightarrow> err + bytes" where
  "SelectProposerFromCandidates cfg cs data vs =
     (if cs = [] then (case data of None \<Rightarrow> Inl Panic | Some d \<Rightarrow> WeightedPseudorandom cfg d vs)
      else case smallest_candidate cfg cs None of None \<Rightarrow> Inr [] | Some (_, k) \<Rightarrow> Inr k)"

section \<open>Bounds and choice\<close>

lemma expectedCandidates_bounds: "1 \<le> expectedCandidates n" "expectedCandidates n \<le> 10"
proof -
  have "x \<noteq> 0 \<Longrightarrow> 1 \<le> x" for x :: u64 by (simp add: word_le_nat_alt unat_gt_0 Suc_le_eq)
  then show "1 \<le> expectedCandidates n" "expectedCandidates n \<le> 10"
    by (simp_all add: expectedCandidates_def minCandidates_def maxCandidates_def Let_def not_less)
qed

lemma smallest_candidate_least:
  "smallest_candidate cfg cs acc = Some (n, k) \<Longrightarrow>
     (\<forall>c \<in> set cs. n \<le> candidate_number cfg c) \<and> (\<forall>m j. acc = Some (m, j) \<longrightarrow> n \<le> m) \<and>
     (acc = Some (n, k) \<or> (\<exists>c \<in> set cs. vrf_PublicKey c = k \<and> candidate_number cfg c = n))"
proof (induction cs arbitrary: acc)
  case (Cons c cs)
  from Cons.prems Cons.IH show ?case
    by (cases acc) (fastforce split: prod.splits if_splits)+
qed simp

lemma smallest_candidate_Some: "acc \<noteq> None \<Longrightarrow> \<exists>n k. smallest_candidate cfg cs acc = Some (n, k)"
  by (induction cs arbitrary: acc) (auto split: prod.splits)

lemma SelectProposer_least:
  assumes "cs \<noteq> []"
  shows "\<exists>c \<in> set cs. SelectProposerFromCandidates cfg cs d vs = Inr (vrf_PublicKey c) \<and>
    (\<forall>c' \<in> set cs. candidate_number cfg c \<le> candidate_number cfg c')"
proof -
  obtain c cs' where cs: "cs = c # cs'" using assms by (cases cs) auto
  obtain n k where nk: "smallest_candidate cfg cs None = Some (n, k)"
    using smallest_candidate_Some [of "Some (candidate_number cfg c, vrf_PublicKey c)" cfg cs'] by (auto simp: cs)
  with smallest_candidate_least [OF nk] assms show ?thesis
    by (auto simp: SelectProposerFromCandidates_def)
qed

section \<open>The fallback is proportional to stake\<close>

text \<open>Every member owns as many token indices as it has voting power, so a uniform index is a fair draw.\<close>

lemma token_owner_interval:
  assumes "unat p + power_total vs < 18446744073709551616" and "unat p \<le> unat i" and "unat i < unat p + power_total vs"
  shows "\<exists>us v ws. vs = us @ v # ws \<and> token_owner i p vs = Some v \<and>
    unat p + power_total us \<le> unat i \<and> unat i < unat p + power_total us + unat (cv_VotingPower v)"
  using assms
proof (induction vs arbitrary: p)
  case (Cons v vs)
  have q: "unat (p + cv_VotingPower v) = unat p + unat (cv_VotingPower v)"
    using Cons.prems(1) by (intro unat_add_u64) simp
  show ?case
  proof (cases "i < p + cv_VotingPower v")
    case True
    with Cons.prems q show ?thesis by (intro exI [of _ "[]"]) (auto simp: word_less_nat_alt)
  next
    case False
    then have le: "unat (p + cv_VotingPower v) \<le> unat i" by (simp add: word_less_nat_alt)
    obtain us u ws where "vs = us @ u # ws" "token_owner i (p + cv_VotingPower v) vs = Some u"
      "unat (p + cv_VotingPower v) + power_total us \<le> unat i"
      "unat i < unat (p + cv_VotingPower v) + power_total us + unat (cv_VotingPower u)"
      using Cons.IH [of "p + cv_VotingPower v"] Cons.prems le by (auto simp: q)
    with False q show ?thesis by (intro exI [of _ "v # us"] exI [of _ u] exI [of _ ws]) simp
  qed
qed simp

lemma power_total_append: "power_total (us @ vs) = power_total us + power_total vs"
  by (simp add: power_total_def)

lemma token_owner_nth:
  assumes small: "power_total vs < 18446744073709551616" and v: "vs = us @ v # ws"
    and i: "power_total us \<le> unat i" "unat i < power_total us + unat (cv_VotingPower v)"
  shows "token_owner i 0 vs = Some v"
proof -
  have "token_owner i p (us' @ v # ws) = Some v"
    if "unat p + power_total us' = power_total us" "unat p + power_total (us' @ v # ws) = power_total vs" for p us'
    using that
  proof (induction us' arbitrary: p)
    case Nil
    then have "unat (p + cv_VotingPower v) = unat p + unat (cv_VotingPower v)"
      using small by (intro unat_add_u64) (simp add: v power_total_append)
    with Nil i show ?case by (simp add: word_less_nat_alt)
  next
    case (Cons u us')
    then have q: "unat (p + cv_VotingPower u) = unat p + unat (cv_VotingPower u)"
      using small by (intro unat_add_u64) (simp add: v power_total_append)
    moreover have "unat p + unat (cv_VotingPower u) \<le> unat i" using Cons.prems(1) i(1) by simp
    ultimately show ?case
      using Cons.IH [of "p + cv_VotingPower u"] Cons.prems by (simp add: word_less_nat_alt)
  qed
  from this [of 0 us] show ?thesis by (simp add: v)
qed

lemma distinct_split_unique:
  assumes "distinct (map f (us @ v # ws))" and "us @ v # ws = us' @ v # ws'"
  shows "us = us'"
proof -
  have "length us = length us'"
    using assms nth_eq_iff_index_eq [of "us @ v # ws" "length us" "length us'"]
    by (metis distinct_map length_append length_Cons less_add_Suc1 add_Suc_right nth_append_length)
  with assms(2) show ?thesis by simp
qed

lemma token_owner_share:
  assumes small: "power_total vs < 18446744073709551616" and v: "v \<in> set vs" and d: "distinct (map cv_PublicKey vs)"
  shows "card {n. n < power_total vs \<and> token_owner (of_nat n) 0 vs = Some v} = unat (cv_VotingPower v)"
proof -
  obtain us ws where s: "vs = us @ v # ws" using v by (meson split_list)
  have "{n. n < power_total vs \<and> token_owner (of_nat n) 0 vs = Some v} =
      {power_total us ..< power_total us + unat (cv_VotingPower v)}"
  proof (intro set_eqI iffI)
    fix n assume "n \<in> {n. n < power_total vs \<and> token_owner (of_nat n) 0 vs = Some v}"
    then have n: "n < power_total vs" "token_owner (of_nat n) 0 vs = Some v" by auto
    then have u: "unat (of_nat n :: u64) = n" using small by (intro unat_of_nat_u64) simp
    obtain us' v' ws' where s': "vs = us' @ v' # ws'" "token_owner (of_nat n) 0 vs = Some v'"
      "power_total us' \<le> n" "n < power_total us' + unat (cv_VotingPower v')"
      using token_owner_interval [of 0 vs "of_nat n"] small n u by auto
    have "v' = v" using n s' by simp
    have "us = us'"
      by (rule distinct_split_unique [of cv_PublicKey us v ws us' ws'])
        (use d s s'(1) \<open>v' = v\<close> in \<open>simp only: s'(1) s\<close>)+
    with s' \<open>v' = v\<close> show "n \<in> {power_total us ..< power_total us + unat (cv_VotingPower v)}" by simp
  next
    fix n assume n: "n \<in> {power_total us ..< power_total us + unat (cv_VotingPower v)}"
    then have lt: "n < power_total vs" by (simp add: s power_total_append)
    then have u: "unat (of_nat n :: u64) = n" using small by (intro unat_of_nat_u64) simp
    have "token_owner (of_nat n) 0 vs = Some v" by (rule token_owner_nth [OF small s]) (use n u in auto)
    with lt show "n \<in> {n. n < power_total vs \<and> token_owner (of_nat n) 0 vs = Some v}" by simp
  qed
  then show ?thesis by simp
qed

end
