(* ===== verification/Engine.thy ===== *)
theory Engine
  imports Evidence Election "HOL-Library.AList"
begin

text \<open>
  The consensus engine of a node (bft/bft.go, bft/vote.go, bft/prop.go): votes and proposals as they
  arrive, the phases of a round, round interrupts, the pacemaker, locks and the timer.  Certificates that
  the Go code shares by pointer (a stored proposal, the lock, a partial certificate) live in a heap and are
  referred to by number, because phases write through these pointers.  What a phase sends is appended to
  \<open>b_outbox\<close>.  A Go map that is ranged over is an association list in the order of the iteration.
\<close>

section \<open>Data\<close>

record VoteSet =
  vset_Vote :: Message
  TotalVotedPower :: u64
  vset_keys :: "bytes list"
  vset_mask :: bytes
  vset_signatures :: "nat \<rightharpoonup> bytes"

record Proposal =
  prop_Msg :: Message
  prop_Qc :: "nat option"

datatype effect =
    SendToReplicas "ConsensusValidator list" Message
  | SendToProposer bytes Message
  | SelfSendBlock QuorumCertificate u64
  | GossipBlock QuorumCertificate bytes u64
  | StartVDF bytes
  | ResetFSM

text \<open>Phase timeouts in milliseconds, a Go \<open>int\<close> each.\<close>

record Timeouts =
  NewHeightTimeoutMs :: u64
  ElectionTimeoutMS :: u64
  ElectionVoteTimeoutMS :: u64
  ProposeTimeoutMS :: u64
  ProposeVoteTimeoutMS :: u64
  PrecommitTimeoutMS :: u64
  PrecommitVoteTimeoutMS :: u64
  CommitTimeoutMS :: u64
  RoundInterruptTimeoutMS :: u64

record BFT =
  b_View :: View
  b_Votes :: "((u64 \<times> Phase \<times> bytes) \<times> VoteSet) list"
  b_Proposals :: "u64 \<rightharpoonup> (Phase \<rightharpoonup> Proposal list)"
  b_ProposerKey :: bytes
  b_ValidatorSet :: ValidatorSet
  b_CommitteeData :: "CommitteeData option"
  b_HighQC :: "nat option"
  b_RCBuildHeight :: u64
  b_Block :: bytes
  b_BlockHash :: bytes
  b_Results :: "CertificateResult option"
  b_BlockResult :: "BlockResult option"
  b_SortitionData :: "SortitionData option"
  b_HighVDF :: "VDF option"
  b_VDFOutput :: "VDF option"
  b_VDFCache :: "Message list"
  b_DSE :: DoubleSignEvidences
  b_PartialQCs :: "(bytes \<times> nat) list"
  b_PacemakerMessages :: "(bytes \<times> Message) list"
  b_PublicKey :: bytes
  b_RunVDF :: bool
  b_Timeouts :: Timeouts
  b_PhaseTimer :: "u64 option"
  b_heap :: "nat \<Rightarrow> QuorumCertificate"
  b_next :: nat
  b_outbox :: "effect list"

type_synonym 'a engine = "(BFT, err, 'a) op"

definition emit :: "effect \<Rightarrow> unit engine" where
  "emit x = writes (\<lambda>b. b\<lparr>b_outbox := b_outbox b @ [x]\<rparr>)"

definition alloc :: "QuorumCertificate \<Rightarrow> nat engine" where
  "alloc q = (\<lambda>b. (b\<lparr>b_heap := (b_heap b)(b_next b := q), b_next := Suc (b_next b)\<rparr>, Inr (b_next b)))"

definition store_qc :: "nat \<Rightarrow> (QuorumCertificate \<Rightarrow> QuorumCertificate) \<Rightarrow> unit engine" where
  "store_qc r f = writes (\<lambda>b. b\<lparr>b_heap := (b_heap b)(r := f (b_heap b r))\<rparr>)"

text \<open>\<open>b.View.Phase\<close> and \<open>b.View.Round\<close>, and the numbers next to a phase.\<close>

definition cur_phase :: "BFT \<Rightarrow> Phase" where "cur_phase b = vw_Phase (b_View b)"
definition cur_round :: "BFT \<Rightarrow> u64" where "cur_round b = vw_Round (b_View b)"

definition set_phase :: "Phase \<Rightarrow> BFT \<Rightarrow> BFT" where
  "set_phase ph b = b\<lparr>b_View := (b_View b)\<lparr>vw_Phase := ph\<rparr>\<rparr>"

definition phases :: "Phase list" where
  "phases = [UNKNOWN, ELECTION, ELECTION_VOTE, PROPOSE, PROPOSE_VOTE, PRECOMMIT, PRECOMMIT_VOTE, COMMIT,
     COMMIT_PROCESS, ROUND_INTERRUPT, PACEMAKER]"

definition phase_after :: "Phase \<Rightarrow> Phase option" where
  "phase_after p = (if p = PACEMAKER then None else Some (phases ! (phase_number p + 1)))"

definition phase_before :: "Phase \<Rightarrow> Phase option" where
  "phase_before p = (if p = UNKNOWN then None else Some (phases ! (phase_number p - 1)))"

definition New_BFT :: "u64 \<Rightarrow> u64 \<Rightarrow> u64 \<Rightarrow> u64 \<Rightarrow> bytes \<Rightarrow> Timeouts \<Rightarrow> bool \<Rightarrow> BFT" where
  "New_BFT networkId chainId rootHeight height publicKey timeouts runVDF =
     \<lparr>b_View = \<lparr>vw_NetworkId = networkId, vw_ChainId = chainId, vw_Height = height, vw_RootHeight = rootHeight,
        vw_Round = 0, vw_Phase = UNKNOWN\<rparr>,
      b_Votes = [], b_Proposals = Map.empty, b_ProposerKey = [], b_ValidatorSet = no_validators,
      b_CommitteeData = None, b_HighQC = None, b_RCBuildHeight = 0, b_Block = [], b_BlockHash = [],
      b_Results = None, b_BlockResult = None, b_SortitionData = None,
      b_HighVDF = Some \<lparr>vdf_Proof = [], vdf_Output = [], vdf_Iterations = 0\<rparr>, b_VDFOutput = None,
      b_VDFCache = [], b_DSE = NewDSE [], b_PartialQCs = [], b_PacemakerMessages = [], b_PublicKey = publicKey,
      b_RunVDF = runVDF, b_Timeouts = timeouts, b_PhaseTimer = None, b_heap = (\<lambda>_. new_QC), b_next = 0,
      b_outbox = []\<rparr>"

section \<open>Hashes of the proposal\<close>

text \<open>The block hash is cached; the cache is not reset where the block is.\<close>

definition GetBlockHash :: "engine_env \<Rightarrow> bytes engine" where
  "GetBlockHash E =
     bindE (writes (\<lambda>b. if b_BlockHash b = [] then b\<lparr>b_BlockHash := BlockToHash (ee_Wire E) (b_Block b)\<rparr> else b))
       (\<lambda>_. reads b_BlockHash)"

definition results_hash :: "engine_env \<Rightarrow> BFT \<Rightarrow> bytes" where
  "results_hash E b = Results_Hash (ee_Cfg E) (ee_Wire E) (b_Results b)"

section \<open>Proposals\<close>

definition proposals_at :: "BFT \<Rightarrow> u64 \<Rightarrow> Phase \<Rightarrow> Proposal list option" where
  "proposals_at b rnd ph = (case b_Proposals b rnd of None \<Rightarrow> None | Some m \<Rightarrow> m ph)"

text \<open>\<open>proposal[0]\<close> of a list that is present and empty is a panic.\<close>

definition getProposal :: "u64 \<Rightarrow> Phase \<Rightarrow> BFT \<Rightarrow> err + Proposal option" where
  "getProposal rnd ph b =
     (case phase_before ph of
        None \<Rightarrow> Inr None
      | Some ph' \<Rightarrow>
          (case proposals_at b rnd ph' of
             None \<Rightarrow> Inr None
           | Some [] \<Rightarrow> Inl Panic
           | Some (p # _) \<Rightarrow> Inr (Some p)))"

definition GetProposal :: "BFT \<Rightarrow> err + Proposal option" where
  "GetProposal b = getProposal (cur_round b) (cur_phase b) b"

definition same_candidate :: "Message \<Rightarrow> Message \<Rightarrow> bool" where
  "same_candidate m x =
     (case (msg_Qc m, msg_Qc x) of
        (Some p, Some q) \<Rightarrow> qc_ProposerKey p = qc_ProposerKey q
      | _ \<Rightarrow> False)"

definition store_proposal :: "u64 \<Rightarrow> Phase \<Rightarrow> Proposal list \<Rightarrow> BFT \<Rightarrow> BFT" where
  "store_proposal rnd ph ps b =
     b\<lparr>b_Proposals := (b_Proposals b)(rnd \<mapsto>
       (case b_Proposals b rnd of None \<Rightarrow> [ph \<mapsto> ps] | Some m \<Rightarrow> m(ph \<mapsto> ps)))\<rparr>"

definition new_Proposal :: "Message \<Rightarrow> Proposal engine" where
  "new_Proposal m =
     (case msg_Qc m of
        None \<Rightarrow> ok \<lparr>prop_Msg = m, prop_Qc = None\<rparr>
      | Some q \<Rightarrow> bindE (alloc q) (\<lambda>r. ok \<lparr>prop_Msg = m, prop_Qc = Some r\<rparr>))"

definition AddProposal :: "Message \<Rightarrow> unit engine" where
  "AddProposal m =
     (let h = the (msg_Header m); rnd = vw_Round h; ph = vw_Phase h in
      bindE (new_Proposal m) (\<lambda>p.
        writes (\<lambda>b.
          let phaseProposal = (case proposals_at b rnd ph of None \<Rightarrow> [] | Some ps \<Rightarrow> ps) in
          if ph = ELECTION then
            (if list_ex (\<lambda>x. same_candidate m (prop_Msg x)) phaseProposal then
               b\<lparr>b_Proposals := (b_Proposals b)(rnd \<mapsto> (case b_Proposals b rnd of None \<Rightarrow> Map.empty | Some f \<Rightarrow> f))\<rparr>
             else store_proposal rnd ph (phaseProposal @ [p]) b)
          else store_proposal rnd ph [p] b)))"

definition ProposalsResetForNewCommittee :: "BFT \<Rightarrow> BFT" where
  "ProposalsResetForNewCommittee b =
     b\<lparr>b_Proposals := [0 \<mapsto> [ELECTION \<mapsto> (case proposals_at b 0 ELECTION of None \<Rightarrow> [] | Some ps \<Rightarrow> ps)]]\<rparr>"

definition AddPartialQC :: "engine_env \<Rightarrow> Message \<Rightarrow> unit engine" where
  "AddPartialQC E m =
     (case msg_Qc m of
        None \<Rightarrow> fail Panic
      | Some q \<Rightarrow> bindE (alloc q) (\<lambda>r. writes (\<lambda>b.
          b\<lparr>b_PartialQCs := AList.update (MarshalQC (ee_Codec E) q) r (b_PartialQCs b)\<rparr>)))"

definition AddPacemakerMessage :: "Message \<Rightarrow> unit engine" where
  "AddPacemakerMessage m =
     (case msg_Signature m of
        None \<Rightarrow> fail Panic
      | Some sg \<Rightarrow> writes (\<lambda>b.
          b\<lparr>b_PacemakerMessages := AList.update (sig_PublicKey sg) m (b_PacemakerMessages b)\<rparr>))"

section \<open>Votes\<close>

definition vote_key :: "engine_env \<Rightarrow> Message \<Rightarrow> QuorumCertificate \<Rightarrow> u64 \<times> Phase \<times> bytes" where
  "vote_key E vote q =
     (vw_Round (the (qc_Header q)), vw_Phase (the (qc_Header q)),
      HashOf (ee_Cfg E) (Message_SignBytes (ee_Codec E) vote))"

definition new_VoteSet :: "engine_env \<Rightarrow> ValidatorSet \<Rightarrow> Message \<Rightarrow> VoteSet" where
  "new_VoteSet E vs vote =
     \<lparr>vset_Vote = vote, TotalVotedPower = 0, vset_keys = map cv_PublicKey (vs_Members vs),
      vset_mask = NewMask (ee_Codec E) (length (vs_Members vs)), vset_signatures = Map.empty\<rparr>"

text \<open>The key under which the vote is counted; its set is created when there is none.\<close>

definition getVoteSet :: "engine_env \<Rightarrow> Message \<Rightarrow> (u64 \<times> Phase \<times> bytes) engine" where
  "getVoteSet E vote =
     (case msg_Qc vote of
        None \<Rightarrow> fail Panic
      | Some q \<Rightarrow>
          let k = vote_key E vote q in
          bindE (writes (\<lambda>b.
            if map_of (b_Votes b) k = None
            then b\<lparr>b_Votes := AList.update k (new_VoteSet E (b_ValidatorSet b) vote) (b_Votes b)\<rparr> else b)) (\<lambda>_.
          ok k))"

definition signer_enabled :: "VoteSet \<Rightarrow> nat \<Rightarrow> err + bool" where
  "signer_enabled voteSet idx =
     (case SignerEnabledAt (length (vset_keys voteSet)) (vset_mask voteSet) idx of
        Inl Panic \<Rightarrow> Inl Panic
      | Inl _ \<Rightarrow> Inl ErrInvalidValidatorIndex
      | Inr x \<Rightarrow> Inr x)"

text \<open>\<open>AddSigner\<close>: the signature is kept before the bit is set; an index past the keys is a panic.\<close>

definition AddSigner :: "engine_env \<Rightarrow> bytes \<Rightarrow> nat \<Rightarrow> VoteSet \<Rightarrow> VoteSet \<times> (err + unit)" where
  "AddSigner E signature index voteSet =
     (if length (vset_keys voteSet) \<le> index then (voteSet, Inl Panic)
      else
        let voteSet = voteSet\<lparr>vset_signatures := (vset_signatures voteSet)(index \<mapsto> signature)\<rparr> in
        case SetBit (ee_Codec E) (length (vset_keys voteSet)) (vset_mask voteSet) index of
          None \<Rightarrow> (voteSet, Inl ErrUnableToAddSigner)
        | Some bm \<Rightarrow> (voteSet\<lparr>vset_mask := bm\<rparr>, Inr ()))"

definition addSigToVoteSet :: "engine_env \<Rightarrow> Message \<Rightarrow> (u64 \<times> Phase \<times> bytes) \<Rightarrow> unit engine" where
  "addSigToVoteSet E vote k =
     (\<lambda>b. case (msg_Signature vote, map_of (b_Votes b) k) of
        (Some sg, Some voteSet) \<Rightarrow>
          (case GetValidatorAndIdx (b_ValidatorSet b) (sig_PublicKey sg) of
             Inl e \<Rightarrow> (b, Inl e)
           | Inr (val, idx) \<Rightarrow>
               (case signer_enabled voteSet idx of
                  Inl e \<Rightarrow> (b, Inl e)
                | Inr True \<Rightarrow> (b, Inl ErrDuplicateVote)
                | Inr False \<Rightarrow>
                    let voteSet = voteSet\<lparr>TotalVotedPower := TotalVotedPower voteSet + cv_VotingPower val\<rparr>;
                        (voteSet, r) = AddSigner E (sig_Signature sg) idx voteSet in
                    (b\<lparr>b_Votes := AList.update k voteSet (b_Votes b)\<rparr>, r)))
      | _ \<Rightarrow> (b, Inl Panic))"

text \<open>A locked certificate that a replica sends with its election vote.\<close>

definition handle_high_qc :: "engine_env \<Rightarrow> Controller \<Rightarrow> Message \<Rightarrow> unit engine" where
  "handle_high_qc E con vote =
     (case msg_HighQc vote of
        None \<Rightarrow> ok ()
      | Some hq \<Rightarrow>
          bindE (gets (\<lambda>b. View_Check (qc_Header hq) ((b_View b)\<lparr>vw_Phase := PRECOMMIT_VOTE\<rparr>) False)) (\<lambda>_.
          let h = the (qc_Header hq) in
          bindE (gets (\<lambda>_. con_LoadCommittee con (con_LoadRootChainId con (vw_Height h)) (vw_RootHeight h))) (\<lambda>vs.
          bindE (gets (\<lambda>b. case b_CommitteeData b of
              None \<Rightarrow> Inl Panic
            | Some d \<Rightarrow> CheckHighQC (ee_Cfg E) (Codec (ee_Wire E)) (Some hq) GlobalMaxBlockSize (b_View b)
                (LastRootHeightUpdated d) vs)) (\<lambda>_.
          bindE (reads (\<lambda>b. case b_HighQC b of None \<Rightarrow> True
              | Some r \<Rightarrow> View_Less (qc_Header (b_heap b r)) (qc_Header hq))) (\<lambda>higher.
            if \<not> higher then ok ()
            else bindE (alloc hq) (\<lambda>r. writes (\<lambda>b. b\<lparr>b_HighQC := Some r,
              b_Block := qc_Block (the (msg_Qc vote)), b_Results := qc_Results (the (msg_Qc vote)),
              b_RCBuildHeight := msg_RcBuildHeight vote\<rparr>)))))))"

definition handleHighQCVDFAndEvidence :: "engine_env \<Rightarrow> Controller \<Rightarrow> Message \<Rightarrow> unit engine" where
  "handleHighQCVDFAndEvidence E con vote =
     (if vw_Phase (the (qc_Header (the (msg_Qc vote)))) \<noteq> ELECTION_VOTE then ok ()
      else
        bindE (handle_high_qc E con vote) (\<lambda>_.
        bindE (writes (\<lambda>b. case msg_Vdf vote of
            None \<Rightarrow> b
          | Some v \<Rightarrow> if b_RunVDF b \<and> vdf_Iterations v \<noteq> 0 then b\<lparr>b_VDFCache := b_VDFCache b @ [vote]\<rparr> else b)) (\<lambda>_.
          writes (\<lambda>b. b\<lparr>b_DSE := foldl (\<lambda>e ev. fst (AddDSE E con (b_View b) e ev)) (b_DSE b)
            (msg_LastDoubleSignEvidence vote)\<rparr>))))"

definition AddVote :: "engine_env \<Rightarrow> Controller \<Rightarrow> Message \<Rightarrow> unit engine" where
  "AddVote E con vote =
     bindE (getVoteSet E vote) (\<lambda>k.
     bindE (handleHighQCVDFAndEvidence E con vote) (\<lambda>_.
       addSigToVoteSet E vote k))"

text \<open>The vote sets of the round and of the phase before the current one.\<close>

definition current_votes :: "BFT \<Rightarrow> VoteSet list" where
  "current_votes b =
     map snd (filter (\<lambda>((rnd, ph, _), _). rnd = cur_round b \<and> Some ph = phase_before (cur_phase b)) (b_Votes b))"

definition GetMajorityVote :: "engine_env \<Rightarrow> BFT \<Rightarrow> err + Message \<times> AggregateSignature" where
  "GetMajorityVote E b =
     (case find (\<lambda>v. vs_MinimumMaj23 (b_ValidatorSet b) \<le> TotalVotedPower v) (current_votes b) of
        None \<Rightarrow> Inl ErrNoMaj23
      | Some voteSet \<Rightarrow>
          (case Aggregate (ee_Codec E) (vset_keys voteSet) (vset_signatures voteSet) (vset_mask voteSet) of
             None \<Rightarrow> Inl ErrAggregateSignature
           | Some signature \<Rightarrow>
               Inr (vset_Vote voteSet, \<lparr>as_Signature = signature, as_Bitmap = vset_mask voteSet\<rparr>)))"

definition GetLeadingVote :: "BFT \<Rightarrow> Message option \<times> u64 \<times> u64" where
  "GetLeadingVote b =
     foldl (\<lambda>(m, maxVotePercent, maxVotes) voteSet.
         if maxVotes \<le> TotalVotedPower voteSet
         then (Some (vset_Vote voteSet),
           Uint64PercentageDiv (TotalVotedPower voteSet) (vs_TotalPower (b_ValidatorSet b)), TotalVotedPower voteSet)
         else (m, maxVotePercent, maxVotes))
       (None, 0, 0) (current_votes b)"

section \<open>Incoming messages\<close>

definition GetValidateMessageParams :: "engine_env \<Rightarrow> Message option \<Rightarrow> validateMessageParams engine" where
  "GetValidateMessageParams E m =
     (case m of
        None \<Rightarrow> fail ErrEmptyConsensusMessage
      | Some m \<Rightarrow>
          bindE (gets (\<lambda>_. checkSignatureBasic (msg_Signature m))) (\<lambda>_.
          bindE (gets (\<lambda>b. vs_GetValidator (b_ValidatorSet b) (sig_PublicKey (the (msg_Signature m))))) (\<lambda>_.
          bindE (reads b_Block) (\<lambda>block.
          bindE (if block \<noteq> [] then bindE (GetBlockHash E) (\<lambda>h. reads (\<lambda>b. (h, results_hash E b))) else ok ([], []))
            (\<lambda>(blockHash, resultsHash).
          gets (\<lambda>b. case b_CommitteeData b of
              None \<Rightarrow> Inl Panic
            | Some d \<Rightarrow> Inr \<lparr>vp_view = b_View b, vp_vals = b_ValidatorSet b, vp_rootHeight = vw_RootHeight (b_View b),
                vp_height = vw_Height (b_View b), vp_cHeightUpdated = LastChainHeightUpdated d,
                vp_blockHash = blockHash, vp_resultsHash = resultsHash\<rparr>))))))"

definition route_message :: "engine_env \<Rightarrow> Controller \<Rightarrow> Message \<Rightarrow> validateMessageParams \<Rightarrow> unit engine" where
  "route_message E con m p =
     (if IsReplicaMessage m \<or> IsPacemakerMessage m then
        bindE (gets (\<lambda>_. CheckReplicaMessage (ee_Cfg E) (ee_Wire E) (ee_Codec E) (Some m) p)) (\<lambda>_.
          if IsPacemakerMessage m then AddPacemakerMessage m else AddVote E con m)
      else if IsProposerMessage m then
        bindE (gets (\<lambda>_. CheckProposerMessage (ee_Cfg E) (ee_Wire E) (ee_Codec E) con m p)) (\<lambda>partialQC.
          if partialQC then AddPartialQC E m else AddProposal m)
      else fail ErrUnknownConsensusMsg)"

definition BFT_HandleMessage :: "engine_env \<Rightarrow> Controller \<Rightarrow> proto \<Rightarrow> unit engine" where
  "BFT_HandleMessage E con message =
     (case message of
        OtherMsg \<Rightarrow> fail ErrUnknownConsensusMsg
      | ConsensusMsg m \<Rightarrow>
          bindE (GetValidateMessageParams E m) (\<lambda>p. route_message E con (the m) p))"

end
