(* ===== verification/Phases.thy ===== *)
theory Phases
  imports Engine
begin

text \<open>
  The phases of a round (bft/bft.go): what each phase does when its timer expires, round interrupts, the
  pacemaker that brings a node to the round of its peers, the reset for a new height or committee, and
  the timer.  A duration is a Go \<open>time.Duration\<close>, a 64-bit number of nanoseconds that may wrap.
\<close>

section \<open>Waiting\<close>

definition waitTime :: "u64 \<Rightarrow> u64 \<Rightarrow> u64" where
  "waitTime sleepTimeMS rnd = sleepTimeMS * (2 * rnd + 1) * 1000000"

fun WaitTime :: "Timeouts \<Rightarrow> Phase \<Rightarrow> u64 \<Rightarrow> u64" where
  "WaitTime c ELECTION rnd = waitTime (ElectionTimeoutMS c) rnd"
| "WaitTime c ELECTION_VOTE rnd = waitTime (ElectionVoteTimeoutMS c) rnd"
| "WaitTime c PROPOSE rnd = waitTime (ProposeTimeoutMS c) rnd"
| "WaitTime c PROPOSE_VOTE rnd = waitTime (ProposeVoteTimeoutMS c) rnd"
| "WaitTime c PRECOMMIT rnd = waitTime (PrecommitTimeoutMS c) rnd"
| "WaitTime c PRECOMMIT_VOTE rnd = waitTime (PrecommitVoteTimeoutMS c) rnd"
| "WaitTime c COMMIT rnd = waitTime (CommitTimeoutMS c) rnd"
| "WaitTime c COMMIT_PROCESS rnd = waitTime 60000 rnd"
| "WaitTime c ROUND_INTERRUPT rnd = RoundInterruptTimeoutMS c * 1000000"
| "WaitTime c PACEMAKER rnd = 0"
| "WaitTime c UNKNOWN rnd = 0"

text \<open>\<open>Duration.Milliseconds\<close> truncates towards zero.\<close>

definition Milliseconds :: "u64 \<Rightarrow> u64" where
  "Milliseconds d = (let i = sint d in word_of_int (if i < 0 then - ((- i) div 1000000) else i div 1000000))"

definition round_phases :: "Phase list" where
  "round_phases = [ELECTION, ELECTION_VOTE, PROPOSE, PROPOSE_VOTE, PRECOMMIT, PRECOMMIT_VOTE, COMMIT]"

definition msLeftInRound :: "BFT \<Rightarrow> u64" where
  "msLeftInRound b =
     (if cur_phase b \<in> set round_phases then
        sum_list (map (\<lambda>ph. Milliseconds (WaitTime (b_Timeouts b) ph (cur_round b)))
          (dropWhile (\<lambda>ph. ph \<noteq> cur_phase b) round_phases))
      else 0)"

definition remaining_wait :: "u64 \<Rightarrow> u64 \<Rightarrow> u64" where
  "remaining_wait wt pt =
     (if 86400000000000 < sint pt then wt else if sint wt \<le> sint pt then 0 else wt - pt)"

definition SetWaitTimers :: "u64 \<Rightarrow> u64 \<Rightarrow> BFT \<Rightarrow> BFT" where
  "SetWaitTimers phaseWaitTime processTime b = b\<lparr>b_PhaseTimer := Some (remaining_wait phaseWaitTime processTime)\<rparr>"

definition SetTimerForNextPhase :: "u64 \<Rightarrow> BFT \<Rightarrow> BFT" where
  "SetTimerForNextPhase processTime b =
     (let wt = WaitTime (b_Timeouts b) (cur_phase b) (cur_round b) in
      if cur_phase b = COMMIT_PROCESS then b
      else if cur_phase b = PACEMAKER then SetWaitTimers wt processTime (set_phase ELECTION b)
      else SetWaitTimers wt processTime (set_phase (the (phase_after (cur_phase b))) b))"

section \<open>Rounds and heights\<close>

definition RefreshRootChainInfo :: "Controller \<Rightarrow> BFT \<Rightarrow> BFT" where
  "RefreshRootChainInfo con b =
     b\<lparr>b_View := (b_View b)\<lparr>vw_Height := ChainHeight con, vw_RootHeight := RootChainHeight con\<rparr>,
       b_ValidatorSet := (case con_LoadCommittee con (con_LoadRootChainId con (ChainHeight con)) (RootChainHeight con) of
          Inl _ \<Rightarrow> no_validators | Inr vs \<Rightarrow> vs),
       b_CommitteeData := (case LoadCommitteeData con of Inl _ \<Rightarrow> None | Inr d \<Rightarrow> Some d)\<rparr>"

definition NewRound :: "Controller \<Rightarrow> bool \<Rightarrow> BFT \<Rightarrow> BFT" where
  "NewRound con newHeight b =
     (let b = (if newHeight then b\<lparr>b_View := (b_View b)\<lparr>vw_Round := 0\<rparr>\<rparr>
               else b\<lparr>b_View := (b_View b)\<lparr>vw_Round := vw_Round (b_View b) + 1\<rparr>, b_DSE := NewDSE []\<rparr>) in
      (RefreshRootChainInfo con b)\<lparr>b_ProposerKey := [], b_Block := [], b_BlockHash := [], b_Results := None,
         b_SortitionData := None, b_VDFCache := []\<rparr>)"

definition NewHeight :: "Controller \<Rightarrow> bool \<Rightarrow> BFT \<Rightarrow> BFT" where
  "NewHeight con keepLocks b =
     (let b = ProposalsResetForNewCommittee (b\<lparr>b_Votes := []\<rparr>);
          b = set_phase ELECTION (NewRound con True (b\<lparr>b_PacemakerMessages := []\<rparr>)) in
      if keepLocks then b
      else b\<lparr>b_Proposals := Map.empty, b_PartialQCs := [], b_HighQC := None, b_RCBuildHeight := 0\<rparr>)"

definition reset_bft :: "Controller \<Rightarrow> bool \<Rightarrow> u64 \<Rightarrow> BFT \<Rightarrow> BFT" where
  "reset_bft con isRootChainUpdate processTime b =
     SetWaitTimers (NewHeightTimeoutMs (b_Timeouts b) * 1000000) processTime (NewHeight con isRootChainUpdate b)"

definition send_replicas :: "Message \<Rightarrow> unit engine" where
  "send_replicas m = bindE (reads (\<lambda>b. vs_Members (b_ValidatorSet b))) (\<lambda>vs. emit (SendToReplicas vs m))"

definition send_proposer :: "Message \<Rightarrow> unit engine" where
  "send_proposer m = bindE (reads b_ProposerKey) (\<lambda>k. emit (SendToProposer k m))"

definition RoundInterrupt :: "unit engine" where
  "RoundInterrupt =
     bindE (writes (\<lambda>b. set_phase ROUND_INTERRUPT
       (b\<lparr>b_Timeouts := (b_Timeouts b)\<lparr>RoundInterruptTimeoutMS := msLeftInRound b\<rparr>, b_BlockResult := None,
          b_VDFCache := []\<rparr>))) (\<lambda>_.
     bindE (emit ResetFSM) (\<lambda>_.
     bindE (reads b_View) (\<lambda>v.
       send_replicas (new_Message\<lparr>msg_Qc := Some (new_QC\<lparr>qc_Header := Some v\<rparr>)\<rparr>))))"

definition message_round :: "Message \<Rightarrow> u64" where
  "message_round m = vw_Round (the (qc_Header (the (msg_Qc m))))"

text \<open>From the highest round down, the round at which the power of its voters reaches the threshold.\<close>

fun supported_round :: "ValidatorSet \<Rightarrow> u64 \<Rightarrow> Message list \<Rightarrow> u64" where
  "supported_round vs totalVotedPower [] = 0"
| "supported_round vs totalVotedPower (vote # votes) =
     (case vs_GetValidator vs (sig_PublicKey (the (msg_Signature vote))) of
        Inl _ \<Rightarrow> supported_round vs totalVotedPower votes
      | Inr validator \<Rightarrow>
          let totalVotedPower = totalVotedPower + cv_VotingPower validator in
          if Uint64ReducePercentage (vs_MinimumMaj23 vs) 50 \<le> totalVotedPower then message_round vote
          else supported_round vs totalVotedPower votes)"

definition pacemaker_round :: "BFT \<Rightarrow> u64" where
  "pacemaker_round b =
     supported_round (b_ValidatorSet b) 0
       (sort_key (\<lambda>m. MaxUint64 - message_round m) (map snd (b_PacemakerMessages b)))"

definition Pacemaker :: "Controller \<Rightarrow> BFT \<Rightarrow> BFT" where
  "Pacemaker con b =
     (let b = NewRound con False b; r = pacemaker_round b in
      if cur_round b < r then b\<lparr>b_View := (b_View b)\<lparr>vw_Round := r\<rparr>\<rparr> else b)"

section \<open>Election\<close>

definition StartElectionPhase :: "engine_env \<Rightarrow> Controller \<Rightarrow> unit engine" where
  "StartElectionPhase E con =
     (\<lambda>b. case vs_GetValidator (b_ValidatorSet b) (b_PublicKey b) of
        Inl _ \<Rightarrow> (b, Inr ())
      | Inr selfValidator \<Rightarrow>
          (case LoadLastProposers con (vw_RootHeight (b_View b)) of
             Inl _ \<Rightarrow> (b, Inr ())
           | Inr proposers \<Rightarrow>
               let data = \<lparr>sd_LastProposerAddresses = proposers, sd_RootHeight = vw_RootHeight (b_View b),
                     sd_Height = vw_Height (b_View b), sd_Round = cur_round b,
                     sd_TotalValidators = vs_NumValidators (b_ValidatorSet b),
                     sd_TotalPower = vs_TotalPower (b_ValidatorSet b), sd_VotingPower = cv_VotingPower selfValidator\<rparr>;
                   b = b\<lparr>b_SortitionData := Some data\<rparr>;
                   (_, vrf, isCandidate) = Sortition (ee_Cfg E) (ee_Codec E) data in
               if isCandidate then
                 send_replicas (new_Message\<lparr>msg_Header := Some (b_View b), msg_Vrf := Some vrf\<rparr>) b
               else (b, Inr ())))"

definition election_candidate ::
  "engine_env \<Rightarrow> Proposal \<Rightarrow> VRFCandidate list \<Rightarrow> VRFCandidate list engine" where
  "election_candidate E p cs =
     (case msg_Vrf (prop_Msg p) of
        None \<Rightarrow> fail Panic
      | Some vrf \<Rightarrow>
          (\<lambda>b. case vs_GetValidator (b_ValidatorSet b) (sig_PublicKey vrf) of
             Inl _ \<Rightarrow> (b, Inr cs)
           | Inr v \<Rightarrow>
               (case b_SortitionData b of
                  None \<Rightarrow> (b, Inl Panic)
                | Some data \<Rightarrow>
                    let data = data\<lparr>sd_VotingPower := cv_VotingPower v\<rparr>;
                        publicKey = KeyBytes (ee_Cfg E) (cv_PublicKey v);
                        (out, isCandidate) = VerifyCandidate (ee_Cfg E) (ee_Wire E) (ee_Codec E) data (sig_Signature vrf) publicKey in
                    (b\<lparr>b_SortitionData := Some data\<rparr>,
                     Inr (if isCandidate then cs @ [\<lparr>vrf_PublicKey = publicKey, vrf_Out = out\<rparr>] else cs)))))"

definition GetElectionCandidates :: "engine_env \<Rightarrow> VRFCandidate list engine" where
  "GetElectionCandidates E =
     bindE (reads (\<lambda>b. case proposals_at b (cur_round b) ELECTION of None \<Rightarrow> [] | Some ps \<Rightarrow> ps)) (\<lambda>ps.
       fold_op (election_candidate E) ps [])"

definition StartElectionVotePhase :: "engine_env \<Rightarrow> unit engine" where
  "StartElectionVotePhase E =
     bindE (GetElectionCandidates E) (\<lambda>cs.
     bindE (gets (\<lambda>b. SelectProposerFromCandidates (ee_Cfg E) cs (b_SortitionData b) (vs_Members (b_ValidatorSet b)))) (\<lambda>k.
     bindE (writes (\<lambda>b. b\<lparr>b_ProposerKey := k, b_HighVDF := b_VDFOutput b\<rparr>)) (\<lambda>_.
     bindE (reads (\<lambda>b. new_Message\<lparr>
         msg_Qc := Some (new_QC\<lparr>qc_Header := Some (b_View b), qc_ProposerKey := b_ProposerKey b\<rparr>),
         msg_HighQc := map_option (b_heap b) (b_HighQC b), msg_LastDoubleSignEvidence := dse_Evidence (b_DSE b),
         msg_Vdf := b_HighVDF b, msg_RcBuildHeight := b_RCBuildHeight b\<rparr>)) (\<lambda>m.
     bindE (send_proposer m) (\<lambda>_.
       writes (\<lambda>b. b\<lparr>b_ProposerKey := []\<rparr>))))))"

section \<open>Locks\<close>

definition SafeNode :: "engine_env \<Rightarrow> QuorumCertificate option \<Rightarrow> QuorumCertificate option \<Rightarrow> BFT \<Rightarrow> err + unit" where
  "SafeNode E msgQc msgHighQc b =
     (case (msgQc, msgHighQc) of
        (Some q, Some hq) \<Rightarrow>
          if BlockToHash (ee_Wire E) (qc_Block q) \<noteq> qc_BlockHash hq \<and>
             Results_Hash (ee_Cfg E) (ee_Wire E) (qc_Results q) \<noteq> qc_ResultsHash hq
          then Inl ErrMismatchedProposals
          else (case b_HighQC b of
             None \<Rightarrow> Inl Panic
           | Some r \<Rightarrow>
               let lock = b_heap b r in
               if qc_BlockHash lock = qc_BlockHash hq \<and> qc_ResultsHash lock = qc_ResultsHash hq then Inr ()
               else (case (qc_Header hq, qc_Header lock) of
                  (Some h, Some l) \<Rightarrow> if vw_Round l < vw_Round h then Inr () else Inl ErrFailedSafeNodePredicate
                | _ \<Rightarrow> Inl Panic))
      | _ \<Rightarrow> Inl ErrNoSafeNodeJustification)"

definition IsProposer :: "bytes \<Rightarrow> BFT \<Rightarrow> bool" where "IsProposer publicKey b \<longleftrightarrow> publicKey = b_ProposerKey b"

definition SelfIsProposer :: "BFT \<Rightarrow> bool" where "SelfIsProposer b = IsProposer (b_PublicKey b) b"

text \<open>The sender and the certificate of a stored leader message.\<close>

definition with_message :: "Proposal \<Rightarrow> (bytes \<Rightarrow> nat \<Rightarrow> unit engine) \<Rightarrow> unit engine" where
  "with_message p f =
     (case (msg_Signature (prop_Msg p), prop_Qc p) of
        (Some sg, Some r) \<Rightarrow> f (sig_PublicKey sg) r
      | _ \<Rightarrow> fail Panic)"

definition with_proposal :: "(Proposal \<Rightarrow> unit engine) \<Rightarrow> unit engine" where
  "with_proposal f =
     bindE (gets GetProposal) (\<lambda>p. case p of None \<Rightarrow> RoundInterrupt | Some p \<Rightarrow> f p)"

text \<open>\<open>True\<close>: the leader or the proposal is not the expected one, and the round is interrupted.\<close>

definition CheckProposerAndProposal :: "engine_env \<Rightarrow> bytes \<Rightarrow> nat \<Rightarrow> bool engine" where
  "CheckProposerAndProposal E sender r =
     bindE (reads (IsProposer sender)) (\<lambda>expected.
       if \<not> expected then ok True
       else bindE (GetBlockHash E) (\<lambda>h. reads (\<lambda>b.
         h \<noteq> qc_BlockHash (b_heap b r) \<or> results_hash E b \<noteq> qc_ResultsHash (b_heap b r))))"

section \<open>Propose\<close>

definition VDFSeed :: "Controller \<Rightarrow> BFT \<Rightarrow> err + bytes" where
  "VDFSeed con b =
     (case con_LoadCertificate con (vw_Height (b_View b) - 1) of
        Inl e \<Rightarrow> Inl e
      | Inr None \<Rightarrow> Inl ErrEmptyQuorumCertificate
      | Inr (Some q) \<Rightarrow> Inr (qc_BlockHash q))"

definition bft_VerifyVDF :: "engine_env \<Rightarrow> Controller \<Rightarrow> BFT \<Rightarrow> Message \<Rightarrow> err + bool" where
  "bft_VerifyVDF E con b vote =
     (case VDFSeed con b of Inl e \<Rightarrow> Inl e | Inr seed \<Rightarrow> Inr (VerifyProof (ee_Codec E) seed (the (msg_Vdf vote))))"

definition selectHighestVDF :: "engine_env \<Rightarrow> Controller \<Rightarrow> VDF option engine" where
  "selectHighestVDF E con =
     (\<lambda>b. (b\<lparr>b_VDFCache := []\<rparr>,
        Inr (case find (\<lambda>vote. bft_VerifyVDF E con b vote = Inr True)
               (sort_key (\<lambda>vote. MaxUint64 - vdf_Iterations (the (msg_Vdf vote))) (b_VDFCache b)) of
               None \<Rightarrow> None
             | Some vote \<Rightarrow> msg_Vdf vote)))"

text \<open>A new proposal, or the locked one; \<open>False\<close> when the node failed to produce one.\<close>

definition choose_proposal :: "Controller \<Rightarrow> bool engine" where
  "choose_proposal con =
     (\<lambda>b. case b_HighQC b of
        None \<Rightarrow>
          (let ((rc, blk, res), r) = ProduceProposal con (dse_Evidence (b_DSE b)) (b_HighVDF b) in
           (b\<lparr>b_RCBuildHeight := rc, b_Block := blk, b_Results := res\<rparr>, Inr (r = Inr ())))
      | Some q \<Rightarrow> (b\<lparr>b_Block := qc_Block (b_heap b q), b_Results := qc_Results (b_heap b q)\<rparr>, Inr True))"

definition StartProposePhase :: "engine_env \<Rightarrow> Controller \<Rightarrow> unit engine" where
  "StartProposePhase E con =
     bindE (reads (GetMajorityVote E)) (\<lambda>r.
       case r of
         Inl _ \<Rightarrow> ok ()
       | Inr (vote, as) \<Rightarrow>
           bindE (selectHighestVDF E con) (\<lambda>v.
           bindE (writes (\<lambda>b. b\<lparr>b_HighVDF := v\<rparr>)) (\<lambda>_.
           bindE (choose_proposal con) (\<lambda>produced.
             if \<not> produced then ok ()
             else bindE (GetBlockHash E) (\<lambda>h.
               bindE (reads (\<lambda>b. new_Message\<lparr>
                   msg_Header := Some (b_View b),
                   msg_Qc := Some \<lparr>qc_Header = qc_Header (the (msg_Qc vote)), qc_Results = b_Results b,
                     qc_ResultsHash = results_hash E b, qc_Block = b_Block b, qc_BlockHash = h,
                     qc_ProposerKey = qc_ProposerKey (the (msg_Qc vote)), qc_Signature = Some as\<rparr>,
                   msg_HighQc := map_option (b_heap b) (b_HighQC b),
                   msg_LastDoubleSignEvidence := dse_Evidence (b_DSE b),
                   msg_RcBuildHeight := b_RCBuildHeight b\<rparr>)) send_replicas)))))"

text \<open>The vote that a replica signs: the current view and the hashes of the proposal it stored.\<close>

definition send_vote :: "engine_env \<Rightarrow> unit engine" where
  "send_vote E =
     bindE (GetBlockHash E) (\<lambda>h.
     bindE (reads (\<lambda>b. new_Message\<lparr>msg_Qc := Some (new_QC\<lparr>qc_Header := Some (b_View b), qc_BlockHash := h,
         qc_ResultsHash := results_hash E b, qc_ProposerKey := b_ProposerKey b\<rparr>)\<rparr>)) send_proposer)"

text \<open>The delay function starts on the block hash, or on the last block's without one; errors are logged.\<close>

definition RunVDF :: "Controller \<Rightarrow> bytes \<Rightarrow> unit engine" where
  "RunVDF con seed =
     (\<lambda>b. if \<not> b_RunVDF b then (b, Inr ())
       else if seed \<noteq> [] then emit (StartVDF seed) b
       else (case VDFSeed con b of Inl _ \<Rightarrow> (b, Inr ()) | Inr s \<Rightarrow> emit (StartVDF s) b))"

text \<open>The checks of a proposal before the vote: the lock, the build height, the node behind the engine.\<close>

definition proposal_error :: "engine_env \<Rightarrow> Controller \<Rightarrow> Message \<Rightarrow> QuorumCertificate \<Rightarrow> BFT \<Rightarrow> err + BlockResult" where
  "proposal_error E con m q b =
     (case (if b_HighQC b = None then Inr () else SafeNode E (Some q) (msg_HighQc m) b) of
        Inl e \<Rightarrow> Inl e
      | Inr _ \<Rightarrow>
          (case b_CommitteeData b of
             None \<Rightarrow> Inl Panic
           | Some d \<Rightarrow>
               if msg_RcBuildHeight m < LastRootHeightUpdated d then Inl ErrInvalidRCBuildHeight
               else ValidateProposal con (msg_RcBuildHeight m) q (msg_LastDoubleSignEvidence m)))"

definition StartProposeVotePhase :: "engine_env \<Rightarrow> Controller \<Rightarrow> unit engine" where
  "StartProposeVotePhase E con =
     with_proposal (\<lambda>p. with_message p (\<lambda>sender r.
       bindE (writes (\<lambda>b. b\<lparr>b_ProposerKey := sender\<rparr>)) (\<lambda>_.
       bindE (reads (\<lambda>b. proposal_error E con (prop_Msg p) (b_heap b r) b)) (\<lambda>res.
         case res of
           Inl Panic \<Rightarrow> fail Panic
         | Inl _ \<Rightarrow> RoundInterrupt
         | Inr br \<Rightarrow>
             bindE (writes (\<lambda>b. b\<lparr>b_BlockResult := Some br, b_Block := qc_Block (b_heap b r),
               b_Results := qc_Results (b_heap b r), b_DSE := NewDSE (msg_LastDoubleSignEvidence (prop_Msg p))\<rparr>)) (\<lambda>_.
             bindE (GetBlockHash E) (\<lambda>h.
             bindE (RunVDF con h) (\<lambda>_.
               send_vote E)))))))"

section \<open>Precommit and commit\<close>

text \<open>The leader message of both phases: the majority vote of the replicas, aggregated.\<close>

definition lead_phase :: "engine_env \<Rightarrow> (BFT \<Rightarrow> Message) \<Rightarrow> unit engine" where
  "lead_phase E base =
     bindE (reads SelfIsProposer) (\<lambda>self.
       if \<not> self then ok ()
       else bindE (reads (GetMajorityVote E)) (\<lambda>r.
         case r of
           Inl _ \<Rightarrow> RoundInterrupt
         | Inr (vote, as) \<Rightarrow>
             bindE (GetBlockHash E) (\<lambda>h.
             bindE (reads (\<lambda>b. (base b)\<lparr>msg_Header := Some (b_View b),
                 msg_Qc := Some (new_QC\<lparr>qc_Header := qc_Header (the (msg_Qc vote)), qc_BlockHash := h,
                   qc_ResultsHash := results_hash E b, qc_ProposerKey := b_ProposerKey b,
                   qc_Signature := Some as\<rparr>)\<rparr>)) send_replicas)))"

definition StartPrecommitPhase :: "engine_env \<Rightarrow> unit engine" where
  "StartPrecommitPhase E = lead_phase E (\<lambda>b. new_Message\<lparr>msg_RcBuildHeight := b_RCBuildHeight b\<rparr>)"

text \<open>\<open>clock d\<close> is the time in microseconds \<open>d\<close> nanoseconds from now.\<close>

definition StartCommitPhase :: "engine_env \<Rightarrow> (u64 \<Rightarrow> u64) \<Rightarrow> unit engine" where
  "StartCommitPhase E clock =
     lead_phase E (\<lambda>b. new_Message\<lparr>msg_Timestamp := clock (WaitTime (b_Timeouts b) COMMIT (cur_round b))\<rparr>)"

definition StartPrecommitVotePhase :: "engine_env \<Rightarrow> unit engine" where
  "StartPrecommitVotePhase E =
     with_proposal (\<lambda>p. with_message p (\<lambda>sender r.
       bindE (CheckProposerAndProposal E sender r) (\<lambda>interrupt.
         if interrupt then RoundInterrupt
         else
           bindE (writes (\<lambda>b. b\<lparr>b_HighQC := Some r, b_RCBuildHeight := msg_RcBuildHeight (prop_Msg p),
             b_heap := (b_heap b)(r := (b_heap b r)\<lparr>qc_Block := b_Block b, qc_Results := b_Results b\<rparr>)\<rparr>)) (\<lambda>_.
             send_vote E))))"

section \<open>Commit process\<close>

text \<open>The evidence that one partial certificate gives, and the certificates as \<open>AddDSE\<close> leaves them.\<close>

definition add_dse_at ::
  "engine_env \<Rightarrow> Controller \<Rightarrow> nat option \<Rightarrow> QuorumCertificate option \<Rightarrow> nat \<Rightarrow> DoubleSignEvidences \<Rightarrow> DoubleSignEvidences engine" where
  "add_dse_at E con ra a r dse =
     (\<lambda>b. let (dse, ev, _) = AddDSE E con (b_View b) dse (Some \<lparr>VoteA = a, VoteB = Some (b_heap b r)\<rparr>);
              put = (\<lambda>x q h. case q of None \<Rightarrow> h | Some q \<Rightarrow> h(x := q)) in
          (b\<lparr>b_heap := put r (VoteB (the ev))
              (case ra of None \<Rightarrow> b_heap b | Some x \<Rightarrow> put x (VoteA (the ev)) (b_heap b))\<rparr>, Inr dse))"

definition dse_by_partial ::
  "engine_env \<Rightarrow> Controller \<Rightarrow> nat \<Rightarrow> DoubleSignEvidences \<Rightarrow> DoubleSignEvidences engine" where
  "dse_by_partial E con r dse =
     (\<lambda>b. case qc_Header (b_heap b r) of
        None \<Rightarrow> (b, Inl Panic)
      | Some h \<Rightarrow>
          if vw_Height h = vw_Height (b_View b) then
            (case (case phase_after (vw_Phase h) of None \<Rightarrow> None | Some ph \<Rightarrow> proposals_at b (vw_Round h) ph) of
               None \<Rightarrow> (b, Inr dse)
             | Some [] \<Rightarrow> (b, Inl Panic)
             | Some (p # _) \<Rightarrow> add_dse_at E con (prop_Qc p) (map_option (b_heap b) (prop_Qc p)) r dse b)
          else if vw_Phase h \<noteq> PRECOMMIT_VOTE then (b, Inr dse)
          else (case con_LoadCertificate con (vw_Height h) of
             Inl _ \<Rightarrow> (b, Inr dse)
           | Inr certificate \<Rightarrow> add_dse_at E con None certificate r dse b))"

definition GetLocalDSE :: "engine_env \<Rightarrow> Controller \<Rightarrow> DoubleSignEvidences engine" where
  "GetLocalDSE E con =
     bindE (reads (\<lambda>b. map snd (b_PartialQCs b))) (\<lambda>rs. fold_op (dse_by_partial E con) rs (NewDSE []))"

definition hand_over :: "nat \<Rightarrow> u64 \<Rightarrow> unit engine" where
  "hand_over r timestamp =
     bindE (reads (\<lambda>b. (b_heap b r, b_PublicKey b))) (\<lambda>(q, self).
     bindE (emit (SelfSendBlock q timestamp)) (\<lambda>_. emit (GossipBlock q self timestamp)))"

definition StartCommitProcessPhase :: "engine_env \<Rightarrow> Controller \<Rightarrow> unit engine" where
  "StartCommitProcessPhase E con =
     with_proposal (\<lambda>p. with_message p (\<lambda>sender r.
       bindE (CheckProposerAndProposal E sender r) (\<lambda>interrupt.
         if interrupt then RoundInterrupt
         else
           bindE (writes (\<lambda>b. b\<lparr>b_heap :=
             (b_heap b)(r := (b_heap b r)\<lparr>qc_Block := b_Block b, qc_Results := b_Results b\<rparr>)\<rparr>)) (\<lambda>_.
           bindE (GetLocalDSE E con) (\<lambda>dse.
           bindE (writes (\<lambda>b. b\<lparr>b_DSE := dse\<rparr>)) (\<lambda>_.
             hand_over r (msg_Timestamp (prop_Msg p))))))))"

section \<open>The phase loop\<close>

definition SelfIsValidator :: "Controller \<Rightarrow> bool engine" where
  "SelfIsValidator con =
     bindE (writes (\<lambda>b. case vs_GetValidator (b_ValidatorSet b) (b_PublicKey b) of
         Inl _ \<Rightarrow> RefreshRootChainInfo con b | Inr _ \<Rightarrow> b)) (\<lambda>_.
       reads (\<lambda>b. case vs_GetValidator (b_ValidatorSet b) (b_PublicKey b) of Inl _ \<Rightarrow> False | Inr _ \<Rightarrow> True))"

definition run_phase :: "engine_env \<Rightarrow> Controller \<Rightarrow> (u64 \<Rightarrow> u64) \<Rightarrow> Phase \<Rightarrow> unit engine" where
  "run_phase E con clock ph =
     (case ph of
        ELECTION \<Rightarrow> StartElectionPhase E con
      | ELECTION_VOTE \<Rightarrow> StartElectionVotePhase E
      | PROPOSE \<Rightarrow> StartProposePhase E con
      | PROPOSE_VOTE \<Rightarrow> StartProposeVotePhase E con
      | PRECOMMIT \<Rightarrow> StartPrecommitPhase E
      | PRECOMMIT_VOTE \<Rightarrow> StartPrecommitVotePhase E
      | COMMIT \<Rightarrow> StartCommitPhase E clock
      | COMMIT_PROCESS \<Rightarrow> StartCommitProcessPhase E con
      | PACEMAKER \<Rightarrow> writes (Pacemaker con)
      | _ \<Rightarrow> ok ())"

definition HandlePhase :: "engine_env \<Rightarrow> Controller \<Rightarrow> (u64 \<Rightarrow> u64) \<Rightarrow> u64 \<Rightarrow> unit engine" where
  "HandlePhase E con clock processTime =
     (if con_Syncing con then writes (\<lambda>b. b\<lparr>b_PhaseTimer := None\<rparr>)
      else bindE (SelfIsValidator con) (\<lambda>self.
        if \<not> self then writes (\<lambda>b. b\<lparr>b_PhaseTimer := None\<rparr>)
        else bindE (reads cur_phase) (\<lambda>ph.
          bindE (run_phase E con clock ph) (\<lambda>_. writes (SetTimerForNextPhase processTime)))))"

definition PhaseHas23Maj :: "engine_env \<Rightarrow> BFT \<Rightarrow> err + bool" where
  "PhaseHas23Maj E b =
     (if cur_phase b \<in> {ELECTION_VOTE, PROPOSE_VOTE, PRECOMMIT_VOTE, COMMIT_PROCESS} then
        (case GetProposal b of Inl e \<Rightarrow> Inl e | Inr p \<Rightarrow> Inr (p \<noteq> None))
      else if cur_phase b \<in> {PROPOSE, PRECOMMIT, COMMIT} then
        Inr (case GetMajorityVote E b of Inl _ \<Rightarrow> False | Inr _ \<Rightarrow> True)
      else Inr False)"

definition Start :: "Controller \<Rightarrow> BFT \<Rightarrow> BFT" where
  "Start con b =
     b\<lparr>b_ValidatorSet := (case con_LoadCommittee con (con_LoadRootChainId con (ChainHeight con)) (RootChainHeight con) of
          Inl _ \<Rightarrow> no_validators | Inr vs \<Rightarrow> vs),
       b_CommitteeData := (case LoadCommitteeData con of Inl _ \<Rightarrow> None | Inr d \<Rightarrow> Some d)\<rparr>"

section \<open>What can happen to an engine\<close>

text \<open>A message arrives, a timer expires, or a new block resets the engine; a panic ends the process.\<close>

inductive engine_step :: "engine_env \<Rightarrow> Controller \<Rightarrow> BFT \<Rightarrow> BFT \<Rightarrow> bool" where
  message: "BFT_HandleMessage E con m b = (c, r) \<Longrightarrow> r \<noteq> Inl Panic \<Longrightarrow> engine_step E con b c"
| phase: "HandlePhase E con clock pt b = (c, Inr ()) \<Longrightarrow> engine_step E con b c"
| reset: "engine_step E con b (reset_bft con isRootChainUpdate pt b)"

end
