(* ===== verification/Locks.thy ===== *)
theory Locks
  imports Phases Uphold
begin

text \<open>
  What the consensus engine keeps, whatever messages arrive and however its timers run: stored leader
  messages, the lock and everything handed over for a commit carry a certificate with two thirds of the
  committee of its root height.  \<open>secures I m Q\<close> says that an operation keeps \<open>I\<close> on its error paths too.
\<close>

section \<open>Invariants that errors keep\<close>

named_theorems secure_rules

definition secures :: "('s \<Rightarrow> bool) \<Rightarrow> ('s, 'e, 'a) op \<Rightarrow> ('a \<Rightarrow> bool) \<Rightarrow> bool" where
  "secures I m Q \<longleftrightarrow> (\<forall>s. I s \<longrightarrow> I (fst (m s)) \<and> (\<forall>a. snd (m s) = Inr a \<longrightarrow> Q a))"

abbreviation secure :: "('s \<Rightarrow> bool) \<Rightarrow> ('s, 'e, 'a) op \<Rightarrow> bool" where
  "secure I m \<equiv> secures I m (\<lambda>_. True)"

lemma securesI: "(\<And>s. I s \<Longrightarrow> I (fst (m s)) \<and> (\<forall>a. snd (m s) = Inr a \<longrightarrow> Q a)) \<Longrightarrow> secures I m Q"
  by (simp add: secures_def)

lemma securesD: "secures I m Q \<Longrightarrow> I s \<Longrightarrow> m s = (t, r) \<Longrightarrow> I t \<and> (\<forall>a. r = Inr a \<longrightarrow> Q a)"
  by (auto simp: secures_def)

lemma secures_bindE [secure_rules]:
  assumes "secures I m Q" and "\<And>a. Q a \<Longrightarrow> secures I (f a) R"
  shows "secures I (bindE m f) R"
proof (rule securesI)
  fix s assume I: "I s"
  obtain t r where m: "m s = (t, r)" by fastforce
  note t = securesD [OF assms(1) I m]
  show "I (fst (bindE m f s)) \<and> (\<forall>a. snd (bindE m f s) = Inr a \<longrightarrow> R a)"
  proof (cases r)
    case (Inr a)
    obtain u x where "f a t = (u, x)" by fastforce
    with securesD [OF assms(2) conjunct1 [OF t] this] t m Inr show ?thesis by (simp add: bindE_def)
  qed (use t m in \<open>simp add: bindE_def\<close>)
qed

lemma secures_ok: "Q a \<Longrightarrow> secures I (ok a) Q" by (simp add: secures_def op_simps)
lemma secure_ok [secure_rules]: "secure I (ok a)" by (simp add: secures_ok)
lemma secures_fail [secure_rules]: "secures I (fail e) Q" by (simp add: secures_def op_simps)
lemma secures_reads: "(\<And>s. I s \<Longrightarrow> Q (g s)) \<Longrightarrow> secures I (reads g) Q" by (simp add: secures_def op_simps)
lemma secure_reads [secure_rules]: "secure I (reads g)" by (simp add: secures_reads)
lemma secure_gets [secure_rules]: "secure I (gets g)" by (simp add: secures_def op_simps)
lemma secure_writes [secure_rules]: "(\<And>s. I s \<Longrightarrow> I (f s)) \<Longrightarrow> secure I (writes f)" by (simp add: secures_def op_simps)

lemma secures_if [secure_rules]:
  "(b \<Longrightarrow> secures I m Q) \<Longrightarrow> (\<not> b \<Longrightarrow> secures I n Q) \<Longrightarrow> secures I (if b then m else n) Q" by simp

lemma secures_option [secure_rules]:
  "(y = None \<Longrightarrow> secures I m Q) \<Longrightarrow> (\<And>x. y = Some x \<Longrightarrow> secures I (n x) Q) \<Longrightarrow>
     secures I (case y of None \<Rightarrow> m | Some x \<Rightarrow> n x) Q" by (simp split: option.split)

lemma secures_sum [secure_rules]:
  "(\<And>x. y = Inl x \<Longrightarrow> secures I (m x) Q) \<Longrightarrow> (\<And>x. y = Inr x \<Longrightarrow> secures I (n x) Q) \<Longrightarrow>
     secures I (case y of Inl x \<Rightarrow> m x | Inr x \<Rightarrow> n x) Q" by (simp split: sum.split)

lemma secures_prod [secure_rules]:
  "(\<And>x z. y = (x, z) \<Longrightarrow> secures I (m x z) Q) \<Longrightarrow> secures I (case y of (x, z) \<Rightarrow> m x z) Q" by (simp split: prod.split)

lemma secures_fold [secure_rules]:
  "(\<And>x a. x \<in> set xs \<Longrightarrow> secure I (f x a)) \<Longrightarrow> secure I (fold_op f xs a)"
  by (induction xs arbitrary: a) (auto intro!: secure_rules)

lemma secure_frame: "frame g m \<Longrightarrow> (\<And>s t. g t = g s \<Longrightarrow> I s \<Longrightarrow> I t) \<Longrightarrow> secure I m"
  by (auto simp: secures_def frame_def)

section \<open>The part of the engine that locks and commits depend on\<close>

fun is_commit :: "effect \<Rightarrow> bool" where
  "is_commit (SelfSendBlock _ _) = True"
| "is_commit (GossipBlock _ _ _) = True"
| "is_commit _ = False"

fun committed_qc :: "effect \<Rightarrow> QuorumCertificate option" where
  "committed_qc (SelfSendBlock q _) = Some q"
| "committed_qc (GossipBlock q _ _) = Some q"
| "committed_qc _ = None"

definition locked :: "BFT \<Rightarrow> u64 \<times> ValidatorSet \<times> (u64 \<rightharpoonup> (Phase \<rightharpoonup> Proposal list)) \<times> nat option
    \<times> (nat \<Rightarrow> QuorumCertificate) \<times> nat \<times> effect list" where
  "locked b = (vw_RootHeight (b_View b), b_ValidatorSet b, b_Proposals b, b_HighQC b, b_heap b, b_next b,
     filter is_commit (b_outbox b))"

text \<open>Most operations leave the votes alone as well.\<close>

definition core where "core b = (b_Votes b, locked b)"

lemma core_emit [frame_rules]: "\<not> is_commit x \<Longrightarrow> frame core (emit x)"
  unfolding emit_def by (intro frame_rules) (simp add: core_def locked_def)

lemma core_GetBlockHash [frame_rules]: "frame core (GetBlockHash E)"
  unfolding GetBlockHash_def by (intro frame_rules) (simp add: core_def locked_def)

lemma core_send [frame_rules]: "frame core (send_replicas m)" "frame core (send_proposer m)"
  unfolding send_replicas_def send_proposer_def by (intro frame_rules; simp)+

lemma core_RoundInterrupt [frame_rules]: "frame core RoundInterrupt"
  unfolding RoundInterrupt_def by (intro frame_rules) (simp_all add: core_def locked_def set_phase_def)

lemma core_with_proposal: "(\<And>p. frame core (f p)) \<Longrightarrow> frame core (with_proposal f)"
  unfolding with_proposal_def by (intro frame_rules)

lemma core_with_message: "(\<And>s r. frame core (f s r)) \<Longrightarrow> frame core (with_message p f)"
  unfolding with_message_def by (intro frame_rules)

lemma core_CheckProposerAndProposal [frame_rules]: "frame core (CheckProposerAndProposal E s r)"
  unfolding CheckProposerAndProposal_def by (intro frame_rules)

lemma core_StartElectionPhase [frame_rules]: "frame core (StartElectionPhase E con)"
  by (rule frameI) (auto simp: StartElectionPhase_def core_def locked_def send_replicas_def emit_def op_simps Let_def
      split: sum.splits prod.splits if_splits)

lemma core_election_candidate [frame_rules]: "frame core (election_candidate E p cs)"
  by (rule frameI) (auto simp: election_candidate_def core_def locked_def op_simps Let_def split: option.splits sum.splits prod.splits)

lemma core_StartElectionVotePhase [frame_rules]: "frame core (StartElectionVotePhase E)"
  unfolding StartElectionVotePhase_def GetElectionCandidates_def
  by (intro frame_rules) (simp_all add: core_def locked_def)

lemma core_choose_proposal [frame_rules]: "frame core (choose_proposal con)"
  by (rule frameI) (auto simp: choose_proposal_def core_def locked_def Let_def split: option.splits prod.splits)

lemma core_selectHighestVDF [frame_rules]: "frame core (selectHighestVDF E con)"
  by (rule frameI) (auto simp: selectHighestVDF_def core_def locked_def)

lemma core_StartProposePhase [frame_rules]: "frame core (StartProposePhase E con)"
  unfolding StartProposePhase_def by (intro frame_rules) (simp_all add: core_def locked_def)

lemma core_send_vote [frame_rules]: "frame core (send_vote E)"
  unfolding send_vote_def by (intro frame_rules)

lemma core_RunVDF [frame_rules]: "frame core (RunVDF con h)"
  by (rule frameI) (auto simp: RunVDF_def core_def locked_def emit_def op_simps split: sum.splits if_splits)

lemma frame_verdict:
  assumes "\<And>br. frame core (m br)"
  shows "frame core (case (x :: err + BlockResult) of Inl Panic \<Rightarrow> fail Panic | Inl _ \<Rightarrow> RoundInterrupt | Inr br \<Rightarrow> m br)"
  using assms by (auto split: sum.split err.split intro: frame_rules)

lemma core_StartProposeVotePhase [frame_rules]: "frame core (StartProposeVotePhase E con)"
  unfolding StartProposeVotePhase_def
  by (intro core_with_proposal core_with_message frame_bindE frame_reads frame_writes frame_verdict
      core_GetBlockHash core_RunVDF core_send_vote) (simp_all add: core_def locked_def)

lemma core_lead_phase [frame_rules]: "frame core (lead_phase E base)"
  unfolding lead_phase_def by (intro frame_rules)

section \<open>Certified\<close>

text \<open>
  \<open>CM\<close> gives the committee of a root height, and \<open>loads\<close> says that the node behind the engine loads it.
  \<open>wired\<close>: what signers sign are the \<open>SignBytes\<close> of the certificate.
\<close>

definition loads :: "Controller \<Rightarrow> (u64 \<Rightarrow> ValidatorSet) \<Rightarrow> bool" where
  "loads con CM \<longleftrightarrow> (\<forall>chainId rootHeight vs. con_LoadCommittee con chainId rootHeight = Inr vs \<longrightarrow> vs = CM rootHeight)"

definition wired :: "engine_env \<Rightarrow> bool" where
  "wired E \<longleftrightarrow> sign_bytes (Codec (ee_Wire E)) = QuorumCertificate_SignBytes (ee_Codec E)"

text \<open>The certificate has a valid aggregate signature with two thirds of the committee of its root height.\<close>

definition certified :: "engine_env \<Rightarrow> (u64 \<Rightarrow> ValidatorSet) \<Rightarrow> QuorumCertificate \<Rightarrow> bool" where
  "certified E CM q \<longleftrightarrow>
     (\<exists>h. qc_Header q = Some h \<and>
        AggregateSignature_Check (ee_Cfg E) (qc_Signature q) (sign_bytes (Codec (ee_Wire E)) q) (CM (vw_RootHeight h)) = Inr False)"

lemma certified_payload:
  "wired E \<Longrightarrow> certified E CM (q\<lparr>qc_Block := x, qc_Results := y\<rparr>) = certified E CM q"
  by (simp add: certified_def wired_def QuorumCertificate_SignBytes_def)

lemma certified_strip: "wired E \<Longrightarrow> certified E CM (strip_qc q) = certified E CM q"
  unfolding strip_qc_def by (rule certified_payload)

definition justified_at :: "engine_env \<Rightarrow> (u64 \<Rightarrow> ValidatorSet) \<Rightarrow> BFT \<Rightarrow> nat \<Rightarrow> bool" where
  "justified_at E CM b r \<longleftrightarrow> r < b_next b \<and> certified E CM (b_heap b r)"

definition committee_ok :: "(u64 \<Rightarrow> ValidatorSet) \<Rightarrow> BFT \<Rightarrow> bool" where
  "committee_ok CM b \<longleftrightarrow> b_ValidatorSet b = no_validators \<or> b_ValidatorSet b = CM (vw_RootHeight (b_View b))"

definition proposals_ok :: "engine_env \<Rightarrow> (u64 \<Rightarrow> ValidatorSet) \<Rightarrow> BFT \<Rightarrow> bool" where
  "proposals_ok E CM b \<longleftrightarrow>
     (\<forall>rnd ph ps p. proposals_at b rnd ph = Some ps \<and> ph \<noteq> ELECTION \<and> p \<in> set ps \<longrightarrow>
        (\<exists>r. prop_Qc p = Some r \<and> justified_at E CM b r))"

definition commits_ok :: "engine_env \<Rightarrow> (u64 \<Rightarrow> ValidatorSet) \<Rightarrow> BFT \<Rightarrow> bool" where
  "commits_ok E CM b \<longleftrightarrow> (\<forall>x \<in> set (b_outbox b). \<forall>q. committed_qc x = Some q \<longrightarrow> certified E CM q)"

definition engine_ok :: "engine_env \<Rightarrow> (u64 \<Rightarrow> ValidatorSet) \<Rightarrow> BFT \<Rightarrow> bool" where
  "engine_ok E CM b \<longleftrightarrow> committee_ok CM b \<and> proposals_ok E CM b \<and>
     (\<forall>r. b_HighQC b = Some r \<longrightarrow> justified_at E CM b r) \<and> commits_ok E CM b"

lemma commits_ok_filter: "commits_ok E CM b \<longleftrightarrow> (\<forall>x \<in> set (filter is_commit (b_outbox b)). \<forall>q. committed_qc x = Some q \<longrightarrow> certified E CM q)"
proof -
  have "committed_qc x = Some q \<Longrightarrow> is_commit x" for x q by (cases x) simp_all
  then show ?thesis by (auto simp: commits_ok_def)
qed

lemma engine_ok_locked: "locked t = locked s \<Longrightarrow> engine_ok E CM s \<Longrightarrow> engine_ok E CM t"
  by (simp add: engine_ok_def committee_ok_def proposals_ok_def proposals_at_def justified_at_def commits_ok_filter locked_def)

lemma engine_ok_core: "core t = core s \<Longrightarrow> engine_ok E CM s \<Longrightarrow> engine_ok E CM t"
  by (rule engine_ok_locked) (simp_all add: core_def)

lemma secure_locked: "frame locked m \<Longrightarrow> secure (engine_ok E CM) m"
  by (erule secure_frame) (rule engine_ok_locked)

lemma secure_core [secure_rules]: "frame core m \<Longrightarrow> secure (engine_ok E CM) m"
  by (erule secure_frame) (rule engine_ok_core)

section \<open>Writes to the heap\<close>

lemma engine_ok_mono:
  assumes ok: "engine_ok E CM b" and j: "\<And>r. justified_at E CM b r \<Longrightarrow> justified_at E CM c r"
    and p: "proposals_at c = proposals_at b"
    and s: "b_HighQC c = b_HighQC b" "b_ValidatorSet c = b_ValidatorSet b" "b_View c = b_View b" "b_outbox c = b_outbox b"
  shows "engine_ok E CM c"
proof -
  have "proposals_ok E CM c"
    unfolding proposals_ok_def p using ok j unfolding engine_ok_def proposals_ok_def by blast
  moreover have "\<forall>r. b_HighQC c = Some r \<longrightarrow> justified_at E CM c r"
    using ok j unfolding engine_ok_def s by blast
  ultimately show ?thesis using ok unfolding engine_ok_def committee_ok_def commits_ok_def s by blast
qed

lemma engine_ok_heap:
  assumes "engine_ok E CM b" and "\<And>r. certified E CM (b_heap b r) \<Longrightarrow> certified E CM (h r)"
  shows "engine_ok E CM (b\<lparr>b_heap := h\<rparr>)"
  by (rule engine_ok_mono [OF assms(1)]) (auto simp: justified_at_def proposals_at_def fun_eq_iff assms(2))

lemma AddDSE_leaves: "fst (snd (AddDSE E con v e (Some ev))) = Some ev \<or> fst (snd (AddDSE E con v e (Some ev))) = Some (strip_evidence ev)"
  by (auto simp: AddDSE_def Let_def split: sum.splits)

definition ok_with :: "engine_env \<Rightarrow> (u64 \<Rightarrow> ValidatorSet) \<Rightarrow> nat \<Rightarrow> BFT \<Rightarrow> bool" where
  "ok_with E CM q b \<longleftrightarrow> engine_ok E CM b \<and> justified_at E CM b q"

lemma ok_with_heap:
  "ok_with E CM q b \<Longrightarrow> (\<And>r. certified E CM (b_heap b r) \<Longrightarrow> certified E CM (h r)) \<Longrightarrow> ok_with E CM q (b\<lparr>b_heap := h\<rparr>)"
  by (simp add: ok_with_def engine_ok_heap) (simp add: justified_at_def)

lemma add_dse_at_ok:
  assumes w: "wired E" and ok: "ok_with E CM q s" and a: "\<And>x. ra = Some x \<Longrightarrow> a = Some (b_heap s x)"
  shows "ok_with E CM q (fst (add_dse_at E con ra a r dse s))"
proof -
  obtain dse' ev er where d: "AddDSE E con (b_View s) dse (Some \<lparr>VoteA = a, VoteB = Some (b_heap s r)\<rparr>) = (dse', ev, er)"
    by (metis prod.exhaust)
  have ev: "ev = Some \<lparr>VoteA = a, VoteB = Some (b_heap s r)\<rparr> \<or>
      ev = Some (strip_evidence \<lparr>VoteA = a, VoteB = Some (b_heap s r)\<rparr>)"
    using AddDSE_leaves [of E con "b_View s" dse "\<lparr>VoteA = a, VoteB = Some (b_heap s r)\<rparr>"] by (simp add: d)
  show ?thesis
    using ev a by (auto simp: add_dse_at_def d Let_def strip_evidence_def certified_strip [OF w]
        intro!: ok_with_heap [OF ok] split: option.splits)
qed

lemma secure_dse_by_partial:
  assumes "wired E" shows "secure (ok_with E CM q) (dse_by_partial E con r dse)"
proof (rule securesI)
  fix s assume ok: "ok_with E CM q s"
  have "ok_with E CM q (fst (add_dse_at E con ra (map_option (b_heap s) ra) r dse s))" for ra
    by (rule add_dse_at_ok [OF assms ok]) simp
  moreover have "ok_with E CM q (fst (add_dse_at E con None c r dse s))" for c
    by (rule add_dse_at_ok [OF assms ok]) simp
  ultimately show "ok_with E CM q (fst (dse_by_partial E con r dse s)) \<and> (\<forall>a. snd (dse_by_partial E con r dse s) = Inr a \<longrightarrow> True)"
    using ok by (simp add: dse_by_partial_def split: option.split list.split sum.split)
qed

lemma secure_GetLocalDSE: "wired E \<Longrightarrow> secure (ok_with E CM q) (GetLocalDSE E con)"
  unfolding GetLocalDSE_def
  by (rule secures_bindE [OF secure_reads], rule secures_fold, rule secure_dse_by_partial)

section \<open>New certificates\<close>

lemma alloc_ok:
  "engine_ok E CM b \<Longrightarrow> engine_ok E CM (b\<lparr>b_heap := (b_heap b)(b_next b := q), b_next := Suc (b_next b)\<rparr>)"
  by (erule engine_ok_mono) (auto simp: justified_at_def proposals_at_def fun_eq_iff)

lemma secure_alloc [secure_rules]: "secure (engine_ok E CM) (alloc q)"
  by (rule securesI) (simp add: alloc_def alloc_ok)

lemma proposals_at_store:
  "proposals_at (store_proposal rnd ph ps b) rnd' ph' = (if rnd' = rnd \<and> ph' = ph then Some ps else proposals_at b rnd' ph')"
  by (auto simp: proposals_at_def store_proposal_def split: option.splits)

lemma engine_ok_store:
  assumes "engine_ok E CM b" and "ph \<noteq> ELECTION \<Longrightarrow> \<forall>p \<in> set ps. \<exists>r. prop_Qc p = Some r \<and> justified_at E CM b r"
  shows "engine_ok E CM (store_proposal rnd ph ps b)"
proof -
  have j: "justified_at E CM (store_proposal rnd ph ps b) r = justified_at E CM b r" for r
    by (simp add: justified_at_def store_proposal_def)
  have "proposals_ok E CM (store_proposal rnd ph ps b)"
    using assms unfolding proposals_ok_def j proposals_at_store
    by (auto simp: engine_ok_def proposals_ok_def split: if_splits)
  with assms(1) show ?thesis
    unfolding engine_ok_def j by (simp add: committee_ok_def commits_ok_def store_proposal_def)
qed

lemma AddProposal_ok:
  assumes ok: "engine_ok E CM b" and h: "msg_Header m = Some h"
    and q: "vw_Phase h \<noteq> ELECTION \<Longrightarrow> \<exists>q. msg_Qc m = Some q \<and> certified E CM q"
  shows "engine_ok E CM (fst (AddProposal m b))"
proof -
  obtain c p where np: "new_Proposal m b = (c, Inr p)" by (cases "msg_Qc m") (simp_all add: new_Proposal_def op_simps alloc_def)
  have c: "engine_ok E CM c"
    using np ok by (cases "msg_Qc m") (auto simp: new_Proposal_def op_simps alloc_def alloc_ok)
  have p: "vw_Phase h \<noteq> ELECTION \<Longrightarrow> \<exists>r. prop_Qc p = Some r \<and> justified_at E CM c r"
    using q np by (auto simp: new_Proposal_def op_simps alloc_def justified_at_def)
  have same: "engine_ok E CM (c\<lparr>b_Proposals := (b_Proposals c)(rnd \<mapsto> (case b_Proposals c rnd of None \<Rightarrow> Map.empty | Some f \<Rightarrow> f))\<rparr>)" for rnd
    by (rule engine_ok_mono [OF c]) (auto simp: justified_at_def proposals_at_def fun_eq_iff split: option.splits)
  show ?thesis
    using p by (auto simp: AddProposal_def h Let_def bindE_apply np op_simps same intro!: engine_ok_store [OF c])
qed

section \<open>Messages\<close>

lemma params_core: "frame core (GetValidateMessageParams E m)"
  unfolding GetValidateMessageParams_def by (intro frame_rules)

lemma GetValidateMessageParams_params:
  assumes "GetValidateMessageParams E m b = (c, Inr p)"
  obtains x where "m = Some x" and "vp_vals p = b_ValidatorSet c" and "vp_view p = b_View c"
    and "vp_rootHeight p = vw_RootHeight (b_View c)" and "vs_Members (b_ValidatorSet c) \<noteq> []" and "core c = core b"
proof -
  obtain x where x: "m = Some x" using assms by (cases m) (auto simp: GetValidateMessageParams_def)
  have vs: "vs_GetValidator (b_ValidatorSet b) (sig_PublicKey (the (msg_Signature x))) \<noteq> Inl ErrInvalidValidatorIndex"
    using assms by (auto simp: GetValidateMessageParams_def x bindE_Inr_iff gets_apply)
  have c: "core c = core b" by (rule frameD [OF params_core assms])
  then have "b_ValidatorSet c = b_ValidatorSet b" by (simp add: core_def locked_def)
  with vs have "vs_Members (b_ValidatorSet c) \<noteq> []"
    by (auto simp: vs_GetValidator_def GetValidatorAndIdx_def split: if_splits)
  moreover have "vp_vals p = b_ValidatorSet c \<and> vp_view p = b_View c \<and> vp_rootHeight p = vw_RootHeight (b_View c)"
    using assms by (auto simp: GetValidateMessageParams_def x bindE_Inr_iff gets_apply split: prod.splits option.splits)
  ultimately show thesis using x c that by blast
qed

lemma core_AddPacemakerMessage: "frame core (AddPacemakerMessage m)"
  unfolding AddPacemakerMessage_def by (intro frame_rules) (simp add: core_def locked_def)

lemma locked_getVoteSet: "frame locked (getVoteSet E m)"
  unfolding getVoteSet_def by (intro frame_rules) (simp add: core_def locked_def)

lemma locked_addSig: "frame locked (addSigToVoteSet E m k)"
  by (rule frameI) (auto simp: addSigToVoteSet_def core_def locked_def Let_def split: option.splits sum.splits prod.splits bool.splits)

text \<open>A lock that a replica sends is checked against its committee before the leader takes it.\<close>

lemma secures_gets: "(\<And>s a. I s \<Longrightarrow> g s = Inr a \<Longrightarrow> Q a) \<Longrightarrow> secures I (gets g) Q"
  by (simp add: secures_def op_simps)

lemma lock_new:
  assumes "certified E CM hq"
  shows "secure (engine_ok E CM) (bindE (alloc hq) (\<lambda>r. writes (\<lambda>b.
    b\<lparr>b_HighQC := Some r, b_Block := x, b_Results := y, b_RCBuildHeight := z\<rparr>)))"
proof (rule securesI)
  fix b assume "engine_ok E CM b"
  then have "engine_ok E CM (b\<lparr>b_heap := (b_heap b)(b_next b := hq), b_next := Suc (b_next b)\<rparr>)" by (rule alloc_ok)
  then show "engine_ok E CM (fst (bindE (alloc hq) (\<lambda>r. writes (\<lambda>b.
    b\<lparr>b_HighQC := Some r, b_Block := x, b_Results := y, b_RCBuildHeight := z\<rparr>)) b)) \<and>
    (\<forall>a. snd (bindE (alloc hq) (\<lambda>r. writes (\<lambda>b.
    b\<lparr>b_HighQC := Some r, b_Block := x, b_Results := y, b_RCBuildHeight := z\<rparr>)) b) = Inr a \<longrightarrow> True)"
    using assms by (simp add: op_simps alloc_def engine_ok_def committee_ok_def proposals_ok_def proposals_at_def
        commits_ok_def justified_at_def)
qed

lemma secure_high_qc:
  assumes con: "loads con CM"
  shows "secure (engine_ok E CM) (handle_high_qc E con vote)"
proof (cases "msg_HighQc vote")
  case (Some hq)
  let ?h = "the (qc_Header hq)"
  let ?Q = "\<lambda>vs. \<exists>view d. CheckHighQC (ee_Cfg E) (Codec (ee_Wire E)) (Some hq) GlobalMaxBlockSize view d vs = Inr ()"
  have c: "certified E CM hq" if "vs = CM (vw_RootHeight ?h)" "?Q vs" for vs
    using that CheckHighQC_accepts by (fastforce simp: certified_def)
  show ?thesis
    unfolding handle_high_qc_def Some option.case Let_def
  proof (rule secures_bindE [OF secure_gets], rule secures_bindE [where Q = "\<lambda>vs. vs = CM (vw_RootHeight ?h)"], goal_cases)
    case 1
    show ?case by (rule secures_gets) (use con in \<open>auto simp: loads_def\<close>)
  next
    case (2 _ vs)
    show ?case
    proof (rule secures_bindE [where Q = "\<lambda>_. ?Q vs"], goal_cases)
      case 1
      show ?case by (rule secures_gets) (auto split: option.splits)
    next
      case 2
      with \<open>vs = _\<close> c have "certified E CM hq" by blast
      then show ?case by (intro secures_bindE [OF secure_reads] secures_if secure_ok lock_new)
    qed
  qed
qed (simp add: handle_high_qc_def secure_ok)

lemma secure_writes_core: "(\<And>s. core (f s) = core s) \<Longrightarrow> secure (engine_ok E CM) (writes f)"
  by (rule secure_core, rule frame_writes)

lemma secure_AddVote:
  assumes "loads con CM" shows "secure (engine_ok E CM) (AddVote E con vote)"
proof -
  have h: "secure (engine_ok E CM) (handleHighQCVDFAndEvidence E con vote)"
    unfolding handleHighQCVDFAndEvidence_def
    by (intro secures_if secures_bindE [where Q = "\<lambda>_. True"] secure_ok secure_high_qc [OF assms] secure_writes_core)
      (simp_all add: core_def locked_def split: option.split)
  show ?thesis
    unfolding AddVote_def
    by (rule secures_bindE [OF secure_locked [OF locked_getVoteSet]], rule secures_bindE [OF h])
      (rule secure_locked [OF locked_addSig])
qed

lemma route_ok:
  assumes con: "loads con CM" and ok: "engine_ok E CM b" and p: "vp_vals p = b_ValidatorSet b"
    "vp_rootHeight p = vw_RootHeight (b_View b)" "vs_Members (b_ValidatorSet b) \<noteq> []"
  shows "engine_ok E CM (fst (route_message E con m p b))"
proof -
  have vs: "b_ValidatorSet b = CM (vw_RootHeight (b_View b))"
    using ok p(3) by (auto simp: engine_ok_def committee_ok_def no_validators_def)
  have votes: "engine_ok E CM (fst (AddVote E con m b))" "engine_ok E CM (fst (AddPacemakerMessage m b))"
    "engine_ok E CM (fst (AddPartialQC E m b))"
  proof -
    show "engine_ok E CM (fst (AddVote E con m b))"
      using secure_AddVote [OF con] ok by (auto simp: secures_def)
    show "engine_ok E CM (fst (AddPacemakerMessage m b))"
      using secure_core [OF core_AddPacemakerMessage] ok by (auto simp: secures_def)
    have "secure (engine_ok E CM) (AddPartialQC E m)"
      unfolding AddPartialQC_def
      by (intro secures_option secures_fail secures_bindE [OF secure_alloc] secure_core frame_writes) (simp add: core_def locked_def)
    with ok show "engine_ok E CM (fst (AddPartialQC E m b))" by (auto simp: secures_def)
  qed
  have leader: "engine_ok E CM (fst (AddProposal m b))"
    if c: "CheckProposerMessage (ee_Cfg E) (ee_Wire E) (ee_Codec E) con m p = Inr False"
  proof -
    have "View_Check (msg_Header m) (vp_view p) False = Inr ()"
      using c by (auto simp: CheckProposerMessage_def Message_checkBasic_def split: sum.splits)
    then obtain h where h: "msg_Header m = Some h" by (cases "msg_Header m") (auto simp: View_Check_def)
    have "\<exists>q. msg_Qc m = Some q \<and> certified E CM q" if ne: "vw_Phase h \<noteq> ELECTION"
    proof -
      obtain q h' where "msg_Qc m = Some q" "qc_Header q = Some h'" "vw_RootHeight h' = vp_rootHeight p"
        "QuorumCertificate_Check (ee_Cfg E) (Codec (ee_Wire E)) (Some q) (vp_vals p) (con_LoadMaxBlockSize con) (vp_view p) False = Inr False"
        by (rule CheckProposerMessage_justified [OF c]) (use ne h in auto)
      then show ?thesis
        using QuorumCertificate_Check_signature by (auto simp: certified_def p vs)
    qed
    with ok h show ?thesis by (rule AddProposal_ok)
  qed
  show ?thesis
    using ok votes leader
    by (auto simp: route_message_def op_simps split: sum.splits)
qed

lemma HandleMessage_ok:
  assumes "loads con CM" and "engine_ok E CM b"
  shows "engine_ok E CM (fst (BFT_HandleMessage E con m b))"
proof (cases m)
  case (ConsensusMsg x)
  obtain c r where g: "GetValidateMessageParams E x b = (c, r)" by fastforce
  have c: "engine_ok E CM c" by (rule engine_ok_core [OF frameD [OF params_core g] assms(2)])
  show ?thesis
  proof (cases r)
    case (Inr p)
    obtain y where "x = Some y" "vp_vals p = b_ValidatorSet c" "vp_rootHeight p = vw_RootHeight (b_View c)"
      "vs_Members (b_ValidatorSet c) \<noteq> []"
      by (rule GetValidateMessageParams_params [of E x b c p]) (use g Inr in auto)
    then show ?thesis
      using route_ok [OF assms(1) c] g Inr by (simp add: BFT_HandleMessage_def ConsensusMsg bindE_apply)
  qed (use c g in \<open>simp add: BFT_HandleMessage_def ConsensusMsg bindE_apply\<close>)
qed (use assms in \<open>simp add: BFT_HandleMessage_def op_simps\<close>)

section \<open>Phases\<close>

text \<open>A stored leader message of a phase after the election is justified when it is used.\<close>

lemma GetProposal_ok:
  assumes "engine_ok E CM b" and "GetProposal b = Inr (Some p)" and "phase_before (cur_phase b) \<noteq> Some ELECTION"
  shows "\<exists>r. prop_Qc p = Some r \<and> justified_at E CM b r"
proof -
  obtain ph ps where "phase_before (cur_phase b) = Some ph" "proposals_at b (cur_round b) ph = Some (p # ps)"
    using assms(2) by (auto simp: GetProposal_def getProposal_def split: option.splits list.splits)
  moreover from this assms(3) have "ph \<noteq> ELECTION" by auto
  moreover have "p \<in> set (p # ps)" by simp
  ultimately show ?thesis using assms(1) unfolding engine_ok_def proposals_ok_def by blast
qed

lemma secure_RoundInterrupt: "secure (engine_ok E CM) RoundInterrupt"
  by (rule secure_core [OF core_RoundInterrupt])

lemma with_proposal_ok:
  assumes ok: "engine_ok E CM b" and ph: "phase_before (cur_phase b) \<noteq> Some ELECTION"
    and f: "\<And>p s r. justified_at E CM b r \<Longrightarrow> engine_ok E CM (fst (f p s r b))"
  shows "engine_ok E CM (fst (with_proposal (\<lambda>p. with_message p (f p)) b))"
proof (cases "GetProposal b")
  case (Inr x)
  show ?thesis
  proof (cases x)
    case None
    then show ?thesis
      using secure_RoundInterrupt ok Inr by (auto simp: with_proposal_def op_simps secures_def)
  next
    case (Some p)
    with GetProposal_ok [OF ok _ ph, of p] Inr obtain r where "prop_Qc p = Some r" "justified_at E CM b r" by auto
    then show ?thesis
      using f ok Inr Some by (auto simp: with_proposal_def with_message_def op_simps split: option.split)
  qed
qed (use ok in \<open>simp add: with_proposal_def op_simps\<close>)

lemma justified_core: "core t = core s \<Longrightarrow> justified_at E CM t r = justified_at E CM s r"
  by (simp add: justified_at_def core_def locked_def)

text \<open>Block and results of the proposal are written through the pointer of the message.\<close>

lemma engine_ok_fill:
  assumes "wired E" and "engine_ok E CM b"
  shows "engine_ok E CM (b\<lparr>b_heap := (b_heap b)(r := (b_heap b r)\<lparr>qc_Block := x, qc_Results := y\<rparr>)\<rparr>)"
  by (rule engine_ok_heap [OF assms(2)]) (auto simp: certified_payload [OF assms(1)])

lemma PrecommitVote_ok:
  assumes w: "wired E" and ok: "engine_ok E CM b" and ph: "phase_before (cur_phase b) \<noteq> Some ELECTION"
  shows "engine_ok E CM (fst (StartPrecommitVotePhase E b))"
  unfolding StartPrecommitVotePhase_def
proof (rule with_proposal_ok [OF ok ph])
  fix p s r assume r: "justified_at E CM b r"
  obtain c x where cx: "CheckProposerAndProposal E s r b = (c, x)" by fastforce
  have cc: "core c = core b" by (rule frameD [OF core_CheckProposerAndProposal cx])
  have c: "engine_ok E CM c" "justified_at E CM c r"
    using engine_ok_core [OF cc ok] justified_core [OF cc] r by auto
  let ?d = "c\<lparr>b_HighQC := Some r, b_RCBuildHeight := msg_RcBuildHeight (prop_Msg p),
    b_heap := (b_heap c)(r := (b_heap c r)\<lparr>qc_Block := b_Block c, qc_Results := b_Results c\<rparr>)\<rparr>"
  have "engine_ok E CM (c\<lparr>b_heap := (b_heap c)(r := (b_heap c r)\<lparr>qc_Block := b_Block c, qc_Results := b_Results c\<rparr>)\<rparr>)"
    by (rule engine_ok_fill [OF w c(1)])
  then have d: "engine_ok E CM ?d"
    using c(2) by (simp add: engine_ok_def committee_ok_def proposals_ok_def proposals_at_def commits_ok_def justified_at_def
        certified_payload [OF w])
  have "engine_ok E CM (fst (send_vote E ?d))" "engine_ok E CM (fst (RoundInterrupt c))"
    using secure_core [OF core_send_vote] secure_RoundInterrupt d c by (auto simp: secures_def)
  then show "engine_ok E CM (fst (bindE (CheckProposerAndProposal E s r) (\<lambda>interrupt.
         if interrupt then RoundInterrupt
         else
           bindE (writes (\<lambda>b. b\<lparr>b_HighQC := Some r, b_RCBuildHeight := msg_RcBuildHeight (prop_Msg p),
             b_heap := (b_heap b)(r := (b_heap b r)\<lparr>qc_Block := b_Block b, qc_Results := b_Results b\<rparr>)\<rparr>)) (\<lambda>_.
             send_vote E)) b))"
    using c by (simp add: bindE_apply cx op_simps split: sum.split)
qed

lemma ok_with_core: "core t = core s \<Longrightarrow> ok_with E CM q s \<Longrightarrow> ok_with E CM q t"
  using engine_ok_core [of t s E CM] justified_core [of t s E CM q] by (simp add: ok_with_def)

lemma emit_commit_ok:
  "ok_with E CM q b \<Longrightarrow> committed_qc x = Some (b_heap b q) \<Longrightarrow> ok_with E CM q (b\<lparr>b_outbox := b_outbox b @ [x]\<rparr>)"
  by (auto simp: ok_with_def engine_ok_def committee_ok_def proposals_ok_def proposals_at_def commits_ok_def justified_at_def)

lemma hand_over_ok: "secure (ok_with E CM r) (hand_over r ts)"
proof (rule securesI)
  fix b assume ok: "ok_with E CM r b"
  have "ok_with E CM r (b\<lparr>b_outbox := b_outbox b @ [SelfSendBlock (b_heap b r) ts]\<rparr>)"
    by (rule emit_commit_ok [OF ok]) simp
  from emit_commit_ok [OF this, of "GossipBlock (b_heap b r) (b_PublicKey b) ts"]
  show "ok_with E CM r (fst (hand_over r ts b)) \<and> (\<forall>a. snd (hand_over r ts b) = Inr a \<longrightarrow> True)"
    by (simp add: hand_over_def emit_def op_simps)
qed

lemma CommitProcess_ok:
  assumes w: "wired E" and ok: "engine_ok E CM b" and ph: "phase_before (cur_phase b) \<noteq> Some ELECTION"
  shows "engine_ok E CM (fst (StartCommitProcessPhase E con b))"
  unfolding StartCommitProcessPhase_def
proof (rule with_proposal_ok [OF ok ph])
  fix p s r assume "justified_at E CM b r"
  with ok have b: "ok_with E CM r b" by (simp add: ok_with_def)
  let ?rest = "bindE (writes (\<lambda>b. b\<lparr>b_heap := (b_heap b)(r := (b_heap b r)\<lparr>qc_Block := b_Block b, qc_Results := b_Results b\<rparr>)\<rparr>))
     (\<lambda>_. bindE (GetLocalDSE E con) (\<lambda>dse. bindE (writes (b_DSE_update (\<lambda>_. dse))) (\<lambda>_. hand_over r (msg_Timestamp (prop_Msg p)))))"
  have fill: "secure (ok_with E CM r) (writes (\<lambda>b. b\<lparr>b_heap := (b_heap b)(r := (b_heap b r)\<lparr>qc_Block := b_Block b, qc_Results := b_Results b\<rparr>)\<rparr>))"
    by (rule secure_writes, erule ok_with_heap) (auto simp: certified_payload [OF w])
  have dse: "secure (ok_with E CM r) (writes (b_DSE_update (\<lambda>_. dse)))" for dse
    by (rule secure_writes, erule ok_with_core [rotated]) (simp add: core_def locked_def)
  have rest: "secure (ok_with E CM r) ?rest"
    by (rule secures_bindE [OF fill], rule secures_bindE [OF secure_GetLocalDSE [OF w]], rule secures_bindE [OF dse])
      (rule hand_over_ok)
  have ri: "secure (ok_with E CM r) RoundInterrupt"
    by (rule secure_frame [OF core_RoundInterrupt]) (rule ok_with_core)
  have chk: "secure (ok_with E CM r) (CheckProposerAndProposal E s r)"
    by (rule secure_frame [OF core_CheckProposerAndProposal]) (rule ok_with_core)
  have "secure (ok_with E CM r) (bindE (CheckProposerAndProposal E s r) (\<lambda>interrupt. if interrupt then RoundInterrupt else ?rest))"
    by (rule secures_bindE [OF chk], rule secures_if [OF ri rest])
  with b show "engine_ok E CM (fst (bindE (CheckProposerAndProposal E s r) (\<lambda>interrupt. if interrupt then RoundInterrupt else ?rest) b))"
    by (auto simp: secures_def ok_with_def)
qed

section \<open>Rounds, heights and the loop\<close>

lemma Refresh_ok:
  assumes "loads con CM" and "engine_ok E CM b"
  shows "engine_ok E CM (RefreshRootChainInfo con b)"
proof -
  have "committee_ok CM (RefreshRootChainInfo con b)"
    using assms(1) by (auto simp: committee_ok_def RefreshRootChainInfo_def loads_def split: sum.split)
  with assms(2) show ?thesis
    by (simp add: engine_ok_def proposals_ok_def proposals_at_def commits_ok_def justified_at_def RefreshRootChainInfo_def)
qed

lemma NewRound_ok:
  assumes "loads con CM" and "engine_ok E CM b"
  shows "engine_ok E CM (NewRound con newHeight b)"
proof -
  have "engine_ok E CM (if newHeight then b\<lparr>b_View := (b_View b)\<lparr>vw_Round := 0\<rparr>\<rparr>
     else b\<lparr>b_View := (b_View b)\<lparr>vw_Round := vw_Round (b_View b) + 1\<rparr>, b_DSE := NewDSE []\<rparr>)"
    by (rule engine_ok_core [OF _ assms(2)]) (simp add: core_def locked_def)
  from Refresh_ok [OF assms(1) this] show ?thesis
    unfolding NewRound_def Let_def by (rule engine_ok_core [rotated]) (simp add: core_def locked_def)
qed

lemma Pacemaker_ok: "loads con CM \<Longrightarrow> engine_ok E CM b \<Longrightarrow> engine_ok E CM (Pacemaker con b)"
  by (rule engine_ok_core [of _ "NewRound con False b"]) (simp_all add: Pacemaker_def Let_def core_def locked_def NewRound_ok)

lemma Reset_proposals_ok: "engine_ok E CM b \<Longrightarrow> engine_ok E CM (ProposalsResetForNewCommittee b)"
  by (auto simp: engine_ok_def committee_ok_def proposals_ok_def proposals_at_def commits_ok_def justified_at_def
      ProposalsResetForNewCommittee_def split: if_splits option.splits)

lemma NewHeight_ok:
  assumes "loads con CM" and "engine_ok E CM b"
  shows "engine_ok E CM (NewHeight con keepLocks b)"
proof -
  let ?b = "set_phase ELECTION (NewRound con True ((ProposalsResetForNewCommittee (b\<lparr>b_Votes := []\<rparr>))\<lparr>b_PacemakerMessages := []\<rparr>))"
  have "engine_ok E CM (ProposalsResetForNewCommittee (b\<lparr>b_Votes := []\<rparr>))"
    by (rule Reset_proposals_ok, rule engine_ok_locked [OF _ assms(2)]) (simp add: core_def locked_def)
  then have "engine_ok E CM ((ProposalsResetForNewCommittee (b\<lparr>b_Votes := []\<rparr>))\<lparr>b_PacemakerMessages := []\<rparr>)"
    by (rule engine_ok_core [rotated]) (simp add: core_def locked_def)
  from NewRound_ok [OF assms(1) this] have b: "engine_ok E CM ?b"
    by (rule engine_ok_core [rotated]) (simp add: core_def locked_def set_phase_def)
  then have "engine_ok E CM (?b\<lparr>b_Proposals := Map.empty, b_PartialQCs := [], b_HighQC := None, b_RCBuildHeight := 0\<rparr>)"
    by (simp add: engine_ok_def committee_ok_def proposals_ok_def proposals_at_def commits_ok_def justified_at_def)
  with b show ?thesis by (simp add: NewHeight_def Let_def)
qed

lemma core_timer: "core (SetWaitTimers wt pt b) = core b" "core (SetTimerForNextPhase pt b) = core b"
  by (simp_all add: core_def locked_def SetWaitTimers_def SetTimerForNextPhase_def set_phase_def Let_def)

lemma run_phase_ok:
  assumes w: "wired E" and con: "loads con CM" and ok: "engine_ok E CM b"
  shows "engine_ok E CM (fst (run_phase E con clock (cur_phase b) b))"
proof -
  have "frame core m \<Longrightarrow> engine_ok E CM (fst (m b))" for m :: "unit engine"
    using secure_core ok by (fastforce simp: secures_def)
  note f = this [OF core_StartElectionPhase] this [OF core_StartElectionVotePhase] this [OF core_StartProposePhase]
    this [OF core_StartProposeVotePhase] this [OF core_lead_phase]
  show ?thesis
    using f PrecommitVote_ok [OF w ok] CommitProcess_ok [OF w ok] Pacemaker_ok [OF con ok] ok
    by (cases "cur_phase b") (simp_all add: run_phase_def StartPrecommitPhase_def StartCommitPhase_def op_simps
        phase_before_def phases_def)
qed

lemma HandlePhase_ok:
  assumes "wired E" and con: "loads con CM" and ok: "engine_ok E CM b"
  shows "engine_ok E CM (fst (HandlePhase E con clock pt b))"
proof -
  have t: "engine_ok E CM (s\<lparr>b_PhaseTimer := x\<rparr>)" "engine_ok E CM (SetTimerForNextPhase pt s)"
    if "engine_ok E CM s" for s x
    using that engine_ok_core [of "s\<lparr>b_PhaseTimer := x\<rparr>" s] engine_ok_core [of "SetTimerForNextPhase pt s" s]
    by (simp_all add: core_timer) (simp add: core_def locked_def)
  obtain c self where v: "SelfIsValidator con b = (c, Inr self)" by (simp add: SelfIsValidator_def op_simps)
  then have c: "engine_ok E CM c"
    using Refresh_ok [OF con ok] ok by (auto simp: SelfIsValidator_def op_simps split: sum.splits)
  obtain d r where d: "run_phase E con clock (cur_phase c) c = (d, r)" by fastforce
  then have "engine_ok E CM d" using run_phase_ok [OF assms(1) con c, of clock] by simp
  with c d t ok show ?thesis
    by (simp add: HandlePhase_def op_simps v split: sum.split)
qed

lemma reset_ok: "loads con CM \<Longrightarrow> engine_ok E CM b \<Longrightarrow> engine_ok E CM (reset_bft con isRoot pt b)"
  unfolding reset_bft_def by (rule engine_ok_core [OF core_timer(1)]) (rule NewHeight_ok)

lemma step_ok:
  assumes "engine_step E con b c" and "wired E" and "loads con CM" and "engine_ok E CM b"
  shows "engine_ok E CM c"
  using assms
proof (cases rule: engine_step.cases)
  case (message m r)
  then show ?thesis using HandleMessage_ok [OF assms(3,4), of m] by simp
next
  case (phase clock pt)
  then show ?thesis using HandlePhase_ok [OF assms(2-4), of clock pt] by simp
qed (simp add: reset_ok assms)

text \<open>The engine from a new height on; what was sent before is not in the outbox.\<close>

inductive reachable :: "engine_env \<Rightarrow> (u64 \<Rightarrow> ValidatorSet) \<Rightarrow> BFT \<Rightarrow> bool" for E CM where
  start: "loads con CM \<Longrightarrow> b_outbox b = [] \<Longrightarrow> reachable E CM (reset_bft con False pt b)"
| step: "reachable E CM b \<Longrightarrow> loads con CM \<Longrightarrow> engine_step E con b c \<Longrightarrow> reachable E CM c"

lemma start_ok:
  assumes "loads con CM" and "b_outbox b = []"
  shows "engine_ok E CM (reset_bft con False pt b)"
proof -
  have "committee_ok CM (RefreshRootChainInfo con s)" for s
    using assms(1) by (auto simp: committee_ok_def RefreshRootChainInfo_def loads_def split: sum.split)
  moreover have "b_outbox (RefreshRootChainInfo con s) = b_outbox s" for s by (simp add: RefreshRootChainInfo_def)
  ultimately show ?thesis
    using assms(2)
    by (simp add: engine_ok_def committee_ok_def proposals_ok_def proposals_at_def commits_ok_def reset_bft_def
        SetWaitTimers_def NewHeight_def Let_def set_phase_def NewRound_def ProposalsResetForNewCommittee_def)
qed

lemma reachable_ok: "reachable E CM b \<Longrightarrow> wired E \<Longrightarrow> engine_ok E CM b"
  by (induction rule: reachable.induct) (auto intro: start_ok step_ok)

end
