(* ===== verification/Spec2Isabelle.thy ===== *)
theory Spec2Isabelle
  imports Chain BlockSamples Economy Rules Locks
begin

text \<open>
  A verification development for the RepuRing node: the state machine of a proof-of-stake chain with
  nested committees, sell orders and a cross-chain exchange (src/fsm), the checks of certificates,
  blocks and transactions it shares with the consensus engine (src/lib), and the part of the
  controller that turns a certified block into the next state (src/controller/block.go).

  How the program works.  A node keeps one state machine over an ordered key-value store.  A block
  comes from a peer or from the own consensus engine with a quorum certificate; the controller checks
  both, lets the state machine apply the block on top of the last committed state, compares the header
  that results with the one that was certified, and commits.  Applying a block is: begin (mint the
  subsidy, apply the results of the last certificate: reward percents, slashes, orders, exchange
  batches, checkpoints), every transaction in order, each on a database transaction that is dropped
  when it fails, and end (pay rewards, force and finish unstaking, exchange batches of the same
  chain).  The model is this program: an operation is a function from the state to a result and the
  state it leaves behind, with errors as values of \<open>err\<close> and a runtime panic as the error \<open>Panic\<close>.

  The theories, in the order of their imports, and the code they model:

  \<^item> \<open>Prelude\<close>: 64-bit words, operations and loops, frames; no code of its own.  \<open>Uphold\<close>: the
    calculus by which an operation is shown to keep an invariant.  \<open>KV\<close>: the typed view of the store,
    stated as the locale \<open>ordered_store\<close> and interpreted on sorted association lists.
  \<^item> \<open>Util\<close> (lib/util.go), \<open>Errors\<close> (lib/error.go and fsm/error.go), \<open>Params\<close> (fsm/gov_params.go),
    \<open>State\<close> (the messages of lib/.proto and the object \<open>StateMachine\<close> of fsm/state.go), \<open>ParamStore\<close>
    (the parameter getters and setters of fsm/gov.go), \<open>Checks\<close> (fsm/message_helpers.go).
  \<^item> \<open>Accounts\<close> and \<open>Pools\<close> (fsm/account.go): vesting, the account cache, pools, the supply, minting.
    The locales \<open>token_source\<close>, \<open>token_sink\<close> and \<open>transfer\<close> state what a debit and a credit promise and
    are interpreted on all four pairs of accounts and pools.
  \<^item> \<open>Committees\<close> (fsm/committee.go), \<open>Validators\<close> (fsm/validator.go and its message handlers),
    \<open>ValidatorSet\<close> (selection and threshold), \<open>Certificates\<close> (lib/consensus.go, lib/certificate.go),
    \<open>Byzantine\<close> (fsm/byzantine.go), \<open>Rewards\<close> (reward distribution), \<open>OrderBook\<close> (fsm/swap.go),
    \<open>Liquidity\<close> and \<open>Dex\<close> (fsm/dex.go, lib/dex.go).
  \<^item> \<open>Roster\<close> and \<open>World\<close>: the invariant of the whole state.  \<open>world E A n s\<close> says that every token of
    the supply is in an account, a pool or a stake, that the supply tracker has the stakes of the
    validators in every entry of \<open>E\<close>, that the addresses in use are in \<open>A\<close> (on which the hash that keys
    the account cache is injective), that points of liquidity pools, batches, orders, payouts and
    validators are well formed, and that the supply is at most \<open>n\<close>.
  \<^item> \<open>Gov\<close> (fsm/gov.go), \<open>Automatic\<close> (fsm/automatic.go), \<open>Messages\<close> (fsm/message.go), \<open>Merkle\<close>
    (lib/crypto/hash.go), \<open>Envelope\<close> (lib/tx.go), \<open>Ethereum\<close> (fsm/ethereum.go), \<open>Transactions\<close>
    (fsm/transaction.go, lib/crypto/key_batch.go), \<open>Blocks\<close> (\<open>ApplyBlock\<close> and \<open>ApplyTransactions\<close> of
    fsm/state.go, lib/block.go), \<open>Chain\<close> (controller/block.go, store/indexer.go).
  \<^item> \<open>Consensus\<close> (bft/msg.go: the messages of the consensus engine and their checks), \<open>Evidence\<close>
    (bft/evidence.go), \<open>Election\<close> (bft/election.go).  The node behind the engine is the record \<open>Controller\<close>.
  \<^item> \<open>BlockWorld\<close>, \<open>Signed\<close>: what whole blocks keep.  \<open>Samples\<close>, \<open>BlockSamples\<close>: concrete states, blocks
    and a node on which the properties are exercised.  \<open>Economy\<close>, \<open>Rules\<close> and this theory: the
    properties.

  What the lemmas show.  Every operation that moves tokens keeps the books, and says by how much the
  supply may change; each handler and each step of a block keeps \<open>world\<close>, hence so does a block and a
  chain of commits.  Failed transactions and refused blocks leave the store as it was.  Every
  transaction of a block is signed by an address its message authorizes and enters the chain once.
  Certificates have two thirds of the committee behind them, and two conflicting ones name their common
  signers.  Helpers are exact (square root, Merkle root, percentages) or invert each other (encodings).

  Correspondence.  Definitions have the names of the Go functions; a name with a type in front is the
  method of that type (\<open>QuorumCertificate_Check\<close>), a name in lower case is a part of a function that got
  its own definition (\<open>apply_one\<close>, \<open>pay_committee\<close>).  A Go map is a function or an association list in
  key order, a nil pointer is \<open>None\<close>, an unsigned integer keeps its width and wraps as in Go.  A nil
  byte slice is the empty list, as protobuf decodes it.  Where Go hands an object by reference and
  changes it, the changed record is returned.  Loops are folds over the list they run over, in its
  order, so that none needs fuel; the two that run on numbers (the Newton iteration of \<open>IntSqrt\<close>, where
  a division by zero is \<open>None\<close>, and \<open>decode_from\<close>, which ends with the bytes) are recursive with a
  termination proof.

  Parameters.  Code outside the repository is an argument: the hash, BLS and signature schemes, protobuf
  and RLP encodings (\<open>Config\<close>, \<open>codec\<close>, \<open>wire\<close>, \<open>block_io\<close>), what is read from other heights
  (\<open>archive\<close>) and from other chains (\<open>network\<close>).  What a property needs of them is a hypothesis: a hash
  of 32 bytes, or one that is never empty; \<open>keys_apart\<close>, that hashes of batch orders with different
  indices differ; that the account hash is injective on \<open>A\<close>.

  Bounds.  Numbers of the form 18446744073709551616 are two to the power 64.  A block theorem asks that
  the supply and what the block may mint stay below it (the code adds to the supply unchecked), and
  that the list of committees is shorter than that.  Protocol code that multiplies percentages is proved
  for all words; where it wraps, the property says from which value on.

  Not modelled, and why.  The phases of the consensus engine (bft/bft.go) are driven by timers and goroutines;
  its messages, evidence and leader election are here.  The store (src/store: Badger, the sparse
  Merkle tree, version pruning) is abstracted by key-value stores and a root function; the index keeps
  certificates, headers and transactions, not events or secondary keys.  Peer-to-peer networking, the
  mempool and its threads, gossip, the RPC server, the command line, genesis files, the indexer export
  and the wallet are input and output.  The optional plugin is absent, polls are statistics over memo
  fields, and the JSON forms of messages and the time and file helpers are left out.  The list of a
  node's root chain information and the building of proposals (\<open>ProduceProposal\<close>) call the modelled
  operations but add network state of their own.
\<close>

section \<open>The chain\<close>









text \<open>C5: A transaction of a block that fails leaves no trace in the store: every stored field and the slash
  tracker are as before, and either the whole object is, or its caches and pending events are dropped; the
  transaction is recorded with its error and nothing else of the results changes.\<close>

theorem failed_transaction_rolled_back:
  assumes "apply_one w arc io m ao bad (i, tx) (r, seen, base) s = (t, Inr (r', seen', base'))"
    and "abr_Failed r' \<noteq> abr_Failed r"
  shows "(\<exists>e. r' = AddFailed tx e r) \<and> with_store s t = t \<and> slashTracker t = slashTracker s \<and>
    (t = s \<or> events t = [] \<and> cache_accounts t = Map.empty \<and> cache_valParams t = None \<and>
      cache_feeParams t = None \<and> cache_rootDexBatch t = None)"
proof -
  have same: "with_store u u = u" and undone: "with_store s (rollback s u) = rollback s u" "events (rollback s u) = []" for u
    by (simp_all add: with_store_def rollback_def ResetCaches_def)
  show ?thesis
    using assms by (auto simp: apply_one_def Let_def Found_def AddResult_def same undone rollback_fields
        split: if_splits option.splits sum.splits prod.splits)
qed

theorem failed_transaction_rolled_back_witness:
  "\<exists>t. apply_one block_wire block_archive block_encoders 100 False [1 \<mapsto> ErrUnmarshal] (1, [2])
     (new_ApplyBlockResults, {}, None) block_state = (t, Inr (AddFailed [2] ErrUnmarshal new_ApplyBlockResults, {}, None)) \<and>
     with_store block_state t = t"
proof -
  note run = garbage_turn [of "[1 \<mapsto> ErrUnmarshal]" ErrUnmarshal block_archive 100 False new_ApplyBlockResults "{}" None block_state]
  have "with_store block_state block_state = block_state"
    using failed_transaction_rolled_back [OF run] by (simp add: AddFailed_def)
  with run show ?thesis by simp
qed

text \<open>C6: The results of a block account for each of its transactions: those that went in and those that failed
  are together the transactions of the block (with multiplicities), those that went in keep their order and
  have different hashes, there is one result for each with its hash, and nothing is over size.\<close>

theorem block_results_partition:
  assumes "ApplyBlock w arc io b False s = (t, Inr (header, r))"
  shows "mset (abr_Txs r) + mset (map fst (abr_Failed r)) = mset (bl_Transactions b) \<and>
    subseq (abr_Txs r) (bl_Transactions b) \<and> distinct (map (HashString (Cfg s)) (abr_Txs r)) \<and>
    map txr_TxHash (abr_Results r) = map (HashString (Cfg s)) (abr_Txs r) \<and>
    abr_Count r = length (abr_Txs r) \<and> abr_Oversized r = []"
proof -
  obtain u v evs evs' r0 h where steps: "BeginBlock arc s = (u, Inr evs)"
    "ApplyTransactions w arc io (bl_Transactions b) (AddEvent evs new_ApplyBlockResults) False u = (v, Inr r0)"
    "r = AddEvent evs' r0"
    by (rule ApplyBlock_steps [OF assms])
  have "Cfg u = Cfg s" using frameD [OF cfg_BeginBlock steps(1)] by (simp add: fixed_def)
  with ApplyTransactions_tally [OF steps(2)] show ?thesis by (auto simp: tally_def steps(3) AddEvent_def)
qed

theorem block_results_partition_witness:
  "\<exists>t h r. ApplyBlock block_wire block_archive block_encoders block False block_state = (t, Inr (h, r)) \<and>
     mset (abr_Txs r) + mset (map fst (abr_Failed r)) = {#[1], [2]#} \<and> abr_Count r = 1"
proof -
  obtain t h r where run: "ApplyBlock block_wire block_archive block_encoders block False block_state = (t, Inr (h, r))"
    "applied [([2], ErrUnmarshal)] r" using block_runs by blast
  from block_results_partition [OF run(1)] run show ?thesis by (auto simp: applied_def block_def)
qed



text \<open>C8: The header that the application of a block makes passes the header check of every peer, when the
  fields copied from the proposal do.\<close>

theorem applied_header_passes_check:
  assumes "ApplyBlock w arc io b ao s = (t, Inr (header, r))" and "bl_BlockHeader b = Some proposed"
    and "\<And>x. length (HashOf (Cfg s) x) = 32" and "\<And>s x. StateRoot io s = Inr x \<Longrightarrow> length x = 32"
    and "\<And>x. LoadBlock io (Height s - 1) = Inr (Some x) \<Longrightarrow> length (bh_Hash x) \<in> {0, 32}"
    and "length (bl_Transactions b) \<le> 2 ^ 32" and "\<And>h. length (committee_or_empty arc h t) \<le> 2 ^ 32"
    and "length (bh_ProposerAddress proposed) = 20" and "bh_Time proposed \<noteq> 0" and "NetworkID (Cfg s) \<noteq> 0"
    and "1 < Height s \<Longrightarrow> \<exists>q v. bh_LastQuorumCertificate proposed = Some q \<and> qc_Header q = Some v \<and>
      QuorumCertificate_CheckBasic c (Some q) = Inr () \<and> vw_NetworkId v = NetworkID (Cfg s) \<and> vw_ChainId v = chainId"
  shows "BlockHeader_Check io c (Cfg s) (Some header) (NetworkID (Cfg s)) chainId = Inr ()"
proof -
  obtain u v evs evs' r0 where steps:
    "ApplyTransactions w arc io (bl_Transactions b) (AddEvent evs new_ApplyBlockResults) ao u = (v, Inr r0)"
    "r = AddEvent evs' r0" "make_header arc io proposed r t = Inr header"
    by (rule ApplyBlock_steps [OF assms(1)]) (use assms(2) in auto)
  have t: "Cfg t = Cfg s" "Height t = Height s" using fixed_ApplyBlock [OF assms(1)] by (simp_all add: fixed_def)
  obtain p seen base where "tally (Cfg u) p (r0, seen, base) (bl_Transactions b)"
    using ApplyTransactions_tally [OF steps(1)] by blast
  then have "length (abr_ResultsBz r) \<le> length (bl_Transactions b)"
    by (auto simp: tally_def steps(2) AddEvent_def)
  then show ?thesis using make_header_Check [OF steps(3), unfolded t, of c chainId] assms(3-11) by force
qed

lemma committee_size:
  assumes "snd (GetCommitteeMembers c s) = Inr vs"
  shows "length (vs_Members vs) \<le> length (validators s)"
proof -
  obtain u p where u: "GetParamsVal s = (u, Inr p)" "NewValidatorSet (Cfg u)
      (map to_member (selected (MaxCommitteeSize p) (candidates c False u))) False = Inr vs"
    using assms by (auto simp: GetCommitteeMembers_def getValidatorSet_def bindE_def op_simps Let_def
        split: prod.splits sum.splits)
  have "length (selected m xs) \<le> length xs" for m xs by (simp add: selected_def Let_def)
  moreover have "length (candidates c False u) \<le> length (validators u)"
    using length_filter_le [of _ "rev (kv_values (validators u))"] by (simp add: candidates_def kv_values_def)
  moreover have "validators u = validators s"
    using u(1) by (auto simp: GetParamsVal_def split: option.splits)
  ultimately have "length (selected (MaxCommitteeSize p) (candidates c False u)) \<le> length (validators s)"
    by (metis order_trans)
  then show ?thesis using u(2) by (auto simp: NewValidatorSet_def Let_def split: if_splits)
qed

lemma few_members:
  assumes "Height s = 1" shows "length (committee_or_empty block_archive h s) \<le> 2"
proof -
  have "TimeMachine block_archive h s = Inr block_state"
    using assms by (simp add: TimeMachine_def block_archive_def Let_def)
  moreover have "length (validators block_state) = 2" by (simp add: block_state_def sample_def)
  ultimately show ?thesis
    using committee_size [of _ block_state] by (auto simp: committee_or_empty_def LoadCommittee_def split: sum.splits)
qed

theorem applied_header_passes_check_witness:
  "\<exists>t h r. ApplyBlock block_wire block_archive block_encoders first_block False block_state = (t, Inr (h, r)) \<and>
     BlockHeader_Check block_encoders (Codec block_wire) block_cfg (Some h) 1 1 = Inr ()"
proof -
  obtain t h r where run: "ApplyBlock block_wire block_archive block_encoders first_block False block_state = (t, Inr (h, r))"
    by (rule first_block_runs)
  have t: "Height t = 1" using fixed_ApplyBlock [OF run] by (simp add: fixed_def block_state_def)
  have s: "Cfg block_state = block_cfg" "NetworkID block_cfg = 1" "\<not> 1 < Height block_state"
    by (simp_all add: block_state_def block_cfg_def sample_cfg_def)
  have "BlockHeader_Check block_encoders (Codec block_wire) (Cfg block_state) (Some h) (NetworkID (Cfg block_state)) 1 = Inr ()"
  proof (rule applied_header_passes_check [OF run])
    show "bl_BlockHeader first_block = Some first_header" by (simp add: first_block_def)
    show "length (committee_or_empty block_archive h t) \<le> 2 ^ 32" for h
      using few_members [OF t] by (rule order_trans) simp
    show "length (HashOf (Cfg block_state) x) = 32" for x by (simp add: s block_cfg_def)
  qed (auto simp: s block_encoders_def LoadBlock_def block_header_def first_block_def first_header_def addr_def)
  with run show ?thesis by (auto simp: s)
qed










end
